(* ===== verification/Jrnl_Prelude.thy ===== *)
theory Jrnl_Prelude
  imports Main "HOL-Library.Word"
begin

text \<open>
  Shared vocabulary of the development: the machine integers of the target (32-bit
  \<open>size_t\<close> and \<open>uint32_t\<close>, bytes), the outcome of running a C function, the state-passing
  combinators the models are written with, C buffers, byte ranges of a disk, the
  little-endian layout of a 32-bit field, and the search for the first slot of a table.
\<close>

unbundle bit_operations_syntax

named_theorems prog_simps \<open>running the state-passing combinators\<close>
named_theorems range_simps \<open>reading and writing byte ranges\<close>
named_theorems returns_intros \<open>programs that always return\<close>
named_theorems layout_simps \<open>fixed-width encodings\<close>

section \<open>Machine integers\<close>

type_synonym byte = "8 word"
type_synonym u32 = "32 word"

lemma unat_add_no_wrap:
  fixes a b :: u32
  assumes "unat a + unat b < 2 ^ 32"
  shows "unat (a + b) = unat a + unat b"
  using assms by (simp add: unat_word_ariths)

lemma unat_mult_no_wrap:
  fixes a b :: u32
  assumes "unat a * unat b < 2 ^ 32"
  shows "unat (a * b) = unat a * unat b"
  using assms by (simp add: unat_word_ariths)

lemma unat_diff_no_wrap:
  fixes a b :: u32
  assumes "unat b \<le> unat a"
  shows "unat (a - b) = unat a - unat b"
  using assms by (simp add: unat_sub word_le_nat_alt)

lemma unat_div_u32:
  fixes a b :: u32
  shows "unat (a div b) = unat a div unat b"
  by (simp add: unat_div)

lemma unat_of_nat_u32: "n < 2 ^ 32 \<Longrightarrow> unat (of_nat n :: u32) = n"
  by (simp add: unat_of_nat)

lemma unat_lt_2_32: "unat (a :: u32) < 2 ^ 32"
  using unsigned_less [of a, where 'a = nat] by simp

text \<open>A 32-bit number is the same signed and unsigned in the lower half of the range, and negative in the upper.\<close>

lemma sint_small: "unat (a :: u32) < 2 ^ 31 \<Longrightarrow> sint a = int (unat a)"
proof -
  assume "unat a < 2 ^ 31"
  then have "int (unat a) < int (2 ^ 31)" by (simp only: of_nat_less_iff)
  then have u: "uint a < 2 ^ 31" by simp
  have "sint a = uint a"
    unfolding sint_uint by (rule signed_take_bit_int_eq_self) (use u in \<open>simp_all add: order_trans [of _ 0]\<close>)
  then show ?thesis by simp
qed

lemma negative_word_large: "sint (a :: u32) < 0 \<Longrightarrow> 2 ^ 31 \<le> unat a"
  using sint_small [of a] by (cases "unat a < 2 ^ 31") (simp_all only: not_less of_nat_less_0_iff)

section \<open>Running C functions\<close>

text \<open>
  What running a C function can come to. \<open>Ret\<close>: it returns a value. \<open>Blocked\<close>: it waits
  for a lock nobody is going to release (the models are of one task, so a lock it finds
  taken was never given back). \<open>Aborted\<close>: an \<open>assert\<close> failed. \<open>Undefined\<close>: the C text has
  no meaning there (an index out of range, a division by zero, an uninitialised pointer).
  \<open>Diverged\<close>: a loop does not end.
\<close>

datatype 'a outcome = Ret 'a | Blocked | Aborted | Undefined | Diverged

type_synonym ('s, 'a) prog = "'s \<Rightarrow> 'a outcome \<times> 's"

definition ret :: "'a \<Rightarrow> ('s, 'a) prog" where
  "ret x = (\<lambda>s. (Ret x, s))"

definition bind :: "('s, 'a) prog \<Rightarrow> ('a \<Rightarrow> ('s, 'b) prog) \<Rightarrow> ('s, 'b) prog" where
  "bind m f = (\<lambda>s. case m s of
      (Ret x, s') \<Rightarrow> f x s'
    | (Blocked, s') \<Rightarrow> (Blocked, s')
    | (Aborted, s') \<Rightarrow> (Aborted, s')
    | (Undefined, s') \<Rightarrow> (Undefined, s')
    | (Diverged, s') \<Rightarrow> (Diverged, s'))"

definition gets :: "('s \<Rightarrow> 'a) \<Rightarrow> ('s, 'a) prog" where
  "gets f = (\<lambda>s. (Ret (f s), s))"

definition modify :: "('s \<Rightarrow> 's) \<Rightarrow> ('s, unit) prog" where
  "modify f = (\<lambda>s. (Ret (), f s))"

definition undefined_behaviour :: "('s, 'a) prog" where
  "undefined_behaviour = (\<lambda>s. (Undefined, s))"

definition assert_that :: "bool \<Rightarrow> ('s, unit) prog" where
  "assert_that b = (\<lambda>s. (if b then Ret () else Aborted, s))"

lemma run_ret [prog_simps]: "ret x s = (Ret x, s)"
  by (simp add: ret_def)

lemma run_gets [prog_simps]: "gets f s = (Ret (f s), s)"
  by (simp add: gets_def)

lemma run_modify [prog_simps]: "modify f s = (Ret (), f s)"
  by (simp add: modify_def)

lemma run_undefined [prog_simps]: "undefined_behaviour s = (Undefined, s)"
  by (simp add: undefined_behaviour_def)

lemma run_assert [prog_simps]: "assert_that b s = (if b then Ret () else Aborted, s)"
  by (simp add: assert_that_def)

lemma run_bind_Ret: "m s = (Ret x, s') \<Longrightarrow> bind m f s = f x s'"
  by (simp add: bind_def)

lemma run_bind_halt:
  "m s = (Blocked, s') \<Longrightarrow> bind m f s = (Blocked, s')"
  "m s = (Aborted, s') \<Longrightarrow> bind m f s = (Aborted, s')"
  "m s = (Undefined, s') \<Longrightarrow> bind m f s = (Undefined, s')"
  "m s = (Diverged, s') \<Longrightarrow> bind m f s = (Diverged, s')"
  by (simp_all add: bind_def)

lemma run_bind_simple [prog_simps]:
  "bind (ret x) f s = f x s"
  "bind (gets g) f' s = f' (g s) s"
  "bind (modify h) k s = k () (h s)"
  "bind undefined_behaviour k' s = (Undefined, s)"
  by (simp_all add: bind_def ret_def gets_def modify_def undefined_behaviour_def)

lemma run_bind_assert [prog_simps]:
  "bind (assert_that b) f s = (if b then f () s else (Aborted, s))"
  by (simp add: bind_def assert_that_def)

lemma bind_assoc: "bind (bind m f) g = bind m (\<lambda>x. bind (f x) g)"
  by (auto simp: bind_def fun_eq_iff split: prod.splits outcome.splits)

lemma bind_RetE:
  assumes "bind m f s = (Ret y, t)"
  obtains x s' where "m s = (Ret x, s')" and "f x s' = (Ret y, t)"
  using assms by (auto simp: bind_def split: prod.splits outcome.splits)

text \<open>A program that returns a value from every state: it never waits, aborts or loops.\<close>

definition returns :: "('s, 'a) prog \<Rightarrow> bool" where
  "returns p \<longleftrightarrow> (\<forall>s. \<exists>x t. p s = (Ret x, t))"

lemma returnsI: "(\<And>s. \<exists>x t. p s = (Ret x, t)) \<Longrightarrow> returns p"
  by (simp add: returns_def)

lemma returnsE:
  assumes "returns p"
  obtains x t where "p s = (Ret x, t)"
  using assms unfolding returns_def by blast

lemma returns_bind [returns_intros]: "returns p \<Longrightarrow> (\<And>x. returns (f x)) \<Longrightarrow> returns (bind p f)"
  by (rule returnsI) (metis returnsE run_bind_Ret)

lemma returns_simple [returns_intros]: "returns (ret x)" "returns (gets g)" "returns (modify h)"
  by (auto simp: returns_def prog_simps)

lemma returns_split [returns_intros]:
  "(b \<Longrightarrow> returns p) \<Longrightarrow> (\<not> b \<Longrightarrow> returns q) \<Longrightarrow> returns (if b then p else q)"
  "(\<And>x y. r = (x, y) \<Longrightarrow> returns (f x y)) \<Longrightarrow> returns (case r of (x, y) \<Rightarrow> f x y)"
  "(\<And>x. z = Inl x \<Longrightarrow> returns (g x)) \<Longrightarrow> (\<And>y. z = Inr y \<Longrightarrow> returns (h y)) \<Longrightarrow>
   returns (case z of Inl x \<Rightarrow> g x | Inr y \<Rightarrow> h y)"
  by (auto split: prod.splits sum.splits)

section \<open>C buffers\<close>

text \<open>
  A pointer to bytes is what memory holds from it on: \<open>p i\<close> is the byte at offset \<open>i\<close>.
  The type has no length, as C has none: what lies beyond the object is whatever is there.
\<close>

type_synonym cbuf = "nat \<Rightarrow> byte"

definition buf_bytes :: "cbuf \<Rightarrow> nat \<Rightarrow> byte list" where
  "buf_bytes p n = map p [0..<n]"

definition buf_of :: "byte list \<Rightarrow> cbuf \<Rightarrow> cbuf" where
  "buf_of bs beyond = (\<lambda>i. if i < length bs then bs ! i else beyond (i - length bs))"

lemma length_buf_bytes [simp]: "length (buf_bytes p n) = n"
  by (simp add: buf_bytes_def)

lemma nth_buf_bytes [simp]: "i < n \<Longrightarrow> buf_bytes p n ! i = p i"
  by (simp add: buf_bytes_def)

lemma buf_bytes_0 [simp]: "buf_bytes p 0 = []"
  by (simp add: buf_bytes_def)

lemma buf_bytes_const [simp]: "buf_bytes (\<lambda>_. b) n = replicate n b"
  by (simp add: buf_bytes_def map_replicate_const)

lemma take_buf_bytes [simp]: "m \<le> n \<Longrightarrow> take m (buf_bytes p n) = buf_bytes p m"
  by (simp add: buf_bytes_def take_map)

lemma buf_bytes_exact [simp]: "n = length bs \<Longrightarrow> buf_bytes (buf_of bs q) n = bs"
  by (auto simp: buf_of_def intro: nth_equalityI)

lemma buf_bytes_prefix: "length bs \<le> n \<Longrightarrow> take (length bs) (buf_bytes (buf_of bs q) n) = bs"
  by simp

lemma buf_bytes_beyond:
  "length bs \<le> n \<Longrightarrow> buf_bytes (buf_of bs q) n = bs @ buf_bytes q (n - length bs)"
  by (auto simp: buf_of_def nth_append intro: nth_equalityI)

section \<open>Byte ranges of a disk\<close>

text \<open>The contents of a disk, seen by byte address.\<close>

type_synonym image = "nat \<Rightarrow> byte"

definition get_bytes :: "image \<Rightarrow> nat \<Rightarrow> nat \<Rightarrow> byte list" where
  "get_bytes c a n = map c [a..<a + n]"

definition put_bytes :: "image \<Rightarrow> nat \<Rightarrow> byte list \<Rightarrow> image" where
  "put_bytes c a bs = (\<lambda>i. if a \<le> i \<and> i < a + length bs then bs ! (i - a) else c i)"

definition fill_bytes :: "image \<Rightarrow> nat \<Rightarrow> nat \<Rightarrow> byte \<Rightarrow> image" where
  "fill_bytes c a n b = put_bytes c a (replicate n b)"

definition same_outside :: "image \<Rightarrow> image \<Rightarrow> nat \<Rightarrow> nat \<Rightarrow> bool" where
  "same_outside c c' a n \<longleftrightarrow> (\<forall>i. \<not> (a \<le> i \<and> i < a + n) \<longrightarrow> c' i = c i)"

lemma length_get_bytes [simp]: "length (get_bytes c a n) = n"
  by (simp add: get_bytes_def)

lemma nth_get_bytes [simp]: "i < n \<Longrightarrow> get_bytes c a n ! i = c (a + i)"
  by (simp add: get_bytes_def)

lemma get_bytes_eqI:
  assumes "length bs = n" and "\<And>i. i < n \<Longrightarrow> c (a + i) = bs ! i"
  shows "get_bytes c a n = bs"
  using assms by (auto intro: nth_equalityI)

lemma get_bytes_cong:
  assumes "\<And>i. a \<le> i \<Longrightarrow> i < a + n \<Longrightarrow> c' i = c i"
  shows "get_bytes c' a n = get_bytes c a n"
  using assms by (auto simp: get_bytes_def)

lemma get_put_same [range_simps]: "n = length bs \<Longrightarrow> get_bytes (put_bytes c a bs) a n = bs"
  by (rule get_bytes_eqI) (auto simp: put_bytes_def)

lemma get_put_disjoint [range_simps]:
  "a + n \<le> b \<or> b + length bs \<le> a \<Longrightarrow> get_bytes (put_bytes c b bs) a n = get_bytes c a n"
  by (rule get_bytes_cong) (auto simp: put_bytes_def)

lemma get_bytes_split: "get_bytes c a (m + n) = get_bytes c a m @ get_bytes c (a + m) n"
  by (rule nth_equalityI) (auto simp: nth_append)

lemma take_get_bytes [simp]: "m \<le> n \<Longrightarrow> take m (get_bytes c a n) = get_bytes c a m"
  by (rule nth_equalityI) auto

lemma take_drop_get_bytes: "a + n \<le> m \<Longrightarrow> take n (drop a (get_bytes c b m)) = get_bytes c (b + a) n"
  by (rule nth_equalityI) (auto simp: add.assoc)

lemma put_put_same: "length bs = length bs' \<Longrightarrow> put_bytes (put_bytes c a bs) a bs' = put_bytes c a bs'"
  by (auto simp: put_bytes_def fun_eq_iff)

lemma put_put_adjacent:
  "put_bytes (put_bytes c a bs) (a + length bs) bs' = put_bytes c a (bs @ bs')"
  by (auto simp: put_bytes_def fun_eq_iff nth_append)

lemma put_bytes_Nil [simp]: "put_bytes c a [] = c"
  by (auto simp: put_bytes_def fun_eq_iff)

lemma put_fill_same [range_simps]:
  "length bs = n \<Longrightarrow> put_bytes (fill_bytes c a n b) a bs = put_bytes c a bs"
  by (simp add: fill_bytes_def put_put_same)

lemma put_bytes_outside [range_simps]: "i < a \<or> a + length bs \<le> i \<Longrightarrow> put_bytes c a bs i = c i"
  by (auto simp: put_bytes_def)

lemma put_bytes_inside [range_simps]: "a \<le> i \<Longrightarrow> i < a + length bs \<Longrightarrow> put_bytes c a bs i = bs ! (i - a)"
  by (simp add: put_bytes_def)

lemma fill_bytes_inside [range_simps]: "a \<le> i \<Longrightarrow> i < a + n \<Longrightarrow> fill_bytes c a n b i = b"
  by (simp add: fill_bytes_def put_bytes_def)

lemma fill_bytes_outside [range_simps]: "i < a \<or> a + n \<le> i \<Longrightarrow> fill_bytes c a n b i = c i"
  by (auto simp: fill_bytes_def put_bytes_def)

lemma same_outside_refl [simp, intro]: "same_outside c c a n"
  by (simp add: same_outside_def)

lemma same_outside_put: "length bs \<le> n \<Longrightarrow> same_outside c (put_bytes c a bs) a n"
  by (auto simp: same_outside_def put_bytes_def)

lemma same_outside_fill: "same_outside c (fill_bytes c a n b) a n"
  by (simp add: fill_bytes_def same_outside_put)

lemma same_outside_trans:
  "same_outside c c' a n \<Longrightarrow> same_outside c' c'' a n \<Longrightarrow> same_outside c c'' a n"
  by (auto simp: same_outside_def)

lemma same_outside_widen:
  assumes "same_outside c c' a n" and "b \<le> a" and "a + n \<le> b + m"
  shows "same_outside c c' b m"
  using assms by (force simp: same_outside_def)

lemma same_outside_get:
  "same_outside c c' a n \<Longrightarrow> b + m \<le> a \<or> a + n \<le> b \<Longrightarrow> get_bytes c' b m = get_bytes c b m"
  by (rule get_bytes_cong) (auto simp: same_outside_def)

lemma same_outside_at: "same_outside c c' a n \<Longrightarrow> i < a \<or> a + n \<le> i \<Longrightarrow> c' i = c i"
  by (auto simp: same_outside_def)

section \<open>Little-endian 32-bit fields\<close>

definition u32_le :: "u32 \<Rightarrow> byte list" where
  "u32_le w = [ucast w, ucast (drop_bit 8 w), ucast (drop_bit 16 w), ucast (drop_bit 24 w)]"

definition le_u32 :: "byte list \<Rightarrow> u32" where
  "le_u32 bs = ucast (bs ! 0) OR push_bit 8 (ucast (bs ! 1)) OR
               push_bit 16 (ucast (bs ! 2)) OR push_bit 24 (ucast (bs ! 3))"

lemma length_u32_le [simp, layout_simps]: "length (u32_le w) = 4"
  by (simp add: u32_le_def)

lemma bytes_of_u32:
  "ucast (ucast w :: byte) OR push_bit 8 (ucast (ucast (drop_bit 8 w) :: byte)) OR
   push_bit 16 (ucast (ucast (drop_bit 16 w) :: byte)) OR
   push_bit 24 (ucast (ucast (drop_bit 24 w) :: byte)) = (w :: u32)"
  (is "?l = w")
proof (rule bit_word_eqI)
  fix n assume "n < LENGTH(32)"
  then consider "n < 8" | "8 \<le> n" "n < 16" | "16 \<le> n" "n < 24" | "24 \<le> n" "n < 32"
    by fastforce
  then show "bit ?l n \<longleftrightarrow> bit w n"
    by cases (simp_all add: bit_or_iff bit_push_bit_iff bit_drop_bit_eq bit_ucast_iff, linarith+)
qed

lemma le_u32_u32_le [simp, layout_simps]: "le_u32 (u32_le w @ rest) = w"
  by (simp add: le_u32_def u32_le_def bytes_of_u32)

lemma le_u32_constant: "4 \<le> length bs \<Longrightarrow> \<forall>i < 4. bs ! i = b \<Longrightarrow>
    le_u32 bs = ucast b OR push_bit 8 (ucast b) OR push_bit 16 (ucast b) OR push_bit 24 (ucast b)"
  by (simp add: le_u32_def)

section \<open>The first slot of a table\<close>

text \<open>
  Every table of the component (journal instances, FAT contexts, drive bindings, open
  files) is searched from index 0 for the first entry with some property.
\<close>

fun first_index :: "('a \<Rightarrow> bool) \<Rightarrow> 'a list \<Rightarrow> nat option" where
  "first_index P [] = None"
| "first_index P (x # xs) = (if P x then Some 0 else map_option Suc (first_index P xs))"

lemma first_index_Some:
  "first_index P xs = Some i \<longleftrightarrow> i < length xs \<and> P (xs ! i) \<and> (\<forall>j < i. \<not> P (xs ! j))"
proof (induction xs arbitrary: i)
  case (Cons x xs)
  show ?case
  proof (cases i)
    case 0
    then show ?thesis by auto
  next
    case (Suc k)
    then show ?thesis using Cons.IH [of k] by (auto simp: nth_Cons split: nat.splits)
  qed
qed simp

lemma first_index_None: "first_index P xs = None \<longleftrightarrow> (\<forall>x \<in> set xs. \<not> P x)"
  by (induction xs) auto

text \<open>An entry with the property, stored where no other has it, is the one that is found.\<close>

lemma first_index_update:
  assumes "i < length xs" and "P y" and "\<forall>x \<in> set xs. \<not> P x"
  shows "first_index P (xs[i := y]) = Some i"
  unfolding first_index_Some using assms by (auto simp: nth_list_update)

end
