(* ===== verification/Jrnl_Types.thy ===== *)
theory Jrnl_Types
  imports Jrnl_Prelude
begin

text \<open>
  The data of the journaling core, field by field as \<open>include/esp_jrnl.h\<close> and
  \<open>private_include/esp_jrnl_internal.h\<close> declare it, and the byte layout the persistent
  records have on disk (every field is 32 bits wide on the target, little-endian, without
  padding). The lemmas are the round trips of that layout.
\<close>

section \<open>Error codes\<close>

text \<open>
  \<open>esp_err_t\<close>: the codes the component itself returns, and \<open>ESP_ERR_DRIVER n\<close> for any code
  a driver below it returns.
\<close>

datatype esp_err_t =
    ESP_OK
  | ESP_FAIL
  | ESP_ERR_NO_MEM
  | ESP_ERR_INVALID_ARG
  | ESP_ERR_INVALID_STATE
  | ESP_ERR_INVALID_SIZE
  | ESP_ERR_NOT_FOUND
  | ESP_ERR_NOT_SUPPORTED
  | ESP_ERR_INVALID_CRC
  | ESP_ERR_DRIVER int

section \<open>Configuration and runtime records\<close>

text \<open>\<open>esp_jrnl_handle_t\<close> is a signed index; it is only compared and used to index.\<close>

type_synonym esp_jrnl_handle_t = int

definition JRNL_INVALID_HANDLE :: esp_jrnl_handle_t where
  "JRNL_INVALID_HANDLE = -1"

definition JRNL_MAX_HANDLES :: nat where
  "JRNL_MAX_HANDLES = 8"

definition JRNL_MIN_STORE_SIZE :: u32 where
  "JRNL_MIN_STORE_SIZE = 3"

definition JRNL_STORE_MARKER :: u32 where
  "JRNL_STORE_MARKER = 0x6A6B6C6D"

record esp_jrnl_config_t =
  overwrite_existing :: bool
  replay_journal_after_mount :: bool
  force_fs_format :: bool
  cfg_store_size_sectors :: u32

definition ESP_JRNL_DEFAULT_CONFIG :: esp_jrnl_config_t where
  "ESP_JRNL_DEFAULT_CONFIG =
     \<lparr> overwrite_existing = False, replay_journal_after_mount = True,
       force_fs_format = False, cfg_store_size_sectors = 32 \<rparr>"

text \<open>
  The disk below the journal is reached through three function pointers. They belong to the
  wear-levelling component or to a card driver, so they are parameters: functions on the
  state \<open>'d\<close> of the devices. \<open>disk_read\<close> also yields what it left in the destination buffer.
\<close>

record 'd esp_jrnl_diskio_t =
  diskio_ctrl_handle :: int
  disk_read :: "int \<Rightarrow> u32 \<Rightarrow> u32 \<Rightarrow> 'd \<Rightarrow> (esp_err_t \<times> byte list) \<times> 'd"
  disk_write :: "int \<Rightarrow> u32 \<Rightarrow> cbuf \<Rightarrow> u32 \<Rightarrow> 'd \<Rightarrow> esp_err_t \<times> 'd"
  disk_erase_range :: "int \<Rightarrow> u32 \<Rightarrow> u32 \<Rightarrow> 'd \<Rightarrow> esp_err_t \<times> 'd"

record esp_jrnl_volume_t =
  volume_size :: u32
  disk_sector_size :: u32

record 'd esp_jrnl_config_extended_t =
  user_cfg :: esp_jrnl_config_t
  cfg_fs_volume_id :: byte
  volume_cfg :: esp_jrnl_volume_t
  diskio_cfg :: "'d esp_jrnl_diskio_t"

text \<open>
  The transaction status is a C enumeration stored in 32 bits. A record read from disk may
  hold any number; \<open>ESP_JRNL_STATUS_OTHER n\<close> is one that names no enumerator.
\<close>

datatype esp_jrnl_trans_status_t =
    ESP_JRNL_STATUS_FS_INIT
  | ESP_JRNL_STATUS_TRANS_READY
  | ESP_JRNL_STATUS_TRANS_OPEN
  | ESP_JRNL_STATUS_TRANS_COMMIT
  | ESP_JRNL_STATUS_OTHER u32

abbreviation ESP_JRNL_STATUS_FS_DIRECT :: esp_jrnl_trans_status_t where
  "ESP_JRNL_STATUS_FS_DIRECT \<equiv> ESP_JRNL_STATUS_FS_INIT"

record esp_jrnl_oper_header_t =
  target_sector :: u32
  sector_count :: u32
  crc32_data :: u32

record esp_jrnl_operation_t =
  oper_header :: esp_jrnl_oper_header_t
  crc32_header :: u32

record esp_jrnl_master_t =
  jrnl_magic_mark :: u32
  store_size_sectors :: u32
  store_volume_offset_sector :: u32
  next_free_sector :: u32
  status :: esp_jrnl_trans_status_t
  volume :: esp_jrnl_volume_t

record 'd esp_jrnl_instance_t =
  trans_lock :: bool
  fs_volume_id :: byte
  diskio :: "'d esp_jrnl_diskio_t"
  master :: esp_jrnl_master_t

section \<open>Names of the states\<close>

definition jrnl_status_to_str :: "esp_jrnl_trans_status_t \<Rightarrow> string" where
  "jrnl_status_to_str st = (case st of
      ESP_JRNL_STATUS_FS_INIT \<Rightarrow> ''Initialize/FS-direct''
    | ESP_JRNL_STATUS_TRANS_READY \<Rightarrow> ''Ready''
    | ESP_JRNL_STATUS_TRANS_OPEN \<Rightarrow> ''Open''
    | ESP_JRNL_STATUS_TRANS_COMMIT \<Rightarrow> ''Commit''
    | ESP_JRNL_STATUS_OTHER n \<Rightarrow> ''Unknown'')"

section \<open>Byte layout of the persistent records\<close>

definition status_code :: "esp_jrnl_trans_status_t \<Rightarrow> u32" where
  "status_code st = (case st of
      ESP_JRNL_STATUS_FS_INIT \<Rightarrow> 0
    | ESP_JRNL_STATUS_TRANS_READY \<Rightarrow> 1
    | ESP_JRNL_STATUS_TRANS_OPEN \<Rightarrow> 2
    | ESP_JRNL_STATUS_TRANS_COMMIT \<Rightarrow> 3
    | ESP_JRNL_STATUS_OTHER n \<Rightarrow> n)"

definition status_of_code :: "u32 \<Rightarrow> esp_jrnl_trans_status_t" where
  "status_of_code n =
     (if n = 0 then ESP_JRNL_STATUS_FS_INIT
      else if n = 1 then ESP_JRNL_STATUS_TRANS_READY
      else if n = 2 then ESP_JRNL_STATUS_TRANS_OPEN
      else if n = 3 then ESP_JRNL_STATUS_TRANS_COMMIT
      else ESP_JRNL_STATUS_OTHER n)"

text \<open>The seven words of \<open>esp_jrnl_master_t\<close>; \<open>sizeof(esp_jrnl_master_t)\<close> is 28.\<close>

definition sizeof_master :: nat where
  "sizeof_master = 28"

definition master_bytes :: "esp_jrnl_master_t \<Rightarrow> byte list" where
  "master_bytes m =
     u32_le (jrnl_magic_mark m) @ u32_le (store_size_sectors m) @
     u32_le (store_volume_offset_sector m) @ u32_le (next_free_sector m) @
     u32_le (status_code (status m)) @
     u32_le (volume_size (volume m)) @ u32_le (disk_sector_size (volume m))"

definition master_of_bytes :: "byte list \<Rightarrow> esp_jrnl_master_t" where
  "master_of_bytes bs =
     \<lparr> jrnl_magic_mark = le_u32 bs,
       store_size_sectors = le_u32 (drop 4 bs),
       store_volume_offset_sector = le_u32 (drop 8 bs),
       next_free_sector = le_u32 (drop 12 bs),
       status = status_of_code (le_u32 (drop 16 bs)),
       volume = \<lparr> volume_size = le_u32 (drop 20 bs), disk_sector_size = le_u32 (drop 24 bs) \<rparr> \<rparr>"

text \<open>A fresh instance comes from \<open>calloc\<close>: every byte of its master record is zero.\<close>

definition zero_master :: esp_jrnl_master_t where
  "zero_master = master_of_bytes (replicate 28 0)"

text \<open>\<open>sizeof(esp_jrnl_oper_header_t)\<close> is 12, \<open>sizeof(esp_jrnl_operation_t)\<close> is 16.\<close>

definition sizeof_oper_header :: nat where
  "sizeof_oper_header = 12"

definition sizeof_operation :: nat where
  "sizeof_operation = 16"

definition oper_header_bytes :: "esp_jrnl_oper_header_t \<Rightarrow> byte list" where
  "oper_header_bytes h =
     u32_le (target_sector h) @ u32_le (sector_count h) @ u32_le (crc32_data h)"

definition operation_bytes :: "esp_jrnl_operation_t \<Rightarrow> byte list" where
  "operation_bytes p = oper_header_bytes (oper_header p) @ u32_le (crc32_header p)"

definition operation_of_bytes :: "byte list \<Rightarrow> esp_jrnl_operation_t" where
  "operation_of_bytes bs =
     \<lparr> oper_header = \<lparr> target_sector = le_u32 bs, sector_count = le_u32 (drop 4 bs),
                       crc32_data = le_u32 (drop 8 bs) \<rparr>,
       crc32_header = le_u32 (drop 12 bs) \<rparr>"

section \<open>Round trips\<close>

definition wf_status :: "esp_jrnl_trans_status_t \<Rightarrow> bool" where
  "wf_status st \<longleftrightarrow> (case st of ESP_JRNL_STATUS_OTHER n \<Rightarrow> 3 < n | _ \<Rightarrow> True)"

lemma status_roundtrip [simp, layout_simps]: "wf_status st \<Longrightarrow> status_of_code (status_code st) = st"
proof (cases st)
  case (ESP_JRNL_STATUS_OTHER n)
  assume "wf_status st"
  with ESP_JRNL_STATUS_OTHER have "n \<noteq> 0" "n \<noteq> 1" "n \<noteq> 2" "n \<noteq> 3"
    by (auto simp: wf_status_def)
  with ESP_JRNL_STATUS_OTHER show ?thesis by (simp add: status_of_code_def status_code_def)
qed (simp_all add: status_of_code_def status_code_def)

lemma wf_status_simps [simp]:
  "wf_status ESP_JRNL_STATUS_FS_INIT" "wf_status ESP_JRNL_STATUS_TRANS_READY"
  "wf_status ESP_JRNL_STATUS_TRANS_OPEN" "wf_status ESP_JRNL_STATUS_TRANS_COMMIT"
  by (simp_all add: wf_status_def)

lemma status_code_of [simp, layout_simps]: "status_code (status_of_code n) = n"
  by (simp add: status_of_code_def status_code_def)

lemma length_master_bytes [simp, layout_simps]: "length (master_bytes m) = 28"
  by (simp add: master_bytes_def)

lemma length_oper_header_bytes [simp, layout_simps]: "length (oper_header_bytes h) = 12"
  by (simp add: oper_header_bytes_def)

lemma length_operation_bytes [simp, layout_simps]: "length (operation_bytes p) = 16"
  by (simp add: operation_bytes_def)

lemma master_roundtrip:
  assumes "wf_status (status m)"
  shows "master_of_bytes (master_bytes m @ rest) = m"
  using assms by (simp add: master_of_bytes_def master_bytes_def)

lemma operation_roundtrip: "operation_of_bytes (operation_bytes p @ rest) = p"
  by (simp add: operation_of_bytes_def operation_bytes_def oper_header_bytes_def)

lemma take_operation_bytes: "take 12 (operation_bytes p @ rest) = oper_header_bytes (oper_header p)"
  by (simp add: operation_bytes_def)

text \<open>
  Only the first 28 bytes of a sector matter to the master record read from it, and a
  sector of equal bytes never carries the marker.
\<close>

lemma magic_of_bytes: "jrnl_magic_mark (master_of_bytes bs) = le_u32 bs"
  by (simp add: master_of_bytes_def)

lemma constant_fill_no_marker:
  assumes "4 \<le> length bs" and "\<forall>i < 4. bs ! i = b"
  shows "jrnl_magic_mark (master_of_bytes bs) \<noteq> JRNL_STORE_MARKER"
proof
  assume eq: "jrnl_magic_mark (master_of_bytes bs) = JRNL_STORE_MARKER"
  have "le_u32 bs = ucast b OR push_bit 8 (ucast b) OR push_bit 16 (ucast b) OR push_bit 24 (ucast b)"
    using assms by (rule le_u32_constant)
  with eq have c: "ucast b OR push_bit 8 (ucast b) OR push_bit 16 (ucast b) OR push_bit 24 (ucast b)
      = (0x6A6B6C6D :: u32)"
    by (simp add: magic_of_bytes JRNL_STORE_MARKER_def)
  from arg_cong [OF c, where f = "\<lambda>w. bit w 0"] have "bit b 0" by (simp add: bit_simps)
  moreover from arg_cong [OF c, where f = "\<lambda>w. bit w 8"] have "\<not> bit b 0" by (simp add: bit_simps)
  ultimately show False by simp
qed

end
