(* ===== verification/Jrnl_Device.thy ===== *)
theory Jrnl_Device
  imports Jrnl_Types
begin

text \<open>
  What the journal stands on. \<open>mach\<close> is the part of the machine every function sees: the
  state of the devices and the outcomes of the coming allocations. The locale
  \<open>block_device\<close> states what the journal relies on of the three disk routines behind
  \<open>esp_jrnl_diskio_t\<close>; \<open>reliable_device\<close> and \<open>byte_reliable_device\<close> add that a healthy
  device serves every request it can address. \<open>flash\<close> is a simulated NOR flash with a power
  budget that meets the contract.
\<close>

section \<open>The machine below the component\<close>

record 'd mach =
  dev :: 'd
  heap :: "bool list"

text \<open>
  \<open>calloc(n, size)\<close>: whether the block was allocated. A product that does not fit in
  \<open>size_t\<close> is refused; otherwise the outcome is the next entry of \<open>heap\<close>, and allocation
  succeeds once the list is used up. A product of zero, as for an operation of no sectors, is no
  exception: C leaves it to the implementation whether \<open>calloc\<close> then returns a pointer, so a theorem for every \<open>heap\<close> covers
  both kinds of implementation, and one that assumes an empty \<open>heap\<close> assumes one that returns a pointer.
\<close>

definition calloc :: "u32 \<Rightarrow> u32 \<Rightarrow> (('d, 'z) mach_scheme, bool) prog" where
  "calloc n sz = (\<lambda>s.
     if 2 ^ 32 \<le> unat n * unat sz then (Ret False, s)
     else case heap s of [] \<Rightarrow> (Ret True, s) | ok # oks \<Rightarrow> (Ret ok, s\<lparr>heap := oks\<rparr>))"

text \<open>
  \<open>_lock_acquire\<close> on a lock that is already taken waits for ever, since the models are of one
  task; otherwise the lock is taken. \<open>_lock_release\<close> is the assignment of \<open>False\<close>.
\<close>

definition lock_acquire :: "bool \<Rightarrow> ('s, bool) prog" where
  "lock_acquire held = (\<lambda>s. (if held then Blocked else Ret True, s))"

lemma calloc_run:
  obtains ok hp where "calloc n sz s = (Ret ok, s\<lparr>heap := hp\<rparr>)"
proof (cases "2 ^ 32 \<le> unat n * unat sz")
  case True
  then show ?thesis using that [of False "heap s"] by (simp add: calloc_def)
next
  case False
  then show ?thesis
    using that [of True "heap s"] that [of "hd (heap s)" "tl (heap s)"]
    by (cases "heap s") (auto simp: calloc_def)
qed

lemma calloc_empty_heap:
  "heap s = [] \<Longrightarrow> unat n * unat sz < 2 ^ 32 \<Longrightarrow> calloc n sz s = (Ret True, s)"
  by (simp add: calloc_def)

lemma calloc_True: "calloc n sz s = (Ret True, s') \<Longrightarrow> unat n * unat sz < 2 ^ 32"
  by (auto simp: calloc_def split: if_splits)

lemma returns_calloc [returns_intros]: "returns (calloc n sz)"
  by (rule returnsI) (metis calloc_run)

lemma run_bind_lock [prog_simps]:
  "bind (lock_acquire held) f s = (if held then (Blocked, s) else f True s)"
  by (simp add: bind_def lock_acquire_def)

section \<open>The contract of the disk routines\<close>

text \<open>
  \<open>content\<close> is what a device state holds, byte by byte; \<open>sector\<close> the sector size; bytes below
  \<open>capacity\<close> can be addressed; an erased byte reads \<open>erased\<close>.
  The contract is about requests inside that range; nothing is said of any other. A routine that
  reports \<open>ESP_OK\<close> has done its work. One that reports an error, as every
  routine does from the moment the power is gone, has left everything outside its range
  alone, and has carried out an operation on one single sector either wholly or not at all.
  The last clause is an assumption on the device. Neither the wear-levelling layer nor the card driver documents it,
  and the README warns that a power loss in the middle of a block transfer can still corrupt the volume; the design
  depends on it, since the master record has no checksum by which a half-written one could be told from a
  whole one. Every theorem about failures and power losses is relative to it.
\<close>

locale block_device =
  fixes io :: "'d esp_jrnl_diskio_t"
    and content :: "'d \<Rightarrow> image"
    and sector :: nat
    and capacity :: nat
    and erased :: byte
  assumes read_frame:
      "disk_read io (diskio_ctrl_handle io) a n d = (r, d') \<Longrightarrow> unat a + unat n \<le> capacity \<Longrightarrow> content d' = content d"
    and read_ok:
      "disk_read io (diskio_ctrl_handle io) a n d = ((ESP_OK, bs), d') \<Longrightarrow>
       unat a + unat n \<le> capacity \<Longrightarrow> bs = get_bytes (content d) (unat a) (unat n)"
    and erase_ok:
      "disk_erase_range io (diskio_ctrl_handle io) a n d = (ESP_OK, d') \<Longrightarrow>
       sector dvd unat a \<Longrightarrow> sector dvd unat n \<Longrightarrow> unat a + unat n \<le> capacity \<Longrightarrow>
       content d' = fill_bytes (content d) (unat a) (unat n) erased"
    and erase_frame:
      "disk_erase_range io (diskio_ctrl_handle io) a n d = (e, d') \<Longrightarrow>
       unat a + unat n \<le> capacity \<Longrightarrow>
       same_outside (content d) (content d') (unat a) (unat n)"
    and erase_sector:
      "disk_erase_range io (diskio_ctrl_handle io) a n d = (e, d') \<Longrightarrow>
       sector dvd unat a \<Longrightarrow> unat n = sector \<Longrightarrow> unat a + unat n \<le> capacity \<Longrightarrow>
       content d' = content d \<or> content d' = fill_bytes (content d) (unat a) (unat n) erased"
    and write_ok:
      "disk_write io (diskio_ctrl_handle io) a src n d = (ESP_OK, d') \<Longrightarrow>
       unat a + unat n \<le> capacity \<Longrightarrow>
       get_bytes (content d) (unat a) (unat n) = replicate (unat n) erased \<Longrightarrow>
       content d' = put_bytes (content d) (unat a) (buf_bytes src (unat n))"
    and write_frame:
      "disk_write io (diskio_ctrl_handle io) a src n d = (e, d') \<Longrightarrow>
       unat a + unat n \<le> capacity \<Longrightarrow>
       same_outside (content d) (content d') (unat a) (unat n)"
    and write_sector:
      "disk_write io (diskio_ctrl_handle io) a src n d = (e, d') \<Longrightarrow>
       sector dvd unat a \<Longrightarrow> unat n = sector \<Longrightarrow> unat a + unat n \<le> capacity \<Longrightarrow>
       get_bytes (content d) (unat a) (unat n) = replicate (unat n) erased \<Longrightarrow>
       content d' = content d \<or>
       content d' = put_bytes (content d) (unat a) (buf_bytes src (unat n))"
begin

lemma erase_then_write_ok:
  assumes "disk_erase_range io (diskio_ctrl_handle io) a n d = (ESP_OK, d1)"
    and "disk_write io (diskio_ctrl_handle io) a src n d1 = (ESP_OK, d2)"
    and "sector dvd unat a" and "sector dvd unat n" and "unat a + unat n \<le> capacity"
  shows "content d2 = put_bytes (content d) (unat a) (buf_bytes src (unat n))"
proof -
  have e: "content d1 = fill_bytes (content d) (unat a) (unat n) erased"
    using assms(1,3,4,5) by (rule erase_ok)
  then have "get_bytes (content d1) (unat a) (unat n) = replicate (unat n) erased"
    by (simp add: fill_bytes_def get_put_same)
  then have "content d2 = put_bytes (content d1) (unat a) (buf_bytes src (unat n))"
    using write_ok [OF assms(2,5)] by simp
  then show ?thesis by (simp add: e put_fill_same)
qed

lemma erase_then_write_frame:
  assumes "disk_erase_range io (diskio_ctrl_handle io) a n d = (e, d1)"
    and "disk_write io (diskio_ctrl_handle io) a src n d1 = (e', d2)"
    and "unat a + unat n \<le> capacity"
  shows "same_outside (content d) (content d2) (unat a) (unat n)"
  using erase_frame [OF assms(1,3)] write_frame [OF assms(2,3)] by (rule same_outside_trans)

lemma erase_then_write_sector:
  assumes "disk_erase_range io (diskio_ctrl_handle io) a n d = (ESP_OK, d1)"
    and "disk_write io (diskio_ctrl_handle io) a src n d1 = (e, d2)"
    and "sector dvd unat a" and "unat n = sector" and "unat a + unat n \<le> capacity"
  shows "content d2 = fill_bytes (content d) (unat a) (unat n) erased \<or>
         content d2 = put_bytes (content d) (unat a) (buf_bytes src (unat n))"
proof -
  have e: "content d1 = fill_bytes (content d) (unat a) (unat n) erased"
    using erase_ok [OF assms(1,3) _ assms(5)] assms(4) by simp
  then have "get_bytes (content d1) (unat a) (unat n) = replicate (unat n) erased"
    by (simp add: fill_bytes_def get_put_same)
  with write_sector [OF assms(2,3,4,5)]
  have "content d2 = content d1 \<or> content d2 = put_bytes (content d1) (unat a) (buf_bytes src (unat n))"
    by simp
  then show ?thesis by (auto simp: e put_fill_same)
qed

end

text \<open>A device that, while \<open>healthy\<close>, serves every sector-aligned request within its range.\<close>

locale reliable_device = block_device io content sector capacity erased
  for io :: "'d esp_jrnl_diskio_t" and content and sector and capacity and erased +
  fixes healthy :: "'d \<Rightarrow> bool"
  assumes read_serves:
      "healthy d \<Longrightarrow> sector dvd unat a \<Longrightarrow> sector dvd unat n \<Longrightarrow> unat a + unat n \<le> capacity \<Longrightarrow>
       \<exists>bs d'. disk_read io (diskio_ctrl_handle io) a n d = ((ESP_OK, bs), d') \<and> healthy d'"
    and erase_serves:
      "healthy d \<Longrightarrow> sector dvd unat a \<Longrightarrow> sector dvd unat n \<Longrightarrow> unat a + unat n \<le> capacity \<Longrightarrow>
       \<exists>d'. disk_erase_range io (diskio_ctrl_handle io) a n d = (ESP_OK, d') \<and> healthy d'"
    and write_serves:
      "healthy d \<Longrightarrow> sector dvd unat a \<Longrightarrow> sector dvd unat n \<Longrightarrow> unat a + unat n \<le> capacity \<Longrightarrow>
       \<exists>d'. disk_write io (diskio_ctrl_handle io) a src n d = (ESP_OK, d') \<and> healthy d'"

text \<open>One that also serves reads of any length at any address, as wear-levelled flash does.\<close>

locale byte_reliable_device = reliable_device +
  assumes read_serves_bytes:
      "healthy d \<Longrightarrow> unat a + unat n \<le> capacity \<Longrightarrow>
       \<exists>bs d'. disk_read io (diskio_ctrl_handle io) a n d = ((ESP_OK, bs), d') \<and> healthy d'"

section \<open>A simulated NOR flash\<close>

text \<open>
  The flash has bytes, and a budget of operations after which its power is gone (\<open>None\<close>: the
  power holds). Erasing sets bytes to \<open>0xFF\<close>; programming can only clear bits.
\<close>

record flash =
  cells :: image
  ops_left :: "nat option"

definition flash_tick :: "flash \<Rightarrow> flash" where
  "flash_tick f = f\<lparr>ops_left := map_option (\<lambda>n. n - 1) (ops_left f)\<rparr>"

definition flash_read :: "nat \<Rightarrow> int \<Rightarrow> u32 \<Rightarrow> u32 \<Rightarrow> flash \<Rightarrow> (esp_err_t \<times> byte list) \<times> flash" where
  "flash_read cap h a n f =
     (if ops_left f = Some 0 then ((ESP_FAIL, []), f)
      else if cap < unat a + unat n then ((ESP_ERR_INVALID_SIZE, []), f)
      else ((ESP_OK, get_bytes (cells f) (unat a) (unat n)), flash_tick f))"

definition flash_erase :: "nat \<Rightarrow> int \<Rightarrow> u32 \<Rightarrow> u32 \<Rightarrow> flash \<Rightarrow> esp_err_t \<times> flash" where
  "flash_erase cap h a n f =
     (if ops_left f = Some 0 then (ESP_FAIL, f)
      else if cap < unat a + unat n then (ESP_ERR_INVALID_SIZE, f)
      else (ESP_OK, flash_tick (f\<lparr>cells := fill_bytes (cells f) (unat a) (unat n) 0xFF\<rparr>)))"

definition flash_write :: "nat \<Rightarrow> int \<Rightarrow> u32 \<Rightarrow> cbuf \<Rightarrow> u32 \<Rightarrow> flash \<Rightarrow> esp_err_t \<times> flash" where
  "flash_write cap h a src n f =
     (if ops_left f = Some 0 then (ESP_FAIL, f)
      else if cap < unat a + unat n then (ESP_ERR_INVALID_SIZE, f)
      else (ESP_OK, flash_tick (f\<lparr>cells := put_bytes (cells f) (unat a)
              (map2 (AND) (get_bytes (cells f) (unat a) (unat n)) (buf_bytes src (unat n)))\<rparr>)))"

definition flash_diskio :: "nat \<Rightarrow> int \<Rightarrow> flash esp_jrnl_diskio_t" where
  "flash_diskio cap h =
     \<lparr> diskio_ctrl_handle = h, disk_read = flash_read cap, disk_write = flash_write cap,
       disk_erase_range = flash_erase cap \<rparr>"

lemma flash_diskio_simps [simp]:
  "diskio_ctrl_handle (flash_diskio cap h) = h" "disk_read (flash_diskio cap h) = flash_read cap"
  "disk_write (flash_diskio cap h) = flash_write cap"
  "disk_erase_range (flash_diskio cap h) = flash_erase cap"
  by (simp_all add: flash_diskio_def)

lemma cells_flash_tick [simp]: "cells (flash_tick f) = cells f"
  by (simp add: flash_tick_def)

lemma and_ones: "(0xFF :: byte) AND b = b"
proof -
  have "(0xFF :: byte) = - 1" by simp
  then show ?thesis by (simp only: and.left_neutral)
qed

lemma map2_and_ones: "length bs = n \<Longrightarrow> map2 (AND) (replicate n (0xFF :: byte)) bs = bs"
  by (auto intro!: nth_equalityI simp: and_ones)

interpretation nor: block_device "flash_diskio cap h" cells sec cap "0xFF"
  by unfold_locales
    (auto simp: flash_read_def flash_erase_def flash_write_def same_outside_fill same_outside_put
       map2_and_ones split: if_splits)

interpretation nor_powered: byte_reliable_device "flash_diskio cap h" cells sec cap "0xFF"
    "\<lambda>f. ops_left f = None"
  by unfold_locales
    (auto simp: flash_read_def flash_erase_def flash_write_def flash_tick_def)

end
