(* ===== verification/Jrnl_Store.thy ===== *)
theory Jrnl_Store
  imports Jrnl_Device
begin

text \<open>
  The journaling store as a region of the volume: raw access to the disk, access by store
  sector index, and the master record in the last sector of the store
  (\<open>srcs/esp_jrnl.c\<close>, from \<open>jrnl_get_target_disk_sector\<close> to \<open>jrnl_reset_master\<close>).
  A pointer to an instance is an \<open>option\<close>, \<open>None\<close> being \<open>NULL\<close>; a function that changes the
  instance returns it.
\<close>

section \<open>Model\<close>

text \<open>
  What the code uses of its surroundings: the CRC routine of the ROM, and the bytes that lie
  in memory behind the master record of an instance. \<open>jrnl_update_master\<close> hands
  \<open>&jrnl->master\<close> to a routine that writes a whole sector, so those bytes reach the disk.
\<close>

record esp_env =
  esp_crc32_le :: "u32 \<Rightarrow> byte list \<Rightarrow> u32"
  beyond_master :: cbuf

definition jrnl_get_target_disk_sector :: "'d esp_jrnl_instance_t \<Rightarrow> u32 \<Rightarrow> u32" where
  "jrnl_get_target_disk_sector inst jrnl_sector =
     store_volume_offset_sector (master inst) + jrnl_sector"

definition jrnl_read_raw ::
  "'d esp_jrnl_instance_t \<Rightarrow> u32 \<Rightarrow> u32 \<Rightarrow> (('d, 'z) mach_scheme, esp_err_t \<times> byte list) prog" where
  "jrnl_read_raw inst src_addr n = (\<lambda>s.
     case disk_read (diskio inst) (diskio_ctrl_handle (diskio inst)) src_addr n (dev s) of
       (r, d) \<Rightarrow> (Ret r, s\<lparr>dev := d\<rparr>))"

definition jrnl_write_raw ::
  "'d esp_jrnl_instance_t \<Rightarrow> u32 \<Rightarrow> cbuf \<Rightarrow> u32 \<Rightarrow> (('d, 'z) mach_scheme, esp_err_t) prog" where
  "jrnl_write_raw inst dest_addr src n = (\<lambda>s.
     case disk_write (diskio inst) (diskio_ctrl_handle (diskio inst)) dest_addr src n (dev s) of
       (e, d) \<Rightarrow> (Ret e, s\<lparr>dev := d\<rparr>))"

definition jrnl_erase_range_raw ::
  "'d esp_jrnl_instance_t \<Rightarrow> u32 \<Rightarrow> u32 \<Rightarrow> (('d, 'z) mach_scheme, esp_err_t) prog" where
  "jrnl_erase_range_raw inst start_addr n = (\<lambda>s.
     case disk_erase_range (diskio inst) (diskio_ctrl_handle (diskio inst)) start_addr n (dev s) of
       (e, d) \<Rightarrow> (Ret e, s\<lparr>dev := d\<rparr>))"

definition jrnl_write_internal ::
  "'d esp_jrnl_instance_t option \<Rightarrow> cbuf option \<Rightarrow> u32 \<Rightarrow> u32 \<Rightarrow>
   (('d, 'z) mach_scheme, esp_err_t) prog" where
  "jrnl_write_internal inst_ptr buff sec count =
     (case (inst_ptr, buff) of
        (Some inst, Some src) \<Rightarrow>
          if store_size_sectors (master inst) \<le> sec then ret ESP_ERR_INVALID_ARG
          else
            let tsec = jrnl_get_target_disk_sector inst sec;
                sector_size = disk_sector_size (volume (master inst))
            in bind (jrnl_erase_range_raw inst (tsec * sector_size) (count * sector_size)) (\<lambda>err.
               if err \<noteq> ESP_OK then ret err
               else jrnl_write_raw inst (tsec * sector_size) src (count * sector_size))
      | _ \<Rightarrow> ret ESP_ERR_INVALID_ARG)"

text \<open>The destination buffer is given by whether it is there and returned with its new bytes.\<close>

definition jrnl_read_internal ::
  "'d esp_jrnl_instance_t option \<Rightarrow> bool \<Rightarrow> u32 \<Rightarrow> u32 \<Rightarrow>
   (('d, 'z) mach_scheme, esp_err_t \<times> byte list) prog" where
  "jrnl_read_internal inst_ptr out_buff sec count =
     (case inst_ptr of
        None \<Rightarrow> ret (ESP_ERR_INVALID_ARG, [])
      | Some inst \<Rightarrow>
          if \<not> out_buff \<or> store_size_sectors (master inst) \<le> sec then ret (ESP_ERR_INVALID_ARG, [])
          else
            let tsec = jrnl_get_target_disk_sector inst sec;
                sector_size = disk_sector_size (volume (master inst))
            in jrnl_read_raw inst (tsec * sector_size) (count * sector_size))"

text \<open>The instance is gone after \<open>jrnl_delete_instance\<close>: its lock is closed, its memory freed.\<close>

definition jrnl_delete_instance ::
  "'d esp_jrnl_instance_t option \<Rightarrow> ('s, 'd esp_jrnl_instance_t option) prog" where
  "jrnl_delete_instance inst_ptr = ret None"

definition jrnl_update_master ::
  "esp_env \<Rightarrow> 'd esp_jrnl_instance_t \<Rightarrow> esp_jrnl_master_t \<Rightarrow>
   (('d, 'z) mach_scheme, esp_err_t) prog" where
  "jrnl_update_master E jrnl m =
     jrnl_write_internal (Some jrnl) (Some (buf_of (master_bytes m) (beyond_master E)))
       (store_size_sectors (master jrnl) - 1) 1"

definition reset_fields :: "bool \<Rightarrow> esp_jrnl_master_t \<Rightarrow> esp_jrnl_master_t" where
  "reset_fields fs_direct m = m
     \<lparr>jrnl_magic_mark := JRNL_STORE_MARKER, next_free_sector := 0,
      status := (if fs_direct then ESP_JRNL_STATUS_FS_DIRECT else ESP_JRNL_STATUS_TRANS_READY)\<rparr>"

definition jrnl_reset_master ::
  "esp_env \<Rightarrow> 'd esp_jrnl_instance_t option \<Rightarrow> bool \<Rightarrow>
   (('d, 'z) mach_scheme, esp_err_t \<times> 'd esp_jrnl_instance_t option) prog" where
  "jrnl_reset_master E inst_ptr fs_direct =
     (case inst_ptr of
        None \<Rightarrow> ret (ESP_ERR_INVALID_ARG, None)
      | Some jrnl \<Rightarrow>
          let jrnl' = jrnl\<lparr>master := reset_fields fs_direct (master jrnl)\<rparr>
          in bind (jrnl_update_master E jrnl' (master jrnl')) (\<lambda>err.
             ret (err, Some jrnl')))"

text \<open>None of these functions waits or loops, whatever the disk routines answer.\<close>

lemma returns_raw [returns_intros]:
  "returns (jrnl_read_raw inst a n)" "returns (jrnl_write_raw inst a src n)"
  "returns (jrnl_erase_range_raw inst a n)"
  by (auto simp: returns_def jrnl_read_raw_def jrnl_write_raw_def jrnl_erase_range_raw_def split: prod.splits)

lemma returns_internal [returns_intros]:
  "returns (jrnl_read_internal (Some inst) b k n)" "returns (jrnl_write_internal (Some inst) (Some src) k n)"
  by (auto simp: jrnl_read_internal_def jrnl_write_internal_def Let_def intro: returns_intros)

lemma returns_master [returns_intros]:
  "returns (jrnl_update_master E inst m)" "returns (jrnl_reset_master E p b)"
  unfolding jrnl_update_master_def jrnl_reset_master_def Let_def
  by (auto intro: returns_intros split: option.splits)

section \<open>Geometry of the volume\<close>

text \<open>
  Numbers of the master record read as naturals, and what makes them describe a volume of
  the device: the store ends the volume, its last sector holds the master record, and the
  volume is a whole number of sectors large enough for that record.
\<close>

abbreviation fs_sectors :: "esp_jrnl_master_t \<Rightarrow> nat" where
  "fs_sectors m \<equiv> unat (store_volume_offset_sector m)"

abbreviation store_sectors :: "esp_jrnl_master_t \<Rightarrow> nat" where
  "store_sectors m \<equiv> unat (store_size_sectors m)"

abbreviation used_sectors :: "esp_jrnl_master_t \<Rightarrow> nat" where
  "used_sectors m \<equiv> unat (next_free_sector m)"

definition geom :: "nat \<Rightarrow> nat \<Rightarrow> esp_jrnl_master_t \<Rightarrow> bool" where
  "geom sec cap m \<longleftrightarrow>
     sizeof_master \<le> sec \<and> unat (disk_sector_size (volume m)) = sec \<and>
     unat JRNL_MIN_STORE_SIZE \<le> store_sectors m \<and>
     (fs_sectors m + store_sectors m) * sec = unat (volume_size (volume m)) \<and>
     unat (volume_size (volume m)) \<le> cap"

definition master_addr :: "nat \<Rightarrow> esp_jrnl_master_t \<Rightarrow> nat" where
  "master_addr sec m = (fs_sectors m + store_sectors m - 1) * sec"

definition master_sector :: "esp_env \<Rightarrow> nat \<Rightarrow> esp_jrnl_master_t \<Rightarrow> byte list" where
  "master_sector E sec m = buf_bytes (buf_of (master_bytes m) (beyond_master E)) sec"

lemma length_master_sector [simp]: "length (master_sector E sec m) = sec"
  by (simp add: master_sector_def)

lemma take_master_sector: "28 \<le> sec \<Longrightarrow> take 28 (master_sector E sec m) = master_bytes m"
  using buf_bytes_prefix [of "master_bytes m" sec "beyond_master E"]
  by (simp add: master_sector_def)

lemma geom_update [simp]:
  "geom sec cap (m\<lparr>next_free_sector := x\<rparr>) = geom sec cap m"
  "geom sec cap (m\<lparr>status := st\<rparr>) = geom sec cap m"
  "geom sec cap (m\<lparr>jrnl_magic_mark := k\<rparr>) = geom sec cap m"
  by (simp_all add: geom_def)

lemma master_addr_update [simp]:
  "master_addr sec (m\<lparr>next_free_sector := x\<rparr>) = master_addr sec m"
  "master_addr sec (m\<lparr>status := st\<rparr>) = master_addr sec m"
  "master_addr sec (m\<lparr>jrnl_magic_mark := k\<rparr>) = master_addr sec m"
  by (simp_all add: master_addr_def)

lemma geom_reset [simp]:
  "geom sec cap (reset_fields b m) = geom sec cap m"
  "master_addr sec (reset_fields b m) = master_addr sec m"
  by (simp_all add: reset_fields_def geom_def master_addr_def)

lemma geom_sector_pos: "geom sec cap m \<Longrightarrow> 28 \<le> sec \<and> 3 \<le> store_sectors m"
  by (simp add: geom_def sizeof_master_def JRNL_MIN_STORE_SIZE_def)

lemma geom_header_fits: "geom sec cap m \<Longrightarrow> sizeof_operation \<le> unat (disk_sector_size (volume m))"
  by (simp add: geom_def sizeof_master_def sizeof_operation_def)

text \<open>Within the volume the sector arithmetic of the code does not wrap.\<close>

lemma geom_address:
  assumes "geom sec cap m" and "unat t + unat k \<le> fs_sectors m + store_sectors m"
  shows "unat (t * disk_sector_size (volume m)) = unat t * sec"
    and "unat (k * disk_sector_size (volume m)) = unat k * sec"
    and "unat t * sec + unat k * sec \<le> cap"
    and "unat t * sec + unat k * sec < 2 ^ 32"
proof -
  have sec: "unat (disk_sector_size (volume m)) = sec"
    and vol: "(fs_sectors m + store_sectors m) * sec = unat (volume_size (volume m))"
    and cap: "unat (volume_size (volume m)) \<le> cap"
    using assms(1) by (simp_all add: geom_def)
  have "(unat t + unat k) * sec \<le> (fs_sectors m + store_sectors m) * sec"
    using assms(2) by (rule mult_le_mono1)
  then have le: "unat t * sec + unat k * sec \<le> unat (volume_size (volume m))"
    unfolding vol by (simp add: distrib_right)
  then show "unat t * sec + unat k * sec \<le> cap" using cap by simp
  show lt: "unat t * sec + unat k * sec < 2 ^ 32"
    using le unat_lt_2_32 [of "volume_size (volume m)"] by linarith
  show "unat (t * disk_sector_size (volume m)) = unat t * sec"
    using lt sec by (simp add: unat_mult_no_wrap)
  show "unat (k * disk_sector_size (volume m)) = unat k * sec"
    using lt sec by (simp add: unat_mult_no_wrap)
qed

lemma geom_store_sector:
  assumes "geom sec cap (master inst)" and "unat k \<le> store_sectors (master inst)"
  shows "unat (jrnl_get_target_disk_sector inst k) = fs_sectors (master inst) + unat k"
proof -
  have "28 \<le> sec" using geom_sector_pos [OF assms(1)] by simp
  then have "fs_sectors (master inst) + store_sectors (master inst)
      \<le> (fs_sectors (master inst) + store_sectors (master inst)) * sec"
    by simp
  also have "\<dots> < 2 ^ 32"
    using assms(1) unat_lt_2_32 [of "volume_size (volume (master inst))"] by (simp add: geom_def)
  finally show ?thesis
    using assms(2) unfolding jrnl_get_target_disk_sector_def by (intro unat_add_no_wrap) linarith
qed

section \<open>Access to the store\<close>

text \<open>
  How the image of the disk changes when one sector is updated by an erase and a write, with
  the error the pair reports.
\<close>

definition sector_update :: "byte \<Rightarrow> image \<Rightarrow> nat \<Rightarrow> byte list \<Rightarrow> esp_err_t \<Rightarrow> image \<Rightarrow> bool" where
  "sector_update erased c a bs err c' \<longleftrightarrow>
     (err = ESP_OK \<longrightarrow> c' = put_bytes c a bs) \<and>
     (c' = c \<or> c' = fill_bytes c a (length bs) erased \<or> c' = put_bytes c a bs)"

lemma sector_update_frame:
  "sector_update erased c a bs err c' \<Longrightarrow> same_outside c c' a (length bs)"
  by (auto simp: sector_update_def same_outside_fill same_outside_put)

context block_device
begin

lemma write_internal_run:
  assumes "diskio inst = io" and g: "geom sector capacity (master inst)"
    and k: "unat k < store_sectors (master inst)"
    and kc: "unat k + unat count \<le> store_sectors (master inst)"
  defines "a \<equiv> (fs_sectors (master inst) + unat k) * sector"
  obtains err d where "jrnl_write_internal (Some inst) (Some src) k count s = (Ret err, s\<lparr>dev := d\<rparr>)"
    and "err = ESP_OK \<Longrightarrow> content d = put_bytes (content (dev s)) a (buf_bytes src (unat count * sector))"
    and "same_outside (content (dev s)) (content d) a (unat count * sector)"
    and "unat count = 1 \<Longrightarrow> sector_update erased (content (dev s)) a (buf_bytes src sector) err (content d)"
proof -
  let ?t = "jrnl_get_target_disk_sector inst k" and ?ss = "disk_sector_size (volume (master inst))"
  have t: "unat ?t = fs_sectors (master inst) + unat k"
    using geom_store_sector [OF g] k by simp
  have tk: "unat ?t + unat count \<le> fs_sectors (master inst) + store_sectors (master inst)"
    using t kc by simp
  note addr = geom_address [OF g tk]
  obtain e d1 where e: "disk_erase_range io (diskio_ctrl_handle io) (?t * ?ss) (count * ?ss) (dev s) = (e, d1)"
    by fastforce
  obtain e' d2 where w: "disk_write io (diskio_ctrl_handle io) (?t * ?ss) src (count * ?ss) d1 = (e', d2)"
    by fastforce
  have a: "unat (?t * ?ss) = a" and n: "unat (count * ?ss) = unat count * sector"
    using addr(1,2) t by (simp_all add: a_def)
  have al: "sector dvd unat (?t * ?ss)" "sector dvd unat (count * ?ss)" by (simp_all add: addr)
  have cap: "unat (?t * ?ss) + unat (count * ?ss) \<le> capacity" using addr by simp
  have run: "jrnl_write_internal (Some inst) (Some src) k count s =
     (if e \<noteq> ESP_OK then (Ret e, s\<lparr>dev := d1\<rparr>) else (Ret e', s\<lparr>dev := d2\<rparr>))"
    using k assms(1) e w
    by (simp add: jrnl_write_internal_def jrnl_erase_range_raw_def jrnl_write_raw_def bind_def
        Let_def ret_def word_le_nat_alt)
  show thesis
  proof (cases "e = ESP_OK")
    case False
    have "same_outside (content (dev s)) (content d1) a (unat count * sector)"
      using erase_frame [OF e cap] by (simp add: a n)
    moreover have "unat count = 1 \<Longrightarrow> sector_update erased (content (dev s)) a (buf_bytes src sector) e (content d1)"
      using erase_sector [OF e al(1) _ cap] False by (auto simp: a n sector_update_def)
    ultimately show thesis using that [of e d1] run False by simp
  next
    case True
    note e = e [unfolded True]
    have "e' = ESP_OK \<Longrightarrow> content d2 = put_bytes (content (dev s)) a (buf_bytes src (unat count * sector))"
      using erase_then_write_ok [OF e _ al cap] w by (simp add: a n)
    moreover have "same_outside (content (dev s)) (content d2) a (unat count * sector)"
      using erase_then_write_frame [OF e w cap] by (simp add: a n)
    moreover have "unat count = 1 \<Longrightarrow> sector_update erased (content (dev s)) a (buf_bytes src sector) e' (content d2)"
      using erase_then_write_sector [OF e w al(1) _ cap] erase_then_write_ok [OF e _ al cap] w
      by (auto simp: a n sector_update_def)
    ultimately show thesis using that [of e' d2] run True by simp
  qed
qed

lemma update_master_run:
  assumes "diskio jrnl = io" and g: "geom sector capacity (master jrnl)"
  obtains err d where "jrnl_update_master E jrnl m s = (Ret err, s\<lparr>dev := d\<rparr>)"
    and "sector_update erased (content (dev s)) (master_addr sector (master jrnl))
           (master_sector E sector m) err (content d)"
proof -
  have n3: "3 \<le> store_sectors (master jrnl)" using geom_sector_pos [OF g] by simp
  then have "(1 :: u32) \<le> store_size_sectors (master jrnl)"
    by (simp add: word_le_nat_alt)
  then have k: "unat (store_size_sectors (master jrnl) - 1) = store_sectors (master jrnl) - 1"
    by (simp add: unat_sub)
  have k1: "unat (store_size_sectors (master jrnl) - 1) < store_sectors (master jrnl)"
    and k2: "unat (store_size_sectors (master jrnl) - 1) + unat (1 :: u32) \<le> store_sectors (master jrnl)"
    using n3 by (simp_all add: k)
  show thesis
  proof (rule write_internal_run [OF assms(1) g k1 k2,
        of "buf_of (master_bytes m) (beyond_master E)" s])
    fix err d
    assume "jrnl_write_internal (Some jrnl) (Some (buf_of (master_bytes m) (beyond_master E)))
        (store_size_sectors (master jrnl) - 1) 1 s = (Ret err, s\<lparr>dev := d\<rparr>)"
      and "unat (1 :: u32) = 1 \<Longrightarrow> sector_update erased (content (dev s))
        ((fs_sectors (master jrnl) + unat (store_size_sectors (master jrnl) - 1)) * sector)
        (buf_bytes (buf_of (master_bytes m) (beyond_master E)) sector) err (content d)"
    with n3 show thesis
      by (intro that [of err d]) (simp_all add: jrnl_update_master_def k master_addr_def master_sector_def)
  qed
qed

lemma reset_master_run:
  assumes "diskio jrnl = io" and g: "geom sector capacity (master jrnl)"
  obtains err d where "jrnl_reset_master E (Some jrnl) fs_direct s =
      (Ret (err, Some (jrnl\<lparr>master := reset_fields fs_direct (master jrnl)\<rparr>)), s\<lparr>dev := d\<rparr>)"
    and "sector_update erased (content (dev s)) (master_addr sector (master jrnl))
           (master_sector E sector (reset_fields fs_direct (master jrnl))) err (content d)"
proof -
  let ?m = "reset_fields fs_direct (master jrnl)"
  let ?j = "jrnl\<lparr>master := ?m\<rparr>"
  have j: "diskio ?j = io" "geom sector capacity (master ?j)" using assms by simp_all
  obtain err d where run: "jrnl_update_master E ?j ?m s = (Ret err, s\<lparr>dev := d\<rparr>)"
    and u: "sector_update erased (content (dev s)) (master_addr sector ?m) (master_sector E sector ?m) err (content d)"
    using update_master_run [OF j, of E ?m s] by auto
  show thesis
    using that [of err d] run u by (simp add: jrnl_reset_master_def Let_def run_bind_Ret run_ret)
qed

lemma read_internal_run:
  assumes "diskio inst = io" and g: "geom sector capacity (master inst)"
    and k: "unat k < store_sectors (master inst)"
    and kc: "unat k + unat count \<le> store_sectors (master inst)"
  obtains err bs d where "jrnl_read_internal (Some inst) True k count s = (Ret (err, bs), s\<lparr>dev := d\<rparr>)"
    and "content d = content (dev s)"
    and "err = ESP_OK \<Longrightarrow> bs = get_bytes (content (dev s))
           ((fs_sectors (master inst) + unat k) * sector) (unat count * sector)"
proof -
  let ?t = "jrnl_get_target_disk_sector inst k" and ?ss = "disk_sector_size (volume (master inst))"
  have t: "unat ?t = fs_sectors (master inst) + unat k"
    using geom_store_sector [OF g] k by simp
  have "unat ?t + unat count \<le> fs_sectors (master inst) + store_sectors (master inst)" using kc t by simp
  note addr = geom_address [OF g this]
  obtain err bs d where r: "disk_read io (diskio_ctrl_handle io) (?t * ?ss) (count * ?ss) (dev s) = ((err, bs), d)"
    by (metis surj_pair)
  show thesis
  proof (rule that)
    show "jrnl_read_internal (Some inst) True k count s = (Ret (err, bs), s\<lparr>dev := d\<rparr>)"
      using k assms(1) r
      by (simp add: jrnl_read_internal_def jrnl_read_raw_def Let_def word_le_nat_alt)
    show "content d = content (dev s)" using read_frame [OF r] addr by simp
    show "bs = get_bytes (content (dev s)) ((fs_sectors (master inst) + unat k) * sector) (unat count * sector)"
      if "err = ESP_OK"
      using read_ok [OF r [unfolded that]] addr kc t by simp
  qed
qed

end

text \<open>On a healthy device none of these accesses fails.\<close>

context reliable_device
begin

lemma write_internal_serves:
  assumes "diskio inst = io" and g: "geom sector capacity (master inst)"
    and k: "unat k < store_sectors (master inst)"
    and kc: "unat k + unat count \<le> store_sectors (master inst)"
    and hl: "healthy (dev s)"
  shows "\<exists>d. jrnl_write_internal (Some inst) (Some src) k count s = (Ret ESP_OK, s\<lparr>dev := d\<rparr>) \<and> healthy d"
proof -
  let ?t = "jrnl_get_target_disk_sector inst k" and ?ss = "disk_sector_size (volume (master inst))"
  have t: "unat ?t + unat count \<le> fs_sectors (master inst) + store_sectors (master inst)"
    using geom_store_sector [OF g] k kc by simp
  note addr = geom_address [OF g t]
  have req: "sector dvd unat (?t * ?ss)" "sector dvd unat (count * ?ss)"
      "unat (?t * ?ss) + unat (count * ?ss) \<le> capacity"
    using addr by simp_all
  obtain d1 where e: "disk_erase_range io (diskio_ctrl_handle io) (?t * ?ss) (count * ?ss) (dev s) = (ESP_OK, d1)"
    and h1: "healthy d1"
    using erase_serves [OF hl req] by blast
  obtain d2 where w: "disk_write io (diskio_ctrl_handle io) (?t * ?ss) src (count * ?ss) d1 = (ESP_OK, d2)"
    and h2: "healthy d2"
    using write_serves [OF h1 req] by blast
  show ?thesis
    using k assms(1) e w h2
    by (intro exI [of _ d2]) (simp add: jrnl_write_internal_def jrnl_erase_range_raw_def jrnl_write_raw_def bind_def
        Let_def ret_def word_le_nat_alt)
qed

lemma update_master_serves:
  assumes "diskio jrnl = io" and g: "geom sector capacity (master jrnl)" and hl: "healthy (dev s)"
  shows "\<exists>d. jrnl_update_master E jrnl m s = (Ret ESP_OK, s\<lparr>dev := d\<rparr>) \<and> healthy d"
proof -
  have n3: "3 \<le> store_sectors (master jrnl)" using geom_sector_pos [OF g] by simp
  then have "unat (store_size_sectors (master jrnl) - 1) = store_sectors (master jrnl) - 1"
    using unat_diff_no_wrap [of 1 "store_size_sectors (master jrnl)"] by simp
  then show ?thesis
    unfolding jrnl_update_master_def using n3 by (intro write_internal_serves [OF assms(1) g _ _ hl]) simp_all
qed

lemma reset_master_serves:
  assumes "diskio jrnl = io" and g: "geom sector capacity (master jrnl)" and hl: "healthy (dev s)"
  shows "\<exists>d. jrnl_reset_master E (Some jrnl) fs_direct s =
      (Ret (ESP_OK, Some (jrnl\<lparr>master := reset_fields fs_direct (master jrnl)\<rparr>)), s\<lparr>dev := d\<rparr>) \<and> healthy d"
proof -
  let ?m = "reset_fields fs_direct (master jrnl)"
  obtain d where "jrnl_update_master E (jrnl\<lparr>master := ?m\<rparr>) ?m s = (Ret ESP_OK, s\<lparr>dev := d\<rparr>)" and "healthy d"
    using update_master_serves [of "jrnl\<lparr>master := ?m\<rparr>" s E ?m] assms by auto
  then show ?thesis
    by (intro exI [of _ d]) (simp add: jrnl_reset_master_def Let_def run_bind_Ret run_ret)
qed

lemma read_internal_serves:
  assumes "diskio inst = io" and g: "geom sector capacity (master inst)"
    and k: "unat k < store_sectors (master inst)"
    and kc: "unat k + unat count \<le> store_sectors (master inst)"
    and hl: "healthy (dev s)"
  obtains d where "jrnl_read_internal (Some inst) True k count s =
      (Ret (ESP_OK, get_bytes (content (dev s)) ((fs_sectors (master inst) + unat k) * sector)
                      (unat count * sector)), s\<lparr>dev := d\<rparr>)"
    and "healthy d" and "content d = content (dev s)"
proof -
  let ?t = "jrnl_get_target_disk_sector inst k" and ?ss = "disk_sector_size (volume (master inst))"
  have t: "unat ?t = fs_sectors (master inst) + unat k" using geom_store_sector [OF g] k by simp
  then have "unat ?t + unat count \<le> fs_sectors (master inst) + store_sectors (master inst)"
    using kc by simp
  note addr = geom_address [OF g this]
  obtain bs d where r: "disk_read io (diskio_ctrl_handle io) (?t * ?ss) (count * ?ss) (dev s) = ((ESP_OK, bs), d)"
    and "healthy d"
    using read_serves [OF hl, of "?t * ?ss" "count * ?ss"] addr by auto
  moreover have "bs = get_bytes (content (dev s)) ((fs_sectors (master inst) + unat k) * sector) (unat count * sector)"
    using read_ok [OF r] addr t by simp
  moreover have "content d = content (dev s)" using read_frame [OF r] addr by simp
  ultimately show thesis
    using k assms(1)
    by (intro that [of d]) (simp_all add: jrnl_read_internal_def jrnl_read_raw_def Let_def word_le_nat_alt)
qed

end

end
