(* ===== verification/Jrnl_Log.thy ===== *)
theory Jrnl_Log
  imports Jrnl_Store
begin

text \<open>
  The abstract view of a transaction: the list of sector writes it has collected, how that
  list is laid out in the journaling store (one header sector per write, then its data), and
  what applying it to the volume means. The lemmas say that applying a log is determined
  outside the sectors it writes and may be repeated from any partial application: redo is
  idempotent.
\<close>

section \<open>Operations and their effect\<close>

text \<open>One journaled write: the target sector and the data, a whole number of sectors.\<close>

type_synonym jop = "u32 \<times> byte list"

definition op_sectors :: "nat \<Rightarrow> jop \<Rightarrow> nat" where
  "op_sectors sec p = length (snd p) div sec"

definition op_ok :: "nat \<Rightarrow> esp_jrnl_master_t \<Rightarrow> jop \<Rightarrow> bool" where
  "op_ok sec m p \<longleftrightarrow> sec dvd length (snd p) \<and> unat (fst p) + op_sectors sec p \<le> fs_sectors m"

definition apply_op :: "nat \<Rightarrow> jop \<Rightarrow> image \<Rightarrow> image" where
  "apply_op sec p c = put_bytes c (unat (fst p) * sec) (snd p)"

fun apply_ops :: "nat \<Rightarrow> jop list \<Rightarrow> image \<Rightarrow> image" where
  "apply_ops sec [] c = c"
| "apply_ops sec (p # ps) c = apply_ops sec ps (apply_op sec p c)"

definition touched :: "nat \<Rightarrow> jop list \<Rightarrow> nat set" where
  "touched sec ps = (\<Union>p \<in> set ps. {unat (fst p) * sec ..< unat (fst p) * sec + length (snd p)})"

definition agree_off :: "nat set \<Rightarrow> image \<Rightarrow> image \<Rightarrow> bool" where
  "agree_off S c c' \<longleftrightarrow> (\<forall>i. i \<notin> S \<longrightarrow> c' i = c i)"

lemma apply_ops_append: "apply_ops sec (ps @ qs) c = apply_ops sec qs (apply_ops sec ps c)"
  by (induction ps arbitrary: c) auto

lemma touched_simps [simp]:
  "touched sec [] = {}"
  "touched sec (p # ps) = {unat (fst p) * sec ..< unat (fst p) * sec + length (snd p)} \<union> touched sec ps"
  by (simp_all add: touched_def)

lemma touched_append [simp]: "touched sec (ps @ qs) = touched sec ps \<union> touched sec qs"
  by (simp add: touched_def)

lemma agree_off_refl [simp, intro]: "agree_off S c c"
  by (simp add: agree_off_def)

lemma agree_off_trans: "agree_off S c c' \<Longrightarrow> agree_off S c' c'' \<Longrightarrow> agree_off S c c''"
  by (simp add: agree_off_def)

lemma agree_off_mono: "agree_off S c c' \<Longrightarrow> S \<subseteq> T \<Longrightarrow> agree_off T c c'"
  by (auto simp: agree_off_def)

lemma agree_off_same_outside: "same_outside c c' a n \<Longrightarrow> {a ..< a + n} \<subseteq> S \<Longrightarrow> agree_off S c c'"
  by (force simp: agree_off_def same_outside_def)

lemma agree_off_get:
  assumes "agree_off S c c'" and "{a ..< a + n} \<inter> S = {}"
  shows "get_bytes c' a n = get_bytes c a n"
  using assms by (intro get_bytes_cong) (force simp: agree_off_def)

lemma apply_op_agree: "agree_off (touched sec [p]) c (apply_op sec p c)"
  by (auto simp: agree_off_def apply_op_def put_bytes_def)

lemma apply_ops_agree: "agree_off (touched sec ps) c (apply_ops sec ps c)"
proof (induction ps arbitrary: c)
  case (Cons p ps)
  have "agree_off (touched sec (p # ps)) c (apply_op sec p c)"
    using apply_op_agree [of sec p c] by (rule agree_off_mono) auto
  moreover have "agree_off (touched sec (p # ps)) (apply_op sec p c) (apply_ops sec (p # ps) c)"
    using Cons.IH [of "apply_op sec p c"] by (auto intro: agree_off_mono)
  ultimately show ?case by (rule agree_off_trans)
qed simp

lemma apply_ops_pointwise:
  "i \<in> touched sec ps \<or> c' i = c i \<Longrightarrow> apply_ops sec ps c' i = apply_ops sec ps c i"
proof (induction ps arbitrary: c c')
  case (Cons p ps)
  have "i \<in> touched sec ps \<or> apply_op sec p c' i = apply_op sec p c i"
    using Cons.prems by (auto simp: apply_op_def put_bytes_def)
  then show ?case using Cons.IH by simp
qed simp

text \<open>Redo: whatever part of the log has already reached its targets, and in whatever shape.\<close>

lemma apply_ops_redo: "agree_off (touched sec ps) c c' \<Longrightarrow> apply_ops sec ps c' = apply_ops sec ps c"
  by (rule ext) (auto simp: agree_off_def intro: apply_ops_pointwise)

lemma touched_in_fs: "list_all (op_ok sec m) ps \<Longrightarrow> touched sec ps \<subseteq> {..< fs_sectors m * sec}"
proof (induction ps)
  case (Cons p ps)
  have "sec dvd length (snd p)" and le: "unat (fst p) + length (snd p) div sec \<le> fs_sectors m"
    using Cons.prems by (simp_all add: op_ok_def op_sectors_def)
  then have "unat (fst p) * sec + length (snd p) = (unat (fst p) + length (snd p) div sec) * sec"
    by (simp add: distrib_right)
  also have "\<dots> \<le> fs_sectors m * sec" using le by (rule mult_le_mono1)
  finally show ?case using Cons by auto
qed simp

section \<open>Layout of the log\<close>

abbreviation UINT32_MAX :: u32 where
  "UINT32_MAX \<equiv> 0xFFFFFFFF"

definition op_header :: "esp_env \<Rightarrow> nat \<Rightarrow> jop \<Rightarrow> esp_jrnl_oper_header_t" where
  "op_header E sec p =
     \<lparr> target_sector = fst p, sector_count = of_nat (op_sectors sec p),
       crc32_data = esp_crc32_le E UINT32_MAX (snd p) \<rparr>"

definition op_record :: "esp_env \<Rightarrow> nat \<Rightarrow> jop \<Rightarrow> esp_jrnl_operation_t" where
  "op_record E sec p =
     \<lparr> oper_header = op_header E sec p,
       crc32_header = esp_crc32_le E UINT32_MAX (oper_header_bytes (op_header E sec p)) \<rparr>"

definition header_sector :: "esp_env \<Rightarrow> nat \<Rightarrow> jop \<Rightarrow> byte list" where
  "header_sector E sec p = operation_bytes (op_record E sec p) @ replicate (sec - 16) 0"

definition op_bytes :: "esp_env \<Rightarrow> nat \<Rightarrow> jop \<Rightarrow> byte list" where
  "op_bytes E sec p = header_sector E sec p @ snd p"

definition log_bytes :: "esp_env \<Rightarrow> nat \<Rightarrow> jop list \<Rightarrow> byte list" where
  "log_bytes E sec ps = concat (map (op_bytes E sec) ps)"

fun log_sectors :: "nat \<Rightarrow> jop list \<Rightarrow> nat" where
  "log_sectors sec [] = 0"
| "log_sectors sec (p # ps) = 1 + op_sectors sec p + log_sectors sec ps"

text \<open>The store of an image holds a log from its first sector on.\<close>

definition log_at :: "esp_env \<Rightarrow> nat \<Rightarrow> nat \<Rightarrow> jop list \<Rightarrow> image \<Rightarrow> bool" where
  "log_at E sec start ps c \<longleftrightarrow>
     get_bytes c (start * sec) (log_sectors sec ps * sec) = log_bytes E sec ps"

lemma log_sectors_append [simp]: "log_sectors sec (ps @ qs) = log_sectors sec ps + log_sectors sec qs"
  by (induction ps) auto

lemma log_bytes_simps [simp]:
  "log_bytes E sec [] = []"
  "log_bytes E sec (p # ps) = op_bytes E sec p @ log_bytes E sec ps"
  "log_bytes E sec (ps @ qs) = log_bytes E sec ps @ log_bytes E sec qs"
  by (simp_all add: log_bytes_def)

lemma length_header_sector [simp]: "16 \<le> sec \<Longrightarrow> length (header_sector E sec p) = sec"
  by (simp add: header_sector_def)

lemma op_sectors_mult: "sec dvd length (snd p) \<Longrightarrow> op_sectors sec p * sec = length (snd p)"
  by (simp add: op_sectors_def)

lemma length_op_bytes:
  "16 \<le> sec \<Longrightarrow> sec dvd length (snd p) \<Longrightarrow> length (op_bytes E sec p) = (1 + op_sectors sec p) * sec"
  by (simp add: op_bytes_def op_sectors_mult distrib_right)

lemma length_log_bytes:
  "16 \<le> sec \<Longrightarrow> list_all (op_ok sec m) ps \<Longrightarrow> length (log_bytes E sec ps) = log_sectors sec ps * sec"
  by (induction ps) (simp_all add: length_op_bytes op_ok_def distrib_right)

lemma log_at_Nil [simp]: "log_at E sec a [] c"
  by (simp add: log_at_def get_bytes_def)

lemma log_at_Cons:
  assumes "16 \<le> sec" and "sec dvd length (snd p)"
  shows "log_at E sec a (p # ps) c \<longleftrightarrow>
     get_bytes c (a * sec) sec = header_sector E sec p \<and>
     get_bytes c ((a + 1) * sec) (op_sectors sec p * sec) = snd p \<and>
     log_at E sec (a + (1 + op_sectors sec p)) ps c"
proof -
  let ?k = "op_sectors sec p" and ?n = "log_sectors sec ps * sec"
  have split: "get_bytes c (a * sec) ((1 + ?k + log_sectors sec ps) * sec) =
      get_bytes c (a * sec) sec @ get_bytes c ((a + 1) * sec) (?k * sec) @
      get_bytes c ((a + (1 + ?k)) * sec) ?n"
    using get_bytes_split [of c "a * sec" sec "?k * sec + ?n"]
      get_bytes_split [of c "(a + 1) * sec" "?k * sec" ?n]
    by (simp add: algebra_simps)
  have "get_bytes c (a * sec) sec @ get_bytes c ((a + 1) * sec) (?k * sec) @ xs =
      header_sector E sec p @ snd p @ ys \<longleftrightarrow>
      get_bytes c (a * sec) sec = header_sector E sec p \<and>
      get_bytes c ((a + 1) * sec) (?k * sec) = snd p \<and> xs = ys" for xs ys
    using assms by (simp add: op_sectors_mult)
  then show ?thesis
    by (simp only: log_at_def log_sectors.simps log_bytes_simps op_bytes_def append_assoc split)
qed

lemma log_at_append:
  assumes "16 \<le> sec" and "list_all (op_ok sec m) ps"
  shows "log_at E sec a (ps @ qs) c \<longleftrightarrow>
     log_at E sec a ps c \<and> log_at E sec (a + log_sectors sec ps) qs c"
  using assms(2)
proof (induction ps arbitrary: a)
  case (Cons p ps)
  then have "sec dvd length (snd p)" by (simp add: op_ok_def)
  with Cons show ?case by (simp add: log_at_Cons [OF assms(1)] add.assoc)
qed simp

lemma log_at_frame:
  assumes "log_at E sec a ps c"
    and "\<And>i. a * sec \<le> i \<Longrightarrow> i < (a + log_sectors sec ps) * sec \<Longrightarrow> c' i = c i"
  shows "log_at E sec a ps c'"
proof -
  have "get_bytes c' (a * sec) (log_sectors sec ps * sec) = get_bytes c (a * sec) (log_sectors sec ps * sec)"
    using assms(2) by (intro get_bytes_cong) (auto simp: distrib_right)
  then show ?thesis using assms(1) by (simp add: log_at_def)
qed

text \<open>What the replay code finds in a header sector.\<close>

lemma header_sector_parse:
  "operation_of_bytes (header_sector E sec p) = op_record E sec p"
  "take 12 (header_sector E sec p) = oper_header_bytes (op_header E sec p)"
  by (simp only: header_sector_def operation_roundtrip)
    (simp add: header_sector_def operation_bytes_def op_record_def)

section \<open>An operation at a store sector\<close>

text \<open>The index the loops over the log go on with does not wrap inside the store.\<close>

lemma next_operation:
  fixes i n :: u32
  assumes "unat i + (1 + k) < unat n"
  shows "unat (i + (1 + of_nat k)) = unat i + (1 + k)"
proof -
  have "unat i + (1 + k) < 2 ^ 32" using assms unat_lt_2_32 [of n] by linarith
  then show ?thesis by (simp add: unat_word_ariths unat_of_nat)
qed

text \<open>
  What the code computes for an operation at store sector \<open>i\<close>: the two places it reads, and the
  range it writes, none of which wraps.
\<close>

lemma operation_at:
  fixes i :: u32
  assumes g: "geom sec cap m" and ok: "op_ok sec m p"
    and at: "log_at E sec (fs_sectors m + unat i) [p] c"
    and room: "unat i + (1 + op_sectors sec p) < store_sectors m"
  defines "ss \<equiv> disk_sector_size (volume m)" and "k \<equiv> of_nat (op_sectors sec p) :: u32"
  shows "unat k = op_sectors sec p" and "unat (i + 1) = unat i + 1"
    and "get_bytes c ((fs_sectors m + unat i) * sec) (unat (1 :: u32) * sec) = header_sector E sec p"
    and "get_bytes c ((fs_sectors m + unat (i + 1)) * sec) (unat k * sec) = snd p"
    and "unat (fst p * ss) = unat (fst p) * sec" and "unat (k * ss) = length (snd p)"
    and "unat (fst p * ss) + unat (k * ss) \<le> cap"
    and "sec dvd unat (fst p * ss)" and "sec dvd unat (k * ss)"
    and "unat k * unat ss < 2 ^ 32"
proof -
  have sec16: "16 \<le> sec" using geom_sector_pos [OF g] by simp
  have dvd: "sec dvd length (snd p)" using ok by (simp add: op_ok_def)
  have "op_sectors sec p < 2 ^ 32" using room unat_lt_2_32 [of "store_size_sectors m"] by linarith
  then show k: "unat k = op_sectors sec p" unfolding k_def by (rule unat_of_nat_u32)
  show i1: "unat (i + 1) = unat i + 1"
    using room unat_lt_2_32 [of "store_size_sectors m"] by (subst unat_add_no_wrap) auto
  show "get_bytes c ((fs_sectors m + unat i) * sec) (unat (1 :: u32) * sec) = header_sector E sec p"
    and "get_bytes c ((fs_sectors m + unat (i + 1)) * sec) (unat k * sec) = snd p"
    using at by (simp_all add: log_at_Cons [OF sec16 dvd] i1 k add.assoc)
  have "unat (fst p) + unat k \<le> fs_sectors m + store_sectors m" using ok by (simp add: op_ok_def k)
  note addr = geom_address [OF g this, folded ss_def]
  show "unat (fst p * ss) = unat (fst p) * sec" by (rule addr(1))
  show "unat (k * ss) = length (snd p)" by (simp add: addr k op_sectors_mult dvd)
  show "unat (fst p * ss) + unat (k * ss) \<le> cap" using addr by simp
  show "sec dvd unat (fst p * ss)" and "sec dvd unat (k * ss)" by (simp_all add: addr)
  show "unat k * unat ss < 2 ^ 32" using addr(4) g by (simp add: geom_def ss_def)
qed

text \<open>
  The invariant of the loops over the log: the operations \<open>ps\<close> lie from store sector \<open>i\<close> on and
  end where the master record says. It holds of the rest of the log at the next index.
\<close>

definition log_from ::
  "esp_env \<Rightarrow> nat \<Rightarrow> esp_jrnl_master_t \<Rightarrow> u32 \<Rightarrow> jop list \<Rightarrow> image \<Rightarrow> bool" where
  "log_from E sec m i ps c \<longleftrightarrow>
     list_all (op_ok sec m) ps \<and> used_sectors m = unat i + log_sectors sec ps \<and>
     used_sectors m < store_sectors m \<and> log_at E sec (fs_sectors m + unat i) ps c"

lemma log_from_Nil: "log_from E sec m i [] c \<Longrightarrow> \<not> i < next_free_sector m"
  by (simp add: log_from_def word_less_nat_alt)

lemma log_from_Cons:
  assumes g: "geom sec cap m" and l: "log_from E sec m i (p # ps) c"
  shows "i < next_free_sector m" and "op_ok sec m p"
    and "log_at E sec (fs_sectors m + unat i) [p] c"
    and "unat i + (1 + op_sectors sec p) < store_sectors m"
    and "log_from E sec m (i + (1 + of_nat (op_sectors sec p))) ps c"
proof -
  have sec16: "16 \<le> sec" using geom_sector_pos [OF g] by simp
  show ok: "op_ok sec m p" using l by (simp add: log_from_def)
  then have dvd: "sec dvd length (snd p)" by (simp add: op_ok_def)
  show "i < next_free_sector m" using l by (simp add: log_from_def word_less_nat_alt)
  show room: "unat i + (1 + op_sectors sec p) < store_sectors m" using l by (simp add: log_from_def)
  show "log_at E sec (fs_sectors m + unat i) [p] c"
    using l by (simp add: log_from_def log_at_Cons [OF sec16 dvd])
  show "log_from E sec m (i + (1 + of_nat (op_sectors sec p))) ps c"
    using l by (simp add: log_from_def log_at_Cons [OF sec16 dvd] next_operation [OF room] add.assoc)
qed

text \<open>Changes of the file system do not reach the log.\<close>

lemma log_from_agree:
  assumes "log_from E sec m i ps c" and "agree_off (touched sec qs) c c'" and "list_all (op_ok sec m) qs"
  shows "log_from E sec m i ps c'"
proof -
  have "c' j = c j" if "(fs_sectors m + unat i) * sec \<le> j" for j
    using touched_in_fs [OF assms(3)] assms(2) that by (force simp: agree_off_def distrib_right)
  then have "log_at E sec (fs_sectors m + unat i) ps c'"
    using assms(1) by (auto simp: log_from_def intro: log_at_frame)
  then show ?thesis using assms(1) by (simp add: log_from_def)
qed

end
