(* ===== verification/Jrnl_Replay.thy ===== *)
theory Jrnl_Replay
  imports Jrnl_Log
begin

text \<open>
  \<open>jrnl_replay\<close> of \<open>srcs/esp_jrnl.c\<close>: the redo loop over the operations in the store. The
  lemmas show that on a store that holds a log the loop ends, that it either applies the
  whole log in order or stops with an error having touched nothing but target sectors of
  the log, and that a replay whose outcome is \<open>ESP_OK\<close> leaves the volume as if every
  operation had been written to it.
\<close>

section \<open>Model\<close>

text \<open>
  The first half of one turn of the loop: the operation at a store sector is read and checked.
  The buffer of the header has the size of a sector; in a smaller one the checksum of the header
  is read beyond its end.
  \<open>Inl err\<close> is the \<open>break\<close> with that error, \<open>Inr (h, data)\<close> the header and the data buffer, which
  comes from \<open>calloc\<close> and is filled by the read.
\<close>

definition fetch_operation ::
  "esp_env \<Rightarrow> 'd esp_jrnl_instance_t \<Rightarrow> u32 \<Rightarrow>
   (('d, 'z) mach_scheme, esp_err_t + esp_jrnl_oper_header_t \<times> cbuf) prog" where
  "fetch_operation E inst oper_sector_index =
     (let sector_size = disk_sector_size (volume (master inst)) in
      bind (jrnl_read_internal (Some inst) True oper_sector_index 1) (\<lambda>(err, hdr).
      if err \<noteq> ESP_OK then ret (Inl err)
      else if unat sector_size < sizeof_operation then undefined_behaviour
      else
        let oper = operation_of_bytes hdr; h = oper_header oper in
        if esp_crc32_le E UINT32_MAX (take sizeof_oper_header hdr) \<noteq> crc32_header oper
        then ret (Inl ESP_ERR_INVALID_CRC)
        else
        bind (calloc (sector_count h) sector_size) (\<lambda>allocated.
        if \<not> allocated then ret (Inl ESP_ERR_NO_MEM)
        else
        bind (jrnl_read_internal (Some inst) True (oper_sector_index + 1) (sector_count h)) (\<lambda>(err, bs).
        if err \<noteq> ESP_OK then ret (Inl err)
        else
          let data = buf_of bs (\<lambda>_. 0); n = sector_count h * sector_size in
          if esp_crc32_le E UINT32_MAX (buf_bytes data (unat n)) \<noteq> crc32_data h
          then ret (Inl ESP_ERR_INVALID_CRC)
          else ret (Inr (h, data))))))"

text \<open>The whole turn; \<open>Inr i\<close> is the next store sector to look at.\<close>

definition replay_operation ::
  "esp_env \<Rightarrow> 'd esp_jrnl_instance_t \<Rightarrow> u32 \<Rightarrow> (('d, 'z) mach_scheme, esp_err_t + u32) prog" where
  "replay_operation E inst oper_sector_index =
     bind (fetch_operation E inst oper_sector_index) (\<lambda>fetched.
     case fetched of
       Inl err \<Rightarrow> ret (Inl err)
     | Inr (h, data) \<Rightarrow>
         let sector_size = disk_sector_size (volume (master inst)); n = sector_count h * sector_size in
         bind (jrnl_erase_range_raw inst (target_sector h * sector_size) n) (\<lambda>err.
         if err \<noteq> ESP_OK then ret (Inl err)
         else
         bind (jrnl_write_raw inst (target_sector h * sector_size) data n) (\<lambda>err.
         if err \<noteq> ESP_OK then ret (Inl err)
         else ret (Inr (oper_sector_index + (1 + sector_count h))))))"

text \<open>The loop; it has no result when it does not end.\<close>

partial_function (option) replay_loop ::
  "esp_env \<Rightarrow> 'd esp_jrnl_instance_t \<Rightarrow> u32 \<Rightarrow> ('d, 'z) mach_scheme \<Rightarrow>
   (esp_err_t outcome \<times> ('d, 'z) mach_scheme) option" where
  "replay_loop E inst i s =
     (if \<not> i < next_free_sector (master inst) then Some (Ret ESP_OK, s)
      else case replay_operation E inst i s of
             (Ret (Inl err), s') \<Rightarrow> Some (Ret err, s')
           | (Ret (Inr i'), s') \<Rightarrow> replay_loop E inst i' s'
           | (Blocked, s') \<Rightarrow> Some (Blocked, s')
           | (Aborted, s') \<Rightarrow> Some (Aborted, s')
           | (Undefined, s') \<Rightarrow> Some (Undefined, s')
           | (Diverged, s') \<Rightarrow> Some (Diverged, s'))"

definition replay_operations ::
  "esp_env \<Rightarrow> 'd esp_jrnl_instance_t \<Rightarrow> (('d, 'z) mach_scheme, esp_err_t) prog" where
  "replay_operations E inst = (\<lambda>s. case replay_loop E inst 0 s of None \<Rightarrow> (Diverged, s) | Some r \<Rightarrow> r)"

definition release_trans_lock ::
  "'d esp_jrnl_instance_t option \<Rightarrow> 'd esp_jrnl_instance_t option" where
  "release_trans_lock p = map_option (\<lambda>inst. inst\<lparr>trans_lock := False\<rparr>) p"

text \<open>
  The function itself. The early return after a failed allocation of the header buffer does
  not release the lock.
\<close>

definition jrnl_replay ::
  "esp_env \<Rightarrow> 'd esp_jrnl_instance_t option \<Rightarrow>
   (('d, 'z) mach_scheme, esp_err_t \<times> 'd esp_jrnl_instance_t option) prog" where
  "jrnl_replay E inst_ptr =
     (case inst_ptr of
        None \<Rightarrow> ret (ESP_ERR_INVALID_ARG, None)
      | Some inst0 \<Rightarrow>
          bind (lock_acquire (trans_lock inst0)) (\<lambda>locked.
          let inst = inst0\<lparr>trans_lock := locked\<rparr> in
          bind (assert_that (status (master inst) \<noteq> ESP_JRNL_STATUS_FS_INIT)) (\<lambda>_.
          if status (master inst) \<noteq> ESP_JRNL_STATUS_TRANS_COMMIT then
            bind (case status (master inst) of
                    ESP_JRNL_STATUS_TRANS_READY \<Rightarrow> ret (ESP_OK, Some inst)
                  | ESP_JRNL_STATUS_TRANS_OPEN \<Rightarrow> jrnl_reset_master E (Some inst) False
                  | _ \<Rightarrow> ret (ESP_ERR_INVALID_STATE, Some inst)) (\<lambda>(err, p).
            ret (err, release_trans_lock p))
          else
            bind (calloc 1 (disk_sector_size (volume (master inst)))) (\<lambda>allocated.
            if \<not> allocated then ret (ESP_ERR_NO_MEM, Some inst)
            else
            bind (replay_operations E inst) (\<lambda>err.
            bind (if err \<noteq> ESP_OK then ret (err, Some inst)
                  else jrnl_reset_master E (Some inst) False) (\<lambda>(err, p).
            ret (err, release_trans_lock p)))))))"

section \<open>One operation\<close>

text \<open>The fetch on a header the code wrote, whatever the disk routines answer.\<close>

lemma fetch_operation_eq:
  assumes "jrnl_read_internal (Some inst) True i 1 s = (Ret (ESP_OK, header_sector E sec p), s1)"
    and "calloc (of_nat (op_sectors sec p)) (disk_sector_size (volume (master inst))) s1 = (Ret a, s2)"
    and "jrnl_read_internal (Some inst) True (i + 1) (of_nat (op_sectors sec p)) s2 = (Ret (err, bs), s3)"
    and "err = ESP_OK \<Longrightarrow> bs = snd p"
    and "unat (of_nat (op_sectors sec p) * disk_sector_size (volume (master inst))) = length (snd p)"
    and "sizeof_operation \<le> unat (disk_sector_size (volume (master inst)))"
  shows "fetch_operation E inst i s =
     (if \<not> a then (Ret (Inl ESP_ERR_NO_MEM), s2)
      else if err \<noteq> ESP_OK then (Ret (Inl err), s3)
      else (Ret (Inr (op_header E sec p, buf_of (snd p) (\<lambda>_. 0))), s3))"
  using assms
  by (auto simp: fetch_operation_def Let_def run_bind_Ret run_ret header_sector_parse
      op_record_def op_header_def sizeof_oper_header_def)

context block_device
begin

text \<open>
  The disk part of one turn: read back, erase and write, with any error on the way. The
  operation is found at store sector \<open>i\<close>.
\<close>

lemma fetch_operation_run:
  assumes io: "diskio inst = io" and g: "geom sector capacity (master inst)"
    and ok: "op_ok sector (master inst) p"
    and at: "log_at E sector (fs_sectors (master inst) + unat i) [p] (content (dev s))"
    and room: "unat i + (1 + op_sectors sector p) < store_sectors (master inst)"
  obtains r d hp where "fetch_operation E inst i s = (Ret r, s\<lparr>dev := d, heap := hp\<rparr>)"
    and "content d = content (dev s)"
    and "(\<exists>err. err \<noteq> ESP_OK \<and> r = Inl err) \<or> r = Inr (op_header E sector p, buf_of (snd p) (\<lambda>_. 0))"
proof -
  let ?ss = "disk_sector_size (volume (master inst))" and ?k = "of_nat (op_sectors sector p) :: u32"
  note op = operation_at [OF g ok at room]
  obtain err1 bs1 d1 where r1: "jrnl_read_internal (Some inst) True i 1 s = (Ret (err1, bs1), s\<lparr>dev := d1\<rparr>)"
    and c1: "content d1 = content (dev s)" and b1: "err1 = ESP_OK \<Longrightarrow> bs1 = header_sector E sector p"
    using read_internal_run [OF io g, of i 1 s] room op(3) by auto
  show thesis
  proof (cases "err1 = ESP_OK")
    case False
    then show thesis using that [of "Inl err1" "heap s" d1] r1 c1
      by (simp add: fetch_operation_def Let_def run_bind_Ret run_ret)
  next
    case True
    obtain a hp where al: "calloc ?k ?ss (s\<lparr>dev := d1\<rparr>) = (Ret a, s\<lparr>dev := d1, heap := hp\<rparr>)"
      by (rule calloc_run [of ?k ?ss "s\<lparr>dev := d1\<rparr>"]) simp
    let ?s1 = "s\<lparr>dev := d1, heap := hp\<rparr>"
    obtain err2 bs2 d2 where r2: "jrnl_read_internal (Some inst) True (i + 1) ?k ?s1 = (Ret (err2, bs2), ?s1\<lparr>dev := d2\<rparr>)"
      and c2: "content d2 = content (dev s)" and b2: "err2 = ESP_OK \<Longrightarrow> bs2 = snd p"
      using read_internal_run [OF io g, of "i + 1" ?k ?s1] room op(1,2,4) c1 by auto
    note run = fetch_operation_eq [OF r1 [unfolded True b1 [OF True]] al r2 b2 op(6) geom_header_fits [OF g]]
    consider "\<not> a" | "a" "err2 \<noteq> ESP_OK" | "a" "err2 = ESP_OK" by blast
    then show thesis
      using that [of "Inl ESP_ERR_NO_MEM" hp d1] that [of "Inl err2" hp d2]
        that [of "Inr (op_header E sector p, buf_of (snd p) (\<lambda>_. 0))" hp d2] run c1 c2
      by cases simp_all
  qed
qed

text \<open>The sectors of an operation are erased and written: any error leaves the rest of the disk.\<close>

lemma operation_transfer:
  assumes g: "geom sector capacity m" and ok: "op_ok sector m p"
    and at: "log_at E sector (fs_sectors m + unat (i :: u32)) [p] c"
    and room: "unat i + (1 + op_sectors sector p) < store_sectors m"
    and e: "disk_erase_range io (diskio_ctrl_handle io) (fst p * disk_sector_size (volume m))
        (of_nat (op_sectors sector p) * disk_sector_size (volume m)) d = (err, d1)"
    and w: "disk_write io (diskio_ctrl_handle io) (fst p * disk_sector_size (volume m)) (buf_of (snd p) (\<lambda>_. 0))
        (of_nat (op_sectors sector p) * disk_sector_size (volume m)) d1 = (err', d2)"
  shows "agree_off (touched sector [p]) (content d) (content d1)"
    and "agree_off (touched sector [p]) (content d) (content d2)"
    and "err = ESP_OK \<Longrightarrow> err' = ESP_OK \<Longrightarrow> content d2 = apply_op sector p (content d)"
proof -
  note op = operation_at [OF g ok at room]
  have rng: "{unat (fst p) * sector ..< unat (fst p) * sector + length (snd p)} \<subseteq> touched sector [p]" by simp
  show "agree_off (touched sector [p]) (content d) (content d1)"
    by (rule agree_off_same_outside [OF erase_frame [OF e op(7), unfolded op(5,6)] rng])
  show "agree_off (touched sector [p]) (content d) (content d2)"
    by (rule agree_off_same_outside [OF erase_then_write_frame [OF e w op(7), unfolded op(5,6)] rng])
  show "content d2 = apply_op sector p (content d)" if "err = ESP_OK" "err' = ESP_OK"
    using erase_then_write_ok [OF e [unfolded that(1)] w [unfolded that(2)] op(8,9,7)]
    by (simp add: apply_op_def op(5,6))
qed

lemma replay_operation_run:
  assumes io: "diskio inst = io" and g: "geom sector capacity (master inst)"
    and ok: "op_ok sector (master inst) p"
    and at: "log_at E sector (fs_sectors (master inst) + unat i) [p] (content (dev s))"
    and room: "unat i + (1 + op_sectors sector p) < store_sectors (master inst)"
  obtains r d hp where "replay_operation E inst i s = (Ret r, s\<lparr>dev := d, heap := hp\<rparr>)"
    and "agree_off (touched sector [p]) (content (dev s)) (content d)"
    and "(\<exists>err. err \<noteq> ESP_OK \<and> r = Inl err) \<or>
         r = Inr (i + (1 + of_nat (op_sectors sector p))) \<and> content d = apply_op sector p (content (dev s))"
proof -
  let ?ss = "disk_sector_size (volume (master inst))" and ?k = "of_nat (op_sectors sector p) :: u32"
  let ?src = "buf_of (snd p) (\<lambda>_. 0)"
  obtain r d hp where f: "fetch_operation E inst i s = (Ret r, s\<lparr>dev := d, heap := hp\<rparr>)"
    and c: "content d = content (dev s)"
    and rr: "(\<exists>err. err \<noteq> ESP_OK \<and> r = Inl err) \<or> r = Inr (op_header E sector p, ?src)"
    by (rule fetch_operation_run [OF io g ok at room])
  show thesis
  proof (cases r)
    case (Inl err)
    then show thesis using that [of "Inl err" hp d] rr f c by (auto simp: replay_operation_def run_bind_Ret run_ret)
  next
    case (Inr fetched)
    obtain e1 d1 where e: "disk_erase_range io (diskio_ctrl_handle io) (fst p * ?ss) (?k * ?ss) d = (e1, d1)" by fastforce
    obtain e2 d2 where w: "disk_write io (diskio_ctrl_handle io) (fst p * ?ss) ?src (?k * ?ss) d1 = (e2, d2)" by fastforce
    note tr = operation_transfer [OF g ok at room e w, unfolded c]
    have run: "replay_operation E inst i s =
       (if e1 \<noteq> ESP_OK then (Ret (Inl e1), s\<lparr>dev := d1, heap := hp\<rparr>)
        else if e2 \<noteq> ESP_OK then (Ret (Inl e2), s\<lparr>dev := d2, heap := hp\<rparr>)
        else (Ret (Inr (i + (1 + ?k))), s\<lparr>dev := d2, heap := hp\<rparr>))"
      using f rr Inr e w io
      by (auto simp: replay_operation_def run_bind_Ret run_ret Let_def op_header_def
          jrnl_erase_range_raw_def jrnl_write_raw_def)
    consider "e1 \<noteq> ESP_OK" | "e1 = ESP_OK" "e2 \<noteq> ESP_OK" | "e1 = ESP_OK" "e2 = ESP_OK" by blast
    then show thesis
      using that [of "Inl e1" hp d1] that [of "Inl e2" hp d2] that [of "Inr (i + (1 + ?k))" hp d2] run tr
      by cases simp_all
  qed
qed

section \<open>The loop\<close>

lemma replay_loop_run:
  assumes io: "diskio inst = io" and g: "geom sector capacity (master inst)"
    and "log_from E sector (master inst) i ps (content (dev s))"
  shows "\<exists>err d hp. replay_loop E inst i s = Some (Ret err, s\<lparr>dev := d, heap := hp\<rparr>) \<and>
     agree_off (touched sector ps) (content (dev s)) (content d) \<and>
     (err = ESP_OK \<longrightarrow> content d = apply_ops sector ps (content (dev s)))"
  using assms(3)
proof (induction ps arbitrary: i s)
  case Nil
  then show ?case
    by (intro exI [of _ ESP_OK] exI [of _ "dev s"] exI [of _ "heap s"])
      (simp add: replay_loop.simps log_from_Nil [OF Nil])
next
  case (Cons p ps)
  let ?i = "i + (1 + of_nat (op_sectors sector p))"
  note hd = log_from_Cons [OF g Cons.prems]
  obtain r d hp where r: "replay_operation E inst i s = (Ret r, s\<lparr>dev := d, heap := hp\<rparr>)"
    and ag: "agree_off (touched sector [p]) (content (dev s)) (content d)"
    and rr: "(\<exists>err. err \<noteq> ESP_OK \<and> r = Inl err) \<or>
         r = Inr ?i \<and> content d = apply_op sector p (content (dev s))"
    by (rule replay_operation_run [OF io g hd(2-4)])
  have ag1: "agree_off (touched sector (p # ps)) (content (dev s)) (content d)"
    using ag by (rule agree_off_mono) auto
  show ?case
  proof (cases r)
    case (Inl err)
    then have "replay_loop E inst i s = Some (Ret err, s\<lparr>dev := d, heap := hp\<rparr>)" "err \<noteq> ESP_OK"
      using rr r hd(1) by (auto simp: replay_loop.simps [of E inst i s])
    with ag1 show ?thesis by blast
  next
    case (Inr j)
    let ?s1 = "s\<lparr>dev := d, heap := hp\<rparr>"
    have step: "replay_loop E inst i s = replay_loop E inst ?i ?s1"
      and c: "content d = apply_op sector p (content (dev s))"
      using r Inr rr hd(1) by (auto simp: replay_loop.simps [of E inst i s])
    have "log_from E sector (master inst) ?i ps (content (dev ?s1))"
      using log_from_agree [OF hd(5) ag] hd(2) by simp
    from Cons.IH [OF this] obtain err d' hp' where
      "replay_loop E inst ?i ?s1 = Some (Ret err, s\<lparr>dev := d', heap := hp'\<rparr>)"
      and ag': "agree_off (touched sector ps) (content d) (content d')"
      and "err = ESP_OK \<longrightarrow> content d' = apply_ops sector ps (content d)"
      by auto
    moreover have "agree_off (touched sector (p # ps)) (content d) (content d')"
      using ag' by (rule agree_off_mono) auto
    ultimately show ?thesis using step c agree_off_trans [OF ag1] by auto
  qed
qed

section \<open>The whole replay\<close>

lemma replay_operations_run:
  assumes io: "diskio inst = io" and g: "geom sector capacity (master inst)"
    and ok: "list_all (op_ok sector (master inst)) ps"
    and used: "used_sectors (master inst) = log_sectors sector ps"
    and fits: "used_sectors (master inst) < store_sectors (master inst)"
    and at: "log_at E sector (fs_sectors (master inst)) ps (content (dev s))"
  obtains err d hp where "replay_operations E inst s = (Ret err, s\<lparr>dev := d, heap := hp\<rparr>)"
    and "agree_off (touched sector ps) (content (dev s)) (content d)"
    and "err = ESP_OK \<Longrightarrow> content d = apply_ops sector ps (content (dev s))"
proof -
  obtain err d hp where "replay_loop E inst 0 s = Some (Ret err, s\<lparr>dev := d, heap := hp\<rparr>)"
    and "agree_off (touched sector ps) (content (dev s)) (content d)"
    and "err = ESP_OK \<longrightarrow> content d = apply_ops sector ps (content (dev s))"
    using replay_loop_run [OF io g, of E 0 ps s] ok used fits at by (auto simp: log_from_def)
  then show thesis using that [of err hp d] by (simp add: replay_operations_def)
qed

text \<open>
  A committed transaction: on success the log is applied and the record reset; after an
  error either only targets of the log were touched, or the log was applied and the update
  of the master record failed.
\<close>

lemma replay_commit_run:
  assumes io: "diskio inst = io" and g: "geom sector capacity (master inst)"
    and ok: "list_all (op_ok sector (master inst)) ps"
    and used: "used_sectors (master inst) = log_sectors sector ps"
    and fits: "used_sectors (master inst) < store_sectors (master inst)"
    and at: "log_at E sector (fs_sectors (master inst)) ps (content (dev s))"
    and st: "status (master inst) = ESP_JRNL_STATUS_TRANS_COMMIT"
    and unlocked: "\<not> trans_lock inst"
  obtains err inst' d hp where
    "jrnl_replay E (Some inst) s = (Ret (err, Some inst'), s\<lparr>dev := d, heap := hp\<rparr>)"
    and "diskio inst' = io" and "geom sector capacity (master inst')"
    and "err = ESP_OK \<Longrightarrow>
           inst' = inst\<lparr>master := reset_fields False (master inst)\<rparr> \<and>
           content d = put_bytes (apply_ops sector ps (content (dev s))) (master_addr sector (master inst))
             (master_sector E sector (reset_fields False (master inst)))"
    and "agree_off (touched sector ps) (content (dev s)) (content d) \<or>
         sector_update erased (apply_ops sector ps (content (dev s))) (master_addr sector (master inst))
           (master_sector E sector (reset_fields False (master inst))) err (content d)"
proof -
  let ?i = "inst\<lparr>trans_lock := True\<rparr>" and ?ss = "disk_sector_size (volume (master inst))"
  have unl: "inst\<lparr>trans_lock := False\<rparr> = inst" using unlocked by (cases inst) simp
  obtain a hp0 where al: "calloc 1 ?ss s = (Ret a, s\<lparr>heap := hp0\<rparr>)" by (rule calloc_run)
  obtain err d hp where r: "replay_operations E ?i (s\<lparr>heap := hp0\<rparr>) = (Ret err, s\<lparr>heap := hp0, dev := d, heap := hp\<rparr>)"
    and ag: "agree_off (touched sector ps) (content (dev s)) (content d)"
    and ap: "err = ESP_OK \<Longrightarrow> content d = apply_ops sector ps (content (dev s))"
    by (rule replay_operations_run [of ?i ps E "s\<lparr>heap := hp0\<rparr>"]) (use io g ok used fits at in simp_all)
  let ?s1 = "s\<lparr>dev := d, heap := hp\<rparr>"
  obtain err' d' where m: "jrnl_reset_master E (Some ?i) False ?s1 =
      (Ret (err', Some (?i\<lparr>master := reset_fields False (master inst)\<rparr>)), ?s1\<lparr>dev := d'\<rparr>)"
    and u: "sector_update erased (content d) (master_addr sector (master inst))
           (master_sector E sector (reset_fields False (master inst))) err' (content d')"
    by (rule reset_master_run [of ?i E False ?s1]) (use io g in simp_all)
  have run: "jrnl_replay E (Some inst) s =
     (if \<not> a then (Ret (ESP_ERR_NO_MEM, Some ?i), s\<lparr>heap := hp0\<rparr>)
      else if err \<noteq> ESP_OK then (Ret (err, Some inst), ?s1)
      else (Ret (err', Some (inst\<lparr>master := reset_fields False (master inst)\<rparr>)), ?s1\<lparr>dev := d'\<rparr>))"
    using unlocked st al r m unl
    by (auto simp: jrnl_replay_def prog_simps Let_def run_bind_Ret release_trans_lock_def)
  consider "\<not> a" | "a" "err \<noteq> ESP_OK" | "a" "err = ESP_OK" by blast
  then show thesis
  proof cases
    case 1
    then show thesis using that [of ESP_ERR_NO_MEM ?i hp0 "dev s"] run io g by simp
  next
    case 2
    then show thesis using that [of err inst hp d] run io g ag by simp
  next
    case 3
    with ap u have "sector_update erased (apply_ops sector ps (content (dev s))) (master_addr sector (master inst))
           (master_sector E sector (reset_fields False (master inst))) err' (content d')"
      by simp
    with 3 show thesis
      using that [of err' "inst\<lparr>master := reset_fields False (master inst)\<rparr>" hp d'] run io g
      by (simp add: sector_update_def)
  qed
qed

text \<open>Without a committed transaction: a ready journal is left alone, an open one is dropped.\<close>

lemma replay_ready_run:
  assumes "status (master inst) = ESP_JRNL_STATUS_TRANS_READY" and "\<not> trans_lock inst"
  shows "jrnl_replay E (Some inst) s = (Ret (ESP_OK, Some inst), s)"
proof -
  have "inst\<lparr>trans_lock := False\<rparr> = inst" using assms(2) by (cases inst) simp
  then show ?thesis
    using assms by (simp add: jrnl_replay_def prog_simps Let_def release_trans_lock_def)
qed

lemma replay_open_run:
  assumes io: "diskio inst = io" and g: "geom sector capacity (master inst)"
    and st: "status (master inst) = ESP_JRNL_STATUS_TRANS_OPEN" and unlocked: "\<not> trans_lock inst"
  obtains err d where
    "jrnl_replay E (Some inst) s =
      (Ret (err, Some (inst\<lparr>master := reset_fields False (master inst)\<rparr>)), s\<lparr>dev := d\<rparr>)"
    and "sector_update erased (content (dev s)) (master_addr sector (master inst))
           (master_sector E sector (reset_fields False (master inst))) err (content d)"
proof -
  let ?i = "inst\<lparr>trans_lock := True\<rparr>"
  have unl: "inst\<lparr>trans_lock := False\<rparr> = inst" using unlocked by (cases inst) simp
  obtain err d where m: "jrnl_reset_master E (Some ?i) False s =
      (Ret (err, Some (?i\<lparr>master := reset_fields False (master inst)\<rparr>)), s\<lparr>dev := d\<rparr>)"
    and u: "sector_update erased (content (dev s)) (master_addr sector (master inst))
           (master_sector E sector (reset_fields False (master inst))) err (content d)"
    by (rule reset_master_run [of ?i E False s]) (use io g in simp_all)
  show thesis
    using that [of err d] u st unlocked unl m
    by (simp add: jrnl_replay_def prog_simps Let_def run_bind_Ret release_trans_lock_def)
qed

end

text \<open>On a healthy device with memory to spare, replaying a committed transaction succeeds.\<close>

context reliable_device
begin

lemma fetch_operation_serves:
  assumes io: "diskio inst = io" and g: "geom sector capacity (master inst)"
    and ok: "op_ok sector (master inst) p"
    and at: "log_at E sector (fs_sectors (master inst) + unat i) [p] (content (dev s))"
    and room: "unat i + (1 + op_sectors sector p) < store_sectors (master inst)"
    and hl: "healthy (dev s)" and hp: "heap s = []"
  obtains d where
    "fetch_operation E inst i s = (Ret (Inr (op_header E sector p, buf_of (snd p) (\<lambda>_. 0))), s\<lparr>dev := d\<rparr>)"
    and "healthy d" and "content d = content (dev s)"
proof -
  let ?ss = "disk_sector_size (volume (master inst))" and ?k = "of_nat (op_sectors sector p) :: u32"
  note op = operation_at [OF g ok at room]
  obtain d1 where r1: "jrnl_read_internal (Some inst) True i 1 s = (Ret (ESP_OK, header_sector E sector p), s\<lparr>dev := d1\<rparr>)"
    and h1: "healthy d1" and c1: "content d1 = content (dev s)"
    by (rule read_internal_serves [OF io g, of i 1 s]) (use room hl op(3) in simp_all)
  have al: "calloc ?k ?ss (s\<lparr>dev := d1\<rparr>) = (Ret True, s\<lparr>dev := d1\<rparr>)"
    using hp op(10) by (intro calloc_empty_heap) simp_all
  obtain d2 where r2: "jrnl_read_internal (Some inst) True (i + 1) ?k (s\<lparr>dev := d1\<rparr>) =
      (Ret (ESP_OK, snd p), s\<lparr>dev := d2\<rparr>)" and h2: "healthy d2" and c2: "content d2 = content (dev s)"
    by (rule read_internal_serves [OF io g, of "i + 1" ?k "s\<lparr>dev := d1\<rparr>"])
      (use room h1 op(1,2,4) c1 in simp_all)
  show thesis using that [OF _ h2 c2] fetch_operation_eq [OF r1 al r2 _ op(6) geom_header_fits [OF g]] by simp
qed

lemma replay_operation_serves:
  assumes io: "diskio inst = io" and g: "geom sector capacity (master inst)"
    and ok: "op_ok sector (master inst) p"
    and at: "log_at E sector (fs_sectors (master inst) + unat i) [p] (content (dev s))"
    and room: "unat i + (1 + op_sectors sector p) < store_sectors (master inst)"
    and hl: "healthy (dev s)" and hp: "heap s = []"
  obtains d where
    "replay_operation E inst i s = (Ret (Inr (i + (1 + of_nat (op_sectors sector p)))), s\<lparr>dev := d\<rparr>)"
    and "healthy d" and "content d = apply_op sector p (content (dev s))"
proof -
  let ?ss = "disk_sector_size (volume (master inst))" and ?k = "of_nat (op_sectors sector p) :: u32"
  let ?src = "buf_of (snd p) (\<lambda>_. 0)"
  note op = operation_at [OF g ok at room]
  obtain d where f: "fetch_operation E inst i s = (Ret (Inr (op_header E sector p, ?src)), s\<lparr>dev := d\<rparr>)"
    and h: "healthy d" and c: "content d = content (dev s)"
    by (rule fetch_operation_serves [OF io g ok at room hl hp])
  obtain d1 where e: "disk_erase_range io (diskio_ctrl_handle io) (fst p * ?ss) (?k * ?ss) d = (ESP_OK, d1)"
    and h1: "healthy d1"
    using erase_serves [OF h op(8,9,7)] by blast
  obtain d2 where w: "disk_write io (diskio_ctrl_handle io) (fst p * ?ss) ?src (?k * ?ss) d1 = (ESP_OK, d2)"
    and h2: "healthy d2"
    using write_serves [OF h1 op(8,9,7)] by blast
  have "content d2 = apply_op sector p (content (dev s))"
    using operation_transfer(3) [OF g ok at room e w refl refl] c by simp
  then show thesis
    using f e w io h2
    by (intro that [of d2])
      (simp_all add: replay_operation_def run_bind_Ret run_ret Let_def op_header_def
        jrnl_erase_range_raw_def jrnl_write_raw_def)
qed

lemma replay_loop_serves:
  assumes io: "diskio inst = io" and g: "geom sector capacity (master inst)"
    and "log_from E sector (master inst) i ps (content (dev s))"
    and "healthy (dev s)" and "heap s = []"
  shows "\<exists>d. replay_loop E inst i s = Some (Ret ESP_OK, s\<lparr>dev := d\<rparr>) \<and> healthy d \<and>
     content d = apply_ops sector ps (content (dev s))"
  using assms(3-5)
proof (induction ps arbitrary: i s)
  case Nil
  then show ?case by (intro exI [of _ "dev s"]) (simp add: replay_loop.simps log_from_Nil [OF Nil(1)])
next
  case (Cons p ps)
  let ?i = "i + (1 + of_nat (op_sectors sector p))"
  note hd = log_from_Cons [OF g Cons.prems(1)]
  obtain d where r: "replay_operation E inst i s = (Ret (Inr ?i), s\<lparr>dev := d\<rparr>)"
    and h: "healthy d" and c: "content d = apply_op sector p (content (dev s))"
    by (rule replay_operation_serves [OF io g hd(2-4) Cons.prems(2,3)])
  have "log_from E sector (master inst) ?i ps (content (dev (s\<lparr>dev := d\<rparr>)))"
    using log_from_agree [OF hd(5) apply_op_agree] hd(2) c by simp
  from Cons.IH [OF this] Cons.prems(3) h
  obtain d' where "replay_loop E inst ?i (s\<lparr>dev := d\<rparr>) = Some (Ret ESP_OK, s\<lparr>dev := d'\<rparr>)"
    and "healthy d'" and "content d' = apply_ops sector ps (content d)"
    by auto
  then show ?case
    using r hd(1) c by (intro exI [of _ d']) (simp add: replay_loop.simps [of E inst i s])
qed

lemma replay_commit_serves:
  assumes io: "diskio inst = io" and g: "geom sector capacity (master inst)"
    and ok: "list_all (op_ok sector (master inst)) ps"
    and used: "used_sectors (master inst) = log_sectors sector ps"
    and fits: "used_sectors (master inst) < store_sectors (master inst)"
    and at: "log_at E sector (fs_sectors (master inst)) ps (content (dev s))"
    and st: "status (master inst) = ESP_JRNL_STATUS_TRANS_COMMIT"
    and unlocked: "\<not> trans_lock inst" and hl: "healthy (dev s)" and hp: "heap s = []"
  obtains d where
    "jrnl_replay E (Some inst) s =
      (Ret (ESP_OK, Some (inst\<lparr>master := reset_fields False (master inst)\<rparr>)), s\<lparr>dev := d\<rparr>)"
    and "healthy d"
proof -
  let ?i = "inst\<lparr>trans_lock := True\<rparr>" and ?ss = "disk_sector_size (volume (master inst))"
  have unl: "inst\<lparr>trans_lock := False\<rparr> = inst" using unlocked by (cases inst) simp
  have "unat ?ss < 2 ^ 32" by (rule unat_lt_2_32)
  then have al: "calloc 1 ?ss s = (Ret True, s)" using hp by (intro calloc_empty_heap) simp_all
  obtain d where r: "replay_operations E ?i s = (Ret ESP_OK, s\<lparr>dev := d\<rparr>)" and h: "healthy d"
    using replay_loop_serves [of ?i E 0 ps s] io g ok used fits at hl hp
    by (auto simp: replay_operations_def log_from_def)
  obtain d' where m: "jrnl_reset_master E (Some ?i) False (s\<lparr>dev := d\<rparr>) =
      (Ret (ESP_OK, Some (?i\<lparr>master := reset_fields False (master inst)\<rparr>)), s\<lparr>dev := d'\<rparr>)"
    and h': "healthy d'"
    using reset_master_serves [of ?i "s\<lparr>dev := d\<rparr>" E False] io g h by auto
  show thesis
    using that [of d'] h' unlocked st al r m unl
    by (simp add: jrnl_replay_def prog_simps Let_def run_bind_Ret release_trans_lock_def)
qed

end

end
