(* ===== verification/Jrnl_Core.thy ===== *)
theory Jrnl_Core
  imports Jrnl_Replay
begin

text \<open>
  The public interface of the journaling core (\<open>srcs/esp_jrnl.c\<close>, \<open>PUBLIC APIS\<close>): the table
  of instances, mounting and unmounting, transactions, and sector reads and writes. The
  model is of the default build, without \<open>CONFIG_ESP_JRNL_ENABLE_TESTMODE\<close>, in which the
  test macros are empty.
\<close>

section \<open>State\<close>

text \<open>
  The two globals of the file on top of the machine: the lock of the table and the table of
  instance pointers. Instances are reached through the table only, so an entry holds the
  instance itself.
\<close>

record 'd jrnl_world = "'d mach" +
  s_instances_lock :: bool
  s_jrnl_instance_ptrs :: "'d esp_jrnl_instance_t option list"

definition init_instance_ptrs :: "'d esp_jrnl_instance_t option list" where
  "init_instance_ptrs = replicate JRNL_MAX_HANDLES None"

text \<open>Following \<open>s_jrnl_instance_ptrs[handle]\<close>, and storing through it.\<close>

definition with_instance ::
  "esp_jrnl_handle_t \<Rightarrow> ('d esp_jrnl_instance_t \<Rightarrow> (('d, 'z) jrnl_world_scheme, 'a) prog) \<Rightarrow>
   (('d, 'z) jrnl_world_scheme, 'a) prog" where
  "with_instance h f =
     bind (gets (\<lambda>s. s_jrnl_instance_ptrs s ! nat h)) (\<lambda>p.
     case p of None \<Rightarrow> undefined_behaviour | Some inst \<Rightarrow> f inst)"

definition put_instance ::
  "esp_jrnl_handle_t \<Rightarrow> 'd esp_jrnl_instance_t option \<Rightarrow> (('d, 'z) jrnl_world_scheme, unit) prog" where
  "put_instance h p =
     modify (\<lambda>s. s\<lparr>s_jrnl_instance_ptrs := (s_jrnl_instance_ptrs s)[nat h := p]\<rparr>)"

text \<open>
  A handle below -1 passes both guards and indexes before the table, which C leaves
  undefined.
\<close>

definition jrnl_check_handle ::
  "esp_jrnl_handle_t \<Rightarrow> (('d, 'z) jrnl_world_scheme, esp_err_t) prog" where
  "jrnl_check_handle h =
     (if h = JRNL_INVALID_HANDLE then ret ESP_ERR_INVALID_STATE
      else if int JRNL_MAX_HANDLES \<le> h then ret ESP_ERR_INVALID_ARG
      else if h < 0 then undefined_behaviour
      else bind (gets (\<lambda>s. s_jrnl_instance_ptrs s ! nat h)) (\<lambda>p.
           if Option.is_none p then ret ESP_ERR_NOT_FOUND else ret ESP_OK))"

section \<open>Mounting\<close>

text \<open>The first free slot of the table, or \<open>JRNL_INVALID_HANDLE\<close>.\<close>

definition find_free_handle :: "'d esp_jrnl_instance_t option list \<Rightarrow> esp_jrnl_handle_t" where
  "find_free_handle ptrs =
     (case first_index Option.is_none ptrs of None \<Rightarrow> JRNL_INVALID_HANDLE | Some i \<Rightarrow> int i)"

text \<open>
  The part of \<open>esp_jrnl_mount\<close> that looks for an earlier journal: the master record of the
  disk is read into the new instance, compared with the configuration and, if configured so,
  the journal is replayed.
\<close>

definition resume_journal ::
  "esp_env \<Rightarrow> 'd esp_jrnl_config_extended_t \<Rightarrow> 'd esp_jrnl_instance_t \<Rightarrow>
   (('d, 'z) mach_scheme, esp_err_t \<times> 'd esp_jrnl_instance_t option) prog" where
  "resume_journal E config jrnl =
     bind (jrnl_read_raw jrnl
             (volume_size (volume_cfg config) - disk_sector_size (volume_cfg config))
             (of_nat sizeof_master)) (\<lambda>(err, bs).
     if err \<noteq> ESP_OK then ret (err, Some jrnl)
     else
       let jrnl1 = jrnl\<lparr>master := master_of_bytes bs\<rparr> in
       if jrnl_magic_mark (master jrnl1) = JRNL_STORE_MARKER then
         if \<not> (volume_size (volume_cfg config) = volume_size (volume (master jrnl1)) \<and>
               disk_sector_size (volume_cfg config) = disk_sector_size (volume (master jrnl1)) \<and>
               cfg_store_size_sectors (user_cfg config) = store_size_sectors (master jrnl1))
         then ret (ESP_ERR_INVALID_STATE, Some jrnl1)
         else if replay_journal_after_mount (user_cfg config) then jrnl_replay E (Some jrnl1)
         else ret (ESP_OK, Some jrnl1)
       else ret (ESP_OK, Some jrnl1))"

text \<open>
  The rest of it: the fields of the record are set from the configuration and the record is
  reset and written. A zero sector size divides by zero.
\<close>

definition create_journal ::
  "esp_env \<Rightarrow> 'd esp_jrnl_config_extended_t \<Rightarrow> bool \<Rightarrow> 'd esp_jrnl_instance_t \<Rightarrow>
   (('d, 'z) mach_scheme, esp_err_t \<times> 'd esp_jrnl_instance_t option) prog" where
  "create_journal E config need_fresh_journal jrnl =
     (if disk_sector_size (volume_cfg config) = 0 then undefined_behaviour
      else jrnl_reset_master E
        (Some (jrnl\<lparr>master := (master jrnl)
           \<lparr>store_size_sectors := cfg_store_size_sectors (user_cfg config),
            store_volume_offset_sector :=
              volume_size (volume_cfg config) div disk_sector_size (volume_cfg config)
                - cfg_store_size_sectors (user_cfg config),
            volume := volume_cfg config\<rparr>\<rparr>))
        need_fresh_journal)"

text \<open>
  \<open>sizeof(esp_jrnl_instance_t)\<close> only sizes an allocation: a lock word, the padded volume id, the
  16 bytes of the disk interface and the 28 of the master record. The result
  is the error code and the new value of \<open>*jrnl_handle\<close> (\<open>None\<close>: a \<open>NULL\<close> pointer).
\<close>

definition new_instance :: "'d esp_jrnl_config_extended_t \<Rightarrow> 'd esp_jrnl_instance_t" where
  "new_instance config =
     \<lparr> trans_lock = False, fs_volume_id = cfg_fs_volume_id config, diskio = diskio_cfg config,
       master = zero_master \<rparr>"

definition mount_instance ::
  "esp_env \<Rightarrow> 'd esp_jrnl_config_extended_t \<Rightarrow>
   (('d, 'z) mach_scheme, esp_err_t \<times> 'd esp_jrnl_instance_t option) prog" where
  "mount_instance E config =
     bind (calloc 1 52) (\<lambda>allocated.
     if \<not> allocated then ret (ESP_ERR_NO_MEM, None)
     else
       let jrnl = new_instance config;
           need_fresh_journal = (force_fs_format (user_cfg config) \<or> overwrite_existing (user_cfg config))
       in bind (if need_fresh_journal then ret (ESP_OK, Some jrnl)
                else resume_journal E config jrnl) (\<lambda>(err, p).
          case p of None \<Rightarrow> ret (err, None) | Some jrnl1 \<Rightarrow>
          if err \<noteq> ESP_OK then ret (err, Some jrnl1)
          else create_journal E config need_fresh_journal jrnl1))"

definition esp_jrnl_mount ::
  "esp_env \<Rightarrow> 'd esp_jrnl_config_extended_t option \<Rightarrow> esp_jrnl_handle_t option \<Rightarrow>
   (('d, 'z) jrnl_world_scheme, esp_err_t \<times> esp_jrnl_handle_t option) prog" where
  "esp_jrnl_mount E config_ptr jrnl_handle =
     (case config_ptr of
        None \<Rightarrow> ret (ESP_ERR_INVALID_ARG, jrnl_handle)
      | Some config \<Rightarrow>
          if jrnl_handle = None \<or> cfg_store_size_sectors (user_cfg config) < JRNL_MIN_STORE_SIZE
          then ret (ESP_ERR_INVALID_ARG, jrnl_handle)
          else
          bind (gets s_instances_lock) (\<lambda>held.
          bind (lock_acquire held) (\<lambda>locked.
          bind (modify (\<lambda>s. s\<lparr>s_instances_lock := locked\<rparr>)) (\<lambda>_.
          bind (gets (\<lambda>s. find_free_handle (s_jrnl_instance_ptrs s))) (\<lambda>out_handle.
          bind (if out_handle = JRNL_INVALID_HANDLE then ret (ESP_ERR_NO_MEM, None)
                else mount_instance E config) (\<lambda>(err, jrnl).
          bind (if err = ESP_OK then put_instance out_handle jrnl
                else bind (jrnl_delete_instance jrnl) (\<lambda>_. ret ())) (\<lambda>_.
          bind (modify (\<lambda>s. s\<lparr>s_instances_lock := False\<rparr>)) (\<lambda>_.
          ret (err, if err = ESP_OK then Some out_handle else jrnl_handle)))))))))"

text \<open>The error return keeps the lock of the table.\<close>

definition esp_jrnl_unmount ::
  "esp_jrnl_handle_t \<Rightarrow> (('d, 'z) jrnl_world_scheme, esp_err_t) prog" where
  "esp_jrnl_unmount h =
     bind (gets s_instances_lock) (\<lambda>held.
     bind (lock_acquire held) (\<lambda>locked.
     bind (modify (\<lambda>s. s\<lparr>s_instances_lock := locked\<rparr>)) (\<lambda>_.
     bind (jrnl_check_handle h) (\<lambda>err.
     if err \<noteq> ESP_OK then ret err
     else
     bind (gets (\<lambda>s. s_jrnl_instance_ptrs s ! nat h)) (\<lambda>p.
     bind (jrnl_delete_instance p) (\<lambda>p'.
     bind (put_instance h p') (\<lambda>_.
     bind (modify (\<lambda>s. s\<lparr>s_instances_lock := False\<rparr>)) (\<lambda>_.
     ret ESP_OK))))))))"

section \<open>Transactions\<close>

definition esp_jrnl_start ::
  "esp_env \<Rightarrow> esp_jrnl_handle_t \<Rightarrow> (('d, 'z) jrnl_world_scheme, esp_err_t) prog" where
  "esp_jrnl_start E h =
     bind (jrnl_check_handle h) (\<lambda>err.
     if err \<noteq> ESP_OK then ret err
     else with_instance h (\<lambda>inst.
       bind (lock_acquire (trans_lock inst)) (\<lambda>locked.
       if status (master inst) = ESP_JRNL_STATUS_TRANS_READY then
         bind (assert_that (next_free_sector (master inst) = 0)) (\<lambda>_.
         let inst1 = inst\<lparr>trans_lock := locked,
                          master := (master inst)\<lparr>status := ESP_JRNL_STATUS_TRANS_OPEN\<rparr>\<rparr>
         in bind (jrnl_update_master E inst1 (master inst1)) (\<lambda>err.
            bind (put_instance h (release_trans_lock (Some inst1))) (\<lambda>_.
            ret err)))
       else
         bind (put_instance h (release_trans_lock (Some inst))) (\<lambda>_.
         ret ESP_ERR_INVALID_STATE))))"

definition esp_jrnl_stop ::
  "esp_env \<Rightarrow> esp_jrnl_handle_t \<Rightarrow> bool \<Rightarrow> (('d, 'z) jrnl_world_scheme, esp_err_t) prog" where
  "esp_jrnl_stop E h commit =
     bind (jrnl_check_handle h) (\<lambda>err.
     if err \<noteq> ESP_OK then ret err
     else with_instance h (\<lambda>inst.
       if \<not> commit then
         bind (lock_acquire (trans_lock inst)) (\<lambda>locked.
         bind (jrnl_reset_master E (Some (inst\<lparr>trans_lock := locked\<rparr>)) False) (\<lambda>(err, p).
         bind (put_instance h (release_trans_lock p)) (\<lambda>_.
         ret err)))
       else if status (master inst) = ESP_JRNL_STATUS_TRANS_OPEN then
         bind (lock_acquire (trans_lock inst)) (\<lambda>locked.
         let inst1 = inst\<lparr>trans_lock := locked,
                          master := (master inst)\<lparr>status := ESP_JRNL_STATUS_TRANS_COMMIT\<rparr>\<rparr>
         in bind (jrnl_update_master E inst1 (master inst1)) (\<lambda>err.
            let p1 = release_trans_lock (Some inst1) in
            bind (put_instance h p1) (\<lambda>_.
            if err \<noteq> ESP_OK then ret err
            else
              bind (jrnl_replay E p1) (\<lambda>(err, p2).
              bind (put_instance h p2) (\<lambda>_.
              ret err)))))
       else ret ESP_ERR_INVALID_STATE))"

definition esp_jrnl_set_direct_io ::
  "esp_env \<Rightarrow> esp_jrnl_handle_t \<Rightarrow> bool \<Rightarrow> (('d, 'z) jrnl_world_scheme, esp_err_t) prog" where
  "esp_jrnl_set_direct_io E h direct_access =
     bind (jrnl_check_handle h) (\<lambda>err.
     if err \<noteq> ESP_OK then ret err
     else with_instance h (\<lambda>inst.
       bind (lock_acquire (trans_lock inst)) (\<lambda>locked.
       if status (master inst) \<noteq> ESP_JRNL_STATUS_FS_DIRECT \<and>
          status (master inst) \<noteq> ESP_JRNL_STATUS_TRANS_READY then
         bind (put_instance h (release_trans_lock (Some inst))) (\<lambda>_.
         ret ESP_ERR_INVALID_STATE)
       else
         let inst1 = inst\<lparr>trans_lock := locked,
               master := (master inst)\<lparr>status := (if direct_access then ESP_JRNL_STATUS_FS_DIRECT
                                                 else ESP_JRNL_STATUS_TRANS_READY)\<rparr>\<rparr>
         in bind (jrnl_update_master E inst1 (master inst1)) (\<lambda>err.
            bind (put_instance h (release_trans_lock (Some inst1))) (\<lambda>_.
            ret err)))))"

section \<open>Getters\<close>

text \<open>The output parameter is given by whether it is there; the value it gets is returned.\<close>

definition esp_jrnl_get_diskio_handle ::
  "esp_jrnl_handle_t \<Rightarrow> bool \<Rightarrow> (('d, 'z) jrnl_world_scheme, esp_err_t \<times> int option) prog" where
  "esp_jrnl_get_diskio_handle h out =
     (if \<not> out then ret (ESP_ERR_INVALID_ARG, None)
      else bind (jrnl_check_handle h) (\<lambda>err.
        if err \<noteq> ESP_OK then ret (err, None)
        else with_instance h (\<lambda>inst. ret (ESP_OK, Some (diskio_ctrl_handle (diskio inst))))))"

definition esp_jrnl_get_sector_count ::
  "esp_jrnl_handle_t \<Rightarrow> bool \<Rightarrow> (('d, 'z) jrnl_world_scheme, esp_err_t \<times> u32 option) prog" where
  "esp_jrnl_get_sector_count h out =
     (if \<not> out then ret (ESP_ERR_INVALID_ARG, None)
      else bind (jrnl_check_handle h) (\<lambda>err.
        if err \<noteq> ESP_OK then ret (err, None)
        else with_instance h (\<lambda>inst.
          if disk_sector_size (volume (master inst)) = 0 then undefined_behaviour
          else ret (ESP_OK, Some (volume_size (volume (master inst))
                   div disk_sector_size (volume (master inst)) - store_size_sectors (master inst))))))"

definition esp_jrnl_get_sector_size ::
  "esp_jrnl_handle_t \<Rightarrow> bool \<Rightarrow> (('d, 'z) jrnl_world_scheme, esp_err_t \<times> u32 option) prog" where
  "esp_jrnl_get_sector_size h out =
     (if \<not> out then ret (ESP_ERR_INVALID_ARG, None)
      else bind (jrnl_check_handle h) (\<lambda>err.
        if err \<noteq> ESP_OK then ret (err, None)
        else with_instance h (\<lambda>inst. ret (ESP_OK, Some (disk_sector_size (volume (master inst)))))))"

section \<open>Sector writes and reads\<close>

text \<open>The operation record the code fills in before a journaled write.\<close>

definition write_operation ::
  "esp_env \<Rightarrow> 'd esp_jrnl_instance_t \<Rightarrow> cbuf \<Rightarrow> u32 \<Rightarrow> u32 \<Rightarrow> esp_jrnl_operation_t" where
  "write_operation E inst buff sec count =
     (let h = \<lparr> target_sector = sec, sector_count = count,
                crc32_data = esp_crc32_le E UINT32_MAX
                  (buf_bytes buff (unat (count * disk_sector_size (volume (master inst))))) \<rparr>
      in \<lparr> oper_header = h, crc32_header = esp_crc32_le E UINT32_MAX (oper_header_bytes h) \<rparr>)"

text \<open>
  The body of a journaled write, under the transaction lock: header sector and data go to
  the free part of the store, then the master record is updated. The header buffer is
  \<open>calloc(1, sector_size)\<close>, so what follows the record in it is zero; in a buffer smaller than the record the
  record is written beyond its end.
\<close>

definition journal_write ::
  "esp_env \<Rightarrow> 'd esp_jrnl_instance_t \<Rightarrow> cbuf \<Rightarrow> u32 \<Rightarrow> u32 \<Rightarrow>
   (('d, 'z) mach_scheme, esp_err_t \<times> 'd esp_jrnl_instance_t) prog" where
  "journal_write E inst buff sec count =
     (let sector_size = disk_sector_size (volume (master inst)) in
      bind (calloc 1 sector_size) (\<lambda>allocated.
      if \<not> allocated then ret (ESP_ERR_NO_MEM, inst)
      else if unat sector_size < sizeof_operation then undefined_behaviour
      else
        let oper = write_operation E inst buff sec count;
            oper_addr = jrnl_get_target_disk_sector inst (next_free_sector (master inst)) * sector_size;
            oper_size = (count + 1) * sector_size
        in bind (jrnl_erase_range_raw inst oper_addr oper_size) (\<lambda>err.
           if err \<noteq> ESP_OK then ret (err, inst)
           else
           bind (jrnl_write_raw inst oper_addr (buf_of (operation_bytes oper) (\<lambda>_. 0)) sector_size) (\<lambda>err.
           if err \<noteq> ESP_OK then ret (err, inst)
           else
           bind (jrnl_write_raw inst (oper_addr + sector_size) buff (oper_size - sector_size)) (\<lambda>err.
           if err \<noteq> ESP_OK then ret (err, inst)
           else
             let inst1 = inst\<lparr>master := (master inst)
                   \<lparr>next_free_sector := next_free_sector (master inst) + (1 + count)\<rparr>\<rparr>
             in bind (jrnl_update_master E inst1 (master inst1)) (\<lambda>err.
                ret (err, inst1)))))))"

definition esp_jrnl_write ::
  "esp_env \<Rightarrow> esp_jrnl_handle_t \<Rightarrow> cbuf option \<Rightarrow> u32 \<Rightarrow> u32 \<Rightarrow>
   (('d, 'z) jrnl_world_scheme, esp_err_t) prog" where
  "esp_jrnl_write E h buff_ptr sec count =
     (case buff_ptr of None \<Rightarrow> ret ESP_ERR_INVALID_ARG | Some buff \<Rightarrow>
      bind (jrnl_check_handle h) (\<lambda>err.
      if err \<noteq> ESP_OK then ret err
      else with_instance h (\<lambda>inst.
        let sector_size = disk_sector_size (volume (master inst)) in
        if status (master inst) = ESP_JRNL_STATUS_FS_DIRECT then
          bind (jrnl_erase_range_raw inst (sec * sector_size) (count * sector_size)) (\<lambda>err.
          if err = ESP_OK then jrnl_write_raw inst (sec * sector_size) buff (count * sector_size)
          else ret err)
        else if status (master inst) = ESP_JRNL_STATUS_TRANS_OPEN then
          if next_free_sector (master inst) + 1 + count < store_size_sectors (master inst) - 1 then
            bind (lock_acquire (trans_lock inst)) (\<lambda>locked.
            bind (journal_write E (inst\<lparr>trans_lock := locked\<rparr>) buff sec count) (\<lambda>(err, inst1).
            bind (put_instance h (release_trans_lock (Some inst1))) (\<lambda>_.
            ret err)))
          else ret ESP_ERR_NO_MEM
        else ret ESP_ERR_INVALID_STATE)))"

definition esp_jrnl_read ::
  "esp_jrnl_handle_t \<Rightarrow> u32 \<Rightarrow> bool \<Rightarrow> u32 \<Rightarrow>
   (('d, 'z) jrnl_world_scheme, esp_err_t \<times> byte list) prog" where
  "esp_jrnl_read h sec dest count =
     (if \<not> dest then ret (ESP_ERR_INVALID_ARG, [])
      else bind (jrnl_check_handle h) (\<lambda>err.
        if err \<noteq> ESP_OK then ret (err, [])
        else with_instance h (\<lambda>inst.
          let sector_size = disk_sector_size (volume (master inst)) in
          if store_volume_offset_sector (master inst) \<le> sec + count then ret (ESP_ERR_INVALID_SIZE, [])
          else jrnl_read_raw inst (sec * sector_size) (count * sector_size))))"

section \<open>Handles\<close>

definition mounted ::
  "esp_jrnl_handle_t \<Rightarrow> 'd esp_jrnl_instance_t \<Rightarrow> ('d, 'z) jrnl_world_scheme \<Rightarrow> bool" where
  "mounted h inst s \<longleftrightarrow>
     0 \<le> h \<and> h < int JRNL_MAX_HANDLES \<and> length (s_jrnl_instance_ptrs s) = JRNL_MAX_HANDLES \<and>
     s_jrnl_instance_ptrs s ! nat h = Some inst"

definition set_instance ::
  "esp_jrnl_handle_t \<Rightarrow> 'd esp_jrnl_instance_t \<Rightarrow> ('d, 'z) jrnl_world_scheme \<Rightarrow>
   ('d, 'z) jrnl_world_scheme" where
  "set_instance h inst s = s\<lparr>s_jrnl_instance_ptrs := (s_jrnl_instance_ptrs s)[nat h := Some inst]\<rparr>"

lemma check_handle_mounted: "mounted h inst s \<Longrightarrow> jrnl_check_handle h s = (Ret ESP_OK, s)"
  by (auto simp: jrnl_check_handle_def mounted_def JRNL_INVALID_HANDLE_def prog_simps)

lemma bind_check_handle_mounted:
  "mounted h inst s \<Longrightarrow> bind (jrnl_check_handle h) f s = f ESP_OK s"
  by (simp add: run_bind_Ret check_handle_mounted)

lemma with_instance_mounted: "mounted h inst s \<Longrightarrow> with_instance h f s = f inst s"
  by (simp add: with_instance_def mounted_def prog_simps)

lemmas mounted_run = check_handle_mounted bind_check_handle_mounted with_instance_mounted

lemma bind_put_instance [prog_simps]:
  "bind (put_instance h (Some inst)) f s = f () (set_instance h inst s)"
  by (simp add: put_instance_def set_instance_def prog_simps)

lemma mounted_set_instance [simp]: "mounted h i s \<Longrightarrow> mounted h inst (set_instance h inst s)"
  by (simp add: mounted_def set_instance_def nat_less_iff)

lemma mounted_frame [simp]:
  "mounted h inst (s\<lparr>dev := d\<rparr>) = mounted h inst s"
  "mounted h inst (s\<lparr>heap := hp\<rparr>) = mounted h inst s"
  by (simp_all add: mounted_def)

lemma set_instance_twice [simp]:
  "set_instance h inst (set_instance h inst0 s) = set_instance h inst s"
  "(set_instance h inst s)\<lparr>dev := d\<rparr> = set_instance h inst (s\<lparr>dev := d\<rparr>)"
  "(set_instance h inst s)\<lparr>heap := hp\<rparr> = set_instance h inst (s\<lparr>heap := hp\<rparr>)"
  by (simp_all add: set_instance_def)

lemma set_instance_fields [simp]:
  "dev (set_instance h inst s) = dev s" "heap (set_instance h inst s) = heap s"
  "s_instances_lock (set_instance h inst s) = s_instances_lock s"
  by (simp_all add: set_instance_def)

lemma release_unlocked [simp]: "release_trans_lock (Some inst) = Some (inst\<lparr>trans_lock := False\<rparr>)"
  by (simp add: release_trans_lock_def)

lemma unlocked_same: "\<not> trans_lock inst \<Longrightarrow> inst\<lparr>trans_lock := False\<rparr> = inst"
  by (cases inst) simp

text \<open>Every error of the handle check; a handle below -1 indexes before the table.\<close>

lemma check_handle_cases:
  "jrnl_check_handle h s =
     (if h = -1 then (Ret ESP_ERR_INVALID_STATE, s)
      else if 8 \<le> h then (Ret ESP_ERR_INVALID_ARG, s)
      else if h < 0 then (Undefined, s)
      else if s_jrnl_instance_ptrs s ! nat h = None then (Ret ESP_ERR_NOT_FOUND, s)
      else (Ret ESP_OK, s))"
  by (auto simp: jrnl_check_handle_def JRNL_INVALID_HANDLE_def JRNL_MAX_HANDLES_def prog_simps
      Option.is_none_def)

lemma find_free_handle_Some:
  assumes "find_free_handle ptrs = h" and "h \<noteq> JRNL_INVALID_HANDLE"
  shows "0 \<le> h" and "nat h < length ptrs" and "ptrs ! nat h = None" and "\<forall>j < nat h. ptrs ! j \<noteq> None"
  using assms
  by (auto simp: find_free_handle_def first_index_Some Option.is_none_def split: option.splits)

lemma find_free_handle_found: "None \<in> set ptrs \<Longrightarrow> find_free_handle ptrs \<noteq> JRNL_INVALID_HANDLE"
  by (auto simp: find_free_handle_def JRNL_INVALID_HANDLE_def first_index_None Option.is_none_def split: option.splits)

text \<open>A mount with a free slot, given what becomes of the new instance.\<close>

lemma mount_by_instance:
  assumes "\<not> s_instances_lock s" and "None \<in> set (s_jrnl_instance_ptrs s)"
    and "\<not> cfg_store_size_sectors (user_cfg config) < JRNL_MIN_STORE_SIZE"
    and "mount_instance E config (s\<lparr>s_instances_lock := True\<rparr>) =
      (Ret (err, p), s\<lparr>s_instances_lock := True, dev := d, heap := hp\<rparr>)"
  defines "h \<equiv> find_free_handle (s_jrnl_instance_ptrs s)"
    and "s1 \<equiv> s\<lparr>dev := d, heap := hp, s_instances_lock := False\<rparr>"
  shows "esp_jrnl_mount E (Some config) (Some h0) s =
     (if err = ESP_OK then (Ret (ESP_OK, Some h), s1\<lparr>s_jrnl_instance_ptrs := (s_jrnl_instance_ptrs s)[nat h := p]\<rparr>)
      else (Ret (err, Some h0), s1))"
  using assms(1,3,4) find_free_handle_found [OF assms(2)] unfolding h_def s1_def
  by (simp add: esp_jrnl_mount_def prog_simps run_bind_Ret put_instance_def jrnl_delete_instance_def)

section \<open>The journaled write, piece by piece\<close>

text \<open>Where the operation goes: none of the products and sums wraps while there is room.\<close>

lemma journal_write_addresses:
  assumes g: "geom sec cap (master inst)"
    and room: "used_sectors (master inst) + (1 + unat count) < store_sectors (master inst)"
  defines "t \<equiv> jrnl_get_target_disk_sector inst (next_free_sector (master inst))"
    and "ss \<equiv> disk_sector_size (volume (master inst))"
    and "a \<equiv> (fs_sectors (master inst) + used_sectors (master inst)) * sec"
  shows "unat ss = sec" "unat (t * ss) = a" "unat ((count + 1) * ss) = (1 + unat count) * sec"
    "unat (count * ss) = unat count * sec" "unat ((count + 1) * ss - ss) = unat count * sec"
    "unat (t * ss + ss) = a + sec" "a + (1 + unat count) * sec \<le> cap"
proof -
  let ?m = "master inst"
  show ss: "unat ss = sec" using g by (simp add: geom_def ss_def)
  have cnt: "1 + unat count < 2 ^ 32" using room unat_lt_2_32 [of "store_size_sectors ?m"] by linarith
  have c1: "unat (count + 1) = unat count + 1" using cnt by (subst unat_add_no_wrap) auto
  have t: "unat t = fs_sectors ?m + used_sectors ?m" unfolding t_def using geom_store_sector [OF g] room by simp
  have tk: "unat t + unat (count + 1) \<le> fs_sectors ?m + store_sectors ?m" using t room c1 by simp
  note addr = geom_address [OF g tk, folded ss_def]
  show A: "unat (t * ss) = a" and "unat ((count + 1) * ss) = (1 + unat count) * sec"
    using addr t c1 by (simp_all add: a_def)
  show cs: "unat (count * ss) = unat count * sec"
    using geom_address(2) [OF g, of t count] tk c1 by (simp add: ss_def)
  show "unat ((count + 1) * ss - ss) = unat count * sec" using cs by (simp add: distrib_right)
  show "unat (t * ss + ss) = a + sec"
    using addr(4) A c1 ss t by (subst unat_add_no_wrap) (auto simp: a_def distrib_right)
  show "a + (1 + unat count) * sec \<le> cap" using addr(1,3) A c1 by simp
qed

text \<open>The header buffer the code fills is the header sector of the operation.\<close>

lemma write_operation_record:
  assumes "unat (count * disk_sector_size (volume (master inst))) = unat count * sec" and "16 \<le> sec"
  shows "buf_bytes (buf_of (operation_bytes (write_operation E inst buff tgt count)) (\<lambda>_. 0)) sec
    = header_sector E sec (tgt, buf_bytes buff (unat count * sec))"
proof -
  have "write_operation E inst buff tgt count = op_record E sec (tgt, buf_bytes buff (unat count * sec))"
    using assms by (simp add: write_operation_def op_record_def op_header_def op_sectors_def Let_def)
  then show ?thesis using assms by (simp add: buf_bytes_beyond header_sector_def buf_bytes_const)
qed

lemma journal_write_eval:
  fixes inst :: "'d esp_jrnl_instance_t" and s :: "('d, 'z) mach_scheme" and count :: u32
  defines "ss \<equiv> disk_sector_size (volume (master inst))"
    and "t \<equiv> jrnl_get_target_disk_sector inst (next_free_sector (master inst))"
    and "inst1 \<equiv> inst\<lparr>master := (master inst)
            \<lparr>next_free_sector := next_free_sector (master inst) + (1 + count)\<rparr>\<rparr>"
  assumes fits: "sizeof_operation \<le> unat ss"
    and al: "calloc 1 ss s = (Ret ok, s\<lparr>heap := hp\<rparr>)"
    and e1: "disk_erase_range (diskio inst) (diskio_ctrl_handle (diskio inst)) (t * ss) ((count + 1) * ss) (dev s) = (e1, d1)"
    and e2: "disk_write (diskio inst) (diskio_ctrl_handle (diskio inst)) (t * ss)
        (buf_of (operation_bytes (write_operation E inst buff sec count)) (\<lambda>_. 0)) ss d1 = (e2, d2)"
    and e3: "disk_write (diskio inst) (diskio_ctrl_handle (diskio inst)) (t * ss + ss) buff
        ((count + 1) * ss - ss) d2 = (e3, d3)"
    and e4: "jrnl_update_master E inst1 (master inst1) (s\<lparr>heap := hp, dev := d3\<rparr>) =
        (Ret e4, s\<lparr>heap := hp, dev := d4\<rparr>)"
  shows "journal_write E inst buff sec count s =
     (if \<not> ok then (Ret (ESP_ERR_NO_MEM, inst), s\<lparr>heap := hp\<rparr>)
      else if e1 \<noteq> ESP_OK then (Ret (e1, inst), s\<lparr>heap := hp, dev := d1\<rparr>)
      else if e2 \<noteq> ESP_OK then (Ret (e2, inst), s\<lparr>heap := hp, dev := d2\<rparr>)
      else if e3 \<noteq> ESP_OK then (Ret (e3, inst), s\<lparr>heap := hp, dev := d3\<rparr>)
      else (Ret (e4, inst1), s\<lparr>heap := hp, dev := d4\<rparr>))"
  using fits al e1 e2 e3 e4 unfolding ss_def t_def inst1_def
  by (simp add: journal_write_def Let_def run_bind_Ret run_ret
      jrnl_erase_range_raw_def jrnl_write_raw_def)

section \<open>Running the interface\<close>

context block_device
begin

lemma start_run:
  assumes mt: "mounted h inst s" and io: "diskio inst = io" and g: "geom sector capacity (master inst)"
    and st: "status (master inst) = ESP_JRNL_STATUS_TRANS_READY"
    and nf: "next_free_sector (master inst) = 0" and unlocked: "\<not> trans_lock inst"
  defines "inst1 \<equiv> inst\<lparr>master := (master inst)\<lparr>status := ESP_JRNL_STATUS_TRANS_OPEN\<rparr>\<rparr>"
  obtains err d where "esp_jrnl_start E h s = (Ret err, set_instance h inst1 (s\<lparr>dev := d\<rparr>))"
    and "sector_update erased (content (dev s)) (master_addr sector (master inst))
           (master_sector E sector (master inst1)) err (content d)"
proof -
  let ?i = "inst\<lparr>trans_lock := True, master := (master inst)\<lparr>status := ESP_JRNL_STATUS_TRANS_OPEN\<rparr>\<rparr>"
  have unl: "inst1\<lparr>trans_lock := False\<rparr> = inst1"
    using unlocked unlocked_same [of inst] by (cases inst) (simp add: inst1_def)
  obtain err d where r: "jrnl_update_master E ?i (master inst1) s = (Ret err, s\<lparr>dev := d\<rparr>)"
    and u: "sector_update erased (content (dev s)) (master_addr sector (master inst))
           (master_sector E sector (master inst1)) err (content d)"
    by (rule update_master_run [of ?i E "master inst1" s]) (use io g in \<open>simp_all add: inst1_def\<close>)
  show thesis
    using that [of err d] u r unl unfolding inst1_def
    by (simp add: esp_jrnl_start_def mounted_run [OF mt] st nf unlocked prog_simps Let_def run_bind_Ret)
qed

lemma cancel_run:
  assumes mt: "mounted h inst s" and io: "diskio inst = io" and g: "geom sector capacity (master inst)"
    and unlocked: "\<not> trans_lock inst"
  defines "inst1 \<equiv> inst\<lparr>master := reset_fields False (master inst)\<rparr>"
  obtains err d where "esp_jrnl_stop E h False s = (Ret err, set_instance h inst1 (s\<lparr>dev := d\<rparr>))"
    and "sector_update erased (content (dev s)) (master_addr sector (master inst))
           (master_sector E sector (master inst1)) err (content d)"
proof -
  let ?i = "inst\<lparr>trans_lock := True\<rparr>"
  have unl: "inst1\<lparr>trans_lock := False\<rparr> = inst1"
    using unlocked unlocked_same [of inst] by (cases inst) (simp add: inst1_def)
  obtain err d where r: "jrnl_reset_master E (Some ?i) False s =
      (Ret (err, Some (?i\<lparr>master := reset_fields False (master inst)\<rparr>)), s\<lparr>dev := d\<rparr>)"
    and u: "sector_update erased (content (dev s)) (master_addr sector (master inst))
           (master_sector E sector (master inst1)) err (content d)"
    by (rule reset_master_run [of ?i E False s]) (use io g in \<open>simp_all add: inst1_def\<close>)
  have eq: "?i\<lparr>master := reset_fields False (master inst), trans_lock := False\<rparr> = inst1"
    using unl by (simp add: inst1_def)
  show thesis
    using that [of err d] u r
    by (simp add: esp_jrnl_stop_def mounted_run [OF mt] unlocked prog_simps Let_def run_bind_Ret eq)
qed

text \<open>
  The three accesses of a journaled write: they stay within the operation's sectors, and when
  all succeed the operation is in the store.
\<close>

lemma journal_write_disk:
  assumes e1: "disk_erase_range io (diskio_ctrl_handle io) A N d = (e1, d1)"
    and e2: "disk_write io (diskio_ctrl_handle io) A hdr S d1 = (e2, d2)"
    and e3: "disk_write io (diskio_ctrl_handle io) B buff D d2 = (e3, d3)"
    and A: "unat A = a" and N: "unat N = (1 + k) * sector" and S: "unat S = sector"
    and B: "unat B = a + sector" and D: "unat D = k * sector"
    and cap: "a + (1 + k) * sector \<le> capacity" and al: "sector dvd a"
  shows "same_outside (content d) (content d1) a ((1 + k) * sector)"
    and "same_outside (content d) (content d2) a ((1 + k) * sector)"
    and "same_outside (content d) (content d3) a ((1 + k) * sector)"
    and "e1 = ESP_OK \<Longrightarrow> e2 = ESP_OK \<Longrightarrow> e3 = ESP_OK \<Longrightarrow>
      content d3 = put_bytes (content d) a (buf_bytes hdr sector @ buf_bytes buff (k * sector))"
proof -
  show f1: "same_outside (content d) (content d1) a ((1 + k) * sector)"
    using erase_frame [OF e1] cap A N by simp
  have "same_outside (content d1) (content d2) a sector" using write_frame [OF e2] cap A S by simp
  then have "same_outside (content d1) (content d2) a ((1 + k) * sector)"
    by (rule same_outside_widen) simp_all
  with f1 show f2: "same_outside (content d) (content d2) a ((1 + k) * sector)" by (rule same_outside_trans)
  have "same_outside (content d2) (content d3) (a + sector) (k * sector)"
    using write_frame [OF e3] cap B D by simp
  then have "same_outside (content d2) (content d3) a ((1 + k) * sector)"
    by (rule same_outside_widen) simp_all
  with f2 show "same_outside (content d) (content d3) a ((1 + k) * sector)" by (rule same_outside_trans)
  assume ok: "e1 = ESP_OK" "e2 = ESP_OK" "e3 = ESP_OK"
  have x1: "content d1 = fill_bytes (content d) a ((1 + k) * sector) erased"
    using erase_ok [OF e1 [unfolded ok]] A N cap al by simp
  have x2: "content d2 = put_bytes (content d1) a (buf_bytes hdr sector)"
    using write_ok [OF e2 [unfolded ok]] A S cap by (simp add: x1 fill_bytes_def get_bytes_eqI put_bytes_def)
  have x3: "content d3 = put_bytes (content d2) (a + sector) (buf_bytes buff (k * sector))"
    using write_ok [OF e3 [unfolded ok]] B D cap
    by (simp add: x1 x2 fill_bytes_def get_bytes_eqI put_bytes_def)
  have "content d3 = put_bytes (content d1) a (buf_bytes hdr sector @ buf_bytes buff (k * sector))"
    using put_put_adjacent [of "content d1" a "buf_bytes hdr sector" "buf_bytes buff (k * sector)"]
    by (simp add: x3 x2)
  then show "content d3 = put_bytes (content d) a (buf_bytes hdr sector @ buf_bytes buff (k * sector))"
    by (simp add: x1 put_fill_same)
qed

lemma journal_write_run:
  fixes buff :: cbuf
  assumes io: "diskio inst = io" and g: "geom sector capacity (master inst)"
    and room: "used_sectors (master inst) + (1 + unat count) < store_sectors (master inst)"
  defines "data \<equiv> buf_bytes buff (unat count * sector)"
    and "a \<equiv> (fs_sectors (master inst) + used_sectors (master inst)) * sector"
    and "inst1 \<equiv> inst\<lparr>master := (master inst)
            \<lparr>next_free_sector := next_free_sector (master inst) + (1 + count)\<rparr>\<rparr>"
  obtains err inst' d hp where
    "journal_write E inst buff sec count s = (Ret (err, inst'), s\<lparr>dev := d, heap := hp\<rparr>)"
    and "err \<noteq> ESP_OK \<and> inst' = inst \<and>
           same_outside (content (dev s)) (content d) a ((1 + unat count) * sector) \<or>
         inst' = inst1 \<and>
           sector_update erased (put_bytes (content (dev s)) a (op_bytes E sector (sec, data)))
             (master_addr sector (master inst)) (master_sector E sector (master inst1)) err (content d)"
proof -
  let ?m = "master inst" and ?c = "content (dev s)"
  let ?ss = "disk_sector_size (volume ?m)" and ?t = "jrnl_get_target_disk_sector inst (next_free_sector ?m)"
  have sec16: "16 \<le> sector" using geom_sector_pos [OF g] by simp
  note ad = journal_write_addresses [OF g room, folded a_def]
  let ?hb = "buf_of (operation_bytes (write_operation E inst buff sec count)) (\<lambda>_. 0)"
  have hb: "buf_bytes ?hb sector = header_sector E sector (sec, data)"
    unfolding data_def using ad(4) sec16 by (rule write_operation_record)
  obtain ok hp where al: "calloc 1 ?ss s = (Ret ok, s\<lparr>heap := hp\<rparr>)" by (rule calloc_run)
  obtain e1 d1 where e1: "disk_erase_range io (diskio_ctrl_handle io) (?t * ?ss) ((count + 1) * ?ss) (dev s) = (e1, d1)"
    by fastforce
  obtain e2 d2 where e2: "disk_write io (diskio_ctrl_handle io) (?t * ?ss) ?hb ?ss d1 = (e2, d2)" by fastforce
  obtain e3 d3 where e3: "disk_write io (diskio_ctrl_handle io) (?t * ?ss + ?ss) buff ((count + 1) * ?ss - ?ss) d2 = (e3, d3)"
    by fastforce
  let ?s3 = "s\<lparr>heap := hp, dev := d3\<rparr>"
  obtain e4 d4 where e4: "jrnl_update_master E inst1 (master inst1) ?s3 = (Ret e4, ?s3\<lparr>dev := d4\<rparr>)"
    and u4: "sector_update erased (content d3) (master_addr sector ?m) (master_sector E sector (master inst1)) e4 (content d4)"
    by (rule update_master_run [of inst1 E "master inst1" ?s3]) (use io g in \<open>simp_all add: inst1_def\<close>)
  have run: "journal_write E inst buff sec count s =
     (if \<not> ok then (Ret (ESP_ERR_NO_MEM, inst), s\<lparr>heap := hp\<rparr>)
      else if e1 \<noteq> ESP_OK then (Ret (e1, inst), s\<lparr>heap := hp, dev := d1\<rparr>)
      else if e2 \<noteq> ESP_OK then (Ret (e2, inst), s\<lparr>heap := hp, dev := d2\<rparr>)
      else if e3 \<noteq> ESP_OK then (Ret (e3, inst), ?s3)
      else (Ret (e4, inst1), s\<lparr>heap := hp, dev := d4\<rparr>))"
    unfolding inst1_def
    by (rule journal_write_eval) (use geom_header_fits [OF g] al e1 e2 e3 e4 io in \<open>simp_all add: inst1_def\<close>)
  have "sector dvd a" by (simp add: a_def)
  note dk = journal_write_disk [OF e1 e2 e3 ad(2,3,1,6,5,7) this]
  have fin: "content d3 = put_bytes ?c a (op_bytes E sector (sec, data))"
    if "e1 = ESP_OK" "e2 = ESP_OK" "e3 = ESP_OK"
    using dk(4) [OF that] hb by (simp add: op_bytes_def data_def)
  consider "\<not> ok" | "ok" "e1 \<noteq> ESP_OK" | "ok" "e1 = ESP_OK" "e2 \<noteq> ESP_OK"
    | "ok" "e1 = ESP_OK" "e2 = ESP_OK" "e3 \<noteq> ESP_OK" | "ok" "e1 = ESP_OK" "e2 = ESP_OK" "e3 = ESP_OK" by blast
  then show thesis
    using that [of ESP_ERR_NO_MEM inst hp "dev s"] that [of e1 inst hp d1] that [of e2 inst hp d2]
      that [of e3 inst hp d3] that [of e4 inst1 hp d4] run dk(1-3) u4 fin
    by cases simp_all
qed

end

text \<open>On a healthy device with memory to spare every access of the interface succeeds.\<close>

context reliable_device
begin

lemma journal_write_serves:
  assumes io: "diskio inst = io" and g: "geom sector capacity (master inst)"
    and room: "used_sectors (master inst) + (1 + unat count) < store_sectors (master inst)"
    and hl: "healthy (dev s)" and hp: "heap s = []"
  obtains d inst' where "journal_write E inst buff sec count s = (Ret (ESP_OK, inst'), s\<lparr>dev := d\<rparr>)"
    and "healthy d"
proof -
  let ?m = "master inst"
  let ?ss = "disk_sector_size (volume ?m)" and ?t = "jrnl_get_target_disk_sector inst (next_free_sector ?m)"
  let ?i = "inst\<lparr>master := ?m\<lparr>next_free_sector := next_free_sector ?m + (1 + count)\<rparr>\<rparr>"
  let ?hb = "buf_of (operation_bytes (write_operation E inst buff sec count)) (\<lambda>_. 0)"
  note ad = journal_write_addresses [OF g room]
  have "unat ?ss < 2 ^ 32" by (rule unat_lt_2_32)
  then have al: "calloc 1 ?ss s = (Ret True, s\<lparr>heap := []\<rparr>)" using hp by (simp add: calloc_empty_heap)
  obtain d1 where e1: "disk_erase_range io (diskio_ctrl_handle io) (?t * ?ss) ((count + 1) * ?ss) (dev s) = (ESP_OK, d1)"
    and h1: "healthy d1"
    using erase_serves [OF hl, of "?t * ?ss" "(count + 1) * ?ss"] ad by auto
  obtain d2 where e2: "disk_write io (diskio_ctrl_handle io) (?t * ?ss) ?hb ?ss d1 = (ESP_OK, d2)"
    and h2: "healthy d2"
    using write_serves [OF h1, of "?t * ?ss" ?ss ?hb] ad by auto
  obtain d3 where e3: "disk_write io (diskio_ctrl_handle io) (?t * ?ss + ?ss) buff ((count + 1) * ?ss - ?ss) d2 = (ESP_OK, d3)"
    and h3: "healthy d3"
    using write_serves [OF h2, of "?t * ?ss + ?ss" "(count + 1) * ?ss - ?ss" buff] ad by (auto simp: add.assoc)
  obtain d4 where e4: "jrnl_update_master E ?i (master ?i) (s\<lparr>heap := [], dev := d3\<rparr>) = (Ret ESP_OK, s\<lparr>heap := [], dev := d4\<rparr>)"
    and h4: "healthy d4"
    using update_master_serves [of ?i "s\<lparr>heap := [], dev := d3\<rparr>" E "master ?i"] io g h3 by auto
  have "journal_write E inst buff sec count s = (Ret (ESP_OK, ?i), s\<lparr>heap := [], dev := d4\<rparr>)"
    using journal_write_eval [of inst s True "[]" count ESP_OK d1 E buff sec ESP_OK d2 ESP_OK d3 ESP_OK d4]
      geom_header_fits [OF g] al e1 e2 e3 e4 io by simp
  moreover have "s\<lparr>heap := [], dev := d4\<rparr> = s\<lparr>dev := d4\<rparr>" using hp by (cases s) simp
  ultimately show thesis using that h4 by metis
qed

end


section \<open>Unmounting\<close>

lemma unmount_run:
  assumes "\<not> s_instances_lock s"
  shows "esp_jrnl_unmount h s =
    bind (jrnl_check_handle h) (\<lambda>err.
      if err \<noteq> ESP_OK then ret err
      else bind (put_instance h None) (\<lambda>_. bind (modify (\<lambda>s. s\<lparr>s_instances_lock := False\<rparr>)) (\<lambda>_. ret ESP_OK)))
    (s\<lparr>s_instances_lock := True\<rparr>)"
proof -
  have "bind (gets (\<lambda>s. s_jrnl_instance_ptrs s ! nat h)) (\<lambda>p. bind (jrnl_delete_instance p) f) = f None"
    for f :: "'a esp_jrnl_instance_t option \<Rightarrow> (('a, 'b) jrnl_world_scheme, esp_err_t) prog"
    by (rule ext) (simp add: prog_simps jrnl_delete_instance_def)
  then show ?thesis using assms by (simp add: esp_jrnl_unmount_def prog_simps cong: if_cong)
qed

lemma unmount_mounted:
  assumes "mounted h inst s" and "\<not> s_instances_lock s"
  shows "esp_jrnl_unmount h s = (Ret ESP_OK,
    s\<lparr>s_instances_lock := False, s_jrnl_instance_ptrs := (s_jrnl_instance_ptrs s)[nat h := None]\<rparr>)"
proof -
  have "mounted h inst (s\<lparr>s_instances_lock := True\<rparr>)" using assms(1) by (simp add: mounted_def)
  then show ?thesis using assms(2) by (simp add: unmount_run mounted_run prog_simps put_instance_def)
qed

end
