(* ===== verification/Jrnl_Recovery.thy ===== *)
theory Jrnl_Recovery
  imports Jrnl_Core
begin

text \<open>
  What a disk found after a power failure stands for. An image is \<open>idle\<close> when it carries no
  master record or one of a ready or open journal: the file system is what its sectors hold.
  It is \<open>committed\<close> when the record says so and the store holds a log: the file system is
  what its sectors become once the log is applied. \<open>recovers_to\<close> names the file system in
  either case. The lemmas follow every disk update of a transaction through these classes.
\<close>

section \<open>The file system as a list of bytes\<close>

text \<open>
  The abstract specification: a volume is a list of bytes, a transaction overwrites parts of
  it, one after the other.
\<close>

definition overwrite :: "'a list \<Rightarrow> nat \<Rightarrow> 'a list \<Rightarrow> 'a list" where
  "overwrite xs a ys = take a xs @ ys @ drop (a + length ys) xs"

fun write_fs :: "nat \<Rightarrow> jop list \<Rightarrow> byte list \<Rightarrow> byte list" where
  "write_fs sec [] fs = fs"
| "write_fs sec (p # ps) fs = write_fs sec ps (overwrite fs (unat (fst p) * sec) (snd p))"

definition fs_bytes :: "nat \<Rightarrow> esp_jrnl_master_t \<Rightarrow> image \<Rightarrow> byte list" where
  "fs_bytes sec m c = get_bytes c 0 (fs_sectors m * sec)"

lemma get_put_overwrite:
  assumes "a + length ys \<le> n"
  shows "get_bytes (put_bytes c a ys) 0 n = overwrite (get_bytes c 0 n) a ys"
  using assms by (intro get_bytes_eqI) (auto simp: overwrite_def put_bytes_def nth_append)

lemma op_ok_range:
  assumes "op_ok sec m p"
  shows "unat (fst p) * sec + length (snd p) \<le> fs_sectors m * sec"
proof -
  have "unat (fst p) * sec + length (snd p) = (unat (fst p) + op_sectors sec p) * sec"
    using assms by (simp add: op_ok_def op_sectors_def distrib_right)
  also have "\<dots> \<le> fs_sectors m * sec" using assms by (intro mult_le_mono1) (simp add: op_ok_def)
  finally show ?thesis .
qed

text \<open>Applying a log to the image of the disk is writing the file system.\<close>

lemma fs_bytes_apply:
  "list_all (op_ok sec m) ps \<Longrightarrow> fs_bytes sec m (apply_ops sec ps c) = write_fs sec ps (fs_bytes sec m c)"
proof (induction ps arbitrary: c)
  case (Cons p ps)
  then have "fs_bytes sec m (apply_op sec p c) = overwrite (fs_bytes sec m c) (unat (fst p) * sec) (snd p)"
    unfolding fs_bytes_def apply_op_def by (intro get_put_overwrite op_ok_range) simp
  with Cons show ?case by simp
qed simp

lemma write_fs_append: "write_fs sec (ps @ qs) fs = write_fs sec qs (write_fs sec ps fs)"
  by (induction ps arbitrary: fs) auto

lemma length_write_fs:
  "list_all (op_ok sec m) ps \<Longrightarrow> length fs = fs_sectors m * sec \<Longrightarrow> length (write_fs sec ps fs) = length fs"
proof (induction ps arbitrary: fs)
  case (Cons p ps)
  have "length (overwrite fs (unat (fst p) * sec) (snd p)) = length fs"
    using op_ok_range [of sec m p] Cons.prems by (simp add: overwrite_def)
  with Cons show ?case by simp
qed simp

section \<open>Classes of disk images\<close>

definition stored_master :: "nat \<Rightarrow> esp_jrnl_master_t \<Rightarrow> image \<Rightarrow> esp_jrnl_master_t" where
  "stored_master sec m c = master_of_bytes (get_bytes c (master_addr sec m) sizeof_master)"

definition same_geometry :: "esp_jrnl_master_t \<Rightarrow> esp_jrnl_master_t \<Rightarrow> bool" where
  "same_geometry m r \<longleftrightarrow>
     store_size_sectors r = store_size_sectors m \<and>
     store_volume_offset_sector r = store_volume_offset_sector m \<and> volume r = volume m"

definition idle_disk :: "nat \<Rightarrow> esp_jrnl_master_t \<Rightarrow> image \<Rightarrow> bool" where
  "idle_disk sec m c \<longleftrightarrow>
     (let r = stored_master sec m c in
      jrnl_magic_mark r \<noteq> JRNL_STORE_MARKER \<or>
      same_geometry m r \<and>
        (status r = ESP_JRNL_STATUS_TRANS_READY \<or> status r = ESP_JRNL_STATUS_TRANS_OPEN))"

definition log_in_store :: "esp_env \<Rightarrow> nat \<Rightarrow> esp_jrnl_master_t \<Rightarrow> jop list \<Rightarrow> image \<Rightarrow> bool" where
  "log_in_store E sec m ps c \<longleftrightarrow>
     list_all (op_ok sec m) ps \<and> log_sectors sec ps + 1 < store_sectors m \<and>
     log_at E sec (fs_sectors m) ps c"

definition committed_disk :: "esp_env \<Rightarrow> nat \<Rightarrow> esp_jrnl_master_t \<Rightarrow> jop list \<Rightarrow> image \<Rightarrow> bool" where
  "committed_disk E sec m ps c \<longleftrightarrow>
     (let r = stored_master sec m c in
      jrnl_magic_mark r = JRNL_STORE_MARKER \<and> same_geometry m r \<and>
      status r = ESP_JRNL_STATUS_TRANS_COMMIT \<and> used_sectors r = log_sectors sec ps) \<and>
     log_in_store E sec m ps c"

definition recovers_to ::
  "esp_env \<Rightarrow> nat \<Rightarrow> esp_jrnl_master_t \<Rightarrow> image \<Rightarrow> byte list \<Rightarrow> bool" where
  "recovers_to E sec m c fs \<longleftrightarrow>
     idle_disk sec m c \<and> fs_bytes sec m c = fs \<or>
     (\<exists>ps. committed_disk E sec m ps c \<and> write_fs sec ps (fs_bytes sec m c) = fs)"

section \<open>Where things lie\<close>

lemma same_geometry_geom: "same_geometry m r \<Longrightarrow> geom sec cap r = geom sec cap m"
  by (simp add: same_geometry_def geom_def)

lemma same_geometry_refl [simp]: "same_geometry m m"
  by (simp add: same_geometry_def)

lemma same_geometry_updates [simp]:
  "same_geometry m (m'\<lparr>status := st\<rparr>) = same_geometry m m'"
  "same_geometry m (m'\<lparr>next_free_sector := n\<rparr>) = same_geometry m m'"
  "same_geometry m (m'\<lparr>jrnl_magic_mark := k\<rparr>) = same_geometry m m'"
  "same_geometry m (reset_fields b m') = same_geometry m m'"
  by (simp_all add: same_geometry_def reset_fields_def)

text \<open>
  A master record equivalent to \<open>m\<close> for the purposes of layout gives the same addresses.
\<close>

lemma same_geometry_op_ok: "same_geometry m r \<Longrightarrow> op_ok sec r = op_ok sec m"
  by (auto simp: same_geometry_def op_ok_def fun_eq_iff)

lemma same_geometry_layout:
  assumes "same_geometry m r"
  shows "master_addr sec r = master_addr sec m" "fs_bytes sec r = fs_bytes sec m"
    "store_sectors r = store_sectors m" "fs_sectors r = fs_sectors m"
    "stored_master sec r = stored_master sec m"
  using assms
  by (auto simp: same_geometry_def master_addr_def fs_bytes_def stored_master_def fun_eq_iff)

lemma same_geometry_log: "same_geometry m r \<Longrightarrow> log_in_store E sec r = log_in_store E sec m"
  by (simp add: log_in_store_def fun_eq_iff same_geometry_op_ok same_geometry_layout)

lemma store_below_master:
  assumes "n + 1 \<le> store_sectors m"
  shows "(fs_sectors m + n) * sec \<le> master_addr sec m"
  unfolding master_addr_def using assms by (intro mult_le_mono1) simp

lemma fs_below_master:
  assumes "geom sec cap m"
  shows "fs_sectors m * sec \<le> master_addr sec m"
  using store_below_master [of 0 m sec] geom_sector_pos [OF assms] by simp

lemma fs_bytes_outside:
  assumes "geom sec cap m" and "same_outside c c' (master_addr sec m) n"
  shows "fs_bytes sec m c' = fs_bytes sec m c"
  unfolding fs_bytes_def using assms(2) fs_below_master [OF assms(1)]
  by (intro same_outside_get [of c c']) auto

lemma log_in_store_outside:
  assumes "log_in_store E sec m ps c" and "same_outside c c' (master_addr sec m) n"
  shows "log_in_store E sec m ps c'"
proof -
  have le: "(fs_sectors m + log_sectors sec ps) * sec \<le> master_addr sec m"
    using assms(1) by (intro store_below_master) (simp add: log_in_store_def)
  have "log_at E sec (fs_sectors m) ps c'"
  proof (rule log_at_frame)
    show "log_at E sec (fs_sectors m) ps c" using assms(1) by (simp add: log_in_store_def)
    show "c' i = c i" if "i < (fs_sectors m + log_sectors sec ps) * sec" for i
      using same_outside_at [OF assms(2), of i] that le by simp
  qed
  with assms(1) show ?thesis by (simp add: log_in_store_def)
qed

section \<open>Updating the master record\<close>

lemma stored_master_put:
  assumes "geom sec cap m" and "wf_status (status m')"
  shows "stored_master sec m (put_bytes c (master_addr sec m) (master_sector E sec m')) = m'"
proof -
  have sec: "28 \<le> sec" using geom_sector_pos [OF assms(1)] by simp
  let ?c = "put_bytes c (master_addr sec m) (master_sector E sec m')"
  have "get_bytes ?c (master_addr sec m) 28 = take 28 (get_bytes ?c (master_addr sec m) sec)"
    using sec by simp
  also have "\<dots> = master_bytes m'" using sec by (simp add: get_put_same take_master_sector)
  finally show ?thesis
    using master_roundtrip [OF assms(2), of "[]"] by (simp add: stored_master_def sizeof_master_def)
qed

lemma stored_master_fill:
  assumes "geom sec cap m"
  shows "jrnl_magic_mark (stored_master sec m (fill_bytes c (master_addr sec m) sec b)) \<noteq> JRNL_STORE_MARKER"
  unfolding stored_master_def
  by (rule constant_fill_no_marker [of _ b])
    (use geom_sector_pos [OF assms] in \<open>simp_all add: sizeof_master_def fill_bytes_inside\<close>)

lemma idle_disk_fill: "geom sec cap m \<Longrightarrow> idle_disk sec m (fill_bytes c (master_addr sec m) sec b)"
  using stored_master_fill by (simp add: idle_disk_def Let_def)

lemma idle_disk_put:
  assumes "geom sec cap m" and "same_geometry m m'"
    and "status m' = ESP_JRNL_STATUS_TRANS_READY \<or> status m' = ESP_JRNL_STATUS_TRANS_OPEN"
  shows "idle_disk sec m (put_bytes c (master_addr sec m) (master_sector E sec m'))"
proof -
  have "stored_master sec m (put_bytes c (master_addr sec m) (master_sector E sec m')) = m'"
    using assms by (intro stored_master_put) auto
  then show ?thesis using assms by (simp add: idle_disk_def Let_def)
qed

text \<open>
  The three uses of a master update: to a ready or open record while the file system is
  what its sectors hold; to a committed record; and back to ready once the log is applied.
\<close>

lemma idle_update:
  assumes g: "geom sec cap m" and geo: "same_geometry m m'"
    and st: "status m' = ESP_JRNL_STATUS_TRANS_READY \<or> status m' = ESP_JRNL_STATUS_TRANS_OPEN"
    and u: "sector_update er c (master_addr sec m) (master_sector E sec m') err c'"
  shows "fs_bytes sec m c' = fs_bytes sec m c"
    and "idle_disk sec m c' \<or> c' = c"
    and "err = ESP_OK \<Longrightarrow> idle_disk sec m c' \<and> stored_master sec m c' = m'"
proof -
  show "fs_bytes sec m c' = fs_bytes sec m c"
    using fs_bytes_outside [OF g sector_update_frame [OF u]] .
  show "idle_disk sec m c' \<or> c' = c"
    using u idle_disk_fill [OF g] idle_disk_put [OF g geo st] by (auto simp: sector_update_def)
  show "idle_disk sec m c' \<and> stored_master sec m c' = m'" if "err = ESP_OK"
  proof -
    have "wf_status (status m')" using st by auto
    moreover have "c' = put_bytes c (master_addr sec m) (master_sector E sec m')"
      using u that by (simp add: sector_update_def)
    ultimately show ?thesis using idle_disk_put [OF g geo st] stored_master_put [OF g] by simp
  qed
qed

lemma recovers_update:
  assumes "geom sec cap m" and "same_geometry m m'"
    and "status m' = ESP_JRNL_STATUS_TRANS_READY \<or> status m' = ESP_JRNL_STATUS_TRANS_OPEN"
    and "sector_update er c (master_addr sec m) (master_sector E sec m') err c'"
    and "recovers_to E sec m c fs" and "fs_bytes sec m c = fs"
  shows "recovers_to E sec m c' fs \<and> fs_bytes sec m c' = fs"
  using idle_update(1,2) [OF assms(1-4)] assms(5,6) by (auto simp: recovers_to_def)

lemma committed_put:
  assumes g: "geom sec cap m" and geo: "same_geometry m m'"
    and st: "status m' = ESP_JRNL_STATUS_TRANS_COMMIT" and mg: "jrnl_magic_mark m' = JRNL_STORE_MARKER"
    and us: "used_sectors m' = log_sectors sec ps" and lg: "log_in_store E sec m ps c"
  shows "committed_disk E sec m ps (put_bytes c (master_addr sec m) (master_sector E sec m'))"
proof -
  have "stored_master sec m (put_bytes c (master_addr sec m) (master_sector E sec m')) = m'"
    using g st by (intro stored_master_put) auto
  moreover have "log_in_store E sec m ps (put_bytes c (master_addr sec m) (master_sector E sec m'))"
    by (rule log_in_store_outside [OF lg, of _ sec]) (simp add: same_outside_put)
  ultimately show ?thesis using geo st mg us by (simp add: committed_disk_def Let_def)
qed

lemma commit_update:
  assumes g: "geom sec cap m" and geo: "same_geometry m m'"
    and st: "status m' = ESP_JRNL_STATUS_TRANS_COMMIT" and mg: "jrnl_magic_mark m' = JRNL_STORE_MARKER"
    and us: "used_sectors m' = log_sectors sec ps" and lg: "log_in_store E sec m ps c"
    and idle: "idle_disk sec m c"
    and u: "sector_update er c (master_addr sec m) (master_sector E sec m') err c'"
  shows "fs_bytes sec m c' = fs_bytes sec m c"
    and "idle_disk sec m c' \<or> committed_disk E sec m ps c'"
    and "err = ESP_OK \<Longrightarrow> committed_disk E sec m ps c'"
proof -
  show "fs_bytes sec m c' = fs_bytes sec m c"
    using fs_bytes_outside [OF g sector_update_frame [OF u]] .
  show "idle_disk sec m c' \<or> committed_disk E sec m ps c'"
    using u idle idle_disk_fill [OF g] committed_put [OF g geo st mg us lg] by (auto simp: sector_update_def)
  show "committed_disk E sec m ps c'" if "err = ESP_OK"
    using u that committed_put [OF g geo st mg us lg] by (auto simp: sector_update_def)
qed

section \<open>Replaying\<close>

lemma agree_off_above_fs:
  assumes "list_all (op_ok sec m) ps" and "agree_off (touched sec ps) c c'" and "fs_sectors m * sec \<le> i"
  shows "c' i = c i"
  using assms touched_in_fs [OF assms(1)] by (force simp: agree_off_def)

lemma committed_agree:
  assumes g: "geom sec cap m" and cm: "committed_disk E sec m ps c"
    and ag: "agree_off (touched sec ps) c c'"
  shows "committed_disk E sec m ps c'"
    and "write_fs sec ps (fs_bytes sec m c') = write_fs sec ps (fs_bytes sec m c)"
proof -
  have ok: "list_all (op_ok sec m) ps" and lg: "log_at E sec (fs_sectors m) ps c"
    using cm by (simp_all add: committed_disk_def log_in_store_def)
  have above: "c' i = c i" if "fs_sectors m * sec \<le> i" for i
    using ok ag that by (rule agree_off_above_fs)
  have "stored_master sec m c' = stored_master sec m c"
    unfolding stored_master_def using above fs_below_master [OF g]
    by (intro arg_cong [where f = master_of_bytes] get_bytes_cong) auto
  moreover have "log_at E sec (fs_sectors m) ps c'"
    using lg by (rule log_at_frame) (use above in auto)
  ultimately show "committed_disk E sec m ps c'"
    using cm by (simp add: committed_disk_def log_in_store_def)
  show "write_fs sec ps (fs_bytes sec m c') = write_fs sec ps (fs_bytes sec m c)"
    using apply_ops_redo [OF ag] fs_bytes_apply [OF ok] by metis
qed

text \<open>After the log has been applied, the update to a ready record ends the transaction.\<close>

lemma replayed_update:
  assumes g: "geom sec cap m" and geo: "same_geometry m m'" and cm: "committed_disk E sec m ps c"
    and st: "status m' = ESP_JRNL_STATUS_TRANS_READY"
    and u: "sector_update er (apply_ops sec ps c) (master_addr sec m) (master_sector E sec m') err c'"
  shows "fs_bytes sec m c' = write_fs sec ps (fs_bytes sec m c)"
    and "recovers_to E sec m c' (write_fs sec ps (fs_bytes sec m c))"
proof -
  have ok: "list_all (op_ok sec m) ps" using cm by (simp add: committed_disk_def log_in_store_def)
  note ag = committed_agree [OF g cm apply_ops_agree]
  have fs: "fs_bytes sec m (apply_ops sec ps c) = write_fs sec ps (fs_bytes sec m c)"
    using ok by (rule fs_bytes_apply)
  note up = idle_update [OF g geo _ u]
  show f: "fs_bytes sec m c' = write_fs sec ps (fs_bytes sec m c)" using up(1) st fs by simp
  have "idle_disk sec m c' \<or> c' = apply_ops sec ps c" using up(2) st by simp
  then show "recovers_to E sec m c' (write_fs sec ps (fs_bytes sec m c))"
    using f ag by (auto simp: recovers_to_def)
qed

section \<open>Mounting what was found\<close>

lemma recovers_stored:
  assumes "recovers_to E sec m c fs" and "jrnl_magic_mark (stored_master sec m c) = JRNL_STORE_MARKER"
  obtains "same_geometry m (stored_master sec m c)"
      and "status (stored_master sec m c) = ESP_JRNL_STATUS_TRANS_READY" and "fs_bytes sec m c = fs"
    | "same_geometry m (stored_master sec m c)"
      and "status (stored_master sec m c) = ESP_JRNL_STATUS_TRANS_OPEN" and "fs_bytes sec m c = fs"
    | ps where "same_geometry m (stored_master sec m c)"
      and "status (stored_master sec m c) = ESP_JRNL_STATUS_TRANS_COMMIT"
      and "committed_disk E sec m ps c" and "write_fs sec ps (fs_bytes sec m c) = fs"
  using assms by (auto simp: recovers_to_def idle_disk_def committed_disk_def Let_def)

definition describes :: "esp_jrnl_master_t \<Rightarrow> 'd esp_jrnl_diskio_t \<Rightarrow> 'd esp_jrnl_config_extended_t \<Rightarrow> bool" where
  "describes m io config \<longleftrightarrow>
     volume_cfg config = volume m \<and> diskio_cfg config = io \<and>
     cfg_store_size_sectors (user_cfg config) = store_size_sectors m"

definition matches :: "esp_jrnl_master_t \<Rightarrow> 'd esp_jrnl_diskio_t \<Rightarrow> 'd esp_jrnl_config_extended_t \<Rightarrow> bool" where
  "matches m io config \<longleftrightarrow> describes m io config \<and>
     \<not> overwrite_existing (user_cfg config) \<and> \<not> force_fs_format (user_cfg config) \<and>
     replay_journal_after_mount (user_cfg config)"

lemma described_store_size:
  "geom sec cap m \<Longrightarrow> describes m io config \<Longrightarrow> \<not> cfg_store_size_sectors (user_cfg config) < JRNL_MIN_STORE_SIZE"
  using geom_sector_pos [of sec cap m] by (simp add: describes_def JRNL_MIN_STORE_SIZE_def word_less_nat_alt)

text \<open>The offset of the store computed by the code is the one of the geometry.\<close>

lemma geom_offset:
  assumes "geom sec cap m"
  shows "volume_size (volume m) div disk_sector_size (volume m) - store_size_sectors m
    = store_volume_offset_sector m"
proof -
  have v: "(fs_sectors m + store_sectors m) * sec = unat (volume_size (volume m))"
    and s: "unat (disk_sector_size (volume m)) = sec" and "0 < sec"
    using assms geom_sector_pos [OF assms] by (simp_all add: geom_def)
  then have q: "unat (volume_size (volume m) div disk_sector_size (volume m)) = fs_sectors m + store_sectors m"
    by (simp add: unat_div_u32 flip: v)
  have "unat (volume_size (volume m) div disk_sector_size (volume m) - store_size_sectors m) = fs_sectors m"
    by (subst unat_diff_no_wrap) (simp_all add: q)
  then show ?thesis by (simp add: word_unat_eq_iff)
qed

lemma geom_master_addr:
  assumes "geom sec cap m"
  shows "unat (volume_size (volume m) - disk_sector_size (volume m)) = master_addr sec m"
    and "master_addr sec m + sec \<le> cap"
proof -
  have v: "(fs_sectors m + store_sectors m) * sec = unat (volume_size (volume m))"
    and s: "unat (disk_sector_size (volume m)) = sec" and c: "unat (volume_size (volume m)) \<le> cap"
    and n: "3 \<le> store_sectors m"
    using assms geom_sector_pos [OF assms] by (simp_all add: geom_def)
  have eq: "master_addr sec m + sec = unat (volume_size (volume m))"
    using n by (cases "fs_sectors m + store_sectors m") (simp_all add: master_addr_def flip: v)
  then show "master_addr sec m + sec \<le> cap" using c by simp
  show "unat (volume_size (volume m) - disk_sector_size (volume m)) = master_addr sec m"
    using eq s by (subst unat_diff_no_wrap) simp_all
qed

context block_device
begin

text \<open>
  The replay of a committed disk: it keeps standing for the file system with the log applied,
  and once the replay reports success its sectors hold that file system.
\<close>

lemma replay_commit_recovers:
  assumes g: "geom sector capacity m" and io: "diskio inst = io" and unlocked: "\<not> trans_lock inst"
    and ms: "master inst = stored_master sector m (content (dev s))"
    and cm: "committed_disk E sector m ps (content (dev s))"
  defines "fs \<equiv> write_fs sector ps (fs_bytes sector m (content (dev s)))"
  obtains err inst' d hp where
    "jrnl_replay E (Some inst) s = (Ret (err, Some inst'), s\<lparr>dev := d, heap := hp\<rparr>)"
    and "recovers_to E sector m (content d) fs"
    and "err = ESP_OK \<Longrightarrow> inst' = inst\<lparr>master := reset_fields False (master inst)\<rparr> \<and>
           fs_bytes sector m (content d) = fs"
proof -
  let ?m' = "reset_fields False (master inst)" and ?c = "content (dev s)"
  have st: "status (master inst) = ESP_JRNL_STATUS_TRANS_COMMIT" and geo: "same_geometry m (master inst)"
    and us: "used_sectors (master inst) = log_sectors sector ps"
    using cm by (simp_all add: committed_disk_def Let_def ms)
  have lg: "log_in_store E sector (master inst) ps ?c"
    using cm by (simp add: committed_disk_def same_geometry_log [OF geo])
  have gi: "geom sector capacity (master inst)" using g same_geometry_geom [OF geo] by simp
  obtain err inst' d hp where
    run: "jrnl_replay E (Some inst) s = (Ret (err, Some inst'), s\<lparr>dev := d, heap := hp\<rparr>)"
    and ok: "err = ESP_OK \<Longrightarrow> inst' = inst\<lparr>master := ?m'\<rparr> \<and>
       content d = put_bytes (apply_ops sector ps ?c) (master_addr sector (master inst)) (master_sector E sector ?m')"
    and dk: "agree_off (touched sector ps) ?c (content d) \<or>
       sector_update erased (apply_ops sector ps ?c) (master_addr sector (master inst))
         (master_sector E sector ?m') err (content d)"
    by (rule replay_commit_run [OF io gi, of ps E s])
      (use lg us st unlocked in \<open>simp_all add: log_in_store_def\<close>)
  have upd: "recovers_to E sector m (content d) fs \<and> fs_bytes sector m (content d) = fs"
    if "sector_update erased (apply_ops sector ps ?c) (master_addr sector (master inst))
         (master_sector E sector ?m') err (content d)"
    using replayed_update [OF g _ cm, of ?m' erased err "content d"] that geo
    by (simp add: same_geometry_layout [OF geo] reset_fields_def fs_def)
  have "recovers_to E sector m (content d) fs"
  proof (cases "agree_off (touched sector ps) ?c (content d)")
    case True
    then show ?thesis using committed_agree [OF g cm True] unfolding recovers_to_def fs_def by blast
  next
    case False
    then show ?thesis using dk upd by blast
  qed
  moreover have "fs_bytes sector m (content d) = fs" if "err = ESP_OK"
    using upd ok [OF that] that by (simp add: sector_update_def)
  ultimately show thesis using that [of err inst' hp d] run ok by simp
qed

text \<open>Whatever \<open>jrnl_replay\<close> reports, the file system the disk stands for is the same after it.\<close>

lemma replay_recovers:
  assumes g: "geom sector capacity m" and io: "diskio inst = io" and unlocked: "\<not> trans_lock inst"
    and ms: "master inst = stored_master sector m (content (dev s))"
    and mg: "jrnl_magic_mark (master inst) = JRNL_STORE_MARKER"
    and rc: "recovers_to E sector m (content (dev s)) fs"
  obtains err inst' d hp where
    "jrnl_replay E (Some inst) s = (Ret (err, Some inst'), s\<lparr>dev := d, heap := hp\<rparr>)"
    and "recovers_to E sector m (content d) fs"
    and "err = ESP_OK \<Longrightarrow> diskio inst' = io \<and> \<not> trans_lock inst' \<and>
           same_geometry m (master inst') \<and> fs_bytes sector m (content d) = fs"
proof (rule recovers_stored [OF rc mg [unfolded ms]])
  assume "status (stored_master sector m (content (dev s))) = ESP_JRNL_STATUS_TRANS_READY"
    and geo: "same_geometry m (stored_master sector m (content (dev s)))"
    and f: "fs_bytes sector m (content (dev s)) = fs"
  then have "jrnl_replay E (Some inst) s = (Ret (ESP_OK, Some inst), s)"
    using unlocked ms by (intro replay_ready_run) simp_all
  then show thesis using that [of ESP_OK inst "heap s" "dev s"] rc f io unlocked geo ms by simp
next
  assume st: "status (stored_master sector m (content (dev s))) = ESP_JRNL_STATUS_TRANS_OPEN"
    and geo: "same_geometry m (stored_master sector m (content (dev s)))"
    and f: "fs_bytes sector m (content (dev s)) = fs"
  let ?m' = "reset_fields False (master inst)"
  have gi: "geom sector capacity (master inst)" using g same_geometry_geom [OF geo] ms by simp
  obtain err d where run: "jrnl_replay E (Some inst) s = (Ret (err, Some (inst\<lparr>master := ?m'\<rparr>)), s\<lparr>dev := d\<rparr>)"
    and u: "sector_update erased (content (dev s)) (master_addr sector (master inst)) (master_sector E sector ?m') err (content d)"
    by (rule replay_open_run [OF io gi _ unlocked]) (use st ms in simp_all)
  have "recovers_to E sector m (content d) fs \<and> fs_bytes sector m (content d) = fs"
  proof (rule recovers_update [OF g _ _ _ rc f])
    show "same_geometry m ?m'" using geo ms by simp
    show "sector_update erased (content (dev s)) (master_addr sector m) (master_sector E sector ?m') err (content d)"
      using u geo by (simp add: same_geometry_layout ms)
  qed (simp add: reset_fields_def)
  then show thesis using that [of err "inst\<lparr>master := ?m'\<rparr>" "heap s" d] run io unlocked geo ms by simp
next
  fix ps
  assume st: "status (stored_master sector m (content (dev s))) = ESP_JRNL_STATUS_TRANS_COMMIT"
    and geo: "same_geometry m (stored_master sector m (content (dev s)))"
    and cm: "committed_disk E sector m ps (content (dev s))"
    and f: "write_fs sector ps (fs_bytes sector m (content (dev s))) = fs"
  obtain err inst' d hp where
    "jrnl_replay E (Some inst) s = (Ret (err, Some inst'), s\<lparr>dev := d, heap := hp\<rparr>)"
    and "recovers_to E sector m (content d) (write_fs sector ps (fs_bytes sector m (content (dev s))))"
    and k: "err = ESP_OK \<Longrightarrow> inst' = inst\<lparr>master := reset_fields False (master inst)\<rparr> \<and>
           fs_bytes sector m (content d) = write_fs sector ps (fs_bytes sector m (content (dev s)))"
    by (rule replay_commit_recovers [OF g io unlocked ms cm]) (rule that, assumption, assumption, blast)
  moreover have "diskio inst' = io \<and> \<not> trans_lock inst' \<and> same_geometry m (master inst') \<and>
      fs_bytes sector m (content d) = fs" if "err = ESP_OK"
    using k [OF that] io unlocked geo ms f by simp
  ultimately show thesis using that [of err inst' hp d] f by simp
qed

text \<open>The record that \<open>resume_journal\<close> reads, and what it does with it.\<close>

lemma resume_journal_run:
  assumes g: "geom sector capacity m" and mt: "matches m io config" and io: "diskio inst = io"
  obtains err bs d where "content d = content (dev s)"
    and "err = ESP_OK \<longrightarrow> master_of_bytes bs = stored_master sector m (content (dev s))"
    and "resume_journal E config inst s =
      (let i = inst\<lparr>master := master_of_bytes bs\<rparr> in
       if err \<noteq> ESP_OK then (Ret (err, Some inst), s\<lparr>dev := d\<rparr>)
       else if jrnl_magic_mark (master i) \<noteq> JRNL_STORE_MARKER then (Ret (ESP_OK, Some i), s\<lparr>dev := d\<rparr>)
       else if \<not> (volume_size (volume m) = volume_size (volume (master i)) \<and>
                  disk_sector_size (volume m) = disk_sector_size (volume (master i)) \<and>
                  store_size_sectors m = store_size_sectors (master i))
       then (Ret (ESP_ERR_INVALID_STATE, Some i), s\<lparr>dev := d\<rparr>)
       else jrnl_replay E (Some i) (s\<lparr>dev := d\<rparr>))"
proof -
  let ?a = "volume_size (volume_cfg config) - disk_sector_size (volume_cfg config)"
  have cfg: "volume_cfg config = volume m" using mt by (simp add: matches_def describes_def)
  have a: "unat ?a = master_addr sector m" and cap: "master_addr sector m + sector \<le> capacity"
    using geom_master_addr [OF g] cfg by simp_all
  have n: "unat (of_nat sizeof_master :: u32) = sizeof_master" by (simp add: sizeof_master_def)
  obtain err bs d where r: "disk_read io (diskio_ctrl_handle io) ?a (of_nat sizeof_master) (dev s) = ((err, bs), d)"
    by (metis surj_pair)
  have rng: "unat ?a + unat (of_nat sizeof_master :: u32) \<le> capacity"
    using a n cap geom_sector_pos [OF g] by (simp add: sizeof_master_def)
  then have "master_of_bytes bs = stored_master sector m (content (dev s))" if "err = ESP_OK"
    using read_ok [OF r [unfolded that]] a n by (simp add: stored_master_def)
  with read_frame [OF r rng] show thesis
    using r io mt
    by (intro that [of d err bs])
      (simp_all add: resume_journal_def jrnl_read_raw_def bind_def ret_def Let_def matches_def describes_def)
qed

text \<open>
  \<open>resume_journal\<close> either reports an error, or has read the record and finished what it asked
  for: the file system is then what its sectors hold.
\<close>

lemma resume_recovers:
  assumes g: "geom sector capacity m" and mt: "matches m io config"
    and io: "diskio inst = io" and unlocked: "\<not> trans_lock inst"
    and rc: "recovers_to E sector m (content (dev s)) fs"
  obtains err inst' d hp where
    "resume_journal E config inst s = (Ret (err, Some inst'), s\<lparr>dev := d, heap := hp\<rparr>)"
    and "recovers_to E sector m (content d) fs"
    and "err = ESP_OK \<Longrightarrow> diskio inst' = io \<and> \<not> trans_lock inst' \<and> fs_bytes sector m (content d) = fs"
proof -
  obtain err bs d where c: "content d = content (dev s)"
    and bs: "err = ESP_OK \<longrightarrow> master_of_bytes bs = stored_master sector m (content (dev s))"
    and run: "resume_journal E config inst s =
      (let i = inst\<lparr>master := master_of_bytes bs\<rparr> in
       if err \<noteq> ESP_OK then (Ret (err, Some inst), s\<lparr>dev := d\<rparr>)
       else if jrnl_magic_mark (master i) \<noteq> JRNL_STORE_MARKER then (Ret (ESP_OK, Some i), s\<lparr>dev := d\<rparr>)
       else if \<not> (volume_size (volume m) = volume_size (volume (master i)) \<and>
                  disk_sector_size (volume m) = disk_sector_size (volume (master i)) \<and>
                  store_size_sectors m = store_size_sectors (master i))
       then (Ret (ESP_ERR_INVALID_STATE, Some i), s\<lparr>dev := d\<rparr>)
       else jrnl_replay E (Some i) (s\<lparr>dev := d\<rparr>))"
    by (rule resume_journal_run [OF g mt io, where s = s and E = E])
  let ?i = "inst\<lparr>master := master_of_bytes bs\<rparr>" and ?s = "s\<lparr>dev := d\<rparr>"
  consider "err \<noteq> ESP_OK" | "err = ESP_OK" "jrnl_magic_mark (master ?i) \<noteq> JRNL_STORE_MARKER"
    | "err = ESP_OK" "jrnl_magic_mark (master ?i) = JRNL_STORE_MARKER" by blast
  then show thesis
  proof cases
    case 1
    then show thesis using that [of err inst "heap s" d] run rc c by simp
  next
    case 2
    then have "fs_bytes sector m (content (dev s)) = fs"
      using rc bs by (auto simp: recovers_to_def committed_disk_def Let_def)
    then show thesis using that [of ESP_OK ?i "heap s" d] run rc c 2 io unlocked by simp
  next
    case 3
    have "same_geometry m (stored_master sector m (content (dev s)))"
      by (rule recovers_stored [OF rc]) (use 3 bs in simp_all)
    then have "resume_journal E config inst s = jrnl_replay E (Some ?i) ?s"
      using run 3 bs by (simp add: same_geometry_def)
    moreover obtain err2 inst' d2 hp where
      "jrnl_replay E (Some ?i) ?s = (Ret (err2, Some inst'), ?s\<lparr>dev := d2, heap := hp\<rparr>)"
      and "recovers_to E sector m (content d2) fs"
      and "err2 = ESP_OK \<Longrightarrow> diskio inst' = io \<and> \<not> trans_lock inst' \<and>
           same_geometry m (master inst') \<and> fs_bytes sector m (content d2) = fs"
      by (rule replay_recovers [OF g, of ?i ?s E fs]) (use io unlocked bs 3 rc c in simp_all)
    ultimately show thesis using that [of err2 inst' hp d2] by simp
  qed
qed

lemma create_journal_run:
  assumes g: "geom sector capacity m" and mt: "describes m io config" and io: "diskio inst = io"
  obtains err d where
    "create_journal E config fresh inst s =
      (Ret (err, Some (inst\<lparr>master := reset_fields fresh m\<rparr>)), s\<lparr>dev := d\<rparr>)"
    and "sector_update erased (content (dev s)) (master_addr sector m)
           (master_sector E sector (reset_fields fresh m)) err (content d)"
proof -
  let ?m = "(master inst)\<lparr>store_size_sectors := store_size_sectors m,
      store_volume_offset_sector := store_volume_offset_sector m, volume := volume m\<rparr>"
  have eq: "reset_fields fresh ?m = reset_fields fresh m"
    by (simp add: reset_fields_def)
  have ss: "disk_sector_size (volume m) \<noteq> 0"
    using g geom_sector_pos [OF g] by (auto simp: geom_def)
  have ma: "master_addr sector ?m = master_addr sector m" by (simp add: master_addr_def)
  have gm: "geom sector capacity ?m" using g by (simp add: geom_def)
  obtain err d where "jrnl_reset_master E (Some (inst\<lparr>master := ?m\<rparr>)) fresh s =
      (Ret (err, Some (inst\<lparr>master := reset_fields fresh ?m\<rparr>)), s\<lparr>dev := d\<rparr>)"
    and "sector_update erased (content (dev s)) (master_addr sector ?m)
           (master_sector E sector (reset_fields fresh ?m)) err (content d)"
    by (rule reset_master_run [of "inst\<lparr>master := ?m\<rparr>" E fresh s]) (use io gm in simp_all)
  then show thesis
    using that [of err d] ss mt geom_offset [OF g] ma eq
    by (simp add: create_journal_def describes_def)
qed

text \<open>Over a disk that stands for its own sectors, the fresh record keeps the file system.\<close>

lemma create_journal_recovers:
  assumes g: "geom sector capacity m" and mt: "describes m io config" and io: "diskio inst = io"
    and rc: "recovers_to E sector m (content (dev s)) fs" and f: "fs_bytes sector m (content (dev s)) = fs"
  obtains err d where
    "create_journal E config False inst s =
      (Ret (err, Some (inst\<lparr>master := reset_fields False m\<rparr>)), s\<lparr>dev := d\<rparr>)"
    and "recovers_to E sector m (content d) fs" and "fs_bytes sector m (content d) = fs"
    and "err = ESP_OK \<Longrightarrow> idle_disk sector m (content d)"
proof -
  let ?m' = "reset_fields False m"
  obtain err d where run: "create_journal E config False inst s =
      (Ret (err, Some (inst\<lparr>master := ?m'\<rparr>)), s\<lparr>dev := d\<rparr>)"
    and u: "sector_update erased (content (dev s)) (master_addr sector m) (master_sector E sector ?m') err (content d)"
    by (rule create_journal_run [OF g mt io])
  have geo: "same_geometry m ?m'"
    and st: "status ?m' = ESP_JRNL_STATUS_TRANS_READY \<or> status ?m' = ESP_JRNL_STATUS_TRANS_OPEN"
    by (simp_all add: reset_fields_def)
  show thesis
    using that [OF run] recovers_update [OF g geo st u rc f] idle_update(3) [OF g geo st u] by blast
qed

lemma mount_instance_recovers:
  assumes g: "geom sector capacity m" and mt: "matches m io config"
    and rc: "recovers_to E sector m (content (dev s)) fs"
  obtains err p d hp where
    "mount_instance E config s = (Ret (err, p), s\<lparr>dev := d, heap := hp\<rparr>)"
    and "recovers_to E sector m (content d) fs"
    and "err = ESP_OK \<Longrightarrow> fs_bytes sector m (content d) = fs \<and> idle_disk sector m (content d) \<and>
           (\<exists>inst. p = Some (inst\<lparr>master := reset_fields False m\<rparr>) \<and> diskio inst = io \<and> \<not> trans_lock inst)"
proof -
  obtain ok hp0 where al: "calloc 1 52 s = (Ret ok, s\<lparr>heap := hp0\<rparr>)" by (rule calloc_run)
  let ?s0 = "s\<lparr>heap := hp0\<rparr>"
  obtain err1 inst1 d1 hp1 where
    r1: "resume_journal E config (new_instance config) ?s0 = (Ret (err1, Some inst1), ?s0\<lparr>dev := d1, heap := hp1\<rparr>)"
    and rc1: "recovers_to E sector m (content d1) fs"
    and k1: "err1 = ESP_OK \<Longrightarrow> diskio inst1 = io \<and> \<not> trans_lock inst1 \<and> fs_bytes sector m (content d1) = fs"
    by (rule resume_recovers [OF g mt, of "new_instance config" E ?s0 fs])
      (use rc mt in \<open>simp_all add: new_instance_def matches_def describes_def\<close>)
  let ?s1 = "s\<lparr>dev := d1, heap := hp1\<rparr>"
  have mt': "describes m io config" using mt by (simp add: matches_def describes_def)
  have nf: "\<not> (force_fs_format (user_cfg config) \<or> overwrite_existing (user_cfg config))"
    using mt by (simp add: matches_def describes_def)
  have run: "mount_instance E config s =
     (if \<not> ok then (Ret (ESP_ERR_NO_MEM, None), ?s0)
      else if err1 \<noteq> ESP_OK then (Ret (err1, Some inst1), ?s1)
      else create_journal E config False inst1 ?s1)"
    using al r1 nf by (simp add: mount_instance_def run_bind_Ret run_ret Let_def)
  consider "\<not> ok" | "ok" "err1 \<noteq> ESP_OK" | "ok" "err1 = ESP_OK" by blast
  then show thesis
  proof cases
    case 1
    then show thesis using that [of ESP_ERR_NO_MEM None hp0 "dev s"] run rc by simp
  next
    case 2
    then show thesis using that [of err1 "Some inst1" hp1 d1] run rc1 by simp
  next
    case 3
    obtain err2 d2 where "create_journal E config False inst1 ?s1 =
        (Ret (err2, Some (inst1\<lparr>master := reset_fields False m\<rparr>)), ?s1\<lparr>dev := d2\<rparr>)"
      and "recovers_to E sector m (content d2) fs" and "fs_bytes sector m (content d2) = fs"
      and "err2 = ESP_OK \<Longrightarrow> idle_disk sector m (content d2)"
      by (rule create_journal_recovers [OF g mt', of inst1 E ?s1 fs]) (use k1 3 rc1 in simp_all)
    then show thesis
      using that [of err2 "Some (inst1\<lparr>master := reset_fields False m\<rparr>)" hp1 d2] run 3 k1 by auto
  qed
qed

end

end
