(* ===== verification/Jrnl_Session.thy ===== *)
theory Jrnl_Session
  imports Jrnl_Recovery
begin

text \<open>
  The journal as its client sees it. \<open>journal_ready\<close> and \<open>journal_open\<close> say what memory and
  disk look like between two calls, outside a transaction and inside one; the lemmas say what
  every call makes of them, on success and on every error. The last part puts the calls and
  power cycles into a labelled transition system and proves that it refines an abstract
  transactional volume.
\<close>

section \<open>Between two calls\<close>

definition attached ::
  "'d esp_jrnl_diskio_t \<Rightarrow> esp_jrnl_master_t \<Rightarrow> esp_jrnl_handle_t \<Rightarrow> 'd esp_jrnl_instance_t \<Rightarrow>
   ('d, 'z) jrnl_world_scheme \<Rightarrow> bool" where
  "attached io m h inst s \<longleftrightarrow>
     mounted h inst s \<and> diskio inst = io \<and> \<not> trans_lock inst \<and> same_geometry m (master inst) \<and>
     jrnl_magic_mark (master inst) = JRNL_STORE_MARKER"

definition journal_ready ::
  "esp_env \<Rightarrow> 'd esp_jrnl_diskio_t \<Rightarrow> ('d \<Rightarrow> image) \<Rightarrow> nat \<Rightarrow> esp_jrnl_master_t \<Rightarrow>
   esp_jrnl_handle_t \<Rightarrow> byte list \<Rightarrow> ('d, 'z) jrnl_world_scheme \<Rightarrow> bool" where
  "journal_ready E io content sec m h fs s \<longleftrightarrow>
     (\<exists>inst. attached io m h inst s \<and> status (master inst) = ESP_JRNL_STATUS_TRANS_READY \<and>
             next_free_sector (master inst) = 0) \<and>
     recovers_to E sec m (content (dev s)) fs \<and> fs_bytes sec m (content (dev s)) = fs"

definition journal_open ::
  "esp_env \<Rightarrow> 'd esp_jrnl_diskio_t \<Rightarrow> ('d \<Rightarrow> image) \<Rightarrow> nat \<Rightarrow> esp_jrnl_master_t \<Rightarrow>
   esp_jrnl_handle_t \<Rightarrow> byte list \<Rightarrow> jop list \<Rightarrow> ('d, 'z) jrnl_world_scheme \<Rightarrow> bool" where
  "journal_open E io content sec m h fs ps s \<longleftrightarrow>
     (\<exists>inst. attached io m h inst s \<and> status (master inst) = ESP_JRNL_STATUS_TRANS_OPEN \<and>
             used_sectors (master inst) = log_sectors sec ps) \<and>
     log_in_store E sec m ps (content (dev s)) \<and> idle_disk sec m (content (dev s)) \<and>
     fs_bytes sec m (content (dev s)) = fs"

lemma open_recovers: "journal_open E io content sec m h fs ps s \<Longrightarrow> recovers_to E sec m (content (dev s)) fs"
  by (auto simp: journal_open_def recovers_to_def)

lemma log_in_store_Nil: "geom sec cap m \<Longrightarrow> log_in_store E sec m [] c"
  using geom_sector_pos [of sec cap m] by (simp add: log_in_store_def)

lemma attached_set_instance:
  assumes "attached io m h i s" and "diskio inst = io" and "\<not> trans_lock inst"
    and "same_geometry m (master inst)" and "jrnl_magic_mark (master inst) = JRNL_STORE_MARKER"
  shows "attached io m h inst (set_instance h inst (s\<lparr>dev := d\<rparr>))"
    and "attached io m h inst (set_instance h inst (s\<lparr>dev := d, heap := hp\<rparr>))"
  using assms by (auto simp: attached_def intro!: mounted_set_instance [of _ i])

lemma attached_geom: "attached io m h inst s \<Longrightarrow> geom sec cap m \<Longrightarrow> geom sec cap (master inst)"
  using same_geometry_geom by (auto simp: attached_def)

text \<open>All that is known of an instance with an open transaction.\<close>

lemma journal_openE:
  assumes "journal_open E io content sec m h fs ps s"
  obtains inst where "attached io m h inst s" and "mounted h inst s" and "diskio inst = io"
    and "\<not> trans_lock inst" and "same_geometry m (master inst)"
    and "jrnl_magic_mark (master inst) = JRNL_STORE_MARKER"
    and "status (master inst) = ESP_JRNL_STATUS_TRANS_OPEN"
    and "used_sectors (master inst) = log_sectors sec ps"
    and "log_in_store E sec m ps (content (dev s))" and "idle_disk sec m (content (dev s))"
    and "fs_bytes sec m (content (dev s)) = fs"
  using assms by (auto simp: journal_open_def attached_def)

text \<open>The getters, on a mounted volume.\<close>

lemma getters_run:
  assumes "geom sec cap m" and "attached io m h inst s"
  shows "esp_jrnl_get_sector_count h True s = (Ret (ESP_OK, Some (store_volume_offset_sector m)), s)"
    and "esp_jrnl_get_sector_size h True s = (Ret (ESP_OK, Some (disk_sector_size (volume m))), s)"
    and "esp_jrnl_get_diskio_handle h True s = (Ret (ESP_OK, Some (diskio_ctrl_handle io)), s)"
proof -
  have mt: "mounted h inst s" and io: "diskio inst = io" and geo: "same_geometry m (master inst)"
    using assms(2) by (simp_all add: attached_def)
  have "disk_sector_size (volume m) \<noteq> 0"
    using assms(1) geom_sector_pos [OF assms(1)] by (auto simp: geom_def)
  moreover have "volume (master inst) = volume m" "store_size_sectors (master inst) = store_size_sectors m"
    using geo by (simp_all add: same_geometry_def)
  ultimately show
    "esp_jrnl_get_sector_count h True s = (Ret (ESP_OK, Some (store_volume_offset_sector m)), s)"
    "esp_jrnl_get_sector_size h True s = (Ret (ESP_OK, Some (disk_sector_size (volume m))), s)"
    "esp_jrnl_get_diskio_handle h True s = (Ret (ESP_OK, Some (diskio_ctrl_handle io)), s)"
    using geom_offset [OF assms(1)] io
    by (simp_all add: mounted_run [OF mt] esp_jrnl_get_sector_count_def esp_jrnl_get_sector_size_def
        esp_jrnl_get_diskio_handle_def run_ret)
qed

text \<open>Changes within the free part of the store are invisible.\<close>

lemma free_store_frame:
  assumes so: "same_outside c c' a n" and lo: "(fs_sectors m + log_sectors sec ps) * sec \<le> a"
    and hi: "a + n \<le> master_addr sec m"
  shows "fs_bytes sec m c' = fs_bytes sec m c" and "stored_master sec m c' = stored_master sec m c"
    and "log_in_store E sec m ps c \<Longrightarrow> log_in_store E sec m ps c'"
proof -
  have fl: "fs_sectors m * sec \<le> a" using lo by (simp add: distrib_right)
  show "fs_bytes sec m c' = fs_bytes sec m c"
    unfolding fs_bytes_def using fl by (intro same_outside_get [OF so]) simp
  show "stored_master sec m c' = stored_master sec m c"
    unfolding stored_master_def using hi by (subst same_outside_get [OF so]) simp_all
  show "log_in_store E sec m ps c'" if lg: "log_in_store E sec m ps c"
  proof -
    have "log_at E sec (fs_sectors m) ps c'"
    proof (rule log_at_frame)
      show "log_at E sec (fs_sectors m) ps c" using lg by (simp add: log_in_store_def)
      show "c' i = c i" if "i < (fs_sectors m + log_sectors sec ps) * sec" for i
        using same_outside_at [OF so, of i] that lo by simp
    qed
    with lg show ?thesis by (simp add: log_in_store_def)
  qed
qed

text \<open>Appending an operation to the log of a store.\<close>

lemma log_in_store_append:
  assumes g: "geom sec cap m" and lg: "log_in_store E sec m ps c" and ok: "op_ok sec m p"
    and room: "log_sectors sec ps + op_sectors sec p + 2 < store_sectors m"
  shows "log_in_store E sec m (ps @ [p])
           (put_bytes c ((fs_sectors m + log_sectors sec ps) * sec) (op_bytes E sec p))"
proof -
  let ?a = "(fs_sectors m + log_sectors sec ps) * sec"
  let ?c = "put_bytes c ?a (op_bytes E sec p)"
  have sec: "16 \<le> sec" using geom_sector_pos [OF g] by simp
  have okps: "list_all (op_ok sec m) ps" and at: "log_at E sec (fs_sectors m) ps c"
    using lg by (simp_all add: log_in_store_def)
  have dvd: "sec dvd length (snd p)" using ok by (simp add: op_ok_def)
  have "log_at E sec (fs_sectors m) ps ?c"
    using at by (rule log_at_frame) (simp add: put_bytes_outside)
  moreover have "log_at E sec (fs_sectors m + log_sectors sec ps) [p] ?c"
    unfolding log_at_def using length_op_bytes [OF sec dvd]
    by (simp add: get_put_same)
  ultimately have "log_at E sec (fs_sectors m) (ps @ [p]) ?c"
    by (simp add: log_at_append [OF sec okps])
  then show ?thesis using okps ok room by (simp add: log_in_store_def)
qed

lemma geom_sum_lt:
  assumes "geom sec cap m"
  shows "fs_sectors m + store_sectors m < 2 ^ 32"
proof -
  have "fs_sectors m + store_sectors m \<le> (fs_sectors m + store_sectors m) * sec"
    using geom_sector_pos [OF assms] by simp
  also have "\<dots> < 2 ^ 32"
    using assms unat_lt_2_32 [of "volume_size (volume m)"] by (simp add: geom_def)
  finally show ?thesis .
qed

section \<open>The calls\<close>

context block_device
begin

lemma start_refines:
  assumes g: "geom sector capacity m" and rd: "journal_ready E io content sector m h fs s"
  obtains err s' where "esp_jrnl_start E h s = (Ret err, s')"
    and "err = ESP_OK \<Longrightarrow> journal_open E io content sector m h fs [] s'"
    and "recovers_to E sector m (content (dev s')) fs"
proof -
  obtain inst where at: "attached io m h inst s" and st: "status (master inst) = ESP_JRNL_STATUS_TRANS_READY"
    and nf: "next_free_sector (master inst) = 0"
    and rc: "recovers_to E sector m (content (dev s)) fs" and f: "fs_bytes sector m (content (dev s)) = fs"
    using rd by (auto simp: journal_ready_def)
  have mt: "mounted h inst s" and io: "diskio inst = io" and unl: "\<not> trans_lock inst"
    and geo: "same_geometry m (master inst)" and mg: "jrnl_magic_mark (master inst) = JRNL_STORE_MARKER"
    using at by (simp_all add: attached_def)
  let ?m = "(master inst)\<lparr>status := ESP_JRNL_STATUS_TRANS_OPEN\<rparr>"
  let ?i = "inst\<lparr>master := ?m\<rparr>"
  obtain err d where run: "esp_jrnl_start E h s = (Ret err, set_instance h ?i (s\<lparr>dev := d\<rparr>))"
    and u0: "sector_update erased (content (dev s)) (master_addr sector (master inst))
           (master_sector E sector (master ?i)) err (content d)"
    by (rule start_run [OF mt io attached_geom [OF at g] st nf unl])
  have u: "sector_update erased (content (dev s)) (master_addr sector m) (master_sector E sector ?m) err (content d)"
    using u0 by (simp add: same_geometry_layout [OF geo])
  have geo': "same_geometry m ?m" using geo by simp
  have st': "status ?m = ESP_JRNL_STATUS_TRANS_READY \<or> status ?m = ESP_JRNL_STATUS_TRANS_OPEN" by simp
  have rc': "recovers_to E sector m (content d) fs \<and> fs_bytes sector m (content d) = fs"
    by (rule recovers_update [OF g geo' st' u rc f])
  show thesis
  proof (rule that [OF run])
    show "recovers_to E sector m (content (dev (set_instance h ?i (s\<lparr>dev := d\<rparr>)))) fs" using rc' by simp
    assume "err = ESP_OK"
    then show "journal_open E io content sector m h fs [] (set_instance h ?i (s\<lparr>dev := d\<rparr>))"
      using attached_set_instance(1) [OF at, of ?i d] idle_update(3) [OF g geo' st' u] rc' log_in_store_Nil [OF g]
        io unl geo mg nf unfolding journal_open_def
      by (intro conjI exI [of _ ?i]) simp_all
  qed
qed

lemma cancel_refines:
  assumes g: "geom sector capacity m" and op: "journal_open E io content sector m h fs ps s"
  obtains err s' where "esp_jrnl_stop E h False s = (Ret err, s')"
    and "journal_ready E io content sector m h fs s'"
proof -
  obtain inst where at: "attached io m h inst s" and f: "fs_bytes sector m (content (dev s)) = fs"
    using op by (auto simp: journal_open_def)
  have mt: "mounted h inst s" and io: "diskio inst = io" and unl: "\<not> trans_lock inst"
    and geo: "same_geometry m (master inst)"
    using at by (simp_all add: attached_def)
  let ?m = "reset_fields False (master inst)"
  let ?i = "inst\<lparr>master := ?m\<rparr>"
  obtain err d where run: "esp_jrnl_stop E h False s = (Ret err, set_instance h ?i (s\<lparr>dev := d\<rparr>))"
    and u0: "sector_update erased (content (dev s)) (master_addr sector (master inst))
           (master_sector E sector (master ?i)) err (content d)"
    by (rule cancel_run [OF mt io attached_geom [OF at g] unl])
  have u: "sector_update erased (content (dev s)) (master_addr sector m) (master_sector E sector ?m) err (content d)"
    using u0 by (simp add: same_geometry_layout [OF geo])
  have rc': "recovers_to E sector m (content d) fs \<and> fs_bytes sector m (content d) = fs"
    by (rule recovers_update [OF g _ _ u open_recovers [OF op] f]) (use geo in \<open>simp_all add: reset_fields_def\<close>)
  have "attached io m h ?i (set_instance h ?i (s\<lparr>dev := d\<rparr>))"
    by (rule attached_set_instance(1) [OF at]) (use io unl geo in \<open>simp_all add: reset_fields_def\<close>)
  then have "journal_ready E io content sector m h fs (set_instance h ?i (s\<lparr>dev := d\<rparr>))"
    unfolding journal_ready_def using rc'
    by (intro conjI exI [of _ ?i]) (simp_all add: reset_fields_def)
  with run show thesis by (rule that)
qed

text \<open>
  A write inside a transaction. It appends to the log or, on an error, may leave the log as
  it was; the file system is untouched. The room test of the code is exact for targets
  within the file system, since the sum in it does not wrap.
\<close>

lemma room_test:
  assumes g: "geom sector capacity m" and geo: "same_geometry m m'"
    and lg: "log_in_store E sector m ps c" and us: "used_sectors m' = log_sectors sector ps"
    and le: "unat count \<le> fs_sectors m"
  shows "next_free_sector m' + 1 + count < store_size_sectors m' - 1 \<longleftrightarrow>
    log_sectors sector ps + unat count + 2 < store_sectors m"
proof -
  have lt: "log_sectors sector ps + 1 + unat count < 2 ^ 32"
    using lg geom_sum_lt [OF g] le by (simp add: log_in_store_def)
  then have "unat (next_free_sector m' + 1) = log_sectors sector ps + 1"
    by (subst unat_add_no_wrap) (simp_all add: us)
  then have l: "unat (next_free_sector m' + 1 + count) = log_sectors sector ps + 1 + unat count"
    using lt by (subst unat_add_no_wrap) simp_all
  have "unat (store_size_sectors m' - 1) = store_sectors m - 1"
    using geo geom_sector_pos [OF g] by (subst unat_diff_no_wrap) (simp_all add: same_geometry_def)
  then show ?thesis using l by (simp add: word_less_nat_alt) linarith
qed

lemma write_run:
  assumes mt: "mounted h inst s" and unlocked: "\<not> trans_lock inst"
    and st: "status (master inst) = ESP_JRNL_STATUS_TRANS_OPEN"
  shows "esp_jrnl_write E h (Some buff) sec count s =
    (if next_free_sector (master inst) + 1 + count < store_size_sectors (master inst) - 1
     then bind (journal_write E (inst\<lparr>trans_lock := True\<rparr>) buff sec count)
            (\<lambda>(err, inst1). bind (put_instance h (release_trans_lock (Some inst1))) (\<lambda>_. ret err)) s
     else (Ret ESP_ERR_NO_MEM, s))"
  by (simp add: esp_jrnl_write_def mounted_run [OF mt] unlocked st prog_simps Let_def)

text \<open>The disk and the record after an operation was appended and the record updated, or not.\<close>

lemma append_recorded:
  fixes count :: u32
  assumes g: "geom sector capacity m" and geo: "same_geometry m m0"
    and us: "used_sectors m0 = log_sectors sector ps" and st: "status m0 = ESP_JRNL_STATUS_TRANS_OPEN"
    and lg: "log_in_store E sector m ps c" and idle: "idle_disk sector m c"
    and ok: "op_ok sector m p" and k: "op_sectors sector p = unat count"
    and room: "log_sectors sector ps + unat count + 2 < store_sectors m"
  defines "m1 \<equiv> m0\<lparr>next_free_sector := next_free_sector m0 + (1 + count)\<rparr>"
  assumes u: "sector_update er (put_bytes c ((fs_sectors m + log_sectors sector ps) * sector) (op_bytes E sector p))
      (master_addr sector m) (master_sector E sector m1) err c'"
  shows "used_sectors m1 = log_sectors sector (ps @ [p])" and "log_in_store E sector m (ps @ [p]) c'"
    and "idle_disk sector m c'" and "fs_bytes sector m c' = fs_bytes sector m c"
proof -
  let ?a = "(fs_sectors m + log_sectors sector ps) * sector"
  let ?c1 = "put_bytes c ?a (op_bytes E sector p)"
  have sec16: "16 \<le> sector" using geom_sector_pos [OF g] by simp
  have "length (op_bytes E sector p) = (1 + unat count) * sector"
    using ok by (subst length_op_bytes [OF sec16]) (simp_all add: op_ok_def k)
  then have so: "same_outside c ?c1 ?a ((1 + unat count) * sector)" by (simp add: same_outside_put)
  have "?a + (1 + unat count) * sector \<le> master_addr sector m"
    using store_below_master [of "log_sectors sector ps + (1 + unat count)" m sector] room
    by (simp add: algebra_simps)
  note fr = free_store_frame [OF so order_refl this]
  note up = idle_update [OF g _ _ u, unfolded m1_def, simplified, OF geo, unfolded st, simplified]
  have "log_sectors sector ps + (1 + unat count) < 2 ^ 32"
    using room unat_lt_2_32 [of "store_size_sectors m"] by linarith
  then show "used_sectors m1 = log_sectors sector (ps @ [p])"
    using us by (simp add: m1_def unat_word_ariths k)
  have "log_in_store E sector m (ps @ [p]) ?c1"
    by (rule log_in_store_append [OF g lg ok]) (use room k in simp)
  then show "log_in_store E sector m (ps @ [p]) c'"
    using sector_update_frame [OF u] by (rule log_in_store_outside)
  show "idle_disk sector m c'" using up(2) idle fr(2) by (auto simp: idle_disk_def)
  show "fs_bytes sector m c' = fs_bytes sector m c" using up(1) fr(1) by simp
qed

lemma journal_write_refines:
  assumes g: "geom sector capacity m" and io: "diskio inst = io" and geo: "same_geometry m (master inst)"
    and us: "used_sectors (master inst) = log_sectors sector ps"
    and st: "status (master inst) = ESP_JRNL_STATUS_TRANS_OPEN"
    and lg: "log_in_store E sector m ps (content (dev s))" and idle: "idle_disk sector m (content (dev s))"
    and ok: "op_ok sector m (sec, data)" and data: "data = buf_bytes buff (unat count * sector)"
    and room: "log_sectors sector ps + unat count + 2 < store_sectors m"
  obtains err m' ps' d hp where
    "journal_write E inst buff sec count s = (Ret (err, inst\<lparr>master := m'\<rparr>), s\<lparr>dev := d, heap := hp\<rparr>)"
    and "ps' = ps @ [(sec, data)] \<or> err \<noteq> ESP_OK \<and> ps' = ps"
    and "same_geometry m m'" and "status m' = ESP_JRNL_STATUS_TRANS_OPEN"
    and "jrnl_magic_mark m' = jrnl_magic_mark (master inst)"
    and "used_sectors m' = log_sectors sector ps'"
    and "log_in_store E sector m ps' (content d)" and "idle_disk sector m (content d)"
    and "fs_bytes sector m (content d) = fs_bytes sector m (content (dev s))"
proof -
  let ?c = "content (dev s)" and ?p = "(sec, data)"
  let ?a = "(fs_sectors m + log_sectors sector ps) * sector"
  let ?m1 = "(master inst)\<lparr>next_free_sector := next_free_sector (master inst) + (1 + count)\<rparr>"
  have k: "op_sectors sector ?p = unat count" using geom_sector_pos [OF g] by (auto simp: op_sectors_def data)
  have gi: "geom sector capacity (master inst)" using g same_geometry_geom [OF geo] by simp
  have room': "used_sectors (master inst) + (1 + unat count) < store_sectors (master inst)"
    using room us by (simp add: same_geometry_layout [OF geo])
  obtain err inst' d hp where
    run: "journal_write E inst buff sec count s = (Ret (err, inst'), s\<lparr>dev := d, heap := hp\<rparr>)"
    and res: "err \<noteq> ESP_OK \<and> inst' = inst \<and> same_outside ?c (content d) ?a ((1 + unat count) * sector) \<or>
         inst' = inst\<lparr>master := ?m1\<rparr> \<and>
           sector_update erased (put_bytes ?c ?a (op_bytes E sector ?p))
             (master_addr sector m) (master_sector E sector ?m1) err (content d)"
    by (rule journal_write_run [OF io gi room', of E buff sec s])
      (use us in \<open>simp_all add: same_geometry_layout [OF geo] data\<close>)
  have hi: "?a + (1 + unat count) * sector \<le> master_addr sector m"
    using store_below_master [of "log_sectors sector ps + (1 + unat count)" m sector] room
    by (simp add: algebra_simps)
  from res show thesis
  proof (elim disjE conjE)
    assume e: "err \<noteq> ESP_OK" and i: "inst' = inst"
      and so: "same_outside ?c (content d) ?a ((1 + unat count) * sector)"
    note fr = free_store_frame [OF so order_refl hi]
    show thesis
      by (rule that [of err "master inst" hp d ps])
        (use run i e geo st us fr(1,2) fr(3) [OF lg] idle in \<open>simp_all add: idle_disk_def\<close>)
  next
    assume i: "inst' = inst\<lparr>master := ?m1\<rparr>"
      and u: "sector_update erased (put_bytes ?c ?a (op_bytes E sector ?p)) (master_addr sector m)
        (master_sector E sector ?m1) err (content d)"
    note ap = append_recorded [OF g geo us st lg idle ok k room u]
    show thesis by (rule that [of err ?m1 hp d "ps @ [?p]"]) (use run i geo st ap in simp_all)
  qed
qed

lemma write_refines:
  assumes g: "geom sector capacity m" and op: "journal_open E io content sector m h fs ps s"
    and ok: "op_ok sector m (sec, data)" and data: "data = buf_bytes buff (unat count * sector)"
  obtains err s' ps' where "esp_jrnl_write E h (Some buff) sec count s = (Ret err, s')"
    and "journal_open E io content sector m h fs ps' s'"
    and "ps' = ps @ [(sec, data)] \<or> err \<noteq> ESP_OK \<and> ps' = ps"
proof -
  obtain inst where at: "attached io m h inst s" and mt: "mounted h inst s" and io: "diskio inst = io"
    and unl: "\<not> trans_lock inst" and geo: "same_geometry m (master inst)"
    and mg: "jrnl_magic_mark (master inst) = JRNL_STORE_MARKER"
    and st: "status (master inst) = ESP_JRNL_STATUS_TRANS_OPEN"
    and us: "used_sectors (master inst) = log_sectors sector ps"
    and lg: "log_in_store E sector m ps (content (dev s))" and idle: "idle_disk sector m (content (dev s))"
    and f: "fs_bytes sector m (content (dev s)) = fs"
    using op by (rule journal_openE)
  have "op_sectors sector (sec, data) = unat count"
    using geom_sector_pos [OF g] by (auto simp: op_sectors_def data)
  then have le: "unat count \<le> fs_sectors m" using ok by (simp add: op_ok_def)
  note test = room_test [OF g geo lg us le]
  show thesis
  proof (cases "log_sectors sector ps + unat count + 2 < store_sectors m")
    case False
    then show thesis
      using that [of ESP_ERR_NO_MEM s ps] write_run [OF mt unl st] op test by simp
  next
    case room: True
    let ?i = "inst\<lparr>trans_lock := True\<rparr>"
    obtain err m' ps' d hp where
      run: "journal_write E ?i buff sec count s = (Ret (err, ?i\<lparr>master := m'\<rparr>), s\<lparr>dev := d, heap := hp\<rparr>)"
      and ps': "ps' = ps @ [(sec, data)] \<or> err \<noteq> ESP_OK \<and> ps' = ps"
      and m': "same_geometry m m'" "status m' = ESP_JRNL_STATUS_TRANS_OPEN"
        "jrnl_magic_mark m' = jrnl_magic_mark (master ?i)" "used_sectors m' = log_sectors sector ps'"
      and d: "log_in_store E sector m ps' (content d)" "idle_disk sector m (content d)"
        "fs_bytes sector m (content d) = fs_bytes sector m (content (dev s))"
      by (rule journal_write_refines [OF g, of ?i ps E s sec data buff count])
        (use io geo us st lg idle ok data room in simp_all)
    let ?i' = "inst\<lparr>master := m'\<rparr>"
    let ?s' = "set_instance h ?i' (s\<lparr>dev := d, heap := hp\<rparr>)"
    have i': "inst\<lparr>master := m', trans_lock := False\<rparr> = ?i'" using unl by (cases inst) simp
    have "esp_jrnl_write E h (Some buff) sec count s = (Ret err, ?s')"
      using write_run [OF mt unl st] test room run i' by (simp add: run_bind_Ret prog_simps)
    moreover have "attached io m h ?i' ?s'"
      by (rule attached_set_instance(2) [OF at]) (use io unl m' mg in simp_all)
    then have "journal_open E io content sector m h fs ps' ?s'"
      unfolding journal_open_def using m' d f by (intro conjI exI [of _ ?i']) simp_all
    ultimately show thesis using ps' by (rule that)
  qed
qed

text \<open>
  The commit. Success makes the log durable; after an error a disk is left that stands either
  for the old or for the new file system.
\<close>

lemma commit_run:
  assumes mt: "mounted h inst s" and unlocked: "\<not> trans_lock inst"
    and st: "status (master inst) = ESP_JRNL_STATUS_TRANS_OPEN"
  defines "inst1 \<equiv> inst\<lparr>master := (master inst)\<lparr>status := ESP_JRNL_STATUS_TRANS_COMMIT\<rparr>\<rparr>"
  shows "esp_jrnl_stop E h True s =
    bind (jrnl_update_master E (inst1\<lparr>trans_lock := True\<rparr>) (master inst1)) (\<lambda>err.
      bind (put_instance h (Some inst1)) (\<lambda>_.
      if err \<noteq> ESP_OK then ret err
      else bind (jrnl_replay E (Some inst1)) (\<lambda>(err, p2).
           bind (put_instance h p2) (\<lambda>_. ret err)))) s"
proof (cases inst)
  case (fields lk vid dio ms)
  then show ?thesis
    using unlocked st unfolding inst1_def
    by (simp add: esp_jrnl_stop_def mounted_run [OF mt] prog_simps Let_def cong: if_cong)
qed

text \<open>The commit record: until it is on the disk the transaction has not happened, from then on it has.\<close>

lemma commit_record_run:
  assumes g: "geom sector capacity m" and io: "diskio inst = io" and geo: "same_geometry m (master inst)"
    and mg: "jrnl_magic_mark (master inst) = JRNL_STORE_MARKER"
    and us: "used_sectors (master inst) = log_sectors sector ps"
    and lg: "log_in_store E sector m ps (content (dev s))" and idle: "idle_disk sector m (content (dev s))"
    and f: "fs_bytes sector m (content (dev s)) = fs"
  defines "inst1 \<equiv> inst\<lparr>master := (master inst)\<lparr>status := ESP_JRNL_STATUS_TRANS_COMMIT\<rparr>\<rparr>"
  obtains err d where
    "jrnl_update_master E (inst1\<lparr>trans_lock := True\<rparr>) (master inst1) s = (Ret err, s\<lparr>dev := d\<rparr>)"
    and "recovers_to E sector m (content d) fs \<or> recovers_to E sector m (content d) (write_fs sector ps fs)"
    and "err = ESP_OK \<longrightarrow> committed_disk E sector m ps (content d) \<and> fs_bytes sector m (content d) = fs \<and>
           master inst1 = stored_master sector m (content d)"
proof -
  have gi: "geom sector capacity (master inst)" using g same_geometry_geom [OF geo] by simp
  have geo1: "same_geometry m (master inst1)" and st1: "status (master inst1) = ESP_JRNL_STATUS_TRANS_COMMIT"
    and mg1: "jrnl_magic_mark (master inst1) = JRNL_STORE_MARKER"
    and us1: "used_sectors (master inst1) = log_sectors sector ps"
    using geo mg us by (simp_all add: inst1_def)
  obtain err d where up: "jrnl_update_master E (inst1\<lparr>trans_lock := True\<rparr>) (master inst1) s = (Ret err, s\<lparr>dev := d\<rparr>)"
    and u0: "sector_update erased (content (dev s)) (master_addr sector (master inst))
           (master_sector E sector (master inst1)) err (content d)"
    by (rule update_master_run [of "inst1\<lparr>trans_lock := True\<rparr>" E "master inst1" s])
      (use io gi in \<open>simp_all add: inst1_def\<close>)
  have u: "sector_update erased (content (dev s)) (master_addr sector m)
      (master_sector E sector (master inst1)) err (content d)"
    using u0 by (simp add: same_geometry_layout [OF geo])
  note cu = commit_update [OF g geo1 st1 mg1 us1 lg idle u]
  have "master inst1 = stored_master sector m (content d)" if "err = ESP_OK"
    using u that stored_master_put [OF g, of "master inst1"] st1 by (simp add: sector_update_def)
  then show thesis using that [OF up] cu f by (auto simp: recovers_to_def)
qed

lemma commit_refines:
  assumes g: "geom sector capacity m" and op: "journal_open E io content sector m h fs ps s"
  obtains err s' where "esp_jrnl_stop E h True s = (Ret err, s')"
    and "err = ESP_OK \<Longrightarrow> journal_ready E io content sector m h (write_fs sector ps fs) s'"
    and "recovers_to E sector m (content (dev s')) fs \<or>
         recovers_to E sector m (content (dev s')) (write_fs sector ps fs)"
proof -
  obtain inst where at: "attached io m h inst s" and mt: "mounted h inst s" and io: "diskio inst = io"
    and unl: "\<not> trans_lock inst" and geo: "same_geometry m (master inst)"
    and mg: "jrnl_magic_mark (master inst) = JRNL_STORE_MARKER"
    and st: "status (master inst) = ESP_JRNL_STATUS_TRANS_OPEN"
    and us: "used_sectors (master inst) = log_sectors sector ps"
    and lg: "log_in_store E sector m ps (content (dev s))" and idle: "idle_disk sector m (content (dev s))"
    and f: "fs_bytes sector m (content (dev s)) = fs"
    using op by (rule journal_openE)
  let ?i1 = "inst\<lparr>master := (master inst)\<lparr>status := ESP_JRNL_STATUS_TRANS_COMMIT\<rparr>\<rparr>"
  obtain err d where up: "jrnl_update_master E (?i1\<lparr>trans_lock := True\<rparr>) (master ?i1) s = (Ret err, s\<lparr>dev := d\<rparr>)"
    and rd: "recovers_to E sector m (content d) fs \<or> recovers_to E sector m (content d) (write_fs sector ps fs)"
    and cm: "err = ESP_OK \<longrightarrow> committed_disk E sector m ps (content d) \<and> fs_bytes sector m (content d) = fs \<and>
           master ?i1 = stored_master sector m (content d)"
    by (rule commit_record_run [OF g io geo mg us lg idle f])
  note run = commit_run [OF mt unl st, of E]
  show thesis
  proof (cases "err = ESP_OK")
    case False
    have "esp_jrnl_stop E h True s = (Ret err, set_instance h ?i1 (s\<lparr>dev := d\<rparr>))"
      using run up False by (simp add: run_bind_Ret prog_simps)
    then show thesis using that [of err "set_instance h ?i1 (s\<lparr>dev := d\<rparr>)"] False rd by simp
  next
    case True
    let ?s1 = "set_instance h ?i1 (s\<lparr>dev := d\<rparr>)"
    obtain err' inst' d' hp where
      r: "jrnl_replay E (Some ?i1) ?s1 = (Ret (err', Some inst'), ?s1\<lparr>dev := d', heap := hp\<rparr>)"
      and rc: "recovers_to E sector m (content d') (write_fs sector ps (fs_bytes sector m (content (dev ?s1))))"
      and k: "err' = ESP_OK \<Longrightarrow> inst' = ?i1\<lparr>master := reset_fields False (master ?i1)\<rparr> \<and>
           fs_bytes sector m (content d') = write_fs sector ps (fs_bytes sector m (content (dev ?s1)))"
      by (rule replay_commit_recovers [OF g, of ?i1 ?s1 E ps]) (use io unl cm True in \<open>simp_all\<close>)
    let ?s' = "set_instance h inst' (s\<lparr>dev := d', heap := hp\<rparr>)"
    have stop: "esp_jrnl_stop E h True s = (Ret err', ?s')"
      using run up True r by (simp add: run_bind_Ret prog_simps)
    have rdy: "journal_ready E io content sector m h (write_fs sector ps fs) ?s'" if ok: "err' = ESP_OK"
    proof -
      have at': "attached io m h inst' ?s'"
        by (rule attached_set_instance(2) [OF at])
          (use k [OF ok] io unl geo in \<open>simp_all add: reset_fields_def\<close>)
      show ?thesis
        unfolding journal_ready_def using at' k [OF ok] rc cm True
        by (intro conjI exI [of _ inst']) (simp_all add: reset_fields_def)
    qed
    show thesis using that [OF stop rdy] rc cm True by simp
  qed
qed

text \<open>Reading outside and inside a transaction: the file system of before the transaction.\<close>

lemma read_refines:
  assumes g: "geom sector capacity m" and at: "attached io m h inst s"
    and rng: "unat sec + unat count < fs_sectors m"
  obtains err bs d where "esp_jrnl_read h sec True count s = (Ret (err, bs), s\<lparr>dev := d\<rparr>)"
    and "content d = content (dev s)"
    and "err = ESP_OK \<Longrightarrow> bs = take (unat count * sector)
           (drop (unat sec * sector) (fs_bytes sector m (content (dev s))))"
proof -
  have mt: "mounted h inst s" and io: "diskio inst = io" and geo: "same_geometry m (master inst)"
    using at by (simp_all add: attached_def)
  let ?ss = "disk_sector_size (volume (master inst))"
  have "unat (sec + count) = unat sec + unat count"
    using rng unat_lt_2_32 [of "store_volume_offset_sector m"] by (intro unat_add_no_wrap) linarith
  then have t: "\<not> store_volume_offset_sector (master inst) \<le> sec + count"
    using rng geo by (simp add: same_geometry_def word_le_nat_alt)
  have addr: "unat (sec * ?ss) = unat sec * sector" "unat (count * ?ss) = unat count * sector"
      "unat sec * sector + unat count * sector \<le> capacity"
    using geom_address [OF g, of sec count] rng geo by (simp_all add: same_geometry_def)
  obtain err bs d where r: "disk_read io (diskio_ctrl_handle io) (sec * ?ss) (count * ?ss) (dev s) = ((err, bs), d)"
    by (metis surj_pair)
  have "(unat sec + unat count) * sector \<le> fs_sectors m * sector"
    using rng by (intro mult_le_mono1) simp
  then have "get_bytes (content (dev s)) (unat sec * sector) (unat count * sector) =
      take (unat count * sector) (drop (unat sec * sector) (fs_bytes sector m (content (dev s))))"
    by (simp add: fs_bytes_def take_drop_get_bytes distrib_right)
  moreover have "esp_jrnl_read h sec True count s = (Ret (err, bs), s\<lparr>dev := d\<rparr>)"
    using r io t by (simp add: esp_jrnl_read_def mounted_run [OF mt] Let_def jrnl_read_raw_def)
  moreover have "bs = get_bytes (content (dev s)) (unat sec * sector) (unat count * sector)" if "err = ESP_OK"
    using read_ok [OF r [unfolded that]] addr by simp
  ultimately show thesis using that [of err bs d] read_frame [OF r] addr by simp
qed

text \<open>
  Mounting after a power cycle: whatever it reports, the disk keeps standing for the same file
  system, and after a success the volume is ready and its sectors hold that file system.
\<close>

lemma mount_refines_table:
  assumes g: "geom sector capacity m" and cf: "matches m io config"
    and rc: "recovers_to E sector m (content (dev s)) fs"
    and lk: "\<not> s_instances_lock s" and len: "length (s_jrnl_instance_ptrs s) = JRNL_MAX_HANDLES"
    and free: "None \<in> set (s_jrnl_instance_ptrs s)"
  obtains err h s' where "esp_jrnl_mount E (Some config) (Some h0) s = (Ret (err, Some h), s')"
    and "recovers_to E sector m (content (dev s')) fs" and "\<not> s_instances_lock s'"
    and "length (s_jrnl_instance_ptrs s') = JRNL_MAX_HANDLES"
    and "if err = ESP_OK then journal_ready E io content sector m h fs s' else h = h0"
proof -
  let ?h = "find_free_handle (s_jrnl_instance_ptrs s)" and ?s0 = "s\<lparr>s_instances_lock := True\<rparr>"
  note ff = find_free_handle_Some [OF refl find_free_handle_found [OF free]]
  have min: "\<not> cfg_store_size_sectors (user_cfg config) < JRNL_MIN_STORE_SIZE"
    using described_store_size [OF g, of io config] cf by (simp add: matches_def)
  have rc0: "recovers_to E sector m (content (dev ?s0)) fs" using rc by simp
  obtain err p d hp where
    r: "mount_instance E config ?s0 = (Ret (err, p), ?s0\<lparr>dev := d, heap := hp\<rparr>)"
    and rc': "recovers_to E sector m (content d) fs"
    and k: "err = ESP_OK \<Longrightarrow> fs_bytes sector m (content d) = fs \<and> idle_disk sector m (content d) \<and>
           (\<exists>inst. p = Some (inst\<lparr>master := reset_fields False m\<rparr>) \<and> diskio inst = io \<and> \<not> trans_lock inst)"
    by (rule mount_instance_recovers [OF g cf rc0]) (rule that, assumption, assumption, blast)
  let ?s1 = "s\<lparr>dev := d, heap := hp, s_instances_lock := False\<rparr>"
  let ?s2 = "?s1\<lparr>s_jrnl_instance_ptrs := (s_jrnl_instance_ptrs s)[nat ?h := p]\<rparr>"
  have run: "esp_jrnl_mount E (Some config) (Some h0) s =
      (if err = ESP_OK then (Ret (ESP_OK, Some ?h), ?s2) else (Ret (err, Some h0), ?s1))"
    by (rule mount_by_instance [OF lk free min r])
  show thesis
  proof (cases "err = ESP_OK")
    case False
    then show thesis using that [of err h0 ?s1] run rc' len by simp
  next
    case True
    then obtain inst where p: "p = Some (inst\<lparr>master := reset_fields False m\<rparr>)" and io: "diskio inst = io"
      and unl: "\<not> trans_lock inst" and f: "fs_bytes sector m (content d) = fs"
      using k by blast
    let ?i = "inst\<lparr>master := reset_fields False m\<rparr>"
    have "attached io m ?h ?i ?s2"
      using ff len p io unl by (simp add: attached_def mounted_def reset_fields_def same_geometry_def)
    then have "journal_ready E io content sector m ?h fs ?s2"
      unfolding journal_ready_def using rc' f by (intro conjI exI [of _ ?i]) (simp_all add: reset_fields_def)
    then show thesis using that [of ESP_OK ?h ?s2] run rc' True len by simp
  qed
qed

lemma mount_refines:
  assumes "geom sector capacity m" and "matches m io config"
    and "recovers_to E sector m (content (dev s)) fs"
    and "\<not> s_instances_lock s" and "length (s_jrnl_instance_ptrs s) = JRNL_MAX_HANDLES"
    and "None \<in> set (s_jrnl_instance_ptrs s)"
  obtains err h s' where "esp_jrnl_mount E (Some config) (Some h0) s = (Ret (err, Some h), s')"
    and "recovers_to E sector m (content (dev s')) fs" and "\<not> s_instances_lock s'"
    and "err = ESP_OK \<Longrightarrow> journal_ready E io content sector m h fs s'"
  by (rule mount_refines_table [OF assms]) (rule that, auto)

text \<open>Leaving direct access on a volume that is ready rewrites the record it has.\<close>

lemma set_ready_refines:
  assumes g: "geom sector capacity m" and rd: "journal_ready E io content sector m h fs s"
  obtains err inst d where "esp_jrnl_set_direct_io E h False s = (Ret err, set_instance h inst (s\<lparr>dev := d\<rparr>))"
    and "journal_ready E io content sector m h fs (set_instance h inst (s\<lparr>dev := d\<rparr>))"
proof -
  obtain inst where at: "attached io m h inst s" and st: "status (master inst) = ESP_JRNL_STATUS_TRANS_READY"
    and nf: "next_free_sector (master inst) = 0"
    and rc: "recovers_to E sector m (content (dev s)) fs" and f: "fs_bytes sector m (content (dev s)) = fs"
    using rd by (auto simp: journal_ready_def)
  have mt: "mounted h inst s" and io: "diskio inst = io" and unl: "\<not> trans_lock inst"
    and geo: "same_geometry m (master inst)"
    using at by (simp_all add: attached_def)
  have same: "(master inst)\<lparr>status := ESP_JRNL_STATUS_TRANS_READY\<rparr> = master inst"
    using st by (cases "master inst") simp
  let ?i = "inst\<lparr>trans_lock := True\<rparr>"
  obtain err d where r: "jrnl_update_master E ?i (master inst) s = (Ret err, s\<lparr>dev := d\<rparr>)"
    and u: "sector_update erased (content (dev s)) (master_addr sector (master inst)) (master_sector E sector (master inst)) err (content d)"
    by (rule update_master_run [of ?i E "master inst" s]) (use io attached_geom [OF at g] in simp_all)
  have run: "esp_jrnl_set_direct_io E h False s = (Ret err, set_instance h inst (s\<lparr>dev := d\<rparr>))"
    using r by (simp add: esp_jrnl_set_direct_io_def mounted_run [OF mt] st unl same prog_simps Let_def run_bind_Ret
        unlocked_same)
  have "recovers_to E sector m (content d) fs \<and> fs_bytes sector m (content d) = fs"
    by (rule recovers_update [OF g geo _ _ rc f])
      (use u st in \<open>simp_all add: same_geometry_layout [OF geo]\<close>)
  moreover have "attached io m h inst (set_instance h inst (s\<lparr>dev := d\<rparr>))"
    using at by (intro attached_set_instance(1) [OF at]) (simp_all add: attached_def)
  ultimately have "journal_ready E io content sector m h fs (set_instance h inst (s\<lparr>dev := d\<rparr>))"
    unfolding journal_ready_def using st nf by (intro conjI exI [of _ inst]) simp_all
  with run show thesis by (rule that)
qed

end

section \<open>Progress on a healthy device\<close>

text \<open>With a healthy device, memory and room in the store, no call of the interface fails.\<close>

context reliable_device
begin

lemma start_serves:
  assumes g: "geom sector capacity m" and rd: "journal_ready E io content sector m h fs s"
    and hl: "healthy (dev s)"
  obtains s' where "esp_jrnl_start E h s = (Ret ESP_OK, s')" and "healthy (dev s')" and "heap s' = heap s"
    and "journal_open E io content sector m h fs [] s'"
proof -
  obtain inst where at: "attached io m h inst s" and st: "status (master inst) = ESP_JRNL_STATUS_TRANS_READY"
    and nf: "next_free_sector (master inst) = 0"
    using rd by (auto simp: journal_ready_def)
  have mt: "mounted h inst s" and io: "diskio inst = io" and unl: "\<not> trans_lock inst"
    using at by (simp_all add: attached_def)
  let ?i = "inst\<lparr>trans_lock := True, master := (master inst)\<lparr>status := ESP_JRNL_STATUS_TRANS_OPEN\<rparr>\<rparr>"
  obtain d where "jrnl_update_master E ?i (master ?i) s = (Ret ESP_OK, s\<lparr>dev := d\<rparr>)" and h: "healthy d"
    using update_master_serves [of ?i s E "master ?i"] io attached_geom [OF at g] hl by auto
  then obtain i' where run: "esp_jrnl_start E h s = (Ret ESP_OK, set_instance h i' (s\<lparr>dev := d\<rparr>))"
    by (simp add: esp_jrnl_start_def mounted_run [OF mt] st nf unl prog_simps Let_def run_bind_Ret)
  obtain err s2 where "esp_jrnl_start E h s = (Ret err, s2)"
    and "err = ESP_OK \<Longrightarrow> journal_open E io content sector m h fs [] s2"
    by (rule start_refines [OF g rd]) (rule that; blast)
  with run h show thesis using that [OF run] by simp
qed

lemma write_serves_api:
  assumes g: "geom sector capacity m" and op: "journal_open E io content sector m h fs ps s"
    and ok: "op_ok sector m (sec, data)" and data: "data = buf_bytes buff (unat count * sector)"
    and room: "log_sectors sector ps + unat count + 2 < store_sectors m"
    and hl: "healthy (dev s)" and hp: "heap s = []"
  obtains s' where "esp_jrnl_write E h (Some buff) sec count s = (Ret ESP_OK, s')"
    and "healthy (dev s')" and "heap s' = []"
    and "journal_open E io content sector m h fs (ps @ [(sec, data)]) s'"
proof -
  obtain inst where at: "attached io m h inst s" and st: "status (master inst) = ESP_JRNL_STATUS_TRANS_OPEN"
    and us: "used_sectors (master inst) = log_sectors sector ps"
    and lg: "log_in_store E sector m ps (content (dev s))"
    using op by (auto simp: journal_open_def)
  have mt: "mounted h inst s" and io: "diskio inst = io" and unl: "\<not> trans_lock inst"
    and geo: "same_geometry m (master inst)"
    using at by (simp_all add: attached_def)
  have "op_sectors sector (sec, data) = unat count"
    using geom_sector_pos [OF g] by (auto simp: op_sectors_def data)
  then have le: "unat count \<le> fs_sectors m" using ok by (simp add: op_ok_def)
  let ?i = "inst\<lparr>trans_lock := True\<rparr>"
  obtain d inst' where "journal_write E ?i buff sec count s = (Ret (ESP_OK, inst'), s\<lparr>dev := d\<rparr>)" and h: "healthy d"
    by (rule journal_write_serves [of ?i count s E buff sec])
      (use io attached_geom [OF at g] us room hl hp in \<open>simp_all add: same_geometry_layout [OF geo]\<close>)
  then obtain i' where run: "esp_jrnl_write E h (Some buff) sec count s = (Ret ESP_OK, set_instance h i' (s\<lparr>dev := d\<rparr>))"
    using write_run [OF mt unl st] room_test [OF g geo lg us le] room by (simp add: run_bind_Ret prog_simps)
  obtain err s2 ps' where "esp_jrnl_write E h (Some buff) sec count s = (Ret err, s2)"
    and "journal_open E io content sector m h fs ps' s2"
    and "ps' = ps @ [(sec, data)] \<or> err \<noteq> ESP_OK \<and> ps' = ps"
    by (rule write_refines [OF g op ok data])
  with run h hp show thesis using that [OF run] by simp
qed

lemma commit_serves:
  assumes g: "geom sector capacity m" and op: "journal_open E io content sector m h fs ps s"
    and hl: "healthy (dev s)" and hp: "heap s = []"
  obtains s' where "esp_jrnl_stop E h True s = (Ret ESP_OK, s')"
    and "healthy (dev s')" and "heap s' = []"
    and "journal_ready E io content sector m h (write_fs sector ps fs) s'"
proof -
  obtain inst where at: "attached io m h inst s" and st: "status (master inst) = ESP_JRNL_STATUS_TRANS_OPEN"
    and us: "used_sectors (master inst) = log_sectors sector ps"
    and lg: "log_in_store E sector m ps (content (dev s))"
    using op by (auto simp: journal_open_def)
  have mt: "mounted h inst s" and io: "diskio inst = io" and unl: "\<not> trans_lock inst"
    and geo: "same_geometry m (master inst)"
    using at by (simp_all add: attached_def)
  have gi: "geom sector capacity (master inst)" by (rule attached_geom [OF at g])
  let ?m1 = "(master inst)\<lparr>status := ESP_JRNL_STATUS_TRANS_COMMIT\<rparr>"
  let ?i1 = "inst\<lparr>master := ?m1\<rparr>"
  obtain d where up: "jrnl_update_master E (?i1\<lparr>trans_lock := True\<rparr>) (master ?i1) s = (Ret ESP_OK, s\<lparr>dev := d\<rparr>)"
    and h1: "healthy d"
    using update_master_serves [of "?i1\<lparr>trans_lock := True\<rparr>" s E "master ?i1"] io gi hl by auto
  obtain err d' where up': "jrnl_update_master E (?i1\<lparr>trans_lock := True\<rparr>) (master ?i1) s = (Ret err, s\<lparr>dev := d'\<rparr>)"
    and u: "sector_update erased (content (dev s)) (master_addr sector (master inst)) (master_sector E sector ?m1) err (content d')"
    by (rule update_master_run [of "?i1\<lparr>trans_lock := True\<rparr>" E "master ?i1" s]) (use io gi in simp_all)
  have "err = ESP_OK" and dd: "s\<lparr>dev := d'\<rparr> = s\<lparr>dev := d\<rparr>" using up up' by simp_all
  then have "content d = put_bytes (content (dev s)) (master_addr sector m) (master_sector E sector ?m1)"
    using u arg_cong [OF dd, where f = dev] by (simp add: sector_update_def same_geometry_layout [OF geo])
  then have lg1: "log_in_store E sector (master ?i1) ps (content (dev (s\<lparr>dev := d\<rparr>)))"
    using log_in_store_outside [OF lg, of "content d" sector] same_geometry_log [of m ?m1 E sector] geo
    by (simp add: same_outside_put)
  let ?s1 = "set_instance h ?i1 (s\<lparr>dev := d\<rparr>)"
  have k: "list_all (op_ok sector (master ?i1)) ps"
      "used_sectors (master ?i1) < store_sectors (master ?i1)"
      "log_at E sector (fs_sectors (master ?i1)) ps (content (dev ?s1))"
    using lg1 us by (simp_all add: log_in_store_def)
  obtain d2 where "jrnl_replay E (Some ?i1) ?s1 =
      (Ret (ESP_OK, Some (?i1\<lparr>master := reset_fields False (master ?i1)\<rparr>)), ?s1\<lparr>dev := d2\<rparr>)" and h2: "healthy d2"
    by (rule replay_commit_serves [OF _ _ k(1) _ k(2,3)]) (use io gi us unl h1 hp in simp_all)
  then obtain i' where run: "esp_jrnl_stop E h True s = (Ret ESP_OK, set_instance h i' (s\<lparr>dev := d2\<rparr>))"
    using commit_run [OF mt unl st, of E] up by (simp add: run_bind_Ret prog_simps)
  obtain err s2 where "esp_jrnl_stop E h True s = (Ret err, s2)"
    and "err = ESP_OK \<Longrightarrow> journal_ready E io content sector m h (write_fs sector ps fs) s2"
    by (rule commit_refines [OF g op]) (rule that; blast)
  with run h2 hp show thesis using that [OF run] by simp
qed

end

text \<open>A device that serves the 28 bytes of the master record as well can be mounted.\<close>

context byte_reliable_device
begin

lemma replay_serves:
  assumes g: "geom sector capacity m" and io: "diskio inst = io" and unlocked: "\<not> trans_lock inst"
    and ms: "master inst = stored_master sector m (content (dev s))"
    and mg: "jrnl_magic_mark (master inst) = JRNL_STORE_MARKER"
    and rc: "recovers_to E sector m (content (dev s)) fs"
    and hl: "healthy (dev s)" and hp: "heap s = []"
  obtains inst' d where "jrnl_replay E (Some inst) s = (Ret (ESP_OK, Some inst'), s\<lparr>dev := d\<rparr>)"
    and "healthy d" and "diskio inst' = io"
proof (rule recovers_stored [OF rc mg [unfolded ms]])
  assume "status (stored_master sector m (content (dev s))) = ESP_JRNL_STATUS_TRANS_READY"
  then have "jrnl_replay E (Some inst) s = (Ret (ESP_OK, Some inst), s\<lparr>dev := dev s\<rparr>)"
    using replay_ready_run [of inst E s] unlocked ms by simp
  then show thesis using hl io by (rule that)
next
  assume st: "status (stored_master sector m (content (dev s))) = ESP_JRNL_STATUS_TRANS_OPEN"
    and geo: "same_geometry m (stored_master sector m (content (dev s)))"
  let ?i = "inst\<lparr>trans_lock := True\<rparr>"
  have gi: "geom sector capacity (master ?i)" using g same_geometry_geom [OF geo] ms by simp
  obtain d where "jrnl_reset_master E (Some ?i) False s =
      (Ret (ESP_OK, Some (?i\<lparr>master := reset_fields False (master ?i)\<rparr>)), s\<lparr>dev := d\<rparr>)" and "healthy d"
    using reset_master_serves [of ?i s E False] io gi hl by auto
  then show thesis
    using st ms unlocked io
    by (intro that [of "inst\<lparr>master := reset_fields False (master inst), trans_lock := False\<rparr>" d])
      (simp_all add: jrnl_replay_def prog_simps Let_def run_bind_Ret)
next
  fix ps
  assume st: "status (stored_master sector m (content (dev s))) = ESP_JRNL_STATUS_TRANS_COMMIT"
    and geo: "same_geometry m (stored_master sector m (content (dev s)))"
    and cm: "committed_disk E sector m ps (content (dev s))"
  have gi: "geom sector capacity (master inst)" using g same_geometry_geom [OF geo] ms by simp
  have "log_in_store E sector (master inst) ps (content (dev s))" "used_sectors (master inst) = log_sectors sector ps"
    using cm same_geometry_log [OF geo] ms by (simp_all add: committed_disk_def Let_def)
  then have k: "list_all (op_ok sector (master inst)) ps" "used_sectors (master inst) = log_sectors sector ps"
      "used_sectors (master inst) < store_sectors (master inst)"
      "log_at E sector (fs_sectors (master inst)) ps (content (dev s))"
    by (simp_all add: log_in_store_def)
  show thesis
    by (rule replay_commit_serves [OF io gi k _ unlocked hl hp])
      (use st ms io in simp, rule that, assumption, assumption, use io in simp)
qed

lemma resume_serves:
  assumes g: "geom sector capacity m" and cf: "matches m io config"
    and io: "diskio inst = io" and unlocked: "\<not> trans_lock inst"
    and rc: "recovers_to E sector m (content (dev s)) fs"
    and hl: "healthy (dev s)" and hp: "heap s = []"
  obtains inst' d where "resume_journal E config inst s = (Ret (ESP_OK, Some inst'), s\<lparr>dev := d\<rparr>)"
    and "healthy d" and "diskio inst' = io"
proof -
  let ?a = "volume_size (volume_cfg config) - disk_sector_size (volume_cfg config)" and ?c = "content (dev s)"
  have a: "unat ?a = master_addr sector m" and cap: "master_addr sector m + sector \<le> capacity"
    using geom_master_addr [OF g] cf by (simp_all add: matches_def describes_def)
  have n: "unat (of_nat sizeof_master :: u32) = sizeof_master" by (simp add: sizeof_master_def)
  have in_range: "unat ?a + unat (of_nat sizeof_master :: u32) \<le> capacity"
    using a n cap geom_sector_pos [OF g] by (simp add: sizeof_master_def)
  obtain bs d where r: "disk_read io (diskio_ctrl_handle io) ?a (of_nat sizeof_master) (dev s) = ((ESP_OK, bs), d)"
    and h: "healthy d"
    using read_serves_bytes [OF hl in_range] by blast
  have c: "content d = ?c" using r in_range by (rule read_frame)
  have bs: "master_of_bytes bs = stored_master sector m ?c"
    using read_ok [OF r in_range] a n by (simp add: stored_master_def)
  let ?i = "inst\<lparr>master := stored_master sector m ?c\<rparr>" and ?s = "s\<lparr>dev := d\<rparr>"
  have run: "resume_journal E config inst s =
      (if jrnl_magic_mark (master ?i) \<noteq> JRNL_STORE_MARKER then (Ret (ESP_OK, Some ?i), ?s)
       else if \<not> (volume_size (volume m) = volume_size (volume (master ?i)) \<and>
                  disk_sector_size (volume m) = disk_sector_size (volume (master ?i)) \<and>
                  store_size_sectors m = store_size_sectors (master ?i))
       then (Ret (ESP_ERR_INVALID_STATE, Some ?i), ?s)
       else jrnl_replay E (Some ?i) ?s)"
    using r io cf bs by (simp add: resume_journal_def jrnl_read_raw_def bind_def ret_def Let_def matches_def describes_def)
  show thesis
  proof (cases "jrnl_magic_mark (master ?i) = JRNL_STORE_MARKER")
    case False
    then show thesis using that [of ?i d] run h io by simp
  next
    case True
    have "same_geometry m (stored_master sector m ?c)"
      by (rule recovers_stored [OF rc]) (use True in simp_all)
    then have eq: "resume_journal E config inst s = jrnl_replay E (Some ?i) ?s"
      using run True by (simp add: same_geometry_def)
    have "master ?i = stored_master sector m (content (dev ?s))" "recovers_to E sector m (content (dev ?s)) fs"
      using c rc by simp_all
    then obtain inst' d2 where "jrnl_replay E (Some ?i) ?s = (Ret (ESP_OK, Some inst'), ?s\<lparr>dev := d2\<rparr>)"
      and "healthy d2" and "diskio inst' = io"
      by (elim replay_serves [OF g, rotated 2]) (use io unlocked True h hp in simp_all)
    then show thesis using that [of inst' d2] eq by simp
  qed
qed

lemma mount_serves:
  assumes g: "geom sector capacity m" and cf: "matches m io config"
    and rc: "recovers_to E sector m (content (dev s)) fs"
    and lk: "\<not> s_instances_lock s" and len: "length (s_jrnl_instance_ptrs s) = JRNL_MAX_HANDLES"
    and free: "None \<in> set (s_jrnl_instance_ptrs s)"
    and hl: "healthy (dev s)" and hp: "heap s = []"
  obtains h s' where "esp_jrnl_mount E (Some config) (Some h0) s = (Ret (ESP_OK, Some h), s')"
    and "healthy (dev s')" and "heap s' = []" and "journal_ready E io content sector m h fs s'"
proof -
  let ?s0 = "s\<lparr>s_instances_lock := True\<rparr>"
  have al: "calloc 1 52 ?s0 = (Ret True, ?s0)" using hp by (intro calloc_empty_heap) simp_all
  obtain inst1 d1 where r1: "resume_journal E config (new_instance config) ?s0 = (Ret (ESP_OK, Some inst1), ?s0\<lparr>dev := d1\<rparr>)"
    and h1: "healthy d1" and io1: "diskio inst1 = io"
    by (rule resume_serves [OF g cf, of "new_instance config" E ?s0 fs])
      (use rc hl hp cf in \<open>simp_all add: new_instance_def matches_def describes_def\<close>)
  let ?m = "(master inst1)\<lparr>store_size_sectors := store_size_sectors m,
      store_volume_offset_sector := store_volume_offset_sector m, volume := volume m\<rparr>"
  have gm: "geom sector capacity ?m" using g by (simp add: geom_def)
  obtain i2 d2 where r2: "jrnl_reset_master E (Some (inst1\<lparr>master := ?m\<rparr>)) False (?s0\<lparr>dev := d1\<rparr>) =
      (Ret (ESP_OK, Some i2), ?s0\<lparr>dev := d2\<rparr>)" and h2: "healthy d2"
    using reset_master_serves [of "inst1\<lparr>master := ?m\<rparr>" "?s0\<lparr>dev := d1\<rparr>" E False] io1 gm h1 by auto
  have "disk_sector_size (volume m) \<noteq> 0" using g geom_sector_pos [OF g] by (auto simp: geom_def)
  then have run: "mount_instance E config ?s0 = (Ret (ESP_OK, Some i2), ?s0\<lparr>dev := d2\<rparr>)"
    using al r1 r2 cf geom_offset [OF g]
    by (simp add: mount_instance_def run_bind_Ret run_ret Let_def create_journal_def matches_def describes_def)
  have min: "\<not> cfg_store_size_sectors (user_cfg config) < JRNL_MIN_STORE_SIZE"
    using described_store_size [OF g, of io config] cf by (simp add: matches_def)
  obtain h s' where res: "esp_jrnl_mount E (Some config) (Some h0) s = (Ret (ESP_OK, Some h), s')"
    and "dev s' = d2" and "heap s' = []"
    using mount_by_instance [OF lk free min, of E ESP_OK "Some i2" "[]" d2 h0] run hp by simp
  moreover have "journal_ready E io content sector m h fs s'"
    by (rule mount_refines [OF g cf rc lk len free, of h0]) (use res in simp)
  ultimately show thesis using that h2 by blast
qed

end

section \<open>The abstract transactional volume\<close>

text \<open>
  What the client is promised. A volume is ready, or collects the writes of a transaction, or
  its contents are known up to a set after a failed call. A power cycle is possible in every
  state and picks one of the possible contents.
\<close>

datatype jrnl_event =
    Started esp_err_t
  | Wrote jop esp_err_t
  | Stopped bool esp_err_t
  | Power_cycled esp_err_t

datatype vol = Ready "byte list" | Active "byte list" "jop list" | Unsure "byte list set"

fun may_hold :: "vol \<Rightarrow> byte list set" where
  "may_hold (Ready fs) = {fs}"
| "may_hold (Active fs ps) = {fs}"
| "may_hold (Unsure F) = F"

inductive vol_step :: "nat \<Rightarrow> vol \<Rightarrow> jrnl_event \<Rightarrow> vol \<Rightarrow> bool" for sec :: nat where
  starts: "vol_step sec (Ready fs) (Started ESP_OK) (Active fs [])"
| starts_fail: "err \<noteq> ESP_OK \<Longrightarrow> vol_step sec (Ready fs) (Started err) (Unsure {fs})"
| writes: "vol_step sec (Active fs ps) (Wrote p err) (Active fs (ps @ [p]))"
| writes_fail: "err \<noteq> ESP_OK \<Longrightarrow> vol_step sec (Active fs ps) (Wrote p err) (Active fs ps)"
| commits: "vol_step sec (Active fs ps) (Stopped True ESP_OK) (Ready (write_fs sec ps fs))"
| commits_fail: "err \<noteq> ESP_OK \<Longrightarrow>
    vol_step sec (Active fs ps) (Stopped True err) (Unsure {fs, write_fs sec ps fs})"
| cancels: "vol_step sec (Active fs ps) (Stopped False err) (Ready fs)"
| cycles: "fs \<in> may_hold a \<Longrightarrow> vol_step sec a (Power_cycled ESP_OK) (Ready fs)"
| cycles_fail: "err \<noteq> ESP_OK \<Longrightarrow> vol_step sec a (Power_cycled err) (Unsure (may_hold a))"

inductive vol_run :: "nat \<Rightarrow> vol \<Rightarrow> jrnl_event list \<Rightarrow> vol \<Rightarrow> bool" for sec :: nat where
  vol_run_Nil: "vol_run sec a [] a"
| vol_run_snoc: "vol_run sec a tr b \<Longrightarrow> vol_step sec b e c \<Longrightarrow> vol_run sec a (tr @ [e]) c"

inductive_cases vol_step_powerE: "vol_step sec a (Power_cycled ESP_OK) b"
inductive_cases vol_step_commitE: "vol_step sec (Active fs ps) (Stopped True err) b"

lemma vol_commit_power:
  assumes "vol_step sec (Active fs ps) (Stopped True err) c" and "vol_step sec c (Power_cycled ESP_OK) b"
  shows "b = Ready (write_fs sec ps fs) \<or> err \<noteq> ESP_OK \<and> b = Ready fs"
  using assms by (auto elim!: vol_step_commitE vol_step_powerE)

text \<open>
  The discipline of a client, readable off the trace: transactions are opened before they are
  written and stopped, targets lie within the file system, and after a failed start or commit
  nothing is called before the next power cycle.
\<close>

datatype phase = Outside | Inside | Down

fun phase_step :: "nat \<Rightarrow> esp_jrnl_master_t \<Rightarrow> phase \<Rightarrow> jrnl_event \<Rightarrow> phase option" where
  "phase_step sec m Outside (Started err) = Some (if err = ESP_OK then Inside else Down)"
| "phase_step sec m Inside (Wrote p err) = (if op_ok sec m p then Some Inside else None)"
| "phase_step sec m Inside (Stopped commit err) =
     Some (if commit \<and> err \<noteq> ESP_OK then Down else Outside)"
| "phase_step sec m ph (Power_cycled err) = Some (if err = ESP_OK then Outside else Down)"
| "phase_step sec m ph e = None"

fun disciplined :: "nat \<Rightarrow> esp_jrnl_master_t \<Rightarrow> phase \<Rightarrow> jrnl_event list \<Rightarrow> phase option" where
  "disciplined sec m ph [] = Some ph"
| "disciplined sec m ph (e # es) =
     (case phase_step sec m ph e of None \<Rightarrow> None | Some ph' \<Rightarrow> disciplined sec m ph' es)"

fun vol_phase :: "vol \<Rightarrow> phase" where
  "vol_phase (Ready fs) = Outside"
| "vol_phase (Active fs ps) = Inside"
| "vol_phase (Unsure F) = Down"

lemma vol_step_phase:
  "vol_step sec a e b \<Longrightarrow> phase_step sec m (vol_phase a) e = Some ph \<Longrightarrow> vol_phase b = ph"
  by (induction rule: vol_step.induct) (auto split: if_splits)

lemma disciplined_append:
  "disciplined sec m ph (xs @ ys) =
     (case disciplined sec m ph xs of None \<Rightarrow> None | Some ph' \<Rightarrow> disciplined sec m ph' ys)"
  by (induction xs arbitrary: ph) (auto split: option.splits)

section \<open>The calls and power cycles as a transition system\<close>

text \<open>
  A state is the handle the client holds and the world. A power cycle keeps the contents of
  the disk, starts with the table of instances the program starts with, and mounts.
\<close>

definition boot :: "'d \<Rightarrow> bool list \<Rightarrow> 'd jrnl_world" where
  "boot d hp = \<lparr> dev = d, heap = hp, s_instances_lock = False, s_jrnl_instance_ptrs = init_instance_ptrs \<rparr>"

inductive jrnl_step ::
  "esp_env \<Rightarrow> 'd esp_jrnl_config_extended_t \<Rightarrow> ('d \<Rightarrow> image) \<Rightarrow> nat \<Rightarrow>
   esp_jrnl_handle_t \<times> 'd jrnl_world \<Rightarrow> jrnl_event \<Rightarrow> esp_jrnl_handle_t \<times> 'd jrnl_world \<Rightarrow> bool"
  for E config content sec where
  call_start: "esp_jrnl_start E h s = (Ret err, s') \<Longrightarrow>
     jrnl_step E config content sec (h, s) (Started err) (h, s')"
| call_write: "esp_jrnl_write E h (Some buff) target count s = (Ret err, s') \<Longrightarrow>
     jrnl_step E config content sec (h, s)
       (Wrote (target, buf_bytes buff (unat count * sec)) err) (h, s')"
| call_stop: "esp_jrnl_stop E h b s = (Ret err, s') \<Longrightarrow>
     jrnl_step E config content sec (h, s) (Stopped b err) (h, s')"
| power: "content d = content (dev s) \<Longrightarrow>
     esp_jrnl_mount E (Some config) (Some h0) (boot d hp) = (Ret (err, Some h'), s') \<Longrightarrow>
     jrnl_step E config content sec (h, s) (Power_cycled err) (h', s')"

inductive jrnl_run ::
  "esp_env \<Rightarrow> 'd esp_jrnl_config_extended_t \<Rightarrow> ('d \<Rightarrow> image) \<Rightarrow> nat \<Rightarrow>
   esp_jrnl_handle_t \<times> 'd jrnl_world \<Rightarrow> jrnl_event list \<Rightarrow> esp_jrnl_handle_t \<times> 'd jrnl_world \<Rightarrow> bool"
  for E config content sec where
  jrnl_run_Nil: "jrnl_run E config content sec x [] x"
| jrnl_run_snoc: "jrnl_run E config content sec x tr y \<Longrightarrow> jrnl_step E config content sec y e z \<Longrightarrow>
     jrnl_run E config content sec x (tr @ [e]) z"

fun refines ::
  "esp_env \<Rightarrow> 'd esp_jrnl_diskio_t \<Rightarrow> ('d \<Rightarrow> image) \<Rightarrow> nat \<Rightarrow> esp_jrnl_master_t \<Rightarrow> vol \<Rightarrow>
   esp_jrnl_handle_t \<times> 'd jrnl_world \<Rightarrow> bool" where
  "refines E io content sec m (Ready fs) (h, s) = journal_ready E io content sec m h fs s"
| "refines E io content sec m (Active fs ps) (h, s) = journal_open E io content sec m h fs ps s"
| "refines E io content sec m (Unsure F) (h, s) =
     (\<exists>fs \<in> F. recovers_to E sec m (content (dev s)) fs)"

lemma refines_recovers:
  "refines E io content sec m a (h, s) \<Longrightarrow> \<exists>fs \<in> may_hold a. recovers_to E sec m (content (dev s)) fs"
  by (cases a) (auto simp: journal_ready_def dest: open_recovers)

lemma boot_table: "length (s_jrnl_instance_ptrs (boot d hp)) = JRNL_MAX_HANDLES"
    "None \<in> set (s_jrnl_instance_ptrs (boot d hp))" "\<not> s_instances_lock (boot d hp)" "dev (boot d hp) = d"
  by (simp_all add: boot_def init_instance_ptrs_def JRNL_MAX_HANDLES_def)

context block_device
begin

lemma simulates_power:
  assumes g: "geom sector capacity m" and cf: "matches m io config"
    and r: "refines E io content sector m a (h, s)" and d: "content d = content (dev s)"
    and run: "esp_jrnl_mount E (Some config) (Some h0) (boot d hp) = (Ret (err, Some h'), s')"
  shows "\<exists>b. vol_step sector a (Power_cycled err) b \<and> refines E io content sector m b (h', s')"
proof -
  obtain fs where fs: "fs \<in> may_hold a" and rc: "recovers_to E sector m (content (dev s)) fs"
    using refines_recovers [OF r] by blast
  have rc': "recovers_to E sector m (content (dev (boot d hp))) fs" using rc d by (simp add: boot_table)
  obtain err2 h2 s2 where "esp_jrnl_mount E (Some config) (Some h0) (boot d hp) = (Ret (err2, Some h2), s2)"
    and k: "recovers_to E sector m (content (dev s2)) fs"
    and ok: "err2 = ESP_OK \<Longrightarrow> journal_ready E io content sector m h2 fs s2"
    by (rule mount_refines [OF g cf rc' boot_table(3,1,2)]) (rule that; blast)
  with run have e: "err2 = err" "h2 = h'" "s2 = s'" by simp_all
  show ?thesis
  proof (cases "err = ESP_OK")
    case True
    then show ?thesis using ok e fs by (intro exI [of _ "Ready fs"]) (auto intro: vol_step.intros)
  next
    case False
    then show ?thesis using k e fs by (intro exI [of _ "Unsure (may_hold a)"]) (auto intro: vol_step.intros)
  qed
qed

lemma simulates_write:
  assumes g: "geom sector capacity m" and op: "journal_open E io content sector m h fs ps s"
    and ok: "op_ok sector m (target, buf_bytes buff (unat count * sector))"
    and run: "esp_jrnl_write E h (Some buff) target count s = (Ret err, s')"
  shows "\<exists>b. vol_step sector (Active fs ps) (Wrote (target, buf_bytes buff (unat count * sector)) err) b \<and>
     refines E io content sector m b (h, s')"
proof -
  obtain err2 s2 ps' where "esp_jrnl_write E h (Some buff) target count s = (Ret err2, s2)"
    and k: "journal_open E io content sector m h fs ps' s2"
    and ps': "ps' = ps @ [(target, buf_bytes buff (unat count * sector))] \<or> err2 \<noteq> ESP_OK \<and> ps' = ps"
    by (rule write_refines [OF g op ok refl])
  with run have "err2 = err" "s2 = s'" by simp_all
  then show ?thesis using k ps' by (intro exI [of _ "Active fs ps'"]) (auto intro: vol_step.intros)
qed

lemma simulates_stop:
  assumes g: "geom sector capacity m" and op: "journal_open E io content sector m h fs ps s"
    and run: "esp_jrnl_stop E h b s = (Ret err, s')"
  shows "\<exists>c. vol_step sector (Active fs ps) (Stopped b err) c \<and> refines E io content sector m c (h, s')"
proof (cases b)
  case True
  obtain err2 s2 where "esp_jrnl_stop E h True s = (Ret err2, s2)"
    and ok: "err2 = ESP_OK \<Longrightarrow> journal_ready E io content sector m h (write_fs sector ps fs) s2"
    and k: "recovers_to E sector m (content (dev s2)) fs \<or>
         recovers_to E sector m (content (dev s2)) (write_fs sector ps fs)"
    by (rule commit_refines [OF g op]) (rule that; blast)
  with run True have e: "err2 = err" "s2 = s'" by simp_all
  show ?thesis
  proof (cases "err = ESP_OK")
    case ok': True
    then show ?thesis using ok e True
      by (intro exI [of _ "Ready (write_fs sector ps fs)"]) (auto intro: vol_step.intros)
  next
    case False
    then show ?thesis using k e True
      by (intro exI [of _ "Unsure {fs, write_fs sector ps fs}"]) (auto intro: vol_step.intros)
  qed
next
  case False
  obtain err2 s2 where "esp_jrnl_stop E h False s = (Ret err2, s2)"
    and "journal_ready E io content sector m h fs s2"
    by (rule cancel_refines [OF g op])
  with run False show ?thesis by (intro exI [of _ "Ready fs"]) (auto intro: vol_step.intros)
qed

lemma simulates_start:
  assumes g: "geom sector capacity m" and rd: "journal_ready E io content sector m h fs s"
    and run: "esp_jrnl_start E h s = (Ret err, s')"
  shows "\<exists>b. vol_step sector (Ready fs) (Started err) b \<and> refines E io content sector m b (h, s')"
proof -
  obtain err2 s2 where "esp_jrnl_start E h s = (Ret err2, s2)"
    and ok: "err2 = ESP_OK \<Longrightarrow> journal_open E io content sector m h fs [] s2"
    and k: "recovers_to E sector m (content (dev s2)) fs"
    by (rule start_refines [OF g rd]) (rule that; blast)
  with run have e: "err2 = err" "s2 = s'" by simp_all
  show ?thesis
  proof (cases "err = ESP_OK")
    case True
    then show ?thesis using ok e by (intro exI [of _ "Active fs []"]) (auto intro: vol_step.intros)
  next
    case False
    then show ?thesis using k e by (intro exI [of _ "Unsure {fs}"]) (auto intro: vol_step.intros)
  qed
qed

text \<open>Forward simulation, step by step and along a run.\<close>

lemma simulates_step:
  assumes g: "geom sector capacity m" and cf: "matches m io config"
    and st: "jrnl_step E config content sector x e y"
    and r: "refines E io content sector m a x"
    and ph: "phase_step sector m (vol_phase a) e \<noteq> None"
  shows "\<exists>b. vol_step sector a e b \<and> refines E io content sector m b y"
  using st r ph
proof (cases rule: jrnl_step.cases)
  case (call_start h s err s')
  then obtain fs where "a = Ready fs" using ph by (cases a) auto
  then show ?thesis using simulates_start [OF g] call_start r by auto
next
  case (call_write h buff target count s err s')
  then obtain fs ps where "a = Active fs ps" using ph by (cases a) auto
  then show ?thesis using simulates_write [OF g] call_write r ph by (auto split: if_splits)
next
  case (call_stop h b s err s')
  then obtain fs ps where "a = Active fs ps" using ph by (cases a) auto
  then show ?thesis using simulates_stop [OF g] call_stop r by auto
next
  case (power d s h0 hp err h' s' h)
  then show ?thesis using simulates_power [OF g cf] r by blast
qed

lemma simulates_run:
  assumes g: "geom sector capacity m" and cf: "matches m io config"
    and run: "jrnl_run E config content sector x tr y"
    and r: "refines E io content sector m a x"
    and ph: "disciplined sector m (vol_phase a) tr = Some ph"
  shows "\<exists>b. vol_run sector a tr b \<and> refines E io content sector m b y \<and> vol_phase b = ph"
  using run r ph
proof (induction arbitrary: ph rule: jrnl_run.induct)
  case (jrnl_run_Nil x)
  then show ?case by (auto intro: vol_run.intros)
next
  case (jrnl_run_snoc x tr y e z)
  obtain ph1 where d1: "disciplined sector m (vol_phase a) tr = Some ph1" and p: "phase_step sector m ph1 e = Some ph"
    using jrnl_run_snoc.prems by (auto simp: disciplined_append split: option.splits)
  obtain b where b: "vol_run sector a tr b" "refines E io content sector m b y" "vol_phase b = ph1"
    using jrnl_run_snoc.IH [OF jrnl_run_snoc.prems(1) d1] by blast
  obtain c where "vol_step sector b e c" "refines E io content sector m c z"
    using simulates_step [OF g cf jrnl_run_snoc.hyps(2) b(2)] b(3) p by auto
  then show ?case using b vol_step_phase [of sector b e c m ph] p by (auto intro: vol_run.intros)
qed

end

end
