(* ===== verification/Jrnl_Sample.thy ===== *)
theory Jrnl_Sample
  imports Jrnl_Session
begin

text \<open>
  A small concrete volume on the simulated flash: twelve sectors of 32 bytes, the last eight
  of them the journaling store. The facts below run one whole transaction on it.
\<close>

definition sample_env :: esp_env where
  "sample_env = \<lparr> esp_crc32_le = (\<lambda>seed bs. fold (\<lambda>b acc. 31 * acc + ucast b) bs seed),
                  beyond_master = (\<lambda>_. 0xA5) \<rparr>"

definition sample_volume :: esp_jrnl_volume_t where
  "sample_volume = \<lparr> volume_size = 384, disk_sector_size = 32 \<rparr>"

definition sample_master :: esp_jrnl_master_t where
  "sample_master = \<lparr> jrnl_magic_mark = JRNL_STORE_MARKER, store_size_sectors = 8,
     store_volume_offset_sector = 4, next_free_sector = 0, status = ESP_JRNL_STATUS_TRANS_READY,
     volume = sample_volume \<rparr>"

definition sample_io :: "flash esp_jrnl_diskio_t" where
  "sample_io = flash_diskio 384 0"

definition sample_config :: "flash esp_jrnl_config_extended_t" where
  "sample_config = \<lparr> user_cfg = ESP_JRNL_DEFAULT_CONFIG\<lparr>cfg_store_size_sectors := 8\<rparr>,
     cfg_fs_volume_id = 0, volume_cfg = sample_volume, diskio_cfg = sample_io \<rparr>"

definition sample_flash :: flash where
  "sample_flash = \<lparr> cells = (\<lambda>_. 0xFF), ops_left = None \<rparr>"

definition sample_fs :: "byte list" where
  "sample_fs = replicate 128 0xFF"

text \<open>One write of one sector: sector 1 gets 32 bytes 7.\<close>

definition sample_op :: jop where
  "sample_op = (1, replicate 32 7)"

lemma sample_device: "block_device sample_io cells 32 384 0xFF"
  unfolding sample_io_def by (rule nor.block_device_axioms)

lemma sample_reliable: "byte_reliable_device sample_io cells 32 384 0xFF (\<lambda>f. ops_left f = None)"
  unfolding sample_io_def by (rule nor_powered.byte_reliable_device_axioms)

lemma sample_geom: "geom 32 384 sample_master"
  by (simp add: geom_def sample_master_def sample_volume_def sizeof_master_def JRNL_MIN_STORE_SIZE_def)

lemma sample_matches: "matches sample_master sample_io sample_config"
  by (simp add: matches_def describes_def sample_master_def sample_config_def ESP_JRNL_DEFAULT_CONFIG_def)

lemma sample_op_ok: "op_ok 32 sample_master sample_op"
  by (simp add: op_ok_def sample_op_def sample_master_def op_sectors_def)

lemma sample_op_buffer: "sample_op = (1, buf_bytes (\<lambda>_. 7) (unat (1 :: u32) * 32))"
  by (simp add: sample_op_def)

lemma sample_addr: "master_addr 32 sample_master = 352"
  by (simp add: master_addr_def sample_master_def)

lemma blank_fs: "fs_bytes 32 sample_master (\<lambda>_. 0xFF) = sample_fs"
  by (simp add: fs_bytes_def sample_fs_def sample_master_def get_bytes_def map_replicate_const)

lemma blank_idle: "idle_disk 32 sample_master (cells sample_flash)"
proof -
  have "jrnl_magic_mark (stored_master 32 sample_master (\<lambda>_. 0xFF)) \<noteq> JRNL_STORE_MARKER"
    unfolding stored_master_def by (rule constant_fill_no_marker [of _ "0xFF"]) (simp_all add: sizeof_master_def)
  then show ?thesis by (simp add: idle_disk_def sample_flash_def)
qed

lemma blank_recovers: "recovers_to E 32 sample_master (cells sample_flash) sample_fs"
  using blank_idle blank_fs by (simp add: recovers_to_def sample_flash_def)

lemma sample_powered: "ops_left (dev (boot sample_flash [])) = None" "heap (boot sample_flash []) = []"
    "cells (dev (boot sample_flash [])) = cells sample_flash"
  by (simp_all add: boot_def sample_flash_def)

lemma sample_mount:
  obtains h s where
    "esp_jrnl_mount sample_env (Some sample_config) (Some 0) (boot sample_flash []) = (Ret (ESP_OK, Some h), s)"
    and "ops_left (dev s) = None" and "heap s = []"
    and "journal_ready sample_env sample_io cells 32 sample_master h sample_fs s"
proof -
  have rc: "recovers_to sample_env 32 sample_master (cells (dev (boot sample_flash []))) sample_fs"
    using blank_recovers by (simp add: sample_powered)
  show thesis
    by (rule byte_reliable_device.mount_serves [OF sample_reliable sample_geom sample_matches rc
          boot_table(3,1,2) sample_powered(1,2)]) (rule that)
qed

text \<open>
  The whole session, on any device that serves the sample volume: mount, start, one write, commit.
\<close>

definition sample_fs' :: "byte list" where
  "sample_fs' = write_fs 32 [sample_op] sample_fs"

lemma session_serves:
  assumes dev: "byte_reliable_device io content 32 384 0xFF healthy" and cf: "matches sample_master io config"
    and d: "recovers_to sample_env 32 sample_master (content d) sample_fs" "healthy d"
  obtains h s s1 s2 s3 where
    "esp_jrnl_mount sample_env (Some config) (Some 0) (boot d []) = (Ret (ESP_OK, Some h), s)"
    and "journal_ready sample_env io content 32 sample_master h sample_fs s"
    and "esp_jrnl_start sample_env h s = (Ret ESP_OK, s1)"
    and "journal_open sample_env io content 32 sample_master h sample_fs [] s1"
    and "esp_jrnl_write sample_env h (Some (\<lambda>_. 7)) 1 1 s1 = (Ret ESP_OK, s2)"
    and "journal_open sample_env io content 32 sample_master h sample_fs [sample_op] s2"
    and "esp_jrnl_stop sample_env h True s2 = (Ret ESP_OK, s3)"
    and "journal_ready sample_env io content 32 sample_master h sample_fs' s3"
    and "healthy (dev s2)" and "healthy (dev s3)" and "heap s3 = []"
proof -
  note rel = byte_reliable_device.axioms(1) [OF dev]
  have rc: "recovers_to sample_env 32 sample_master (content (dev (boot d []))) sample_fs"
    "healthy (dev (boot d []))" "heap (boot d []) = []"
    using d by (simp_all add: boot_def)
  obtain h s where mt: "esp_jrnl_mount sample_env (Some config) (Some 0) (boot d []) = (Ret (ESP_OK, Some h), s)"
    and s: "healthy (dev s)" "heap s = []" "journal_ready sample_env io content 32 sample_master h sample_fs s"
    by (rule byte_reliable_device.mount_serves [OF dev sample_geom cf rc(1) boot_table(3,1,2) rc(2,3)])
  obtain s1 where s1: "esp_jrnl_start sample_env h s = (Ret ESP_OK, s1)" "healthy (dev s1)"
      "heap s1 = heap s" "journal_open sample_env io content 32 sample_master h sample_fs [] s1"
    by (rule reliable_device.start_serves [OF rel sample_geom s(3,1)])
  have hp1: "heap s1 = []" using s1(3) s(2) by simp
  have room: "log_sectors 32 [] + unat (1 :: u32) + 2 < store_sectors sample_master"
    by (simp add: sample_master_def)
  have s1o: "op_ok 32 sample_master (1, buf_bytes (\<lambda>_. 7) (unat (1 :: u32) * 32))"
    using sample_op_ok sample_op_buffer by simp
  obtain s2 where s2: "esp_jrnl_write sample_env h (Some (\<lambda>_. 7)) 1 1 s1 = (Ret ESP_OK, s2)"
      "healthy (dev s2)" "heap s2 = []"
      "journal_open sample_env io content 32 sample_master h sample_fs ([] @ [(1, buf_bytes (\<lambda>_. 7) (unat (1 :: u32) * 32))]) s2"
    by (rule reliable_device.write_serves_api [OF rel sample_geom s1(4) s1o refl room s1(2) hp1])
  have o2: "journal_open sample_env io content 32 sample_master h sample_fs [sample_op] s2"
    using s2(4) sample_op_buffer by simp
  obtain s3 where "esp_jrnl_stop sample_env h True s2 = (Ret ESP_OK, s3)" "healthy (dev s3)"
      "heap s3 = []" "journal_ready sample_env io content 32 sample_master h (write_fs 32 [sample_op] sample_fs) s3"
    by (rule reliable_device.commit_serves [OF rel sample_geom o2 s2(2,3)])
  then show thesis using that [OF mt s(3) s1(1,4) s2(1) o2] s2(2) by (simp add: sample_fs'_def)
qed

abbreviation sample_ready :: "esp_jrnl_handle_t \<Rightarrow> byte list \<Rightarrow> flash jrnl_world \<Rightarrow> bool" where
  "sample_ready \<equiv> journal_ready sample_env sample_io cells 32 sample_master"

abbreviation sample_open :: "esp_jrnl_handle_t \<Rightarrow> byte list \<Rightarrow> jop list \<Rightarrow> flash jrnl_world \<Rightarrow> bool" where
  "sample_open \<equiv> journal_open sample_env sample_io cells 32 sample_master"

lemma sample_session:
  obtains h s s1 s2 s3 where "sample_ready h sample_fs s"
    and "esp_jrnl_start sample_env h s = (Ret ESP_OK, s1)" and "sample_open h sample_fs [] s1"
    and "esp_jrnl_write sample_env h (Some (\<lambda>_. 7)) 1 1 s1 = (Ret ESP_OK, s2)"
    and "sample_open h sample_fs [sample_op] s2"
    and "esp_jrnl_stop sample_env h True s2 = (Ret ESP_OK, s3)" and "sample_ready h sample_fs' s3"
    and "ops_left (dev s3) = None" and "heap s3 = []" and "ops_left (dev s2) = None"
  by (rule session_serves [OF sample_reliable sample_matches blank_recovers [of sample_env]])
    (simp add: sample_flash_def, rule that)

text \<open>Explicit states: handle 0 refers to an instance, the flash is blank.\<close>

definition sample_instance :: "flash esp_jrnl_instance_t" where
  "sample_instance =
     \<lparr> trans_lock = False, fs_volume_id = 0, diskio = sample_io, master = sample_master \<rparr>"

definition sample_world :: "flash esp_jrnl_instance_t \<Rightarrow> flash jrnl_world" where
  "sample_world inst = (boot sample_flash [])\<lparr>s_jrnl_instance_ptrs := Some inst # replicate 7 None\<rparr>"

definition sample_in :: "esp_jrnl_trans_status_t \<Rightarrow> flash esp_jrnl_instance_t" where
  "sample_in st = sample_instance\<lparr>master := sample_master\<lparr>status := st\<rparr>\<rparr>"

lemma sample_world_simps [simp]:
  "dev (sample_world inst) = sample_flash" "heap (sample_world inst) = []" "\<not> s_instances_lock (sample_world inst)"
  "s_jrnl_instance_ptrs (sample_world inst) = Some inst # replicate 7 None"
  by (simp_all add: sample_world_def boot_def)

lemma sample_mounted: "mounted 0 inst (sample_world inst)"
  by (simp add: mounted_def JRNL_MAX_HANDLES_def)

lemma sample_attached: "attached sample_io sample_master 0 (sample_in st) (sample_world (sample_in st))"
  by (simp add: attached_def sample_mounted)
    (simp add: sample_in_def sample_instance_def sample_master_def same_geometry_def)

lemma sample_world_ready: "sample_ready 0 sample_fs (sample_world (sample_in ESP_JRNL_STATUS_TRANS_READY))"
  unfolding journal_ready_def using sample_attached blank_recovers blank_fs
  by (intro conjI exI [of _ "sample_in ESP_JRNL_STATUS_TRANS_READY"])
    (simp_all add: sample_flash_def, simp_all add: sample_in_def sample_master_def)

lemma sample_world_open: "sample_open 0 sample_fs [] (sample_world (sample_in ESP_JRNL_STATUS_TRANS_OPEN))"
  unfolding journal_open_def
  using sample_attached blank_fs log_in_store_Nil [OF sample_geom] blank_idle
  by (intro conjI exI [of _ "sample_in ESP_JRNL_STATUS_TRANS_OPEN"])
    (simp_all add: sample_flash_def, simp_all add: sample_in_def sample_master_def)

text \<open>A flash that lost its power between the commit record and the replay.\<close>

definition committed_master :: esp_jrnl_master_t where
  "committed_master = sample_master\<lparr>next_free_sector := 2, status := ESP_JRNL_STATUS_TRANS_COMMIT\<rparr>"

definition committed_flash :: flash where
  "committed_flash = sample_flash\<lparr>cells :=
     put_bytes (put_bytes (cells sample_flash) (4 * 32) (op_bytes sample_env 32 sample_op))
       352 (master_sector sample_env 32 committed_master)\<rparr>"

lemma committed_sample: "committed_disk sample_env 32 sample_master [sample_op] (cells committed_flash)"
proof -
  let ?c = "put_bytes (cells sample_flash) (4 * 32) (op_bytes sample_env 32 sample_op)"
  have "log_in_store sample_env 32 sample_master ([] @ [sample_op])
      (put_bytes (cells sample_flash) ((fs_sectors sample_master + log_sectors 32 []) * 32)
        (op_bytes sample_env 32 sample_op))"
    by (rule log_in_store_append [OF sample_geom log_in_store_Nil [OF sample_geom] sample_op_ok])
      (simp add: sample_master_def sample_op_def op_sectors_def)
  then have lg: "log_in_store sample_env 32 sample_master [sample_op] ?c" by (simp add: sample_master_def)
  have "committed_disk sample_env 32 sample_master [sample_op]
      (put_bytes ?c (master_addr 32 sample_master) (master_sector sample_env 32 committed_master))"
    by (rule committed_put [OF sample_geom _ _ _ _ lg])
      (simp_all add: committed_master_def, simp_all add: sample_master_def sample_op_def op_sectors_def)
  then show ?thesis by (simp add: committed_flash_def sample_addr)
qed

lemma committed_stored: "master_of_bytes (get_bytes (cells committed_flash) 352 28) = committed_master"
proof -
  have "wf_status (status committed_master)" by (simp add: committed_master_def)
  from stored_master_put [OF sample_geom this] show ?thesis
    by (simp add: stored_master_def sample_addr sizeof_master_def committed_flash_def)
qed

end
