(* ===== verification/Jrnl_Errors.thy ===== *)
theory Jrnl_Errors
  imports Jrnl_Sample
begin

text \<open>
  The table of instances, direct access, and the branches of the interface where
  it refuses, fails or misbehaves: each theorem states what the code does there.
\<close>

section \<open>The table of instances\<close>

text \<open>
  The handle check changes nothing and accepts a handle exactly when it is a slot of the table
  with an instance in it. Of the handles it should refuse it misses those below -1: they pass
  both guards and the table is read before its first entry, which C leaves undefined.
\<close>

theorem handle_check_decides:
  assumes "length (s_jrnl_instance_ptrs s) = JRNL_MAX_HANDLES"
  shows "(jrnl_check_handle h s = (Ret ESP_OK, s) \<longleftrightarrow> (\<exists>inst. mounted h inst s)) \<and>
     (h = -1 \<longrightarrow> jrnl_check_handle h s = (Ret ESP_ERR_INVALID_STATE, s)) \<and>
     (8 \<le> h \<longrightarrow> jrnl_check_handle h s = (Ret ESP_ERR_INVALID_ARG, s)) \<and>
     (0 \<le> h \<and> h < 8 \<and> s_jrnl_instance_ptrs s ! nat h = None \<longrightarrow>
        jrnl_check_handle h s = (Ret ESP_ERR_NOT_FOUND, s)) \<and>
     (h < -1 \<longrightarrow> jrnl_check_handle h s = (Undefined, s))"
  using assms by (auto simp: check_handle_cases mounted_def JRNL_MAX_HANDLES_def)

theorem handle_check_decides_witness:
  "jrnl_check_handle 0 (sample_world sample_instance) = (Ret ESP_OK, sample_world sample_instance) \<and>
   jrnl_check_handle 1 (sample_world sample_instance) = (Ret ESP_ERR_NOT_FOUND, sample_world sample_instance) \<and>
   jrnl_check_handle (-2) (sample_world sample_instance) = (Undefined, sample_world sample_instance)"
proof -
  have len: "length (s_jrnl_instance_ptrs (sample_world sample_instance)) = JRNL_MAX_HANDLES"
    by (simp add: JRNL_MAX_HANDLES_def)
  from handle_check_decides [OF len, of 0] handle_check_decides [OF len, of 1]
    handle_check_decides [OF len, of "-2"] sample_mounted [of sample_instance]
  show ?thesis by auto
qed

text \<open>
  C33. An unmount that fails the handle check returns with the table lock still held. From then
  on every mount with valid arguments waits for ever.
\<close>

theorem failed_unmount_keeps_lock:
  assumes "\<not> s_instances_lock s" and "jrnl_check_handle h s = (Ret err, s)" and "err \<noteq> ESP_OK"
    and "JRNL_MIN_STORE_SIZE \<le> cfg_store_size_sectors (user_cfg config)"
  shows "esp_jrnl_unmount h s = (Ret err, s\<lparr>s_instances_lock := True\<rparr>) \<and>
     fst (esp_jrnl_mount E (Some config) (Some h0) (s\<lparr>s_instances_lock := True\<rparr>)) = Blocked"
proof -
  have "jrnl_check_handle h (s\<lparr>s_instances_lock := True\<rparr>) = (Ret err, s\<lparr>s_instances_lock := True\<rparr>)"
    using assms(2) by (auto simp: check_handle_cases split: if_splits)
  then have "esp_jrnl_unmount h s = (Ret err, s\<lparr>s_instances_lock := True\<rparr>)"
    using assms(1,3) by (simp add: unmount_run run_bind_Ret run_ret)
  moreover have "fst (esp_jrnl_mount E (Some config) (Some h0) (s\<lparr>s_instances_lock := True\<rparr>)) = Blocked"
    using assms(4) by (simp add: esp_jrnl_mount_def prog_simps word_less_nat_alt word_le_nat_alt)
  ultimately show ?thesis by simp
qed

theorem failed_unmount_keeps_lock_witness:
  "esp_jrnl_unmount 3 (sample_world sample_instance) =
     (Ret ESP_ERR_NOT_FOUND, (sample_world sample_instance)\<lparr>s_instances_lock := True\<rparr>) \<and>
   fst (esp_jrnl_mount sample_env (Some sample_config) (Some 0)
     ((sample_world sample_instance)\<lparr>s_instances_lock := True\<rparr>)) = Blocked"
  by (rule failed_unmount_keeps_lock)
    (simp_all add: check_handle_cases sample_config_def JRNL_MIN_STORE_SIZE_def)

section \<open>Refusals\<close>

text \<open>
  A journaled write is refused with \<open>ESP_ERR_NO_MEM\<close>, and nothing changes, exactly when it
  would leave less than one free sector besides the master record: a write that fits the
  store to the last sector is refused as well. In a store of the documented minimum of three
  sectors no data sector can ever be journaled.
\<close>

theorem write_refused_without_room:
  fixes s :: "('d, 'z) jrnl_world_scheme"
  assumes "block_device io content sec cap er" and "geom sec cap m"
    and "journal_open E io content sec m h fs ps s"
    and "op_ok sec m (target, buf_bytes buff (unat count * sec))"
    and "store_sectors m \<le> log_sectors sec ps + (1 + unat count) + 1"
  shows "esp_jrnl_write E h (Some buff) target count s = (Ret ESP_ERR_NO_MEM, s)"
proof -
  obtain inst where at: "attached io m h inst s" and st: "status (master inst) = ESP_JRNL_STATUS_TRANS_OPEN"
    and us: "used_sectors (master inst) = log_sectors sec ps"
    and lg: "log_in_store E sec m ps (content (dev s))"
    using assms(3) by (auto simp: journal_open_def)
  have mt: "mounted h inst s" and unl: "\<not> trans_lock inst" and geo: "same_geometry m (master inst)"
    using at by (simp_all add: attached_def)
  have "op_sectors sec (target, buf_bytes buff (unat count * sec)) = unat count"
    using geom_sector_pos [OF assms(2)] by (auto simp: op_sectors_def)
  then have le: "unat count \<le> fs_sectors m" using assms(4) by (simp add: op_ok_def)
  show ?thesis
    using block_device.write_run [OF assms(1) mt unl st]
      block_device.room_test [OF assms(1,2) geo lg us le] assms(5)
    by simp
qed

definition tiny_master :: esp_jrnl_master_t where
  "tiny_master = sample_master\<lparr>store_size_sectors := JRNL_MIN_STORE_SIZE, store_volume_offset_sector := 9\<rparr>"

theorem write_refused_without_room_witness:
  "let s = sample_world (sample_instance\<lparr>master := tiny_master\<lparr>status := ESP_JRNL_STATUS_TRANS_OPEN\<rparr>\<rparr>) in
   esp_jrnl_write sample_env 0 (Some (\<lambda>_. 7)) 1 1 s = (Ret ESP_ERR_NO_MEM, s)"
proof -
  let ?i = "sample_instance\<lparr>master := tiny_master\<lparr>status := ESP_JRNL_STATUS_TRANS_OPEN\<rparr>\<rparr>"
  have g: "geom 32 384 tiny_master"
    by (simp add: geom_def tiny_master_def sample_master_def sample_volume_def sizeof_master_def JRNL_MIN_STORE_SIZE_def)
  have "jrnl_magic_mark (stored_master 32 tiny_master (cells sample_flash)) \<noteq> JRNL_STORE_MARKER"
    unfolding stored_master_def
    by (rule constant_fill_no_marker [of _ "0xFF"]) (simp_all add: sizeof_master_def sample_flash_def)
  then have idle: "idle_disk 32 tiny_master (cells sample_flash)" by (simp add: idle_disk_def)
  have "attached sample_io tiny_master 0 ?i (sample_world ?i)"
    by (simp add: attached_def sample_mounted)
      (simp add: sample_instance_def tiny_master_def sample_master_def)
  then have "journal_open sample_env sample_io cells 32 tiny_master 0
      (fs_bytes 32 tiny_master (cells sample_flash)) [] (sample_world ?i)"
    unfolding journal_open_def using idle log_in_store_Nil [OF g]
    by (intro conjI exI [of _ ?i]) (simp_all add: tiny_master_def sample_master_def)
  from write_refused_without_room [OF sample_device g this, of 1 "\<lambda>_. 7" 1]
  show ?thesis by (simp add: op_ok_def op_sectors_def tiny_master_def sample_master_def JRNL_MIN_STORE_SIZE_def)
qed

text \<open>
  \<open>esp_jrnl_read\<close> refuses every request that ends with the last sector of the file system:
  its bound is off by one.
\<close>

theorem read_refuses_last_sector:
  assumes "attached io m h inst s" and "unat target + unat count = fs_sectors m"
  shows "esp_jrnl_read h target True count s = (Ret (ESP_ERR_INVALID_SIZE, []), s)"
proof -
  have mt: "mounted h inst s" and geo: "same_geometry m (master inst)" using assms(1) by (simp_all add: attached_def)
  have "unat (target + count) = unat target + unat count"
    using assms(2) unat_lt_2_32 [of "store_volume_offset_sector m"] by (intro unat_add_no_wrap) simp
  then have "store_volume_offset_sector (master inst) \<le> target + count"
    using geo assms(2) by (simp add: same_geometry_def word_le_nat_alt)
  then show ?thesis by (simp add: esp_jrnl_read_def mounted_run [OF mt] run_ret)
qed

theorem read_refuses_last_sector_witness:
  "esp_jrnl_read 0 3 True 1 (sample_world (sample_in ESP_JRNL_STATUS_TRANS_READY)) =
     (Ret (ESP_ERR_INVALID_SIZE, []), sample_world (sample_in ESP_JRNL_STATUS_TRANS_READY))"
  by (rule read_refuses_last_sector [OF sample_attached]) (simp add: sample_master_def)

section \<open>The master record on disk\<close>

text \<open>
  C28. A successful update of the master record can be read back: the record found in its sector
  is the one written. The rest of that sector is not zero, as the comment above
  \<open>jrnl_reset_master\<close> expects, but whatever lies behind the 28 bytes of the record in memory.
\<close>

theorem master_record_roundtrip:
  fixes s :: "('d, 'z) mach_scheme"
  assumes "block_device io content sec cap er" and "diskio jrnl = io" and "geom sec cap (master jrnl)"
    and "wf_status (status m)" and "jrnl_update_master E jrnl m s = (Ret ESP_OK, s')"
  shows "stored_master sec (master jrnl) (content (dev s')) = m \<and>
     get_bytes (content (dev s')) (master_addr sec (master jrnl) + 28) (sec - 28) =
       buf_bytes (beyond_master E) (sec - 28)"
proof -
  have sec: "28 \<le> sec" using geom_sector_pos [OF assms(3)] by simp
  let ?a = "master_addr sec (master jrnl)"
  obtain err d where "jrnl_update_master E jrnl m s = (Ret err, s\<lparr>dev := d\<rparr>)"
    and "sector_update er (content (dev s)) ?a (master_sector E sec m) err (content d)"
    by (rule block_device.update_master_run [OF assms(1-3)])
  then have c: "content (dev s') = put_bytes (content (dev s)) ?a (master_sector E sec m)"
    using assms(5) by (auto simp: sector_update_def)
  have "master_bytes m @ buf_bytes (beyond_master E) (sec - 28) = master_sector E sec m"
    unfolding master_sector_def using sec by (simp add: buf_bytes_beyond)
  also have "\<dots> = get_bytes (content (dev s')) ?a (28 + (sec - 28))"
    using sec by (simp add: c get_put_same)
  also have "\<dots> = get_bytes (content (dev s')) ?a 28 @ get_bytes (content (dev s')) (?a + 28) (sec - 28)"
    by (rule get_bytes_split)
  finally have "get_bytes (content (dev s')) (?a + 28) (sec - 28) = buf_bytes (beyond_master E) (sec - 28)"
    by simp
  then show ?thesis using stored_master_put [OF assms(3,4)] c by simp
qed

theorem master_record_roundtrip_witness:
  "\<exists>s'. jrnl_update_master sample_env sample_instance sample_master (boot sample_flash []) = (Ret ESP_OK, s') \<and>
     stored_master 32 sample_master (cells (dev s')) = sample_master \<and>
     get_bytes (cells (dev s')) 380 4 = replicate 4 0xA5"
proof -
  have i: "diskio sample_instance = sample_io" "geom 32 384 (master sample_instance)"
    "wf_status (status sample_master)"
    using sample_geom by (simp_all add: sample_instance_def sample_master_def)
  obtain s' where r: "jrnl_update_master sample_env sample_instance sample_master (boot sample_flash []) = (Ret ESP_OK, s')"
    using reliable_device.update_master_serves [OF byte_reliable_device.axioms(1) [OF sample_reliable] i(1,2)
        sample_powered(1)] by blast
  from master_record_roundtrip [OF sample_device i r] r show ?thesis
    by (auto simp: sample_instance_def sample_addr sample_env_def)
qed

section \<open>Transactions that are lost or stuck\<close>

text \<open>
  C30. \<open>esp_jrnl_stop\<close> without commit does not look at the status of the journal: it also drops
  a transaction that is already committed on disk. The record then says ready, and the
  operations of the log that had not reached their sectors are gone.
\<close>

theorem cancel_drops_committed:
  fixes s :: "('d, 'z) jrnl_world_scheme"
  assumes "block_device io content sec cap er" and "geom sec cap m"
    and "attached io m h inst s" and "committed_disk E sec m ps (content (dev s))"
    and "esp_jrnl_stop E h False s = (Ret ESP_OK, s')"
  shows "idle_disk sec m (content (dev s')) \<and>
     fs_bytes sec m (content (dev s')) = fs_bytes sec m (content (dev s))"
proof -
  have mt: "mounted h inst s" and io: "diskio inst = io" and unl: "\<not> trans_lock inst"
    and geo: "same_geometry m (master inst)"
    using assms(3) by (simp_all add: attached_def)
  let ?m = "reset_fields False (master inst)"
  obtain err d where "esp_jrnl_stop E h False s = (Ret err, set_instance h (inst\<lparr>master := ?m\<rparr>) (s\<lparr>dev := d\<rparr>))"
    and "sector_update er (content (dev s)) (master_addr sec (master inst)) (master_sector E sec ?m) err (content d)"
    by (rule block_device.cancel_run [OF assms(1) mt io attached_geom [OF assms(3,2)] unl]) simp
  then have e: "err = ESP_OK" and c: "content (dev s') = content d"
    and u: "sector_update er (content (dev s)) (master_addr sec m) (master_sector E sec ?m) err (content d)"
    using assms(5) by (auto simp: same_geometry_layout [OF geo])
  have "same_geometry m ?m" and "status ?m = ESP_JRNL_STATUS_TRANS_READY \<or> status ?m = ESP_JRNL_STATUS_TRANS_OPEN"
    using geo by (simp_all add: reset_fields_def)
  from idle_update [OF assms(2) this u] e c show ?thesis by simp
qed

theorem cancel_drops_committed_witness:
  "\<exists>s'. esp_jrnl_stop sample_env 0 False
       ((sample_world (sample_in ESP_JRNL_STATUS_TRANS_COMMIT))\<lparr>dev := committed_flash\<rparr>) = (Ret ESP_OK, s') \<and>
     idle_disk 32 sample_master (cells (dev s')) \<and>
     fs_bytes 32 sample_master (cells (dev s')) = fs_bytes 32 sample_master (cells committed_flash)"
proof -
  let ?i = "sample_in ESP_JRNL_STATUS_TRANS_COMMIT"
  let ?s = "(sample_world ?i)\<lparr>dev := committed_flash\<rparr>"
  have at: "attached sample_io sample_master 0 ?i ?s" using sample_attached by (simp add: attached_def)
  then have i: "diskio (?i\<lparr>trans_lock := True\<rparr>) = sample_io" "geom 32 384 (master (?i\<lparr>trans_lock := True\<rparr>))"
    and mt: "mounted 0 ?i ?s" and unl: "\<not> trans_lock ?i"
    using attached_geom [OF _ sample_geom] by (auto simp: attached_def)
  have pw: "ops_left (dev ?s) = None" by (simp add: committed_flash_def sample_flash_def)
  obtain d where "jrnl_reset_master sample_env (Some (?i\<lparr>trans_lock := True\<rparr>)) False ?s =
      (Ret (ESP_OK, Some (?i\<lparr>trans_lock := True\<rparr>\<lparr>master := reset_fields False (master (?i\<lparr>trans_lock := True\<rparr>))\<rparr>)), ?s\<lparr>dev := d\<rparr>)"
    using reliable_device.reset_master_serves [OF byte_reliable_device.axioms(1) [OF sample_reliable] i pw] by blast
  then obtain s' where r: "esp_jrnl_stop sample_env 0 False ?s = (Ret ESP_OK, s')"
    by (simp add: esp_jrnl_stop_def mounted_run [OF mt] unl prog_simps run_bind_Ret)
  have "committed_disk sample_env 32 sample_master [sample_op] (cells (dev ?s))" using committed_sample by simp
  from cancel_drops_committed [OF sample_device sample_geom at this r] r show ?thesis by auto
qed

text \<open>
  \<open>esp_jrnl_start\<close> changes the status in memory before it writes it: whatever the disk
  update reports, the next \<open>esp_jrnl_start\<close> is refused until the transaction is stopped.
\<close>

lemma start_is_not_repeatable:
  fixes s :: "('d, 'z) jrnl_world_scheme"
  assumes "block_device io content sec cap er" and "geom sec cap m"
    and "journal_ready E io content sec m h fs s" and "esp_jrnl_start E h s = (Ret err, s1)"
  shows "esp_jrnl_start E h s1 = (Ret ESP_ERR_INVALID_STATE, s1)"
proof -
  obtain inst where at: "attached io m h inst s" and st: "status (master inst) = ESP_JRNL_STATUS_TRANS_READY"
    and nf: "next_free_sector (master inst) = 0"
    using assms(3) by (auto simp: journal_ready_def)
  have mt: "mounted h inst s" and io: "diskio inst = io" and unl: "\<not> trans_lock inst"
    using at by (simp_all add: attached_def)
  let ?i = "inst\<lparr>master := (master inst)\<lparr>status := ESP_JRNL_STATUS_TRANS_OPEN\<rparr>\<rparr>"
  obtain err2 d where "esp_jrnl_start E h s = (Ret err2, set_instance h ?i (s\<lparr>dev := d\<rparr>))"
    by (rule block_device.start_run [OF assms(1) mt io attached_geom [OF at assms(2)] st nf unl]) simp
  then have s1: "s1 = set_instance h ?i (s\<lparr>dev := d\<rparr>)" using assms(4) by simp
  have mt1: "mounted h ?i s1" unfolding s1 using mt by (intro mounted_set_instance [of h inst]) simp
  have same: "set_instance h ?i s1 = s1"
    by (cases s1) (use mt1 in \<open>auto simp: set_instance_def mounted_def intro!: list_update_same_conv [THEN iffD2]\<close>)
  have "set_instance h (?i\<lparr>trans_lock := False\<rparr>) s1 = s1"
    using same unl by (subst unlocked_same) simp_all
  then show ?thesis using unl by (simp add: esp_jrnl_start_def mounted_run [OF mt1] prog_simps)
qed

text \<open>
  With \<open>replay_journal_after_mount\<close> off the record found on the disk decides nothing: whatever its status
  was, a mount that succeeds leaves an empty ready journal over the sectors as they are.
\<close>

lemma mount_without_replay_idle:
  fixes s :: "('d, 'z) mach_scheme"
  assumes "block_device io content sec cap er" and "geom sec cap m" and "describes m io config"
    and "\<not> overwrite_existing (user_cfg config)" and "\<not> force_fs_format (user_cfg config)"
    and "\<not> replay_journal_after_mount (user_cfg config)"
    and "mount_instance E config s = (Ret (ESP_OK, p), s')"
  shows "idle_disk sec m (content (dev s')) \<and>
     fs_bytes sec m (content (dev s')) = fs_bytes sec m (content (dev s))"
proof -
  let ?m' = "reset_fields False m"
  obtain jrnl1 d1 hp1 where c: "create_journal E config False jrnl1 (s\<lparr>heap := hp1, dev := d1\<rparr>) = (Ret (ESP_OK, p), s')"
    and io: "diskio jrnl1 = io" and d1: "content d1 = content (dev s)"
  proof -
    obtain ok hp where al: "calloc 1 52 s = (Ret ok, s\<lparr>heap := hp\<rparr>)" by (rule calloc_run)
    obtain err bs d where r: "disk_read io (diskio_ctrl_handle io)
        (volume_size (volume_cfg config) - disk_sector_size (volume_cfg config)) (of_nat sizeof_master) (dev s) = ((err, bs), d)"
      by (metis surj_pair)
    have "unat (volume_size (volume_cfg config) - disk_sector_size (volume_cfg config)) +
        unat (of_nat sizeof_master :: u32) \<le> cap"
      using geom_master_addr [OF assms(2)] geom_sector_pos [OF assms(2)] assms(3)
      by (simp add: describes_def sizeof_master_def)
    then have "content d = content (dev s)" using block_device.read_frame [OF assms(1) r] by simp
    moreover have "diskio (new_instance config) = io" using assms(3) by (simp add: new_instance_def describes_def)
    ultimately show thesis
      using that [of "(new_instance config)\<lparr>master := master_of_bytes bs\<rparr>" d hp] assms(4-7) al r
      by (auto simp: mount_instance_def run_bind_Ret run_ret Let_def resume_journal_def jrnl_read_raw_def
          bind_assoc split: if_splits)
  qed
  obtain err d where r: "create_journal E config False jrnl1 (s\<lparr>heap := hp1, dev := d1\<rparr>) =
      (Ret (err, Some (jrnl1\<lparr>master := ?m'\<rparr>)), (s\<lparr>heap := hp1, dev := d1\<rparr>)\<lparr>dev := d\<rparr>)"
    and u0: "sector_update er (content (dev (s\<lparr>heap := hp1, dev := d1\<rparr>))) (master_addr sec m) (master_sector E sec ?m') err (content d)"
    by (rule block_device.create_journal_run [OF assms(1-3) io])
  have u: "sector_update er (content (dev s)) (master_addr sec m) (master_sector E sec ?m') err (content d)"
    and e: "err = ESP_OK" and s': "dev s' = d"
    using u0 d1 r c by auto
  have "same_geometry m ?m'" and "status ?m' = ESP_JRNL_STATUS_TRANS_READY \<or> status ?m' = ESP_JRNL_STATUS_TRANS_OPEN"
    by (simp_all add: reset_fields_def)
  from idle_update [OF assms(2) this u] e s' show ?thesis by simp
qed

text \<open>
  C31. Mounting with \<open>replay_journal_after_mount\<close> off does not keep the journal for later: the
  record is reset all the same, so a committed transaction that was not carried out is lost.
\<close>

theorem mount_without_replay_drops_commit:
  fixes s :: "('d, 'z) mach_scheme"
  assumes "block_device io content sec cap er" and "geom sec cap m" and "describes m io config"
    and "\<not> overwrite_existing (user_cfg config)" and "\<not> force_fs_format (user_cfg config)"
    and "\<not> replay_journal_after_mount (user_cfg config)"
    and "committed_disk E sec m ps (content (dev s))"
    and "mount_instance E config s = (Ret (ESP_OK, p), s')"
  shows "idle_disk sec m (content (dev s')) \<and>
     fs_bytes sec m (content (dev s')) = fs_bytes sec m (content (dev s))"
  using mount_without_replay_idle [OF assms(1-6,8)] .

theorem mount_without_replay_drops_commit_witness:
  "\<exists>p s'. mount_instance sample_env
       (sample_config\<lparr>user_cfg := (user_cfg sample_config)\<lparr>replay_journal_after_mount := False\<rparr>\<rparr>)
       (boot committed_flash []) = (Ret (ESP_OK, p), s') \<and>
     idle_disk 32 sample_master (cells (dev s')) \<and>
     fs_bytes 32 sample_master (cells (dev s')) = fs_bytes 32 sample_master (cells committed_flash)"
proof -
  let ?cfg = "sample_config\<lparr>user_cfg := (user_cfg sample_config)\<lparr>replay_journal_after_mount := False\<rparr>\<rparr>"
  let ?s = "boot committed_flash []"
  have ds: "describes sample_master sample_io ?cfg" using sample_matches by (simp add: matches_def describes_def)
  have flags: "\<not> overwrite_existing (user_cfg ?cfg)" "\<not> force_fs_format (user_cfg ?cfg)"
    "\<not> replay_journal_after_mount (user_cfg ?cfg)"
    using sample_matches by (simp_all add: matches_def)
  have pw: "ops_left committed_flash = None" by (simp add: committed_flash_def sample_flash_def)
  obtain j where r: "resume_journal sample_env ?cfg (new_instance ?cfg) ?s = (Ret (ESP_OK, Some j), ?s)"
    and io: "diskio j = sample_io"
  proof -
    let ?j = "(new_instance ?cfg)\<lparr>master := committed_master\<rparr>"
    have "flash_read 384 0 352 28 committed_flash = ((ESP_OK, get_bytes (cells committed_flash) 352 28), committed_flash)"
      using pw by (simp add: flash_read_def flash_tick_def)
    then have "resume_journal sample_env ?cfg (new_instance ?cfg) ?s = (Ret (ESP_OK, Some ?j), ?s)"
      by (simp add: resume_journal_def jrnl_read_raw_def new_instance_def sample_config_def sample_io_def sample_volume_def
          boot_def bind_def ret_def sizeof_master_def committed_stored Let_def ESP_JRNL_DEFAULT_CONFIG_def)
        (simp add: committed_master_def sample_master_def sample_volume_def)
    then show thesis using that [of ?j] by (simp add: new_instance_def sample_config_def)
  qed
  let ?m = "(master j)\<lparr>store_size_sectors := 8, store_volume_offset_sector := 4, volume := sample_volume\<rparr>"
  have g: "geom 32 384 ?m" using sample_geom by (simp add: geom_def sample_master_def)
  obtain q d where q: "jrnl_reset_master sample_env (Some (j\<lparr>master := ?m\<rparr>)) False ?s = (Ret (ESP_OK, q), ?s\<lparr>dev := d\<rparr>)"
    using reliable_device.reset_master_serves [OF byte_reliable_device.axioms(1) [OF sample_reliable],
        of "j\<lparr>master := ?m\<rparr>" ?s sample_env False] io g pw by (auto simp: boot_def)
  have al: "calloc 1 52 ?s = (Ret True, ?s)" by (simp add: calloc_def boot_def)
  have m: "mount_instance sample_env ?cfg ?s = (Ret (ESP_OK, q), ?s\<lparr>dev := d\<rparr>)"
    using r q flags al
    by (simp add: mount_instance_def run_bind_Ret al Let_def create_journal_def sample_config_def sample_volume_def
        ESP_JRNL_DEFAULT_CONFIG_def)
  have "committed_disk sample_env 32 sample_master [sample_op] (cells (dev ?s))"
    using committed_sample by (simp add: boot_def)
  from mount_without_replay_drops_commit [OF sample_device sample_geom ds flags this m] m
  show ?thesis by (auto simp: boot_def)
qed

text \<open>
  C32. A disk whose record says that a file system was being formatted, as it does when the power
  goes during a format, cannot be mounted for replay: the assertion of \<open>jrnl_replay\<close> stops the
  program, at every boot.
\<close>

theorem mount_aborts_on_fs_init:
  fixes s :: "('d, 'z) mach_scheme"
  assumes "byte_reliable_device io content sec cap er healthy" and "geom sec cap m" and "matches m io config"
    and "healthy (dev s)" and "heap s = []"
    and "same_geometry m (stored_master sec m (content (dev s)))"
    and "jrnl_magic_mark (stored_master sec m (content (dev s))) = JRNL_STORE_MARKER"
    and "status (stored_master sec m (content (dev s))) = ESP_JRNL_STATUS_FS_INIT"
  shows "fst (mount_instance E config s) = Aborted"
proof -
  let ?a = "volume_size (volume_cfg config) - disk_sector_size (volume_cfg config)"
  have rel: "reliable_device io content sec cap er healthy" and bd: "block_device io content sec cap er"
    using byte_reliable_device.axioms(1) [OF assms(1)] reliable_device.axioms(1) by blast+
  have a: "unat ?a = master_addr sec m" and cap: "master_addr sec m + sec \<le> cap"
    using geom_master_addr [OF assms(2)] assms(3) by (simp_all add: matches_def describes_def)
  have n: "unat (of_nat sizeof_master :: u32) = sizeof_master" by (simp add: sizeof_master_def)
  have rng: "unat ?a + unat (of_nat sizeof_master :: u32) \<le> cap"
    using a n cap geom_sector_pos [OF assms(2)] by (simp add: sizeof_master_def)
  obtain bs d where r: "disk_read io (diskio_ctrl_handle io) ?a (of_nat sizeof_master) (dev s) = ((ESP_OK, bs), d)"
    using byte_reliable_device.read_serves_bytes [OF assms(1,4) rng] by blast
  have bs: "master_of_bytes bs = stored_master sec m (content (dev s))"
    using block_device.read_ok [OF bd r rng] a n by (simp add: stored_master_def)
  have "calloc 1 52 s = (Ret True, s)" using assms(5) by (intro calloc_empty_heap) simp_all
  then show ?thesis
    using assms(3,6-8) r bs
    by (simp add: mount_instance_def run_bind_Ret run_ret Let_def resume_journal_def jrnl_read_raw_def
        matches_def describes_def new_instance_def same_geometry_def jrnl_replay_def prog_simps bind_def lock_acquire_def)
qed

theorem mount_aborts_on_fs_init_witness:
  "fst (mount_instance sample_env sample_config
     (boot (sample_flash\<lparr>cells := put_bytes (cells sample_flash) 352
        (master_sector sample_env 32 (sample_master\<lparr>status := ESP_JRNL_STATUS_FS_INIT\<rparr>))\<rparr>) [])) = Aborted"
proof -
  let ?m = "sample_master\<lparr>status := ESP_JRNL_STATUS_FS_INIT\<rparr>"
  let ?f = "sample_flash\<lparr>cells := put_bytes (cells sample_flash) 352 (master_sector sample_env 32 ?m)\<rparr>"
  have "stored_master 32 sample_master (cells (dev (boot ?f []))) = ?m"
    using stored_master_put [OF sample_geom, of ?m "cells sample_flash" sample_env] by (simp add: sample_addr boot_def)
  then show ?thesis
    by (intro mount_aborts_on_fs_init [OF sample_reliable sample_geom sample_matches])
      (simp_all add: boot_def sample_flash_def, simp_all add: sample_master_def)
qed

text \<open>
  When the header buffer of the replay cannot be allocated, \<open>jrnl_replay\<close> returns without
  releasing the transaction lock: the commit reports \<open>ESP_ERR_NO_MEM\<close> and every later
  \<open>esp_jrnl_start\<close> on the handle waits for ever.
\<close>

theorem replay_out_of_memory_keeps_lock:
  fixes s :: "('d, 'z) jrnl_world_scheme"
  assumes "reliable_device io content sec cap er healthy" and "geom sec cap m"
    and "journal_open E io content sec m h fs ps s" and "healthy (dev s)" and "heap s = False # hp"
  shows "\<exists>s1. esp_jrnl_stop E h True s = (Ret ESP_ERR_NO_MEM, s1) \<and> fst (esp_jrnl_start E h s1) = Blocked"
proof -
  obtain inst where at: "attached io m h inst s" and st: "status (master inst) = ESP_JRNL_STATUS_TRANS_OPEN"
    using assms(3) by (auto simp: journal_open_def)
  have mt: "mounted h inst s" and io: "diskio inst = io" and unl: "\<not> trans_lock inst"
    using at by (simp_all add: attached_def)
  let ?i1 = "inst\<lparr>master := (master inst)\<lparr>status := ESP_JRNL_STATUS_TRANS_COMMIT\<rparr>\<rparr>"
  let ?i2 = "?i1\<lparr>trans_lock := True\<rparr>"
  obtain d where up: "jrnl_update_master E ?i2 (master ?i1) s = (Ret ESP_OK, s\<lparr>dev := d\<rparr>)"
    using reliable_device.update_master_serves [OF assms(1), of ?i2 s E "master ?i1"] io
      attached_geom [OF at assms(2)] assms(4) by auto
  let ?s1 = "set_instance h ?i2 (s\<lparr>dev := d, heap := hp\<rparr>)"
  have ss: "unat (disk_sector_size (volume (master inst))) < 2 ^ 32" by (rule unat_lt_2_32)
  have rp: "jrnl_replay E (Some ?i1) (set_instance h ?i1 (s\<lparr>dev := d\<rparr>)) =
      (Ret (ESP_ERR_NO_MEM, Some ?i2), set_instance h ?i1 (s\<lparr>dev := d, heap := hp\<rparr>))"
    using unl assms(5) ss by (simp add: jrnl_replay_def prog_simps Let_def bind_def calloc_def lock_acquire_def)
  have r: "esp_jrnl_stop E h True s = (Ret ESP_ERR_NO_MEM, ?s1)"
    using block_device.commit_run [OF reliable_device.axioms(1) [OF assms(1)] mt unl st, of E] up rp
    by (simp add: run_bind_Ret prog_simps)
  have mt1: "mounted h ?i2 ?s1" using mt by (intro mounted_set_instance [of h inst]) simp
  have "fst (esp_jrnl_start E h ?s1) = Blocked"
    by (simp add: esp_jrnl_start_def mounted_run [OF mt1] prog_simps)
  then show ?thesis using r by blast
qed

theorem replay_out_of_memory_keeps_lock_witness:
  "\<exists>s1. esp_jrnl_stop sample_env 0 True
       ((sample_world (sample_in ESP_JRNL_STATUS_TRANS_OPEN))\<lparr>heap := [False]\<rparr>) = (Ret ESP_ERR_NO_MEM, s1) \<and>
     fst (esp_jrnl_start sample_env 0 s1) = Blocked"
proof -
  let ?s = "(sample_world (sample_in ESP_JRNL_STATUS_TRANS_OPEN))\<lparr>heap := [False]\<rparr>"
  have "sample_open 0 sample_fs [] ?s"
    using sample_world_open by (simp add: journal_open_def attached_def)
  moreover have "ops_left (dev ?s) = None" by (simp add: sample_flash_def)
  ultimately show ?thesis
    by (rule replay_out_of_memory_keeps_lock [OF byte_reliable_device.axioms(1) [OF sample_reliable] sample_geom]) simp
qed

section \<open>Direct access\<close>

text \<open>
  While the journal is in direct mode, as it is during a format, \<open>esp_jrnl_write\<close> goes
  straight to the volume: after a success the file system holds the data, and whatever is
  reported, nothing outside the written sectors has changed.
\<close>

theorem direct_write:
  fixes s :: "('d, 'z) jrnl_world_scheme"
  assumes "block_device io content sec cap er" and "geom sec cap m"
    and "attached io m h inst s" and "status (master inst) = ESP_JRNL_STATUS_FS_DIRECT"
    and "op_ok sec m (target, buf_bytes buff (unat count * sec))"
  shows "\<exists>err d. esp_jrnl_write E h (Some buff) target count s = (Ret err, s\<lparr>dev := d\<rparr>) \<and>
     same_outside (content (dev s)) (content d) (unat target * sec) (unat count * sec) \<and>
     (err = ESP_OK \<longrightarrow> fs_bytes sec m (content d) =
        write_fs sec [(target, buf_bytes buff (unat count * sec))] (fs_bytes sec m (content (dev s))))"
proof -
  let ?p = "(target, buf_bytes buff (unat count * sec))" and ?c = "content (dev s)"
  have mt: "mounted h inst s" and io: "diskio inst = io" and geo: "same_geometry m (master inst)"
    using assms(3) by (simp_all add: attached_def)
  let ?ss = "disk_sector_size (volume (master inst))"
  have "op_sectors sec ?p = unat count" using geom_sector_pos [OF assms(2)] by (auto simp: op_sectors_def)
  then have "unat target + unat count \<le> fs_sectors (master inst) + store_sectors (master inst)"
    using assms(5) by (simp add: op_ok_def same_geometry_layout [OF geo])
  note ad = geom_address [OF attached_geom [OF assms(3,2)] this]
  obtain e1 d1 where e1: "disk_erase_range io (diskio_ctrl_handle io) (target * ?ss) (count * ?ss) (dev s) = (e1, d1)"
    by fastforce
  obtain e2 d2 where e2: "disk_write io (diskio_ctrl_handle io) (target * ?ss) buff (count * ?ss) d1 = (e2, d2)"
    by fastforce
  have run: "esp_jrnl_write E h (Some buff) target count s =
      (if e1 = ESP_OK then (Ret e2, s\<lparr>dev := d2\<rparr>) else (Ret e1, s\<lparr>dev := d1\<rparr>))"
    using e1 e2 io assms(4)
    by (simp add: esp_jrnl_write_def mounted_run [OF mt] Let_def jrnl_erase_range_raw_def jrnl_write_raw_def
        bind_def ret_def)
  have f1: "same_outside ?c (content d1) (unat target * sec) (unat count * sec)"
    using block_device.erase_frame [OF assms(1) e1] ad by simp
  have f2: "same_outside ?c (content d2) (unat target * sec) (unat count * sec)"
    using block_device.erase_then_write_frame [OF assms(1) e1 e2] ad by simp
  have c2: "fs_bytes sec m (content d2) = write_fs sec [?p] (fs_bytes sec m ?c)" if "e1 = ESP_OK" "e2 = ESP_OK"
  proof -
    have "content d2 = apply_ops sec [?p] ?c"
      using block_device.erase_then_write_ok [OF assms(1) e1 [unfolded that] e2 [unfolded that]] ad
      by (simp add: apply_op_def)
    then show ?thesis using fs_bytes_apply [of sec m "[?p]" ?c] assms(5) by simp
  qed
  show ?thesis
  proof (cases "e1 = ESP_OK")
    case True
    then show ?thesis using run f2 c2 by (intro exI [of _ e2] exI [of _ d2]) simp
  next
    case False
    then show ?thesis using run f1 by (intro exI [of _ e1] exI [of _ d1]) simp
  qed
qed

theorem direct_write_witness:
  "\<exists>err d. esp_jrnl_write sample_env 0 (Some (\<lambda>_. 7)) 1 1 (sample_world (sample_in ESP_JRNL_STATUS_FS_DIRECT)) =
       (Ret err, (sample_world (sample_in ESP_JRNL_STATUS_FS_DIRECT))\<lparr>dev := d\<rparr>) \<and>
     same_outside (cells sample_flash) (cells d) (unat (1 :: u32) * 32) (unat (1 :: u32) * 32) \<and>
     (err = ESP_OK \<longrightarrow> fs_bytes 32 sample_master (cells d) =
        write_fs 32 [(1, buf_bytes (\<lambda>_. 7) (unat (1 :: u32) * 32))] (fs_bytes 32 sample_master (cells sample_flash)))"
proof -
  have st: "status (master (sample_in ESP_JRNL_STATUS_FS_DIRECT)) = ESP_JRNL_STATUS_FS_DIRECT"
    by (simp add: sample_in_def)
  have ok: "op_ok 32 sample_master (1, buf_bytes (\<lambda>_. 7) (unat (1 :: u32) * 32))"
    using sample_op_ok sample_op_buffer by simp
  show ?thesis
    using direct_write [OF sample_device sample_geom sample_attached st ok, of sample_env]
    by (simp only: sample_world_simps)
qed

end
