(* ===== verification/Jrnl_Fresh.thy ===== *)
theory Jrnl_Fresh
  imports Jrnl_Errors
begin

text \<open>
  A fresh journal, from the mount that asks for one (\<open>force_fs_format\<close> or \<open>overwrite_existing\<close>) over
  the direct writes of a format to the ready state. Nothing is assumed of what the disk held
  before: \<open>journal_direct\<close> says what memory and disk look like meanwhile.
\<close>

section \<open>Direct access\<close>

text \<open>
  The file system is what its sectors hold, and the record on the disk says that they are written
  directly.
\<close>

definition journal_direct ::
  "'d esp_jrnl_diskio_t \<Rightarrow> ('d \<Rightarrow> image) \<Rightarrow> nat \<Rightarrow> esp_jrnl_master_t \<Rightarrow>
   esp_jrnl_handle_t \<Rightarrow> byte list \<Rightarrow> ('d, 'z) jrnl_world_scheme \<Rightarrow> bool" where
  "journal_direct io content sec m h fs s \<longleftrightarrow>
     (\<exists>inst. attached io m h inst s \<and> status (master inst) = ESP_JRNL_STATUS_FS_DIRECT \<and>
             next_free_sector (master inst) = 0) \<and>
     fs_bytes sec m (content (dev s)) = fs \<and> stored_master sec m (content (dev s)) = reset_fields True m"

text \<open>A format that is interrupted is not taken for a file system.\<close>

lemma direct_unrecoverable:
  "journal_direct io content sec m h fs s \<Longrightarrow> \<not> recovers_to E sec m (content (dev s)) fs'"
  by (simp add: journal_direct_def recovers_to_def idle_disk_def committed_disk_def reset_fields_def)

text \<open>A client that writes sectors one after the other and stops at the first error, as a format does.\<close>

type_synonym sector_write = "u32 \<times> cbuf \<times> u32"

definition op_of_write :: "nat \<Rightarrow> sector_write \<Rightarrow> jop" where
  "op_of_write sec w = (case w of (target, buff, count) \<Rightarrow> (target, buf_bytes buff (unat count * sec)))"

fun direct_writes ::
  "esp_env \<Rightarrow> esp_jrnl_handle_t \<Rightarrow> sector_write list \<Rightarrow> (('d, 'z) jrnl_world_scheme, esp_err_t) prog" where
  "direct_writes E h [] = ret ESP_OK"
| "direct_writes E h ((target, buff, count) # ws) =
     bind (esp_jrnl_write E h (Some buff) target count) (\<lambda>err.
     if err \<noteq> ESP_OK then ret err else direct_writes E h ws)"

text \<open>What changes inside the file system leaves the record alone.\<close>

lemma stored_master_fs_change:
  assumes "geom sec cap m" and "same_outside c c' a n" and "a + n \<le> fs_sectors m * sec"
  shows "stored_master sec m c' = stored_master sec m c"
  using assms(3) fs_below_master [OF assms(1)]
  unfolding stored_master_def by (subst same_outside_get [OF assms(2)]) auto

context block_device
begin

lemma direct_write_step:
  assumes g: "geom sector capacity m" and jd: "journal_direct io content sector m h fs s"
    and ok: "op_ok sector m (op_of_write sector (target, buff, count))"
  obtains err d fs' where "esp_jrnl_write E h (Some buff) target count s = (Ret err, s\<lparr>dev := d\<rparr>)"
    and "journal_direct io content sector m h fs' (s\<lparr>dev := d\<rparr>)"
    and "err = ESP_OK \<Longrightarrow> fs' = write_fs sector [op_of_write sector (target, buff, count)] fs"
proof -
  obtain inst where at: "attached io m h inst s" and st: "status (master inst) = ESP_JRNL_STATUS_FS_DIRECT"
    and nf: "next_free_sector (master inst) = 0" and fs: "fs_bytes sector m (content (dev s)) = fs"
    and sm: "stored_master sector m (content (dev s)) = reset_fields True m"
    using jd by (auto simp: journal_direct_def)
  let ?p = "(target, buf_bytes buff (unat count * sector))"
  have ok': "op_ok sector m ?p" using ok by (simp add: op_of_write_def)
  obtain err d where run: "esp_jrnl_write E h (Some buff) target count s = (Ret err, s\<lparr>dev := d\<rparr>)"
    and so: "same_outside (content (dev s)) (content d) (unat target * sector) (unat count * sector)"
    and f: "err = ESP_OK \<longrightarrow> fs_bytes sector m (content d) = write_fs sector [?p] fs"
    using direct_write [OF block_device_axioms g at st ok', of E] fs by auto
  have "unat target * sector + unat count * sector \<le> fs_sectors m * sector"
    using op_ok_range [OF ok'] by simp
  then have "stored_master sector m (content d) = reset_fields True m"
    using stored_master_fs_change [OF g so] sm by simp
  moreover have "attached io m h inst (s\<lparr>dev := d\<rparr>)" using at by (simp add: attached_def mounted_def)
  ultimately have "journal_direct io content sector m h (fs_bytes sector m (content d)) (s\<lparr>dev := d\<rparr>)"
    using st nf by (auto simp: journal_direct_def)
  with run f show thesis by (intro that [of err d "fs_bytes sector m (content d)"]) (simp_all add: op_of_write_def)
qed

lemma direct_writes_run:
  assumes g: "geom sector capacity m" and "journal_direct io content sector m h fs s"
    and "list_all (op_ok sector m) (map (op_of_write sector) ws)"
  shows "\<exists>err s' fs'. direct_writes E h ws s = (Ret err, s') \<and> journal_direct io content sector m h fs' s' \<and>
     (err = ESP_OK \<longrightarrow> fs' = write_fs sector (map (op_of_write sector) ws) fs)"
  using assms(2,3)
proof (induction ws arbitrary: fs s)
  case Nil
  then show ?case by (auto simp: run_ret)
next
  case (Cons w ws)
  obtain target buff count where w: "w = (target, buff, count)" by (cases w)
  have ok: "op_ok sector m (op_of_write sector (target, buff, count))" using Cons.prems(2) w by simp
  obtain err d fs1 where r: "esp_jrnl_write E h (Some buff) target count s = (Ret err, s\<lparr>dev := d\<rparr>)"
    and jd: "journal_direct io content sector m h fs1 (s\<lparr>dev := d\<rparr>)"
    and f: "err = ESP_OK \<Longrightarrow> fs1 = write_fs sector [op_of_write sector (target, buff, count)] fs"
    by (rule direct_write_step [OF g Cons.prems(1) ok, where E = E]) (rule that, assumption, assumption, blast)
  show ?case
  proof (cases "err = ESP_OK")
    case True
    have "write_fs sector (map (op_of_write sector) (w # ws)) fs = write_fs sector (map (op_of_write sector) ws) fs1"
      using f [OF True] w by simp
    then show ?thesis using Cons.IH [OF jd] Cons.prems(2) r True w by (simp add: run_bind_Ret)
  next
    case False
    then show ?thesis using r jd w by (auto simp: run_bind_Ret run_ret)
  qed
qed

text \<open>The change to the ready state.\<close>

lemma direct_ready:
  assumes g: "geom sector capacity m" and jd: "journal_direct io content sector m h fs s"
  obtains err s' where "esp_jrnl_set_direct_io E h False s = (Ret err, s')"
    and "fs_bytes sector m (content (dev s')) = fs"
    and "err = ESP_OK \<Longrightarrow> journal_ready E io content sector m h fs s'"
proof -
  obtain inst where at: "attached io m h inst s" and st: "status (master inst) = ESP_JRNL_STATUS_FS_DIRECT"
    and nf: "next_free_sector (master inst) = 0" and fs: "fs_bytes sector m (content (dev s)) = fs"
    using jd by (auto simp: journal_direct_def)
  have mt: "mounted h inst s" and io: "diskio inst = io" and unl: "\<not> trans_lock inst"
    and geo: "same_geometry m (master inst)"
    using at by (simp_all add: attached_def)
  let ?m = "(master inst)\<lparr>status := ESP_JRNL_STATUS_TRANS_READY\<rparr>"
  let ?i = "inst\<lparr>trans_lock := True, master := ?m\<rparr>" and ?j = "inst\<lparr>trans_lock := False, master := ?m\<rparr>"
  have gi: "geom sector capacity (master ?i)" using attached_geom [OF at g] by (simp add: geom_def)
  obtain err d where r: "jrnl_update_master E ?i ?m s = (Ret err, s\<lparr>dev := d\<rparr>)"
    and u: "sector_update erased (content (dev s)) (master_addr sector ?m) (master_sector E sector ?m) err (content d)"
    by (rule update_master_run [of ?i E ?m s]) (use io gi in simp_all)
  let ?s = "set_instance h ?j (s\<lparr>dev := d\<rparr>)"
  have run: "esp_jrnl_set_direct_io E h False s = (Ret err, ?s)"
    using r by (simp add: esp_jrnl_set_direct_io_def mounted_run [OF mt] st unl prog_simps Let_def run_bind_Ret
        unlocked_same)
  have geo': "same_geometry m ?m" and rdy: "status ?m = ESP_JRNL_STATUS_TRANS_READY \<or> status ?m = ESP_JRNL_STATUS_TRANS_OPEN"
    using geo by simp_all
  have u': "sector_update erased (content (dev s)) (master_addr sector m) (master_sector E sector ?m) err (content d)"
    using u by (simp add: same_geometry_layout [OF geo])
  note up = idle_update [OF g geo' rdy u']
  have "attached io m h ?j ?s"
    by (rule attached_set_instance(1) [OF at]) (use at geo' in \<open>simp_all add: attached_def\<close>)
  then have "journal_ready E io content sector m h fs ?s" if "err = ESP_OK"
    unfolding journal_ready_def recovers_to_def using up(3) [OF that] up(1) fs nf
    by (intro conjI exI [of _ ?j]) simp_all
  then show thesis using that [OF run] up(1) fs by simp
qed

section \<open>Mounting\<close>

text \<open>
  A format that is interrupted is not mounted either: on a disk whose record says that it is being formatted, a
  mount that resumes and replays the journal does not succeed. It reports an error or waits, or the assertion
  of \<open>jrnl_replay\<close> stops the program.
\<close>

lemma mount_instance_refuses_format:
  assumes g: "geom sector capacity m" and mt: "matches m io config"
    and sm: "stored_master sector m (content (dev s)) = reset_fields True m"
  shows "mount_instance E config s \<noteq> (Ret (ESP_OK, p), s')"
proof -
  obtain ok hp where al: "calloc 1 52 s = (Ret ok, s\<lparr>heap := hp\<rparr>)" by (rule calloc_run)
  have io: "diskio (new_instance config) = io" using mt by (simp add: new_instance_def matches_def describes_def)
  obtain err bs d where rd: "err = ESP_OK \<longrightarrow> master_of_bytes bs = stored_master sector m (content (dev (s\<lparr>heap := hp\<rparr>)))"
    and r: "resume_journal E config (new_instance config) (s\<lparr>heap := hp\<rparr>) =
      (let i = (new_instance config)\<lparr>master := master_of_bytes bs\<rparr> in
       if err \<noteq> ESP_OK then (Ret (err, Some (new_instance config)), s\<lparr>heap := hp\<rparr>\<lparr>dev := d\<rparr>)
       else if jrnl_magic_mark (master i) \<noteq> JRNL_STORE_MARKER then (Ret (ESP_OK, Some i), s\<lparr>heap := hp\<rparr>\<lparr>dev := d\<rparr>)
       else if \<not> (volume_size (volume m) = volume_size (volume (master i)) \<and>
                  disk_sector_size (volume m) = disk_sector_size (volume (master i)) \<and>
                  store_size_sectors m = store_size_sectors (master i))
       then (Ret (ESP_ERR_INVALID_STATE, Some i), s\<lparr>heap := hp\<rparr>\<lparr>dev := d\<rparr>)
       else jrnl_replay E (Some i) (s\<lparr>heap := hp\<rparr>\<lparr>dev := d\<rparr>))"
    by (rule resume_journal_run [OF g mt io, where s = "s\<lparr>heap := hp\<rparr>" and E = E])
  have fresh: "\<not> force_fs_format (user_cfg config)" "\<not> overwrite_existing (user_cfg config)"
    using mt by (simp_all add: matches_def)
  show ?thesis
  proof (cases "ok \<and> err = ESP_OK")
    case True
    then have "master_of_bytes bs = reset_fields True m" using rd sm by simp
    then have "fst (resume_journal E config (new_instance config) (s\<lparr>heap := hp\<rparr>)) = Aborted"
      using r True by (simp add: reset_fields_def jrnl_replay_def new_instance_def prog_simps bind_def lock_acquire_def Let_def)
    then show ?thesis using al True fresh by (auto simp: mount_instance_def bind_def split: prod.splits)
  next
    case False
    then show ?thesis using al r fresh by (auto simp: mount_instance_def bind_def ret_def Let_def)
  qed
qed

lemma mount_refuses_format:
  assumes g: "geom sector capacity m" and mt: "matches m io config"
    and sm: "stored_master sector m (content (dev s)) = reset_fields True m"
  shows "esp_jrnl_mount E (Some config) k s \<noteq> (Ret (ESP_OK, h), s')"
  using mount_instance_refuses_format [OF g mt, of "s\<lparr>s_instances_lock := True\<rparr>" E] sm
  by (cases "s_instances_lock s")
    (fastforce simp: esp_jrnl_mount_def prog_simps elim!: bind_RetE split: if_splits)+

lemma mount_instance_fresh:
  assumes g: "geom sector capacity m" and ds: "describes m io config"
    and fr: "force_fs_format (user_cfg config) \<or> overwrite_existing (user_cfg config)"
  obtains err p d hp where "mount_instance E config s = (Ret (err, p), s\<lparr>dev := d, heap := hp\<rparr>)"
    and "fs_bytes sector m (content d) = fs_bytes sector m (content (dev s))"
    and "err = ESP_OK \<Longrightarrow> stored_master sector m (content d) = reset_fields True m \<and>
           (\<exists>inst. p = Some (inst\<lparr>master := reset_fields True m\<rparr>) \<and> diskio inst = io \<and> \<not> trans_lock inst)"
proof -
  obtain ok hp where al: "calloc 1 52 s = (Ret ok, s\<lparr>heap := hp\<rparr>)" by (rule calloc_run)
  let ?n = "new_instance config"
  have io: "diskio ?n = io" using ds by (simp add: new_instance_def describes_def)
  obtain err d where c: "create_journal E config True ?n (s\<lparr>heap := hp\<rparr>) =
      (Ret (err, Some (?n\<lparr>master := reset_fields True m\<rparr>)), s\<lparr>heap := hp\<rparr>\<lparr>dev := d\<rparr>)"
    and u: "sector_update erased (content (dev (s\<lparr>heap := hp\<rparr>))) (master_addr sector m)
        (master_sector E sector (reset_fields True m)) err (content d)"
    by (rule create_journal_run [OF g ds io, where E = E and fresh = True and s = "s\<lparr>heap := hp\<rparr>"])
  have f: "fs_bytes sector m (content d) = fs_bytes sector m (content (dev s))"
    using fs_bytes_outside [OF g sector_update_frame [OF u]] by simp
  have sm: "stored_master sector m (content d) = reset_fields True m" if "err = ESP_OK"
    using u that stored_master_put [OF g, of "reset_fields True m"] by (simp add: sector_update_def reset_fields_def)
  have run: "mount_instance E config s = (if ok then (Ret (err, Some (?n\<lparr>master := reset_fields True m\<rparr>)), s\<lparr>dev := d, heap := hp\<rparr>)
      else (Ret (ESP_ERR_NO_MEM, None), s\<lparr>heap := hp\<rparr>))"
    using al c fr by (simp add: mount_instance_def run_bind_Ret run_ret Let_def)
  show thesis
  proof (cases ok)
    case True
    have "\<exists>inst. Some (?n\<lparr>master := reset_fields True m\<rparr>) = Some (inst\<lparr>master := reset_fields True m\<rparr>) \<and>
        diskio inst = io \<and> \<not> trans_lock inst"
      by (rule exI [of _ ?n]) (use io in \<open>simp add: new_instance_def\<close>)
    then show thesis using that [of err _ hp d] run True f sm by simp
  next
    case False
    show thesis by (rule that [of ESP_ERR_NO_MEM None hp "dev s"]) (use run False in simp_all)
  qed
qed

lemma mount_fresh:
  assumes g: "geom sector capacity m" and ds: "describes m io config"
    and fr: "force_fs_format (user_cfg config) \<or> overwrite_existing (user_cfg config)"
    and lk: "\<not> s_instances_lock s" and len: "length (s_jrnl_instance_ptrs s) = JRNL_MAX_HANDLES"
    and free: "None \<in> set (s_jrnl_instance_ptrs s)"
  obtains err h s' where "esp_jrnl_mount E (Some config) (Some h0) s = (Ret (err, Some h), s')"
    and "fs_bytes sector m (content (dev s')) = fs_bytes sector m (content (dev s))" and "\<not> s_instances_lock s'"
    and "err = ESP_OK \<Longrightarrow> journal_direct io content sector m h (fs_bytes sector m (content (dev s))) s'"
proof -
  let ?h = "find_free_handle (s_jrnl_instance_ptrs s)" and ?s0 = "s\<lparr>s_instances_lock := True\<rparr>"
  note ff = find_free_handle_Some [OF refl find_free_handle_found [OF free]]
  obtain err p d hp where
    r: "mount_instance E config ?s0 = (Ret (err, p), ?s0\<lparr>dev := d, heap := hp\<rparr>)"
    and f: "fs_bytes sector m (content d) = fs_bytes sector m (content (dev ?s0))"
    and k: "err = ESP_OK \<Longrightarrow> stored_master sector m (content d) = reset_fields True m \<and>
       (\<exists>inst. p = Some (inst\<lparr>master := reset_fields True m\<rparr>) \<and> diskio inst = io \<and> \<not> trans_lock inst)"
    by (rule mount_instance_fresh [OF g ds fr, where E = E and s = ?s0]) (rule that, assumption, assumption, blast)
  let ?s1 = "s\<lparr>dev := d, heap := hp, s_instances_lock := False\<rparr>"
  let ?s2 = "?s1\<lparr>s_jrnl_instance_ptrs := (s_jrnl_instance_ptrs s)[nat ?h := p]\<rparr>"
  have run: "esp_jrnl_mount E (Some config) (Some h0) s =
      (if err = ESP_OK then (Ret (ESP_OK, Some ?h), ?s2) else (Ret (err, Some h0), ?s1))"
    by (rule mount_by_instance [OF lk free described_store_size [OF g ds] r])
  show thesis
  proof (cases "err = ESP_OK")
    case False
    then show thesis using that [of err h0 ?s1] run f by simp
  next
    case True
    then obtain inst where p: "p = Some (inst\<lparr>master := reset_fields True m\<rparr>)" and i: "diskio inst = io" "\<not> trans_lock inst"
      using k by blast
    let ?i = "inst\<lparr>master := reset_fields True m\<rparr>"
    have "attached io m ?h ?i ?s2"
      using ff len p i by (simp add: attached_def mounted_def reset_fields_def same_geometry_def)
    then have "journal_direct io content sector m ?h (fs_bytes sector m (content (dev s))) ?s2"
      unfolding journal_direct_def using f k True by (intro conjI exI [of _ ?i]) (simp_all add: reset_fields_def)
    then show thesis using that [of ESP_OK ?h ?s2] run f True by simp
  qed
qed

end

section \<open>Progress on a healthy device\<close>

context reliable_device
begin

lemma direct_write_serves:
  assumes g: "geom sector capacity m" and jd: "journal_direct io content sector m h fs s" and hl: "healthy (dev s)"
    and ok: "op_ok sector m (op_of_write sector (target, buff, count))"
  shows "\<exists>d. esp_jrnl_write E h (Some buff) target count s = (Ret ESP_OK, s\<lparr>dev := d\<rparr>) \<and> healthy d"
proof -
  obtain inst where at: "attached io m h inst s" and st: "status (master inst) = ESP_JRNL_STATUS_FS_DIRECT"
    using jd by (auto simp: journal_direct_def)
  have mt: "mounted h inst s" and io: "diskio inst = io" and geo: "same_geometry m (master inst)"
    using at by (simp_all add: attached_def)
  let ?ss = "disk_sector_size (volume (master inst))"
  have "op_sectors sector (op_of_write sector (target, buff, count)) = unat count"
    using geom_sector_pos [OF g] by (auto simp: op_sectors_def op_of_write_def)
  then have "unat target + unat count \<le> fs_sectors (master inst) + store_sectors (master inst)"
    using ok by (simp add: op_ok_def op_of_write_def same_geometry_layout [OF geo])
  note ad = geom_address [OF attached_geom [OF at g] this]
  have req: "sector dvd unat (target * ?ss)" "sector dvd unat (count * ?ss)" "unat (target * ?ss) + unat (count * ?ss) \<le> capacity"
    using ad by simp_all
  obtain d1 where e: "disk_erase_range io (diskio_ctrl_handle io) (target * ?ss) (count * ?ss) (dev s) = (ESP_OK, d1)"
    and h1: "healthy d1" using erase_serves [OF hl req] by blast
  obtain d2 where "disk_write io (diskio_ctrl_handle io) (target * ?ss) buff (count * ?ss) d1 = (ESP_OK, d2)"
    and "healthy d2" using write_serves [OF h1 req] by blast
  then show ?thesis
    using e io st by (intro exI [of _ d2])
      (simp add: esp_jrnl_write_def mounted_run [OF mt] Let_def jrnl_erase_range_raw_def jrnl_write_raw_def
        bind_def ret_def)
qed

lemma direct_writes_serve:
  assumes g: "geom sector capacity m" and "journal_direct io content sector m h fs s" and "healthy (dev s)"
    and "list_all (op_ok sector m) (map (op_of_write sector) ws)"
  shows "\<exists>s'. direct_writes E h ws s = (Ret ESP_OK, s') \<and> healthy (dev s')"
  using assms(2-4)
proof (induction ws arbitrary: fs s)
  case Nil
  then show ?case by (simp add: run_ret)
next
  case (Cons w ws)
  obtain target buff count where w: "w = (target, buff, count)" by (cases w)
  have ok: "op_ok sector m (op_of_write sector (target, buff, count))" using Cons.prems(3) w by simp
  obtain d where r: "esp_jrnl_write E h (Some buff) target count s = (Ret ESP_OK, s\<lparr>dev := d\<rparr>)" and hd: "healthy d"
    using direct_write_serves [OF g Cons.prems(1,2) ok] by blast
  have "\<exists>fs'. journal_direct io content sector m h fs' (s\<lparr>dev := d\<rparr>)"
    by (rule direct_write_step [OF g Cons.prems(1) ok, where E = E]) (use r in auto)
  then show ?case using Cons.IH [of _ "s\<lparr>dev := d\<rparr>"] Cons.prems(3) hd r w by (auto simp: run_bind_Ret)
qed

lemma direct_ready_serves:
  assumes g: "geom sector capacity m" and jd: "journal_direct io content sector m h fs s" and hl: "healthy (dev s)"
  shows "\<exists>s'. esp_jrnl_set_direct_io E h False s = (Ret ESP_OK, s') \<and> healthy (dev s')"
proof -
  obtain inst where at: "attached io m h inst s" and st: "status (master inst) = ESP_JRNL_STATUS_FS_DIRECT"
    using jd by (auto simp: journal_direct_def)
  have mt: "mounted h inst s" and io: "diskio inst = io" and unl: "\<not> trans_lock inst"
    using at by (simp_all add: attached_def)
  let ?i = "inst\<lparr>trans_lock := True, master := (master inst)\<lparr>status := ESP_JRNL_STATUS_TRANS_READY\<rparr>\<rparr>"
  have "geom sector capacity (master ?i)" using attached_geom [OF at g] by (simp add: geom_def)
  with update_master_serves [of ?i s E "master ?i"] io hl
  obtain d where "jrnl_update_master E ?i (master ?i) s = (Ret ESP_OK, s\<lparr>dev := d\<rparr>)" and "healthy d" by auto
  then show ?thesis
    by (simp add: esp_jrnl_set_direct_io_def mounted_run [OF mt] st unl prog_simps Let_def run_bind_Ret set_instance_def)
qed

lemma mount_fresh_serves:
  assumes g: "geom sector capacity m" and ds: "describes m io config"
    and fr: "force_fs_format (user_cfg config) \<or> overwrite_existing (user_cfg config)"
    and lk: "\<not> s_instances_lock s" and len: "length (s_jrnl_instance_ptrs s) = JRNL_MAX_HANDLES"
    and free: "None \<in> set (s_jrnl_instance_ptrs s)" and hl: "healthy (dev s)" and hp: "heap s = []"
  obtains h s' where "esp_jrnl_mount E (Some config) (Some h0) s = (Ret (ESP_OK, Some h), s')"
    and "healthy (dev s')" and "heap s' = []"
    and "journal_direct io content sector m h (fs_bytes sector m (content (dev s))) s'"
proof -
  let ?s0 = "s\<lparr>s_instances_lock := True\<rparr>" and ?n = "new_instance config"
  have al: "calloc 1 52 ?s0 = (Ret True, ?s0)" using hp by (intro calloc_empty_heap) simp_all
  let ?m = "(master ?n)\<lparr>store_size_sectors := store_size_sectors m,
      store_volume_offset_sector := store_volume_offset_sector m, volume := volume m\<rparr>"
  have gm: "geom sector capacity ?m" using g by (simp add: geom_def)
  have io: "diskio ?n = io" using ds by (simp add: new_instance_def describes_def)
  obtain i d where r: "jrnl_reset_master E (Some (?n\<lparr>master := ?m\<rparr>)) True ?s0 = (Ret (ESP_OK, Some i), ?s0\<lparr>dev := d\<rparr>)"
    and hd: "healthy d"
    using reset_master_serves [of "?n\<lparr>master := ?m\<rparr>" ?s0 E True] io gm hl by auto
  have "disk_sector_size (volume m) \<noteq> 0" using g geom_sector_pos [OF g] by (auto simp: geom_def)
  then have run: "mount_instance E config ?s0 = (Ret (ESP_OK, Some i), ?s0\<lparr>dev := d\<rparr>)"
    using al r ds fr geom_offset [OF g]
    by (simp add: mount_instance_def run_bind_Ret run_ret Let_def create_journal_def describes_def)
  obtain h s' where res: "esp_jrnl_mount E (Some config) (Some h0) s = (Ret (ESP_OK, Some h), s')"
    and "dev s' = d" and "heap s' = []"
    using mount_by_instance [OF lk free described_store_size [OF g ds], of E ESP_OK "Some i" "[]" d h0] run hp by simp
  moreover have "journal_direct io content sector m h (fs_bytes sector m (content (dev s))) s'"
    by (rule mount_fresh [OF g ds fr lk len free, of E h0]) (use res in simp)
  ultimately show thesis using that hd by blast
qed

end

section \<open>The life of a fresh journal\<close>

text \<open>
  C9. A fresh journal on any disk, whatever it held before and with failures at any access. The mount
  always returns and leaves the sectors of the file system alone. After a success the volume is in direct
  mode: any sequence of sector writes that is reported as done has its data in the file system, and reads
  return it. Until the journal is made ready the disk, with a format that may be half done, stands for no
  file system, and no later mount that resumes the journal with replay switched on succeeds on it. Once \<open>esp_jrnl_set_direct_io\<close> has reported success, the journal is ready over
  exactly what was written.
\<close>

theorem fresh_journal_formats:
  fixes s :: "('d, 'z) jrnl_world_scheme"
  assumes "block_device io content sec cap er" and "geom sec cap m" and "describes m io config"
    and "force_fs_format (user_cfg config) \<or> overwrite_existing (user_cfg config)"
    and "\<not> s_instances_lock s" and "length (s_jrnl_instance_ptrs s) = JRNL_MAX_HANDLES"
    and "None \<in> set (s_jrnl_instance_ptrs s)" and "list_all (op_ok sec m) (map (op_of_write sec) ws)"
  defines "fs \<equiv> fs_bytes sec m (content (dev s))"
    and "fs' \<equiv> write_fs sec (map (op_of_write sec) ws) (fs_bytes sec m (content (dev s)))"
  shows "\<exists>err h s1. esp_jrnl_mount E (Some config) (Some h0) s = (Ret (err, Some h), s1) \<and>
     fs_bytes sec m (content (dev s1)) = fs \<and>
     (err = ESP_OK \<longrightarrow> (\<exists>err1 s2. direct_writes E h ws s1 = (Ret err1, s2) \<and>
        (\<forall>f. \<not> recovers_to E sec m (content (dev s2)) f) \<and>
        (\<forall>config' k r (t :: ('d, 'z) jrnl_world_scheme) t'. matches m io config' \<longrightarrow> content (dev t) = content (dev s2) \<longrightarrow>
           esp_jrnl_mount E (Some config') k t \<noteq> (Ret (ESP_OK, r), t')) \<and>
        (err1 = ESP_OK \<longrightarrow>
           (\<forall>t n. unat t + unat n < fs_sectors m \<longrightarrow>
              (\<exists>e bs d. esp_jrnl_read h t True n s2 = (Ret (e, bs), s2\<lparr>dev := d\<rparr>) \<and>
                 (e = ESP_OK \<longrightarrow> bs = take (unat n * sec) (drop (unat t * sec) fs')))) \<and>
           (\<exists>err2 s3. esp_jrnl_set_direct_io E h False s2 = (Ret err2, s3) \<and>
              (err2 = ESP_OK \<longrightarrow> journal_ready E io content sec m h fs' s3)))))"
    (is "\<exists>err h s1. _ \<and> _ \<and> (_ \<longrightarrow> (\<exists>err1 s2. _ \<and> _ \<and> ?off s2 \<and> (_ \<longrightarrow> ?use h s2)))")
proof -
  note bd = assms(1) and g = assms(2)
  obtain err h s1 where mt: "esp_jrnl_mount E (Some config) (Some h0) s = (Ret (err, Some h), s1)"
    and f1: "fs_bytes sec m (content (dev s1)) = fs"
    and d1: "err = ESP_OK \<Longrightarrow> journal_direct io content sec m h fs s1"
    by (rule block_device.mount_fresh [OF assms(1-7), of E h0, folded fs_def]) (rule that, assumption, assumption, blast)
  have reads: "\<exists>e bs d. esp_jrnl_read h t True n s2 = (Ret (e, bs), s2\<lparr>dev := d\<rparr>) \<and>
      (e = ESP_OK \<longrightarrow> bs = take (unat n * sec) (drop (unat t * sec) fs'))"
    if d2: "journal_direct io content sec m h fs' s2" and rng: "unat t + unat n < fs_sectors m" for s2 t n
  proof -
    obtain inst where at: "attached io m h inst s2" and f: "fs_bytes sec m (content (dev s2)) = fs'"
      using d2 by (auto simp: journal_direct_def)
    show ?thesis by (rule block_device.read_refines [OF bd g at rng]) (use f in auto)
  qed
  have "\<exists>err2 s3. esp_jrnl_set_direct_io E h False s2 = (Ret err2, s3) \<and>
      (err2 = ESP_OK \<longrightarrow> journal_ready E io content sec m h fs' s3)"
    if d2: "journal_direct io content sec m h fs' s2" for s2
    by (rule block_device.direct_ready [OF bd g d2, where E = E]) (intro exI conjI impI, assumption, blast)
  with reads have use: "?use h s2" if "journal_direct io content sec m h fs' s2" for s2
    using that by blast
  have "\<exists>err1 s2. direct_writes E h ws s1 = (Ret err1, s2) \<and>
        (\<forall>f. \<not> recovers_to E sec m (content (dev s2)) f) \<and> ?off s2 \<and> (err1 = ESP_OK \<longrightarrow> ?use h s2)" if ok: "err = ESP_OK"
  proof -
    obtain err1 s2 f2 where w: "direct_writes E h ws s1 = (Ret err1, s2)" and d2: "journal_direct io content sec m h f2 s2"
      and f2: "err1 = ESP_OK \<longrightarrow> f2 = fs'"
      using block_device.direct_writes_run [OF bd g d1 [OF ok] assms(8), of E] unfolding fs_def fs'_def by blast
    have "?use h s2" if "err1 = ESP_OK" by (rule use) (use that f2 d2 in simp)
    moreover have "?off s2"
      using d2 by (intro allI impI block_device.mount_refuses_format [OF bd g]) (simp_all add: journal_direct_def)
    ultimately show ?thesis using w direct_unrecoverable [OF d2] by blast
  qed
  with mt f1 show ?thesis by (intro exI [of _ err] exI [of _ h] exI [of _ s1]) simp
qed

definition fresh_config :: "flash esp_jrnl_config_extended_t" where
  "fresh_config = sample_config\<lparr>user_cfg := (user_cfg sample_config)\<lparr>force_fs_format := True\<rparr>\<rparr>"

lemma fresh_config_describes: "describes sample_master sample_io fresh_config" "force_fs_format (user_cfg fresh_config)"
  using sample_matches by (simp_all add: matches_def describes_def fresh_config_def)

theorem fresh_journal_formats_witness:
  "\<exists>h s1 s2 s3. esp_jrnl_mount sample_env (Some fresh_config) (Some 0) (boot sample_flash []) = (Ret (ESP_OK, Some h), s1) \<and>
     direct_writes sample_env h [(1, \<lambda>_. 7, 1)] s1 = (Ret ESP_OK, s2) \<and>
     (\<forall>k r t'. esp_jrnl_mount sample_env (Some sample_config) k (boot (dev s2) []) \<noteq> (Ret (ESP_OK, r), t')) \<and>
     esp_jrnl_set_direct_io sample_env h False s2 = (Ret ESP_OK, s3) \<and> sample_ready h sample_fs' s3"
proof -
  note rel = byte_reliable_device.axioms(1) [OF sample_reliable] and fc = fresh_config_describes
  let ?s = "boot sample_flash []" and ?ws = "[(1, \<lambda>_. 7, 1)] :: sector_write list"
  have op: "map (op_of_write 32) ?ws = [sample_op]" by (simp add: op_of_write_def sample_op_buffer)
  have ok: "list_all (op_ok 32 sample_master) (map (op_of_write 32) ?ws)" unfolding op using sample_op_ok by simp
  have fs: "fs_bytes 32 sample_master (cells (dev ?s)) = sample_fs"
    using blank_fs by (simp add: boot_def sample_flash_def)
  obtain h s1 where m: "esp_jrnl_mount sample_env (Some fresh_config) (Some 0) ?s = (Ret (ESP_OK, Some h), s1)"
    and h1: "ops_left (dev s1) = None" and d1: "journal_direct sample_io cells 32 sample_master h sample_fs s1"
    by (rule reliable_device.mount_fresh_serves [OF rel sample_geom fc(1) disjI1 [OF fc(2)] boot_table(3,1,2) sample_powered(1,2),
          of sample_env 0, unfolded fs])
  obtain s2 where w: "direct_writes sample_env h ?ws s1 = (Ret ESP_OK, s2)" and h2: "ops_left (dev s2) = None"
    using reliable_device.direct_writes_serve [OF rel sample_geom d1 h1 ok] by blast
  obtain fs2 where d2: "journal_direct sample_io cells 32 sample_master h fs2 s2"
    using block_device.direct_writes_run [OF sample_device sample_geom d1 ok, of sample_env] w by auto
  obtain s3 where "esp_jrnl_set_direct_io sample_env h False s2 = (Ret ESP_OK, s3)"
    using reliable_device.direct_ready_serves [OF rel sample_geom d2 h2] by blast
  then show ?thesis
    using fresh_journal_formats [OF sample_device sample_geom fc(1) disjI1 [OF fc(2)] boot_table(3,1,2) ok, of sample_env 0 sample_flash "[]"]
      m w sample_matches unfolding op fs sample_fs'_def by (auto simp: boot_def)
qed

end
