(* ===== verification/Jrnl_Correct.thy ===== *)
theory Jrnl_Correct
  imports Jrnl_Sample
begin

text \<open>
  The correctness theorems of the journal: refinement of the transactional volume, atomicity
  and durability of a commit, recovery by mounting, isolation of an open transaction,
  progress on a healthy device and termination of the redo loop on any disk.
\<close>

section \<open>Refinement of the transactional volume\<close>

text \<open>
  C1. From a ready journal, every trace of calls and power cycles that a disciplined client can
  cause is a trace of the abstract transactional volume, and the abstract state it ends in
  describes the memory and the disk of the real one. Calls may fail at every disk access and
  the power may go at every disk access.
\<close>

theorem journal_refines_volume:
  assumes "block_device io content sec cap er" and "geom sec cap m" and "matches m io config"
    and "journal_ready E io content sec m h fs s"
    and "jrnl_run E config content sec (h, s) tr (h', s')"
    and "disciplined sec m Outside tr = Some ph"
  shows "\<exists>b. vol_run sec (Ready fs) tr b \<and> refines E io content sec m b (h', s') \<and> vol_phase b = ph"
  using block_device.simulates_run [OF assms(1-3) assms(5), of "Ready fs" ph] assms(4,6) by simp

theorem journal_refines_volume_witness:
  "\<exists>h s h' s'. sample_ready h sample_fs s \<and>
     jrnl_run sample_env sample_config cells 32 (h, s)
       [Started ESP_OK, Wrote sample_op ESP_OK, Stopped True ESP_OK] (h', s') \<and>
     (\<exists>b. vol_run 32 (Ready sample_fs) [Started ESP_OK, Wrote sample_op ESP_OK, Stopped True ESP_OK] b \<and>
          refines sample_env sample_io cells 32 sample_master b (h', s') \<and> vol_phase b = Outside)"
proof -
  obtain h s s1 s2 s3 where s: "sample_ready h sample_fs s"
    and r1: "esp_jrnl_start sample_env h s = (Ret ESP_OK, s1)"
    and r2: "esp_jrnl_write sample_env h (Some (\<lambda>_. 7)) 1 1 s1 = (Ret ESP_OK, s2)"
    and r3: "esp_jrnl_stop sample_env h True s2 = (Ret ESP_OK, s3)"
    by (rule sample_session)
  let ?run = "jrnl_run sample_env sample_config cells 32 (h, s)"
  have "?run ([] @ [Started ESP_OK]) (h, s1)"
    by (rule jrnl_run_snoc [OF jrnl_run_Nil call_start [OF r1]])
  then have "?run (([] @ [Started ESP_OK]) @ [Wrote sample_op ESP_OK]) (h, s2)"
    unfolding sample_op_buffer by (rule jrnl_run_snoc [OF _ call_write [OF r2]])
  then have "?run ((([] @ [Started ESP_OK]) @ [Wrote sample_op ESP_OK]) @ [Stopped True ESP_OK]) (h, s3)"
    by (rule jrnl_run_snoc [OF _ call_stop [OF r3]])
  then have run: "?run [Started ESP_OK, Wrote sample_op ESP_OK, Stopped True ESP_OK] (h, s3)" by simp
  have "disciplined 32 sample_master Outside
      [Started ESP_OK, Wrote sample_op ESP_OK, Stopped True ESP_OK] = Some Outside"
    using sample_op_ok by simp
  from journal_refines_volume [OF sample_device sample_geom sample_matches s run this] s run
  show ?thesis by blast
qed

section \<open>Atomicity, durability and recovery\<close>

text \<open>
  C2. On a device that writes and erases single sectors atomically, a commit is atomic and, once it has reported
  success, durable: whatever \<open>esp_jrnl_stop\<close> with commit reports, and whatever happened to the power, the next successful
  mount with a matching configuration (replay on, neither format nor overwrite) finds either
  the file system of before the transaction or the one with every write of the transaction
  applied; after a reported success it is the latter.
\<close>

theorem commit_atomic_durable:
  fixes s :: "'d jrnl_world"
  assumes "block_device io content sec cap er" and "geom sec cap m" and "matches m io config"
    and "journal_open E io content sec m h fs ps s"
    and "esp_jrnl_stop E h True s = (Ret err, s1)"
    and "content d = content (dev s1)"
    and "esp_jrnl_mount E (Some config) (Some h0) (boot d hp) = (Ret (ESP_OK, Some h'), s2)"
  shows "journal_ready E io content sec m h' (write_fs sec ps fs) s2 \<or>
         err \<noteq> ESP_OK \<and> journal_ready E io content sec m h' fs s2"
proof -
  obtain c where c: "vol_step sec (Active fs ps) (Stopped True err) c" "refines E io content sec m c (h, s1)"
    using block_device.simulates_stop [OF assms(1,2,4,5)] by blast
  obtain b where b: "vol_step sec c (Power_cycled ESP_OK) b" "refines E io content sec m b (h', s2)"
    using block_device.simulates_power [OF assms(1-3) c(2) assms(6,7)] by blast
  show ?thesis using vol_commit_power [OF c(1) b(1)] b(2) by auto
qed

theorem commit_atomic_durable_witness:
  "\<exists>h s s1 h' s2. sample_open h sample_fs [sample_op] s \<and>
     esp_jrnl_stop sample_env h True s = (Ret ESP_OK, s1) \<and>
     esp_jrnl_mount sample_env (Some sample_config) (Some 0) (boot (dev s1) []) = (Ret (ESP_OK, Some h'), s2) \<and>
     sample_ready h' (write_fs 32 [sample_op] sample_fs) s2"
proof -
  obtain h s s1 where op: "sample_open h sample_fs [sample_op] s"
    and r: "esp_jrnl_stop sample_env h True s = (Ret ESP_OK, s1)" and rd: "sample_ready h sample_fs' s1"
    and pw: "ops_left (dev s1) = None"
    by (rule sample_session)
  have rc: "recovers_to sample_env 32 sample_master (cells (dev (boot (dev s1) []))) sample_fs'"
    using rd by (simp add: journal_ready_def boot_table)
  have pw': "ops_left (dev (boot (dev s1) [])) = None" "heap (boot (dev s1) []) = []"
    using pw by (simp_all add: boot_def)
  obtain h' s2 where mt: "esp_jrnl_mount sample_env (Some sample_config) (Some 0) (boot (dev s1) []) =
      (Ret (ESP_OK, Some h'), s2)"
    by (rule byte_reliable_device.mount_serves [OF sample_reliable sample_geom sample_matches rc
          boot_table(3,1,2) pw']) (rule that)
  from commit_atomic_durable [OF sample_device sample_geom sample_matches op r refl mt] op r mt
  show ?thesis by blast
qed

text \<open>
  C4. Mounting recovers. From a disk that stands for a file system, with any configuration that
  matches it (replay on, neither format nor overwrite), a free slot and the lock of the table free, \<open>esp_jrnl_mount\<close> returns; it never blocks, aborts or diverges. After an error the
  disk still stands for the same file system, so that mounting can be tried again, and after
  a success the journal is ready and the sectors of the volume hold that file system.
\<close>

theorem mount_recovers:
  fixes s :: "('d, 'z) jrnl_world_scheme"
  assumes "block_device io content sec cap er" and "geom sec cap m" and "matches m io config"
    and "recovers_to E sec m (content (dev s)) fs"
    and "\<not> s_instances_lock s" and "length (s_jrnl_instance_ptrs s) = JRNL_MAX_HANDLES"
    and "None \<in> set (s_jrnl_instance_ptrs s)"
  shows "\<exists>err h s'. esp_jrnl_mount E (Some config) (Some h0) s = (Ret (err, Some h), s') \<and>
     recovers_to E sec m (content (dev s')) fs \<and> \<not> s_instances_lock s' \<and>
     (err = ESP_OK \<longrightarrow> journal_ready E io content sec m h fs s')"
  by (rule block_device.mount_refines [OF assms]) blast

theorem mount_recovers_witness:
  "\<exists>err h s'. esp_jrnl_mount sample_env (Some sample_config) (Some 0) (boot sample_flash []) =
       (Ret (err, Some h), s') \<and>
     recovers_to sample_env 32 sample_master (cells (dev s')) sample_fs \<and> \<not> s_instances_lock s' \<and>
     (err = ESP_OK \<longrightarrow> sample_ready h sample_fs s')"
proof -
  have "recovers_to sample_env 32 sample_master (cells (dev (boot sample_flash []))) sample_fs"
    using blank_recovers by (simp add: sample_powered)
  then show ?thesis
    by (rule mount_recovers [OF sample_device sample_geom sample_matches _ boot_table(3,1,2)])
qed

section \<open>Isolation\<close>

text \<open>
  C7. A write inside a transaction to sectors within the file system only touches the journaling store. Whatever it reports, the
  sectors of the file system hold what they held, the transaction stays open, and its log has
  the write appended, or is the old one after an error.
\<close>

theorem write_isolated:
  fixes s :: "('d, 'z) jrnl_world_scheme"
  assumes "block_device io content sec cap er" and "geom sec cap m"
    and "journal_open E io content sec m h fs ps s"
    and "op_ok sec m (target, buf_bytes buff (unat count * sec))"
  shows "\<exists>err s' ps'. esp_jrnl_write E h (Some buff) target count s = (Ret err, s') \<and>
     journal_open E io content sec m h fs ps' s' \<and>
     (ps' = ps @ [(target, buf_bytes buff (unat count * sec))] \<or> err \<noteq> ESP_OK \<and> ps' = ps)"
  by (rule block_device.write_refines [OF assms refl]) blast

theorem write_isolated_witness:
  "\<exists>h s err s' ps'. sample_open h sample_fs [] s \<and>
     esp_jrnl_write sample_env h (Some (\<lambda>_. 7)) 1 1 s = (Ret err, s') \<and>
     sample_open h sample_fs ps' s' \<and> (ps' = [sample_op] \<or> err \<noteq> ESP_OK \<and> ps' = [])"
proof -
  obtain h s where op: "sample_open h sample_fs [] s" by (rule sample_session)
  have "op_ok 32 sample_master (1, buf_bytes (\<lambda>_. 7) (unat (1 :: u32) * 32))"
    using sample_op_ok sample_op_buffer by simp
  from write_isolated [OF sample_device sample_geom op this] op show ?thesis
    unfolding sample_op_buffer append_Nil by blast
qed

text \<open>
  C11. Cancelling a transaction leaves the file system as it was before it and the journal ready
  for the next one, even when the update of the master record on disk fails.
\<close>

theorem cancel_restores:
  fixes s :: "('d, 'z) jrnl_world_scheme"
  assumes "block_device io content sec cap er" and "geom sec cap m"
    and "journal_open E io content sec m h fs ps s"
  shows "\<exists>err s'. esp_jrnl_stop E h False s = (Ret err, s') \<and> journal_ready E io content sec m h fs s'"
  by (rule block_device.cancel_refines [OF assms]) blast

theorem cancel_restores_witness:
  "\<exists>h s err s'. sample_open h sample_fs [sample_op] s \<and>
     esp_jrnl_stop sample_env h False s = (Ret err, s') \<and> sample_ready h sample_fs s'"
proof -
  obtain h s where op: "sample_open h sample_fs [sample_op] s" by (rule sample_session)
  from cancel_restores [OF sample_device sample_geom op] op show ?thesis by blast
qed

text \<open>
  C12. \<open>esp_jrnl_read\<close> bypasses the journal: inside a transaction as outside one it returns the
  sectors of the volume as they were before the transaction.
\<close>

theorem read_sees_committed:
  fixes s :: "('d, 'z) jrnl_world_scheme"
  assumes "block_device io content sec cap er" and "geom sec cap m"
    and "journal_open E io content sec m h fs ps s"
    and "unat target + unat count < fs_sectors m"
  shows "\<exists>err bs s'. esp_jrnl_read h target True count s = (Ret (err, bs), s') \<and>
     journal_open E io content sec m h fs ps s' \<and>
     (err = ESP_OK \<longrightarrow> bs = take (unat count * sec) (drop (unat target * sec) fs))"
proof -
  obtain inst where at: "attached io m h inst s" using assms(3) by (auto simp: journal_open_def)
  obtain err bs d where r: "esp_jrnl_read h target True count s = (Ret (err, bs), s\<lparr>dev := d\<rparr>)"
    and c: "content d = content (dev s)"
    and bs: "err = ESP_OK \<Longrightarrow> bs = take (unat count * sec)
           (drop (unat target * sec) (fs_bytes sec m (content (dev s))))"
    by (rule block_device.read_refines [OF assms(1,2) at assms(4)]) (rule that, assumption, assumption, blast)
  have "journal_open E io content sec m h fs ps (s\<lparr>dev := d\<rparr>)"
    using assms(3) c by (simp add: journal_open_def attached_def)
  then show ?thesis using r bs assms(3) by (auto simp: journal_open_def)
qed

theorem read_sees_committed_witness:
  "\<exists>h s err bs s'. sample_open h sample_fs [sample_op] s \<and>
     esp_jrnl_read h 1 True 1 s = (Ret (err, bs), s') \<and>
     sample_open h sample_fs [sample_op] s' \<and>
     (err = ESP_OK \<longrightarrow> bs = take (unat (1 :: u32) * 32) (drop (unat (1 :: u32) * 32) sample_fs))"
proof -
  obtain h s where op: "sample_open h sample_fs [sample_op] s" by (rule sample_session)
  have "unat (1 :: u32) + unat (1 :: u32) < fs_sectors sample_master" by (simp add: sample_master_def)
  from read_sees_committed [OF sample_device sample_geom op this] op show ?thesis by blast
qed

section \<open>Progress\<close>

text \<open>A whole transaction as a client issues it.\<close>

fun write_all ::
  "esp_env \<Rightarrow> esp_jrnl_handle_t \<Rightarrow> (cbuf \<times> u32 \<times> u32) list \<Rightarrow> (('d, 'z) jrnl_world_scheme, esp_err_t) prog" where
  "write_all E h [] = ret ESP_OK"
| "write_all E h ((buff, target, count) # ws) =
     bind (esp_jrnl_write E h (Some buff) target count) (\<lambda>err.
     if err \<noteq> ESP_OK then ret err else write_all E h ws)"

definition run_transaction ::
  "esp_env \<Rightarrow> esp_jrnl_handle_t \<Rightarrow> (cbuf \<times> u32 \<times> u32) list \<Rightarrow> (('d, 'z) jrnl_world_scheme, esp_err_t) prog" where
  "run_transaction E h ws =
     bind (esp_jrnl_start E h) (\<lambda>err.
     if err \<noteq> ESP_OK then ret err
     else bind (write_all E h ws) (\<lambda>err.
     if err \<noteq> ESP_OK then ret err else esp_jrnl_stop E h True))"

definition ops_of :: "nat \<Rightarrow> (cbuf \<times> u32 \<times> u32) list \<Rightarrow> jop list" where
  "ops_of sec ws = map (\<lambda>(buff, target, count). (target, buf_bytes buff (unat count * sec))) ws"

lemma ops_of_simps [simp]:
  "ops_of sec [] = []"
  "ops_of sec ((buff, target, count) # ws) = (target, buf_bytes buff (unat count * sec)) # ops_of sec ws"
  by (simp_all add: ops_of_def)

context reliable_device
begin

lemma write_all_serves:
  assumes g: "geom sector capacity m" and op: "journal_open E io content sector m h fs ps s"
    and ok: "list_all (op_ok sector m) (ops_of sector ws)"
    and room: "log_sectors sector ps + log_sectors sector (ops_of sector ws) + 1 < store_sectors m"
    and hl: "healthy (dev s)" and hp: "heap s = []"
  shows "\<exists>s'. write_all E h ws s = (Ret ESP_OK, s') \<and> healthy (dev s') \<and> heap s' = [] \<and>
     journal_open E io content sector m h fs (ps @ ops_of sector ws) s'"
  using op ok room hl hp
proof (induction ws arbitrary: ps s)
  case Nil
  then show ?case by (intro exI [of _ s]) (simp add: run_ret)
next
  case (Cons w ws)
  obtain buff target count where w: "w = (buff, target, count)" by (cases w)
  let ?p = "(target, buf_bytes buff (unat count * sector))"
  have okp: "op_ok sector m ?p" and okws: "list_all (op_ok sector m) (ops_of sector ws)"
    using Cons.prems(2) by (simp_all add: w)
  have k: "op_sectors sector ?p = unat count" using geom_sector_pos [OF g] by (auto simp: op_sectors_def)
  have room: "log_sectors sector ps + unat count + 2 < store_sectors m"
    using Cons.prems(3) by (simp add: w k)
  obtain s1 where r: "esp_jrnl_write E h (Some buff) target count s = (Ret ESP_OK, s1)"
    and h1: "healthy (dev s1)" "heap s1 = []" and o1: "journal_open E io content sector m h fs (ps @ [?p]) s1"
    by (rule write_serves_api [OF g Cons.prems(1) okp refl room Cons.prems(4,5)])
  have "log_sectors sector (ps @ [?p]) + log_sectors sector (ops_of sector ws) + 1 < store_sectors m"
    using Cons.prems(3) by (simp add: w)
  then obtain s' where "write_all E h ws s1 = (Ret ESP_OK, s')" "healthy (dev s')" "heap s' = []"
    "journal_open E io content sector m h fs ((ps @ [?p]) @ ops_of sector ws) s'"
    using Cons.IH [OF o1 okws _ h1] by blast
  then show ?case using r by (intro exI [of _ s']) (simp add: w run_bind_Ret)
qed

end

text \<open>
  C22. Progress: on a healthy device, with memory, a transaction whose operations lie within the
  file system and whose log leaves one sector of the store besides the master record free
  runs to success, and the volume then holds the file system with every write applied. Memory means that
  \<open>calloc\<close> returns a pointer, for a write of no sectors also when it is asked for no bytes.
\<close>

theorem transaction_succeeds:
  fixes s :: "('d, 'z) jrnl_world_scheme"
  assumes "reliable_device io content sec cap er healthy" and "geom sec cap m"
    and "journal_ready E io content sec m h fs s" and "healthy (dev s)" and "heap s = []"
    and "list_all (op_ok sec m) (ops_of sec ws)"
    and "log_sectors sec (ops_of sec ws) + 1 < store_sectors m"
  shows "\<exists>s'. run_transaction E h ws s = (Ret ESP_OK, s') \<and>
     journal_ready E io content sec m h (write_fs sec (ops_of sec ws) fs) s'"
proof -
  obtain s1 where s1: "esp_jrnl_start E h s = (Ret ESP_OK, s1)" "healthy (dev s1)" "heap s1 = heap s"
      "journal_open E io content sec m h fs [] s1"
    by (rule reliable_device.start_serves [OF assms(1-4)])
  have r: "log_sectors sec [] + log_sectors sec (ops_of sec ws) + 1 < store_sectors m" and h1: "heap s1 = []"
    using assms(5,7) s1(3) by simp_all
  obtain s2 where s2: "write_all E h ws s1 = (Ret ESP_OK, s2)" "healthy (dev s2)" "heap s2 = []"
      "journal_open E io content sec m h fs ([] @ ops_of sec ws) s2"
    using reliable_device.write_all_serves [OF assms(1,2) s1(4) assms(6) r s1(2) h1] by blast
  obtain s3 where s3: "esp_jrnl_stop E h True s2 = (Ret ESP_OK, s3)"
      "journal_ready E io content sec m h (write_fs sec ([] @ ops_of sec ws) fs) s3"
    by (rule reliable_device.commit_serves [OF assms(1,2) s2(4,2,3)])
  show ?thesis
    using s1(1) s2(1) s3 by (intro exI [of _ s3]) (simp add: run_transaction_def run_bind_Ret)
qed

theorem transaction_succeeds_witness:
  "\<exists>h s s'. sample_ready h sample_fs s \<and>
     run_transaction sample_env h [(\<lambda>_. 7, 1, 1), (\<lambda>_. 9, 2, 2)] s = (Ret ESP_OK, s') \<and>
     sample_ready h (write_fs 32 (ops_of 32 [(\<lambda>_. 7, 1, 1), (\<lambda>_. 9, 2, 2)]) sample_fs) s'"
proof -
  obtain h s where s: "ops_left (dev s) = None" "heap s = []" "sample_ready h sample_fs s"
    by (rule sample_mount) (rule that)
  have ok: "list_all (op_ok 32 sample_master) (ops_of 32 [(\<lambda>_. 7, 1, 1), (\<lambda>_. 9, 2, 2)])"
    by (simp add: op_ok_def op_sectors_def sample_master_def)
  have room: "log_sectors 32 (ops_of 32 [(\<lambda>_. 7, 1, 1), (\<lambda>_. 9, 2, 2)]) + 1 < store_sectors sample_master"
    by (simp add: op_sectors_def sample_master_def)
  from transaction_succeeds [OF byte_reliable_device.axioms(1) [OF sample_reliable] sample_geom s(3,1,2) ok room] s(3)
  show ?thesis by blast
qed

section \<open>Termination of the redo loop\<close>

text \<open>
  One turn of the loop returns, except that it reads beyond its buffer when a sector does not hold the header of
  an operation. A turn that sends the loop on has allocated the data and found it inside the store, so
  the index it sends the loop to is larger: the sum does not wrap.
\<close>

definition header_fits :: "esp_jrnl_master_t \<Rightarrow> bool" where
  "header_fits m \<longleftrightarrow> sizeof_operation \<le> unat (disk_sector_size (volume m))"

lemma header_fits_status [simp]:
  "header_fits (m\<lparr>status := st\<rparr>) = header_fits m" "header_fits (m\<lparr>next_free_sector := n\<rparr>) = header_fits m"
  by (simp_all add: header_fits_def)

lemma replay_operation_returns: "header_fits (master inst) \<Longrightarrow> returns (replay_operation E inst i)"
  unfolding replay_operation_def fetch_operation_def Let_def header_fits_def
  by (intro returns_intros) (auto intro: returns_intros)

lemma replay_operation_small:
  assumes "\<not> header_fits (master inst)"
  shows "(\<exists>err s'. replay_operation E inst i s = (Ret (Inl err), s')) \<or> (\<exists>s'. replay_operation E inst i s = (Undefined, s'))"
proof -
  obtain r s1 where r: "jrnl_read_internal (Some inst) True i 1 s = (Ret r, s1)"
    using returns_internal(1) by (rule returnsE)
  then show ?thesis using assms
    by (cases r) (auto simp: replay_operation_def fetch_operation_def Let_def header_fits_def bind_def prog_simps)
qed

lemma replay_operation_advances:
  assumes "replay_operation E inst i s = (Ret (Inr j), s')" and "store_sectors (master inst) \<le> 2 ^ 31"
  shows "header_fits (master inst) \<and> unat i < unat j"
proof
  let ?ss = "disk_sector_size (volume (master inst))"
  show fits: "header_fits (master inst)" using assms(1) replay_operation_small [of inst E i s] by (cases "header_fits (master inst)") auto
  have "\<exists>hdr s1. jrnl_read_internal (Some inst) True i 1 s = (Ret (ESP_OK, hdr), s1) \<and>
      unat (sector_count (oper_header (operation_of_bytes hdr))) * unat ?ss < 2 ^ 32 \<and>
      j = i + (1 + sector_count (oper_header (operation_of_bytes hdr)))"
    using assms(1) unfolding replay_operation_def fetch_operation_def Let_def
    by (elim bind_RetE) (auto split: if_splits simp: run_ret prog_simps elim!: bind_RetE, drule calloc_True, simp)
  then obtain hdr cnt s1 where r: "jrnl_read_internal (Some inst) True i 1 s = (Ret (ESP_OK, hdr), s1)"
    and cnt: "unat cnt * unat ?ss < 2 ^ 32" and j: "j = i + (1 + cnt)"
    by blast
  have i: "unat i < store_sectors (master inst)"
    using r by (auto simp: jrnl_read_internal_def run_ret word_le_nat_alt split: if_splits)
  have "unat cnt * 2 \<le> unat cnt * unat ?ss" using fits by (intro mult_le_mono2) (simp add: header_fits_def sizeof_operation_def)
  with cnt have "unat cnt * 2 < 2 ^ 32" by linarith
  then have "unat i + (1 + unat cnt) < 2 ^ 32" using i assms(2) by simp
  then have "unat j = unat i + (1 + unat cnt)" unfolding j by (simp add: unat_word_ariths)
  then show "unat i < unat j" by simp
qed

text \<open>The loop that ends: it has a result, and that is a value unless a sector does not hold a header.\<close>

definition ends_well :: "esp_jrnl_master_t \<Rightarrow> 'a outcome \<Rightarrow> bool" where
  "ends_well m oc \<longleftrightarrow> (\<exists>x. oc = Ret x) \<or> oc = Undefined \<and> \<not> header_fits m"

lemma replay_operation_ends:
  obtains (stop) err s' where "replay_operation E inst i s = (Ret (Inl err), s')"
  | (next_one) j s' where "replay_operation E inst i s = (Ret (Inr j), s')" "header_fits (master inst)"
  | (small) s' where "replay_operation E inst i s = (Undefined, s')" "\<not> header_fits (master inst)"
proof (cases "header_fits (master inst)")
  case True
  obtain r s' where "replay_operation E inst i s = (Ret r, s')"
    using replay_operation_returns [OF True] by (rule returnsE)
  then show ?thesis using that True by (cases r) auto
next
  case False
  then show ?thesis using replay_operation_small [OF False] that by blast
qed

lemma replay_loop_ends:
  assumes "store_sectors (master inst) \<le> 2 ^ 31"
  shows "\<exists>oc s'. replay_loop E inst i s = Some (oc, s') \<and> ends_well (master inst) oc"
proof (induction "2 ^ 32 - unat i" arbitrary: i s rule: less_induct)
  case less
  show ?case
  proof (cases E inst i s rule: replay_operation_ends)
    case (next_one j s1)
    have "unat i < unat j" using replay_operation_advances [OF next_one(1) assms] by blast
    then have "2 ^ 32 - unat j < 2 ^ 32 - unat i" using unat_lt_2_32 [of j] by linarith
    from less [OF this] show ?thesis using next_one by (auto simp: replay_loop.simps [of E inst i s] ends_well_def)
  qed (simp_all add: replay_loop.simps [of E inst i s] ends_well_def)
qed

lemma replay_operations_end:
  assumes "store_sectors (master inst) \<le> 2 ^ 31"
  shows "\<exists>oc s'. replay_operations E inst s = (oc, s') \<and> ends_well (master inst) oc"
  using replay_loop_ends [OF assms, of E 0 s] by (auto simp: replay_operations_def)

lemma replay_committed:
  assumes "\<not> trans_lock inst" and "status (master inst) = ESP_JRNL_STATUS_TRANS_COMMIT"
  shows "jrnl_replay E (Some inst) = bind (calloc 1 (disk_sector_size (volume (master inst)))) (\<lambda>allocated.
      if \<not> allocated then ret (ESP_ERR_NO_MEM, Some (inst\<lparr>trans_lock := True\<rparr>))
      else bind (replay_operations E (inst\<lparr>trans_lock := True\<rparr>)) (\<lambda>err.
        bind (if err \<noteq> ESP_OK then ret (err, Some (inst\<lparr>trans_lock := True\<rparr>))
              else jrnl_reset_master E (Some (inst\<lparr>trans_lock := True\<rparr>)) False) (\<lambda>(err, p).
        ret (err, release_trans_lock p))))"
  using assms by (simp add: jrnl_replay_def Let_def fun_eq_iff prog_simps)

lemma replay_not_committed:
  assumes "\<not> trans_lock inst" and "status (master inst) \<noteq> ESP_JRNL_STATUS_FS_INIT"
    and "status (master inst) \<noteq> ESP_JRNL_STATUS_TRANS_COMMIT"
  shows "jrnl_replay E (Some inst) = bind (case status (master inst) of
                ESP_JRNL_STATUS_TRANS_READY \<Rightarrow> ret (ESP_OK, Some (inst\<lparr>trans_lock := True\<rparr>))
              | ESP_JRNL_STATUS_TRANS_OPEN \<Rightarrow> jrnl_reset_master E (Some (inst\<lparr>trans_lock := True\<rparr>)) False
              | _ \<Rightarrow> ret (ESP_ERR_INVALID_STATE, Some (inst\<lparr>trans_lock := True\<rparr>))) (\<lambda>(err, p). ret (err, release_trans_lock p))"
  using assms by (simp add: jrnl_replay_def Let_def fun_eq_iff prog_simps)

lemma replay_ends:
  assumes "store_sectors (master inst) \<le> 2 ^ 31"
    and "\<not> trans_lock inst" and "status (master inst) \<noteq> ESP_JRNL_STATUS_FS_INIT"
  shows "\<exists>oc s'. jrnl_replay E (Some inst) s = (oc, s') \<and> ends_well (master inst) oc"
proof (cases "status (master inst) = ESP_JRNL_STATUS_TRANS_COMMIT")
  case True
  let ?i = "inst\<lparr>trans_lock := True\<rparr>"
  obtain a t where a: "calloc 1 (disk_sector_size (volume (master inst))) s = (Ret a, t)"
    using returns_calloc by (rule returnsE)
  obtain oc u where oc: "replay_operations E ?i t = (oc, u)" "ends_well (master inst) oc"
    using replay_operations_end [of ?i E t] assms(1) by auto
  have rest: "returns (bind (if err \<noteq> ESP_OK then ret (err, Some ?i) else jrnl_reset_master E (Some ?i) False)
      (\<lambda>(err, p). ret (err, release_trans_lock p)))" for err
    by (intro returns_intros)
  show ?thesis
  proof (cases oc)
    case (Ret err)
    obtain r v where "bind (if err \<noteq> ESP_OK then ret (err, Some ?i) else jrnl_reset_master E (Some ?i) False)
      (\<lambda>(err, p). ret (err, release_trans_lock p)) u = (Ret r, v)" using rest by (rule returnsE)
    then show ?thesis
      using a oc Ret by (cases a) (simp_all add: replay_committed [OF assms(2) True] run_bind_Ret prog_simps ends_well_def)
  qed (use a oc in \<open>auto simp: replay_committed [OF assms(2) True] run_bind_Ret run_bind_halt prog_simps ends_well_def\<close>)
next
  case False
  have "returns (jrnl_replay E (Some inst))"
    unfolding replay_not_committed [OF assms(2,3) False]
    by (cases "status (master inst)") (simp_all add: returns_intros split: prod.splits)
  then show ?thesis by (rule returnsE [of _ s]) (auto simp: ends_well_def)
qed



end
