(* ===== verification/Jrnl_Frame.thy ===== *)
theory Jrnl_Frame
  imports Jrnl_Core
begin

text \<open>
  What the functions of the journal leave alone, whatever they return. A view of the machine that the
  device and the allocator do not enter is kept by every function below the table of
  instances (\<open>machine_view\<close>). Of two views this is used: what a record extending
  \<open>jrnl_world\<close> adds, which the whole interface keeps, and the table of instances with its lock.
\<close>

definition keeps_view :: "('s \<Rightarrow> 'v) \<Rightarrow> ('s, 'a) prog \<Rightarrow> bool" where
  "keeps_view g p \<longleftrightarrow> (\<forall>s. g (snd (p s)) = g s)"

named_theorems frame_intros \<open>programs that keep a view of the machine\<close>

lemma keeps_viewD: "keeps_view g p \<Longrightarrow> p s = (r, s') \<Longrightarrow> g s' = g s"
  by (metis keeps_view_def snd_conv)

lemma frame_simple [frame_intros]:
  "keeps_view g (ret x)" "keeps_view g (gets f)" "keeps_view g undefined_behaviour" "keeps_view g (assert_that b)"
  "keeps_view g (lock_acquire b)"
  by (simp_all add: keeps_view_def prog_simps lock_acquire_def)

lemma frame_bind [frame_intros]:
  assumes "keeps_view g p" and "\<And>x. keeps_view g (f x)"
  shows "keeps_view g (bind p f)"
  unfolding keeps_view_def
proof
  fix s
  obtain r s1 where p: "p s = (r, s1)" by fastforce
  have m: "g s1 = g s" using assms(1) p by (rule keeps_viewD)
  have "g (snd (f x s1)) = g s1" for x using assms(2) by (simp add: keeps_view_def)
  then show "g (snd (bind p f s)) = g s"
    using p m by (cases r) (simp_all add: bind_def)
qed

lemma frame_cases [frame_intros]:
  "(b \<Longrightarrow> keeps_view g p) \<Longrightarrow> (\<not> b \<Longrightarrow> keeps_view g q) \<Longrightarrow> keeps_view g (if b then p else q)"
  "(\<And>x y. keeps_view g (f x y)) \<Longrightarrow> keeps_view g (case z of (x, y) \<Rightarrow> f x y)"
  "keeps_view g p \<Longrightarrow> (\<And>x. keeps_view g (k x)) \<Longrightarrow> keeps_view g (case opt of None \<Rightarrow> p | Some x \<Rightarrow> k x)"
  "(\<And>x. keeps_view g (l x)) \<Longrightarrow> (\<And>y. keeps_view g (r y)) \<Longrightarrow>
   keeps_view g (case u of Inl x \<Rightarrow> l x | Inr y \<Rightarrow> r y)"
  by (auto split: prod.splits option.splits sum.splits)

section \<open>Below the table of instances\<close>

locale machine_view =
  fixes g :: "('d, 'z) mach_scheme \<Rightarrow> 'v"
  assumes view_dev: "g (s\<lparr>dev := d\<rparr>) = g s" and view_heap: "g (s\<lparr>heap := hp\<rparr>) = g s"
begin

lemma frame_calloc [frame_intros]: "keeps_view g (calloc n sz)"
  using view_heap by (auto simp: keeps_view_def calloc_def split: list.splits)

lemma frame_raw [frame_intros]:
  "keeps_view g (jrnl_read_raw inst a n)" "keeps_view g (jrnl_write_raw inst a b n)"
  "keeps_view g (jrnl_erase_range_raw inst a n)"
  using view_dev
  by (auto simp: keeps_view_def jrnl_read_raw_def jrnl_write_raw_def jrnl_erase_range_raw_def split: prod.splits)

lemma frame_internal [frame_intros]:
  "keeps_view g (jrnl_write_internal p b k n)" "keeps_view g (jrnl_read_internal p ob k n)"
  unfolding jrnl_write_internal_def jrnl_read_internal_def Let_def
  by (intro frame_intros)+

lemma frame_master [frame_intros]:
  "keeps_view g (jrnl_update_master E jrnl m)" "keeps_view g (jrnl_reset_master E p b)"
  unfolding jrnl_update_master_def jrnl_reset_master_def Let_def
  by (intro frame_intros)+

lemma frame_fetch_operation [frame_intros]: "keeps_view g (fetch_operation E inst i)"
  unfolding fetch_operation_def Let_def by (intro frame_intros)

lemma frame_replay_operation [frame_intros]: "keeps_view g (replay_operation E inst i)"
  unfolding replay_operation_def Let_def by (intro frame_intros)

lemma replay_loop_view:
  assumes "replay_loop E inst i s = Some (r, s')"
  shows "g s' = g s"
proof -
  have "case x of (r, s') \<Rightarrow> g s' = g s" if "replay_loop E inst i s = Some x" for E i x inst s
  proof (rule replay_loop.raw_induct [OF _ that])
    fix E i x and inst :: "'d esp_jrnl_instance_t" and s
      and rec :: "esp_env \<Rightarrow> 'd esp_jrnl_instance_t \<Rightarrow> u32 \<Rightarrow> ('d, 'z) mach_scheme \<Rightarrow>
        (esp_err_t outcome \<times> ('d, 'z) mach_scheme) option"
    assume IH: "\<And>E inst i s x. rec E inst i s = Some x \<Longrightarrow> case x of (r, s') \<Rightarrow> g s' = g s"
      and step: "(if \<not> i < next_free_sector (master inst) then Some (Ret ESP_OK, s)
        else case replay_operation E inst i s of
             (Ret (Inl err), s') \<Rightarrow> Some (Ret err, s')
           | (Ret (Inr i'), s') \<Rightarrow> rec E inst i' s'
           | (Blocked, s') \<Rightarrow> Some (Blocked, s')
           | (Aborted, s') \<Rightarrow> Some (Aborted, s')
           | (Undefined, s') \<Rightarrow> Some (Undefined, s')
           | (Diverged, s') \<Rightarrow> Some (Diverged, s')) = Some x"
    obtain r s1 where r: "replay_operation E inst i s = (r, s1)" by fastforce
    have m: "g s1 = g s" using frame_replay_operation r by (rule keeps_viewD)
    show "case x of (r, s') \<Rightarrow> g s' = g s"
      using step m r IH by (auto split: if_splits outcome.splits sum.splits prod.splits)
  qed
  with assms show ?thesis by fastforce
qed

lemma frame_replay_operations [frame_intros]: "keeps_view g (replay_operations E inst)"
  by (auto simp: keeps_view_def replay_operations_def split: option.splits prod.splits dest: replay_loop_view)

lemma frame_replay [frame_intros]: "keeps_view g (jrnl_replay E p)"
  unfolding jrnl_replay_def Let_def
  by (intro frame_intros; (split esp_jrnl_trans_status_t.split)?; intro frame_intros impI conjI allI)

lemma frame_mount_instance [frame_intros]: "keeps_view g (mount_instance E config)"
  unfolding mount_instance_def resume_journal_def create_journal_def Let_def
  by (intro frame_intros)

lemma frame_journal_write [frame_intros]: "keeps_view g (journal_write E inst buff sec count)"
  unfolding journal_write_def Let_def by (intro frame_intros)

end

section \<open>The layers above\<close>

abbreviation keeps_more :: "(('d, 'z) jrnl_world_scheme, 'a) prog \<Rightarrow> bool" where
  "keeps_more \<equiv> keeps_view jrnl_world.more"

lemmas keeps_moreD = keeps_viewD [of jrnl_world.more]

interpretation above: machine_view jrnl_world.more
  by unfold_locales simp_all

lemma frame_table [frame_intros]:
  "keeps_more (modify (\<lambda>s. s\<lparr>s_instances_lock := b\<rparr>))" "keeps_more (put_instance h p)"
  by (simp_all add: keeps_view_def prog_simps put_instance_def)

lemma frame_instances [frame_intros]:
  "(\<And>inst. keeps_view g (f inst)) \<Longrightarrow> keeps_view g (with_instance h f)" "keeps_view g (jrnl_check_handle h)"
  "keeps_view g (jrnl_delete_instance p)"
  unfolding with_instance_def jrnl_check_handle_def jrnl_delete_instance_def by (intro frame_intros; assumption)+

lemma frame_interface [frame_intros]:
  "keeps_more (esp_jrnl_mount E config h)" "keeps_more (esp_jrnl_unmount k)"
  "keeps_more (esp_jrnl_start E k)" "keeps_more (esp_jrnl_stop E k b)"
  "keeps_more (esp_jrnl_set_direct_io E k b)" "keeps_more (esp_jrnl_write E k buff sec count)"
  "keeps_more (esp_jrnl_read k sec dest count)" "keeps_more (esp_jrnl_get_diskio_handle k b)"
  "keeps_more (esp_jrnl_get_sector_count k b)" "keeps_more (esp_jrnl_get_sector_size k b)"
  unfolding esp_jrnl_mount_def esp_jrnl_unmount_def esp_jrnl_start_def esp_jrnl_stop_def
    esp_jrnl_set_direct_io_def esp_jrnl_write_def esp_jrnl_read_def esp_jrnl_get_diskio_handle_def
    esp_jrnl_get_sector_count_def esp_jrnl_get_sector_size_def Let_def
  by (intro frame_intros)+

section \<open>The table of instances\<close>

definition instance_table :: "('d, 'z) jrnl_world_scheme \<Rightarrow> bool \<times> 'd esp_jrnl_instance_t option list" where
  "instance_table s = (s_instances_lock s, s_jrnl_instance_ptrs s)"

interpretation table: machine_view instance_table
  by unfold_locales (simp_all add: instance_table_def)

end
