(* ===== verification/Jrnl_Handles.thy ===== *)
theory Jrnl_Handles
  imports Jrnl_Sample Jrnl_Frame
begin

text \<open>
  The life of a handle, on any device and for any client: a mount gives out a handle that is not in use,
  every function but the unmount leaves the handles in use alone, and the unmount removes exactly its
  own. Proved by rule induction over the calls of a client, in any order and with any arguments.
\<close>

section \<open>Handles in use\<close>

definition live :: "('d, 'z) jrnl_world_scheme \<Rightarrow> esp_jrnl_handle_t set" where
  "live s = {h. 0 \<le> h \<and> nat h < length (s_jrnl_instance_ptrs s) \<and> s_jrnl_instance_ptrs s ! nat h \<noteq> None}"

text \<open>What the functions on a handle keep: the lock of the table and which slots are taken.\<close>

definition occupied :: "('d, 'z) jrnl_world_scheme \<Rightarrow> bool \<times> bool list" where
  "occupied s = (s_instances_lock s, map Option.is_none (s_jrnl_instance_ptrs s))"

lemma occupied_live:
  assumes "occupied s' = occupied s"
  shows "live s' = live s" "length (s_jrnl_instance_ptrs s') = length (s_jrnl_instance_ptrs s)"
    "s_instances_lock s' = s_instances_lock s"
proof -
  have m: "map Option.is_none (s_jrnl_instance_ptrs s') = map Option.is_none (s_jrnl_instance_ptrs s)"
    using assms by (simp add: occupied_def)
  then show len: "length (s_jrnl_instance_ptrs s') = length (s_jrnl_instance_ptrs s)" by (metis length_map)
  have n: "Option.is_none (s_jrnl_instance_ptrs s' ! i) = Option.is_none (s_jrnl_instance_ptrs s ! i)"
    if "i < length (s_jrnl_instance_ptrs s)" for i
    using m len that by (metis nth_map)
  have "(s_jrnl_instance_ptrs s' ! i \<noteq> None) = (s_jrnl_instance_ptrs s ! i \<noteq> None)"
    if "i < length (s_jrnl_instance_ptrs s)" for i using n [OF that] unfolding Option.is_none_def by simp
  then show "live s' = live s" unfolding live_def len by blast
  show "s_instances_lock s' = s_instances_lock s" using assms by (simp add: occupied_def)
qed

text \<open>Programs that keep it as long as the slot of \<open>h\<close> is taken.\<close>

definition keeps_slots :: "esp_jrnl_handle_t \<Rightarrow> (('d, 'z) jrnl_world_scheme, 'a) prog \<Rightarrow> bool" where
  "keeps_slots h p \<longleftrightarrow> (\<forall>s x s'. h \<in> live s \<longrightarrow> p s = (Ret x, s') \<longrightarrow> occupied s' = occupied s)"

named_theorems slot_intros \<open>programs that keep the slots of the table\<close>

lemma slots_view: "keeps_view instance_table p \<Longrightarrow> keeps_slots h p"
  by (auto simp: keeps_slots_def occupied_def instance_table_def dest!: keeps_viewD)

lemmas slots_below [slot_intros] =
  slots_view [OF table.frame_raw(1)] slots_view [OF table.frame_raw(2)] slots_view [OF table.frame_raw(3)]
  slots_view [OF table.frame_master(1)] slots_view [OF table.frame_master(2)]
  slots_view [OF table.frame_replay] slots_view [OF table.frame_journal_write]
  slots_view [OF frame_simple(1)] slots_view [OF frame_simple(2)] slots_view [OF frame_simple(3)]
  slots_view [OF frame_simple(4)] slots_view [OF frame_simple(5)]

lemma slots_put [slot_intros]:
  fixes inst :: "'d esp_jrnl_instance_t"
  shows "keeps_slots h (put_instance h (Some inst))"
proof -
  have "map Option.is_none (xs[i := Some inst]) = map Option.is_none xs" if "i < length xs" "xs ! i \<noteq> None"
    for xs :: "'d esp_jrnl_instance_t option list" and i
  proof -
    have e: "map Option.is_none xs ! i = Option.is_none (Some inst)" using that by (simp add: Option.is_none_def)
    show ?thesis using list_update_id [of "map Option.is_none xs" i] unfolding map_update e .
  qed
  then show ?thesis by (auto simp: keeps_slots_def put_instance_def prog_simps occupied_def live_def)
qed

lemma slots_bind [slot_intros]:
  assumes "keeps_slots h p" and "\<And>x s s'. p s = (Ret x, s') \<Longrightarrow> keeps_slots h (f x)"
  shows "keeps_slots h (bind p f)"
  unfolding keeps_slots_def
proof (intro allI impI)
  fix s y s' assume h: "h \<in> live s" and "bind p f s = (Ret y, s')"
  then obtain x s1 where p: "p s = (Ret x, s1)" and f: "f x s1 = (Ret y, s')" by (elim bind_RetE)
  have o: "occupied s1 = occupied s" using assms(1) h p by (auto simp: keeps_slots_def)
  then have "h \<in> live s1" using occupied_live(1) h by blast
  then show "occupied s' = occupied s" using assms(2) [OF p] f o by (auto simp: keeps_slots_def)
qed

lemma slots_cases [slot_intros]:
  "(b \<Longrightarrow> keeps_slots h p) \<Longrightarrow> (\<not> b \<Longrightarrow> keeps_slots h q) \<Longrightarrow> keeps_slots h (if b then p else q)"
  "(\<And>x y. z = (x, y) \<Longrightarrow> keeps_slots h (f x y)) \<Longrightarrow> keeps_slots h (case z of (x, y) \<Rightarrow> f x y)"
  "(\<And>inst. keeps_slots h (k inst)) \<Longrightarrow> keeps_slots h (with_instance h k)"
  by (auto simp: keeps_slots_def with_instance_def prog_simps split: prod.splits option.splits)

text \<open>The instance goes in and comes out of the functions below.\<close>

lemma reset_master_Some: "jrnl_reset_master E (Some inst) b s = (Ret (err, p), s') \<Longrightarrow> \<exists>inst'. p = Some inst'"
  by (auto simp: jrnl_reset_master_def Let_def elim!: bind_RetE simp: prog_simps)

lemma replay_Some: "jrnl_replay E (Some inst) s = (Ret (err, p), s') \<Longrightarrow> \<exists>inst'. p = Some inst'"
  by (auto simp: jrnl_replay_def Let_def prog_simps release_trans_lock_def elim!: bind_RetE
      split: if_splits esp_jrnl_trans_status_t.splits dest!: reset_master_Some)

section \<open>The functions on a handle\<close>

datatype handle_call =
    Start esp_jrnl_handle_t
  | Stop esp_jrnl_handle_t bool
  | Set_direct_io esp_jrnl_handle_t bool
  | Write esp_jrnl_handle_t "cbuf option" u32 u32
  | Read esp_jrnl_handle_t u32 bool u32
  | Get_diskio_handle esp_jrnl_handle_t bool
  | Get_sector_count esp_jrnl_handle_t bool
  | Get_sector_size esp_jrnl_handle_t bool

fun run_call :: "esp_env \<Rightarrow> handle_call \<Rightarrow> (('d, 'z) jrnl_world_scheme, esp_err_t) prog" where
  "run_call E (Start h) = esp_jrnl_start E h"
| "run_call E (Stop h commit) = esp_jrnl_stop E h commit"
| "run_call E (Set_direct_io h direct) = esp_jrnl_set_direct_io E h direct"
| "run_call E (Write h buff sec count) = esp_jrnl_write E h buff sec count"
| "run_call E (Read h sec dest count) = bind (esp_jrnl_read h sec dest count) (\<lambda>(err, _). ret err)"
| "run_call E (Get_diskio_handle h out) = bind (esp_jrnl_get_diskio_handle h out) (\<lambda>(err, _). ret err)"
| "run_call E (Get_sector_count h out) = bind (esp_jrnl_get_sector_count h out) (\<lambda>(err, _). ret err)"
| "run_call E (Get_sector_size h out) = bind (esp_jrnl_get_sector_size h out) (\<lambda>(err, _). ret err)"

text \<open>A function that checks the handle first keeps the slots.\<close>

definition keeps_table :: "(('d, 'z) jrnl_world_scheme, 'a) prog \<Rightarrow> bool" where
  "keeps_table p \<longleftrightarrow> (\<forall>s x s'. length (s_jrnl_instance_ptrs s) = JRNL_MAX_HANDLES \<longrightarrow> p s = (Ret x, s') \<longrightarrow>
     occupied s' = occupied s)"

lemma checked_table:
  assumes "\<And>inst. keeps_slots h (k inst)"
  shows "keeps_table (bind (jrnl_check_handle h) (\<lambda>err. if err \<noteq> ESP_OK then ret (e err) else with_instance h k))"
    (is "keeps_table ?p")
  unfolding keeps_table_def
proof (intro allI impI)
  fix s r s' assume s: "length (s_jrnl_instance_ptrs s) = JRNL_MAX_HANDLES" "?p s = (Ret r, s')"
  have p: "keeps_slots h ?p" using assms by (intro slot_intros slots_view [OF frame_instances(2)])
  show "occupied s' = occupied s"
  proof (cases "h \<in> live s")
    case True
    then show ?thesis using p s(2) by (auto simp: keeps_slots_def)
  next
    case False
    then show ?thesis
      using s by (auto simp: check_handle_cases bind_def prog_simps live_def JRNL_MAX_HANDLES_def split: if_splits)
  qed
qed

lemma table_cases:
  "keeps_table (ret x)" "(b \<Longrightarrow> keeps_table p) \<Longrightarrow> (\<not> b \<Longrightarrow> keeps_table q) \<Longrightarrow> keeps_table (if b then p else q)"
  "keeps_table p \<Longrightarrow> keeps_table (bind p (\<lambda>(err, _). ret err))"
  by (auto simp: keeps_table_def run_ret elim!: bind_RetE)

lemma release_Some: "release_trans_lock (Some inst) = Some (inst\<lparr>trans_lock := False\<rparr>)"
  by (simp add: release_trans_lock_def)

lemma start_table: "keeps_table (esp_jrnl_start E h)"
  unfolding esp_jrnl_start_def Let_def release_Some by (rule checked_table) (intro slot_intros)

lemma set_direct_table: "keeps_table (esp_jrnl_set_direct_io E h direct)"
  unfolding esp_jrnl_set_direct_io_def Let_def release_Some by (rule checked_table) (intro slot_intros)

lemma write_table: "keeps_table (esp_jrnl_write E h buff sec count)"
proof (cases buff)
  case None
  then show ?thesis by (simp add: esp_jrnl_write_def table_cases)
next
  case (Some b)
  show ?thesis unfolding esp_jrnl_write_def Some option.case Let_def release_Some by (rule checked_table) (intro slot_intros)
qed

lemma stop_table: "keeps_table (esp_jrnl_stop E h commit)"
  unfolding esp_jrnl_stop_def Let_def release_Some
proof (rule checked_table, intro slot_intros)
  fix inst inst' locked and err p and s s' :: "('d, 'z) jrnl_world_scheme"
  show "keeps_slots h (put_instance h (release_trans_lock p))"
    if "jrnl_reset_master E (Some inst') False s = (Ret x, s')" and "x = (err, p)" for x
    using that reset_master_Some [of E inst' False s err p s'] by (auto simp: release_Some intro: slot_intros)
  show "keeps_slots h (put_instance h p)"
    if "jrnl_replay E (Some inst') s = (Ret x, s')" and "x = (err, p)" for x
    using that replay_Some [of E inst' s err p s'] by (auto intro: slot_intros)
qed

lemma getter_table:
  "keeps_table (esp_jrnl_read h sec dest count)" "keeps_table (esp_jrnl_get_diskio_handle h out)"
  "keeps_table (esp_jrnl_get_sector_count h out)" "keeps_table (esp_jrnl_get_sector_size h out)"
  unfolding esp_jrnl_read_def esp_jrnl_get_diskio_handle_def esp_jrnl_get_sector_count_def esp_jrnl_get_sector_size_def Let_def
  by (intro table_cases checked_table slot_intros)+

lemma run_call_table: "keeps_table (run_call E call)"
  by (cases call) (simp_all add: start_table stop_table set_direct_table write_table getter_table table_cases)

section \<open>Mounting and unmounting\<close>

text \<open>A mount that returns leaves the lock free, and on success an instance in a slot that was free.\<close>

lemma resume_Some: "resume_journal E config inst s = (Ret (err, p), s') \<Longrightarrow> \<exists>inst'. p = Some inst'"
  by (auto simp: resume_journal_def Let_def prog_simps elim!: bind_RetE split: if_splits dest!: replay_Some)

lemma mount_instance_Some:
  "mount_instance E config s = (Ret (ESP_OK, p), s') \<Longrightarrow> \<exists>inst. p = Some inst"
  by (auto simp: mount_instance_def create_journal_def Let_def prog_simps elim!: bind_RetE
      split: if_splits option.splits prod.splits dest!: reset_master_Some resume_Some)

lemma live_put:
  assumes "0 \<le> h" and "nat h < length (s_jrnl_instance_ptrs s)" and "s_jrnl_instance_ptrs s ! nat h = None"
    and "s_jrnl_instance_ptrs s' = (s_jrnl_instance_ptrs s)[nat h := Some inst]"
  shows "h \<notin> live s" "live s' = insert h (live s)"
proof -
  show "h \<notin> live s" using assms(3) by (simp add: live_def)
  have "i = h" if "nat i = nat h" "0 \<le> i" for i using that assms(1) by linarith
  then show "live s' = insert h (live s)" using assms by (auto simp: live_def nth_list_update split: if_splits)
qed

lemma mount_live:
  assumes "esp_jrnl_mount E config k s = (Ret (err, k'), s')"
  shows "length (s_jrnl_instance_ptrs s') = length (s_jrnl_instance_ptrs s) \<and>
    (if err = ESP_OK then \<exists>h. k' = Some h \<and> h \<notin> live s \<and> live s' = insert h (live s) else k' = k \<and> live s' = live s)"
proof (cases "config = None \<or> k = None \<or> cfg_store_size_sectors (user_cfg (the config)) < JRNL_MIN_STORE_SIZE")
  case True
  then show ?thesis using assms by (auto simp: esp_jrnl_mount_def prog_simps split: option.splits if_splits)
next
  case False
  then obtain c where c: "config = Some c" and k: "k \<noteq> None" "\<not> cfg_store_size_sectors (user_cfg c) < JRNL_MIN_STORE_SIZE" by auto
  have lk: "\<not> s_instances_lock s" using assms c k by (auto simp: esp_jrnl_mount_def prog_simps split: if_splits)
  let ?l = "s\<lparr>s_instances_lock := True\<rparr>" and ?h = "find_free_handle (s_jrnl_instance_ptrs s)"
  show ?thesis
  proof (cases "?h = JRNL_INVALID_HANDLE")
    case True
    then show ?thesis using assms c k lk by (auto simp: esp_jrnl_mount_def prog_simps bind_assoc jrnl_delete_instance_def live_def)
  next
    case free: False
    obtain e p s1 where m: "mount_instance E c ?l = (Ret (e, p), s1)"
      using assms c k lk free by (auto simp: esp_jrnl_mount_def prog_simps elim!: bind_RetE)
    have t: "s_jrnl_instance_ptrs s1 = s_jrnl_instance_ptrs s"
      using keeps_viewD [OF table.frame_mount_instance m] by (simp add: instance_table_def)
    note h = find_free_handle_Some [OF refl free]
    have run: "err = e" "s' = (if e = ESP_OK then s1\<lparr>s_jrnl_instance_ptrs := (s_jrnl_instance_ptrs s1)[nat ?h := p]\<rparr> else s1)
        \<lparr>s_instances_lock := False\<rparr>" "k' = (if e = ESP_OK then Some ?h else k)"
      using assms c k lk free m
      by (auto simp: esp_jrnl_mount_def prog_simps bind_assoc run_bind_Ret put_instance_def jrnl_delete_instance_def split: if_splits)
    show ?thesis
    proof (cases "e = ESP_OK")
      case True
      then obtain inst where p: "p = Some inst" using mount_instance_Some m by blast
      have q: "s_jrnl_instance_ptrs s' = (s_jrnl_instance_ptrs s)[nat ?h := Some inst]" using run(2) True p t by simp
      then show ?thesis using live_put [OF h(1-3) q] run(1,3) True by simp
    next
      case False
      then show ?thesis using run t by (simp add: live_def)
    qed
  qed
qed

lemma unmount_live:
  assumes "length (s_jrnl_instance_ptrs s) = JRNL_MAX_HANDLES" and "esp_jrnl_unmount h s = (Ret err, s')"
  shows "length (s_jrnl_instance_ptrs s') = length (s_jrnl_instance_ptrs s)"
    and "if err = ESP_OK then h \<in> live s \<and> live s' = live s - {h} else live s' = live s"
proof -
  have lk: "\<not> s_instances_lock s" using assms(2) by (auto simp: esp_jrnl_unmount_def prog_simps)
  have "length (s_jrnl_instance_ptrs s') = length (s_jrnl_instance_ptrs s) \<and>
      (if err = ESP_OK then h \<in> live s \<and> live s' = live s - {h} else live s' = live s)"
    using assms lk
    by (auto simp: unmount_run check_handle_cases bind_def prog_simps put_instance_def jrnl_delete_instance_def live_def
        JRNL_MAX_HANDLES_def nth_list_update split: if_splits)
  then show "length (s_jrnl_instance_ptrs s') = length (s_jrnl_instance_ptrs s)"
    "if err = ESP_OK then h \<in> live s \<and> live s' = live s - {h} else live s' = live s" by simp_all
qed

section \<open>Runs of a client\<close>

datatype handle_event = Mounted esp_jrnl_handle_t | Unmounted esp_jrnl_handle_t | Called

text \<open>One call that returns. Only a successful mount and a successful unmount are events of the table.\<close>

inductive handle_step ::
  "esp_env \<Rightarrow> ('d, 'z) jrnl_world_scheme \<Rightarrow> handle_event \<Rightarrow> ('d, 'z) jrnl_world_scheme \<Rightarrow> bool" for E where
  mount_ok: "esp_jrnl_mount E config k s = (Ret (ESP_OK, Some h), s') \<Longrightarrow> handle_step E s (Mounted h) s'"
| mount_failed: "esp_jrnl_mount E config k s = (Ret (err, k'), s') \<Longrightarrow> err \<noteq> ESP_OK \<Longrightarrow> handle_step E s Called s'"
| unmount_ok: "esp_jrnl_unmount h s = (Ret ESP_OK, s') \<Longrightarrow> handle_step E s (Unmounted h) s'"
| unmount_failed: "esp_jrnl_unmount h s = (Ret err, s') \<Longrightarrow> err \<noteq> ESP_OK \<Longrightarrow> handle_step E s Called s'"
| call: "run_call E c s = (Ret r, s') \<Longrightarrow> handle_step E s Called s'"

inductive handle_run ::
  "esp_env \<Rightarrow> ('d, 'z) jrnl_world_scheme \<Rightarrow> handle_event list \<Rightarrow> ('d, 'z) jrnl_world_scheme \<Rightarrow> bool" for E where
  start: "handle_run E s [] s"
| step: "handle_run E s es s1 \<Longrightarrow> handle_step E s1 e s2 \<Longrightarrow> handle_run E s (es @ [e]) s2"

text \<open>The reference: a set of handles, and which events may happen to it.\<close>

fun handles_after :: "esp_jrnl_handle_t set \<Rightarrow> handle_event \<Rightarrow> esp_jrnl_handle_t set" where
  "handles_after L (Mounted h) = insert h L"
| "handles_after L (Unmounted h) = L - {h}"
| "handles_after L Called = L"

fun handles_allow :: "esp_jrnl_handle_t set \<Rightarrow> handle_event \<Rightarrow> bool" where
  "handles_allow L (Mounted h) \<longleftrightarrow> h \<notin> L"
| "handles_allow L (Unmounted h) \<longleftrightarrow> h \<in> L"
| "handles_allow L Called \<longleftrightarrow> True"

lemma handle_step_live:
  assumes "handle_step E s e s'" and "length (s_jrnl_instance_ptrs s) = JRNL_MAX_HANDLES"
  shows "length (s_jrnl_instance_ptrs s') = JRNL_MAX_HANDLES \<and> handles_allow (live s) e \<and> live s' = handles_after (live s) e"
  using assms
proof cases
  case (mount_ok config k h)
  from mount_live [OF mount_ok(2)] show ?thesis using mount_ok(1) assms(2) by simp
next
  case (mount_failed config k err k')
  from mount_live [OF mount_failed(2)] show ?thesis using mount_failed(1,3) assms(2) by simp
next
  case (unmount_ok h)
  from unmount_live [OF assms(2) unmount_ok(2)] show ?thesis using unmount_ok(1) assms(2) by simp
next
  case (unmount_failed h err)
  from unmount_live [OF assms(2) unmount_failed(2)] show ?thesis using unmount_failed(1,3) assms(2) by simp
next
  case (call c r)
  have "occupied s' = occupied s" using run_call_table [of E c] assms(2) call(2) unfolding keeps_table_def by blast
  then show ?thesis using occupied_live [of s' s] call(1) assms(2) by simp
qed

text \<open>
  C13. The handles in use are exactly those that were mounted and not unmounted since, for every sequence of
  calls of a client, disciplined or not, with any arguments and on any device: the table
  refines a set of handles. A mount never gives out a handle that is in use, an unmount
  succeeds only on one that is, and no other function changes which handles are.
\<close>

theorem handles_refine_set:
  assumes "handle_run E s es s'" and "length (s_jrnl_instance_ptrs s) = JRNL_MAX_HANDLES"
  shows "length (s_jrnl_instance_ptrs s') = JRNL_MAX_HANDLES \<and> live s' = foldl handles_after (live s) es \<and>
     (\<forall>es1 e es2. es = es1 @ e # es2 \<longrightarrow> handles_allow (foldl handles_after (live s) es1) e)"
  using assms
proof induction
  case (start s)
  then show ?case by simp
next
  case (step s es s1 e s2)
  have IH: "length (s_jrnl_instance_ptrs s1) = JRNL_MAX_HANDLES" "live s1 = foldl handles_after (live s) es"
    "\<And>es1 e es2. es = es1 @ e # es2 \<Longrightarrow> handles_allow (foldl handles_after (live s) es1) e"
    using step(3) [OF step(4)] by blast+
  note new = handle_step_live [OF step(2) IH(1), unfolded IH(2)]
  have "handles_allow (foldl handles_after (live s) es1) x" if "es @ [e] = es1 @ x # es2" for es1 x es2
    using that new IH(3) by (cases es2 rule: rev_cases) auto
  then show ?case using new by simp
qed

theorem handles_refine_set_witness:
  "\<exists>s'. handle_run sample_env (sample_world sample_instance) [Called, Unmounted 0] s' \<and> live s' = {}"
proof -
  let ?s = "sample_world sample_instance"
  have "run_call sample_env (Get_sector_size 5 True) ?s = (Ret ESP_ERR_NOT_FOUND, ?s)"
    by (simp add: esp_jrnl_get_sector_size_def check_handle_cases bind_def prog_simps)
  from handle_run.step [OF handle_run.start handle_step.call [OF this]] have "handle_run sample_env ?s [Called] ?s" by simp
  moreover obtain s' where u: "esp_jrnl_unmount 0 ?s = (Ret ESP_OK, s')" using unmount_mounted [OF sample_mounted] by auto
  ultimately have r: "handle_run sample_env ?s [Called, Unmounted 0] s'"
    using handle_run.step [OF _ handle_step.unmount_ok [OF u]] by fastforce
  have "h = 0" if "h \<in> live ?s" for h using that by (cases "nat h") (auto simp: live_def)
  then have "live ?s = {0}" by (auto simp: live_def)
  moreover have "length (s_jrnl_instance_ptrs ?s) = JRNL_MAX_HANDLES" by (simp add: JRNL_MAX_HANDLES_def)
  ultimately show ?thesis using handles_refine_set [OF r] r by auto
qed

end
