(* ===== verification/Jrnl_Typing.thy ===== *)
theory Jrnl_Typing
  imports Jrnl_Correct Jrnl_Handles
begin

text \<open>
  Well-formed instances: what the fields of a journal instance satisfy whatever the client calls and
  whatever the disk answers. Every call keeps it, and a call on a handle of a well-formed table goes on:
  no assertion of the code fails, and what else can happen is listed.
\<close>

section \<open>Well-formed instances\<close>

text \<open>
  The marker, a sector size and a store of at least the minimum, a store at the end of the volume, a free
  sector before the master record, and an empty log in every status that has no transaction.
\<close>

definition typed_master :: "esp_jrnl_master_t \<Rightarrow> bool" where
  "typed_master m \<longleftrightarrow> jrnl_magic_mark m = JRNL_STORE_MARKER \<and> disk_sector_size (volume m) \<noteq> 0 \<and>
     JRNL_MIN_STORE_SIZE \<le> store_size_sectors m \<and>
     store_volume_offset_sector m = volume_size (volume m) div disk_sector_size (volume m) - store_size_sectors m \<and>
     next_free_sector m < store_size_sectors m - 1 \<and>
     (case status m of
        ESP_JRNL_STATUS_FS_INIT \<Rightarrow> next_free_sector m = 0
      | ESP_JRNL_STATUS_TRANS_READY \<Rightarrow> next_free_sector m = 0
      | ESP_JRNL_STATUS_TRANS_OPEN \<Rightarrow> True
      | ESP_JRNL_STATUS_TRANS_COMMIT \<Rightarrow> True
      | ESP_JRNL_STATUS_OTHER n \<Rightarrow> False)"

definition typed_world :: "('d, 'z) jrnl_world_scheme \<Rightarrow> bool" where
  "typed_world s \<longleftrightarrow> length (s_jrnl_instance_ptrs s) = JRNL_MAX_HANDLES \<and>
     (\<forall>inst. Some inst \<in> set (s_jrnl_instance_ptrs s) \<longrightarrow> typed_master (master inst))"

text \<open>A store the redo loop ends on: at most \<open>2 ^ 31\<close> sectors.\<close>

definition bounded_store :: "esp_jrnl_master_t \<Rightarrow> bool" where
  "bounded_store m \<longleftrightarrow> store_sectors m \<le> 2 ^ 31"

lemma min_store_room:
  assumes "JRNL_MIN_STORE_SIZE \<le> (n :: u32)"
  shows "0 < n - 1"
proof -
  have "n \<noteq> 1" using assms by (auto simp: JRNL_MIN_STORE_SIZE_def word_le_nat_alt)
  then show ?thesis by (simp add: word_gt_0)
qed

lemma typed_reset [simp]: "typed_master m \<Longrightarrow> typed_master (reset_fields fs_direct m)"
  by (simp add: typed_master_def reset_fields_def min_store_room)

lemma typed_status:
  "typed_master m \<Longrightarrow> typed_master (m\<lparr>status := ESP_JRNL_STATUS_TRANS_OPEN\<rparr>)"
  "typed_master m \<Longrightarrow> typed_master (m\<lparr>status := ESP_JRNL_STATUS_TRANS_COMMIT\<rparr>)"
  "typed_master m \<Longrightarrow> next_free_sector m = 0 \<Longrightarrow>
   typed_master (m\<lparr>status := (if b then ESP_JRNL_STATUS_FS_DIRECT else ESP_JRNL_STATUS_TRANS_READY)\<rparr>)"
  by (auto simp: typed_master_def)

lemma typed_append:
  assumes "typed_master m" and "status m = ESP_JRNL_STATUS_TRANS_OPEN"
    and "next_free_sector m + 1 + count < store_size_sectors m - 1"
  shows "typed_master (m\<lparr>next_free_sector := next_free_sector m + (1 + count)\<rparr>)"
  using assms by (simp add: typed_master_def add.assoc)

text \<open>What the functions below the table return is typed when they were given a typed instance.\<close>

lemma reset_typed:
  "jrnl_reset_master E (Some inst) b s = (Ret (err, p), s') \<Longrightarrow> typed_master (master inst) \<Longrightarrow>
   \<exists>inst'. p = Some inst' \<and> typed_master (master inst')"
  by (auto simp: jrnl_reset_master_def Let_def prog_simps elim!: bind_RetE)

lemma replay_typed:
  "jrnl_replay E (Some inst) s = (Ret (err, p), s') \<Longrightarrow> typed_master (master inst) \<Longrightarrow>
   \<exists>inst'. p = Some inst' \<and> typed_master (master inst')"
  by (auto simp: jrnl_replay_def Let_def prog_simps release_trans_lock_def elim!: bind_RetE
      split: if_splits esp_jrnl_trans_status_t.splits dest!: reset_typed)

lemma journal_write_typed:
  assumes "journal_write E inst buff sec count s = (Ret (err, inst'), s')" and "typed_master (master inst)"
    and "status (master inst) = ESP_JRNL_STATUS_TRANS_OPEN"
    and "next_free_sector (master inst) + 1 + count < store_size_sectors (master inst) - 1"
  shows "typed_master (master inst')"
  using assms(1) typed_append [OF assms(2-4)] assms(2)
  by (auto simp: journal_write_def Let_def prog_simps elim!: bind_RetE split: if_splits)

lemma create_typed:
  assumes "create_journal E config fresh inst s = (Ret (err, p), s')"
    and "JRNL_MIN_STORE_SIZE \<le> cfg_store_size_sectors (user_cfg config)"
  shows "\<exists>inst'. p = Some inst' \<and> typed_master (master inst')"
  using assms min_store_room [OF assms(2)]
  by (auto simp: create_journal_def jrnl_reset_master_def Let_def prog_simps typed_master_def reset_fields_def
      elim!: bind_RetE split: if_splits)

lemma mount_instance_typed:
  "mount_instance E config s = (Ret (ESP_OK, p), s') \<Longrightarrow> JRNL_MIN_STORE_SIZE \<le> cfg_store_size_sectors (user_cfg config) \<Longrightarrow>
   \<exists>inst. p = Some inst \<and> typed_master (master inst)"
  by (fastforce simp: mount_instance_def Let_def prog_simps elim!: bind_RetE
      split: if_splits option.splits prod.splits dest: create_typed resume_Some)

section \<open>Calls that go on\<close>

text \<open>
  From a typed table the program returns to one; it waits only under \<open>b\<close>, loops only
  under \<open>c\<close>, is undefined only under \<open>u\<close>, and never aborts.
\<close>

definition goes_on :: "bool \<Rightarrow> bool \<Rightarrow> bool \<Rightarrow> (('d, 'z) jrnl_world_scheme, 'a) prog \<Rightarrow> bool" where
  "goes_on b c u p \<longleftrightarrow> (\<forall>s. typed_world s \<longrightarrow>
     (case p s of (Ret x, s') \<Rightarrow> typed_world s' | (Blocked, s') \<Rightarrow> b | (Diverged, s') \<Rightarrow> c | (Undefined, s') \<Rightarrow> u | _ \<Rightarrow> False))"

named_theorems goes_on_intros \<open>programs that go on from a typed table\<close>

lemma goes_on_ret [goes_on_intros]: "goes_on b c u (ret x)"
  by (simp add: goes_on_def prog_simps)

lemma goes_on_cases [goes_on_intros]:
  "(d \<Longrightarrow> goes_on b c u p) \<Longrightarrow> (\<not> d \<Longrightarrow> goes_on b c u q) \<Longrightarrow> goes_on b c u (if d then p else q)"
  "(\<And>x y. z = (x, y) \<Longrightarrow> goes_on b c u (f x y)) \<Longrightarrow> goes_on b c u (case z of (x, y) \<Rightarrow> f x y)"
  by (auto split: prod.splits)

lemma goes_on_below:
  fixes p :: "(('d, 'z) jrnl_world_scheme, 'a) prog"
  assumes "returns p" and "keeps_view instance_table p" and "\<And>x s s'. p s = (Ret x, s') \<Longrightarrow> goes_on b c u (f x)"
  shows "goes_on b c u (bind p f)"
  unfolding goes_on_def
proof (intro allI impI)
  fix s :: "('d, 'z) jrnl_world_scheme" assume s: "typed_world s"
  obtain x s1 where p: "p s = (Ret x, s1)" using assms(1) by (rule returnsE)
  have "typed_world s1" using s keeps_viewD [OF assms(2) p] by (simp add: typed_world_def instance_table_def)
  then show "case bind p f s of (Ret x, s') \<Rightarrow> typed_world s' | (Blocked, s') \<Rightarrow> b | (Diverged, s') \<Rightarrow> c | (Undefined, s') \<Rightarrow> u | _ \<Rightarrow> False"
    using assms(3) [OF p] p by (simp add: run_bind_Ret goes_on_def)
qed

lemmas goes_on_store [goes_on_intros] =
  goes_on_below [OF returns_raw(1) table.frame_raw(1)] goes_on_below [OF returns_raw(2) table.frame_raw(2)]
  goes_on_below [OF returns_raw(3) table.frame_raw(3)] goes_on_below [OF returns_master(1) table.frame_master(1)]
  goes_on_below [OF returns_master(2) table.frame_master(2)]

lemma goes_on_raw [goes_on_intros]:
  "goes_on b c u (jrnl_read_raw inst a n)" "goes_on b c u (jrnl_write_raw inst a src n)"
  by (auto simp: goes_on_def typed_world_def jrnl_read_raw_def jrnl_write_raw_def split: prod.splits)

lemma goes_on_lock [goes_on_intros]:
  "(h \<Longrightarrow> b) \<Longrightarrow> (\<not> h \<Longrightarrow> goes_on b c u (f True)) \<Longrightarrow> goes_on b c u (bind (lock_acquire h) f)"
  by (simp add: goes_on_def prog_simps)

lemma goes_on_assert [goes_on_intros]: "d \<Longrightarrow> goes_on b c u (f ()) \<Longrightarrow> goes_on b c u (bind (assert_that d) f)"
  by (simp add: goes_on_def prog_simps)

lemma goes_on_put [goes_on_intros]:
  fixes f :: "unit \<Rightarrow> (('d, 'z) jrnl_world_scheme, 'a) prog"
  assumes "typed_master (master inst)" and "goes_on b c u (f ())"
  shows "goes_on b c u (bind (put_instance h (Some inst)) f)"
proof -
  have "typed_world (s\<lparr>s_jrnl_instance_ptrs := (s_jrnl_instance_ptrs s)[nat h := Some inst]\<rparr>)" if "typed_world s"
    for s :: "('d, 'z) jrnl_world_scheme"
    using that assms(1) by (auto simp: typed_world_def dest!: subsetD [OF set_update_subset_insert])
  then show ?thesis using assms(2) by (simp add: goes_on_def put_instance_def prog_simps)
qed

lemma replay_loop_returns:
  assumes "replay_loop E inst i s = Some r"
  shows "ends_well (master inst) (fst r)"
proof (rule replay_loop.raw_induct [where P = "\<lambda>E inst i s r. ends_well (master inst) (fst r)", OF _ assms], goal_cases)
  case (1 rec E inst i s r)
  show ?case
  proof (cases E inst i s rule: replay_operation_ends)
    case (next_one j s1)
    then show ?thesis using 1(2) 1(1) [of E inst j s1 r] by (auto simp: ends_well_def split: if_splits)
  qed (use 1(2) in \<open>auto simp: ends_well_def split: if_splits\<close>)
qed

lemma replay_outcome:
  assumes "\<not> trans_lock inst" and "status (master inst) = ESP_JRNL_STATUS_TRANS_COMMIT"
  shows "\<exists>oc s'. jrnl_replay E (Some inst) s = (oc, s') \<and>
    (ends_well (master inst) oc \<or> oc = Diverged \<and> \<not> bounded_store (master inst))"
proof (cases "bounded_store (master inst)")
  case True
  then show ?thesis using replay_ends [of inst E s] assms by (auto simp: bounded_store_def)
next
  case False
  let ?i = "inst\<lparr>trans_lock := True\<rparr>"
  have ops: "(\<exists>oc s'. replay_operations E ?i t = (oc, s') \<and> ends_well (master inst) oc) \<or> replay_operations E ?i t = (Diverged, t)" for t
    using replay_loop_returns [of E ?i 0 t] by (cases "replay_loop E ?i 0 t") (auto simp: replay_operations_def)
  obtain a t where a: "calloc 1 (disk_sector_size (volume (master inst))) s = (Ret a, t)"
    using returns_calloc by (rule returnsE)
  have rest: "returns (bind (if err \<noteq> ESP_OK then ret (err, Some ?i) else jrnl_reset_master E (Some ?i) False)
      (\<lambda>(err, p). ret (err, release_trans_lock p)))" for err
    by (intro returns_intros)
  consider (no_memory) "\<not> a" | (looped) "a" "replay_operations E ?i t = (Diverged, t)"
    | (ended) err t' where "a" "replay_operations E ?i t = (Ret err, t')"
    | (small) t' where "a" "replay_operations E ?i t = (Undefined, t')" "\<not> header_fits (master inst)"
    using ops [of t] by (auto simp: ends_well_def)
  then show ?thesis
  proof cases
    case ended
    obtain r u where "bind (if err \<noteq> ESP_OK then ret (err, Some ?i) else jrnl_reset_master E (Some ?i) False)
        (\<lambda>(err, p). ret (err, release_trans_lock p)) t' = (Ret r, u)" using rest by (rule returnsE)
    then show ?thesis using a ended by (simp add: replay_committed [OF assms] run_bind_Ret ends_well_def)
  qed (use a False in \<open>simp_all add: replay_committed [OF assms] run_bind_Ret run_bind_halt prog_simps ends_well_def\<close>)
qed

lemma goes_on_replay [goes_on_intros]:
  fixes inst :: "'d esp_jrnl_instance_t"
  assumes "typed_master (master inst)" and "\<not> trans_lock inst" and "status (master inst) = ESP_JRNL_STATUS_TRANS_COMMIT"
    and "\<not> bounded_store (master inst) \<Longrightarrow> c" and "\<not> header_fits (master inst) \<Longrightarrow> u"
  shows "goes_on b c u (bind (jrnl_replay E (Some inst)) (\<lambda>(err, p). bind (put_instance h p) (\<lambda>_. ret err))
    :: (('d, 'z) jrnl_world_scheme, esp_err_t) prog)" (is "goes_on b c u ?p")
  unfolding goes_on_def
proof (intro allI impI)
  fix s :: "('d, 'z) jrnl_world_scheme" assume s: "typed_world s"
  consider (ret) err p s1 where "jrnl_replay E (Some inst) s = (Ret (err, p), s1)"
    | (loop) s1 where "jrnl_replay E (Some inst) s = (Diverged, s1)" "\<not> bounded_store (master inst)"
    | (small) s1 where "jrnl_replay E (Some inst) s = (Undefined, s1)" "\<not> header_fits (master inst)"
    using replay_outcome [OF assms(2,3), of E s] by (auto simp: ends_well_def)
  then show "case ?p s of (Ret x, s') \<Rightarrow> typed_world s' | (Blocked, s') \<Rightarrow> b | (Diverged, s') \<Rightarrow> c | (Undefined, s') \<Rightarrow> u | _ \<Rightarrow> False"
  proof cases
    case ret
    obtain inst' where p: "p = Some inst'" and "typed_master (master inst')" using replay_typed [OF ret assms(1)] by blast
    then have "goes_on b c u (bind (put_instance h p) (\<lambda>_. ret err) :: (('d, 'z) jrnl_world_scheme, esp_err_t) prog)"
      by (auto intro: goes_on_intros)
    moreover have "typed_world s1" using s keeps_viewD [OF table.frame_replay ret] by (simp add: typed_world_def instance_table_def)
    ultimately show ?thesis using ret by (simp add: run_bind_Ret goes_on_def)
  next
    case loop
    then show ?thesis using assms(4) by (simp add: run_bind_halt)
  next
    case small
    then show ?thesis using assms(5) by (simp add: run_bind_halt)
  qed
qed

lemma goes_on_reset [goes_on_intros]:
  assumes "typed_master (master inst)"
  shows "goes_on b c u (bind (jrnl_reset_master E (Some inst) d) (\<lambda>(err, p). bind (put_instance h (release_trans_lock p)) (\<lambda>_. ret err)))"
  by (rule goes_on_store) (use assms in \<open>auto dest!: reset_typed simp: release_Some intro!: goes_on_put goes_on_ret\<close>)

lemma returns_journal_write: "header_fits (master inst) \<Longrightarrow> returns (journal_write E inst buff sec count)"
  unfolding journal_write_def Let_def header_fits_def by (intro returns_intros) (auto intro: returns_intros)

lemma goes_on_journal_write:
  fixes f :: "esp_err_t \<times> 'd esp_jrnl_instance_t \<Rightarrow> (('d, 'z) jrnl_world_scheme, 'a) prog"
  assumes "\<not> header_fits (master inst) \<Longrightarrow> u"
    and "\<And>x s s'. journal_write E inst buff sec count (s :: ('d, 'z) jrnl_world_scheme) = (Ret x, s') \<Longrightarrow> goes_on b c u (f x)"
  shows "goes_on b c u (bind (journal_write E inst buff sec count) f)"
proof (cases "header_fits (master inst)")
  case True
  show ?thesis
    by (rule goes_on_below [OF returns_journal_write [OF True] table.frame_journal_write assms(2)])
next
  case False
  show ?thesis
    unfolding goes_on_def
  proof (intro allI impI)
    fix s :: "('d, 'z) jrnl_world_scheme" assume s: "typed_world s"
    obtain a t where a: "calloc 1 (disk_sector_size (volume (master inst))) s = (Ret a, t)"
      using returns_calloc by (rule returnsE)
    have t: "typed_world t" using s keeps_viewD [OF table.frame_calloc a] by (simp add: typed_world_def instance_table_def)
    consider (ret) x where "journal_write E inst buff sec count s = (Ret x, t)"
      | (small) "journal_write E inst buff sec count s = (Undefined, t)"
      using a False by (cases a) (auto simp: journal_write_def Let_def run_bind_Ret run_bind_halt prog_simps header_fits_def)
    then show "case bind (journal_write E inst buff sec count) f s of (Ret x, s') \<Rightarrow> typed_world s'
        | (Blocked, s') \<Rightarrow> b | (Diverged, s') \<Rightarrow> c | (Undefined, s') \<Rightarrow> u | _ \<Rightarrow> False"
    proof cases
      case ret
      then show ?thesis using assms(2) [OF ret] t by (simp add: run_bind_Ret goes_on_def)
    next
      case small
      then show ?thesis using assms(1) False by (simp add: run_bind_halt)
    qed
  qed
qed

text \<open>The instance of a handle in a typed table.\<close>

definition instance_of :: "('d, 'z) jrnl_world_scheme \<Rightarrow> esp_jrnl_handle_t \<Rightarrow> 'd esp_jrnl_instance_t option" where
  "instance_of s h = (if 0 \<le> h \<and> h < int JRNL_MAX_HANDLES then s_jrnl_instance_ptrs s ! nat h else None)"

definition goes_on_at :: "esp_jrnl_handle_t \<Rightarrow> (('d, 'z) jrnl_world_scheme, 'a) prog \<Rightarrow> bool" where
  "goes_on_at h p \<longleftrightarrow> (\<forall>s. typed_world s \<longrightarrow>
     (case p s of
        (Ret x, s') \<Rightarrow> typed_world s'
      | (Blocked, s') \<Rightarrow> \<exists>inst. instance_of s h = Some inst \<and> trans_lock inst
      | (Diverged, s') \<Rightarrow> \<exists>inst. instance_of s h = Some inst \<and> \<not> bounded_store (master inst)
      | (Undefined, s') \<Rightarrow> h < JRNL_INVALID_HANDLE \<or> (\<exists>inst. instance_of s h = Some inst \<and> \<not> header_fits (master inst))
      | (Aborted, s') \<Rightarrow> False))"

lemma goes_on_checked:
  fixes k :: "'d esp_jrnl_instance_t \<Rightarrow> (('d, 'z) jrnl_world_scheme, 'a) prog"
  assumes "\<And>inst. typed_master (master inst) \<Longrightarrow> goes_on (trans_lock inst) (\<not> bounded_store (master inst)) (\<not> header_fits (master inst)) (k inst)"
  shows "goes_on_at h (bind (jrnl_check_handle h) (\<lambda>err. if err \<noteq> ESP_OK then ret (e err) else with_instance h k))"
    (is "goes_on_at h ?p")
  unfolding goes_on_at_def
proof (intro allI impI)
  fix s :: "('d, 'z) jrnl_world_scheme" assume s: "typed_world s"
  show "case ?p s of (Ret x, s') \<Rightarrow> typed_world s' | (Blocked, s') \<Rightarrow> \<exists>inst. instance_of s h = Some inst \<and> trans_lock inst
     | (Diverged, s') \<Rightarrow> \<exists>inst. instance_of s h = Some inst \<and> \<not> bounded_store (master inst)
     | (Undefined, s') \<Rightarrow> h < JRNL_INVALID_HANDLE \<or> (\<exists>inst. instance_of s h = Some inst \<and> \<not> header_fits (master inst))
     | (Aborted, s') \<Rightarrow> False"
  proof (cases "instance_of s h")
    case None
    then show ?thesis
      using s by (auto simp: instance_of_def check_handle_cases bind_def prog_simps JRNL_INVALID_HANDLE_def
          JRNL_MAX_HANDLES_def split: if_splits)
  next
    case (Some inst)
    then have i: "0 \<le> h" "h < int JRNL_MAX_HANDLES" "s_jrnl_instance_ptrs s ! nat h = Some inst"
      by (auto simp: instance_of_def split: if_splits)
    then have "Some inst \<in> set (s_jrnl_instance_ptrs s)"
      using s by (metis nat_less_iff nth_mem typed_world_def)
    then have "typed_master (master inst)" using s by (simp add: typed_world_def)
    moreover have "?p s = k inst s"
      using i by (simp add: jrnl_check_handle_def with_instance_def prog_simps bind_assoc JRNL_INVALID_HANDLE_def Option.is_none_def)
    ultimately show ?thesis
      using assms [of inst] s Some unfolding goes_on_def by (fastforce split: prod.splits outcome.splits)
  qed
qed

section \<open>The functions on a handle\<close>

lemma typed_locked [simp]:
  "master (inst\<lparr>trans_lock := b\<rparr>) = master inst" "master (inst\<lparr>master := m\<rparr>) = m"
  by simp_all

lemma goes_on_at_guard: "goes_on_at h p \<Longrightarrow> goes_on_at h (if d then ret x else p)"
  by (simp add: goes_on_at_def prog_simps)

lemma goes_on_at_result: "goes_on_at h p \<Longrightarrow> goes_on_at h (bind p (\<lambda>(err, x). ret err))"
  unfolding goes_on_at_def bind_def by (fastforce simp: prog_simps split: prod.splits outcome.splits)

lemma start_goes_on: "goes_on_at h (esp_jrnl_start E h)"
  unfolding esp_jrnl_start_def Let_def release_Some
  by (rule goes_on_checked, intro goes_on_intros) (simp_all add: typed_status, simp add: typed_master_def)

lemma set_direct_goes_on: "goes_on_at h (esp_jrnl_set_direct_io E h direct)"
  unfolding esp_jrnl_set_direct_io_def Let_def release_Some
  by (rule goes_on_checked, intro goes_on_intros) (auto intro!: typed_status simp: typed_master_def)

lemma write_goes_on: "goes_on_at h (esp_jrnl_write E h buff sec count)"
proof (cases buff)
  case None
  then show ?thesis by (simp add: esp_jrnl_write_def goes_on_at_def prog_simps)
next
  case (Some b)
  show ?thesis
    unfolding esp_jrnl_write_def Some option.case Let_def release_Some
    by (rule goes_on_checked, intro goes_on_intros goes_on_journal_write)
      (auto dest: journal_write_typed)
qed

lemma stop_goes_on: "goes_on_at h (esp_jrnl_stop E h commit)"
  unfolding esp_jrnl_stop_def Let_def release_Some
  by (rule goes_on_checked, intro goes_on_intros) (simp_all add: typed_status bounded_store_def)

lemma getter_goes_on:
  "goes_on_at h (esp_jrnl_read h sec dest count)" "goes_on_at h (esp_jrnl_get_diskio_handle h out)"
  "goes_on_at h (esp_jrnl_get_sector_count h out)" "goes_on_at h (esp_jrnl_get_sector_size h out)"
proof -
  note checked = goes_on_at_guard [OF goes_on_checked]
  show "goes_on_at h (esp_jrnl_read h sec dest count)"
    unfolding esp_jrnl_read_def Let_def by (rule checked, intro goes_on_intros)
  show "goes_on_at h (esp_jrnl_get_diskio_handle h out)"
    unfolding esp_jrnl_get_diskio_handle_def by (rule checked, intro goes_on_intros)
  show "goes_on_at h (esp_jrnl_get_sector_count h out)"
    unfolding esp_jrnl_get_sector_count_def by (rule checked) (simp add: typed_master_def goes_on_intros)
  show "goes_on_at h (esp_jrnl_get_sector_size h out)"
    unfolding esp_jrnl_get_sector_size_def by (rule checked, intro goes_on_intros)
qed

fun handle_of :: "handle_call \<Rightarrow> esp_jrnl_handle_t" where
  "handle_of (Start h) = h"
| "handle_of (Stop h commit) = h"
| "handle_of (Set_direct_io h direct) = h"
| "handle_of (Write h buff sec count) = h"
| "handle_of (Read h sec dest count) = h"
| "handle_of (Get_diskio_handle h out) = h"
| "handle_of (Get_sector_count h out) = h"
| "handle_of (Get_sector_size h out) = h"

lemma run_call_goes_on: "goes_on_at (handle_of c) (run_call E c)"
  by (cases c) (simp_all add: start_goes_on stop_goes_on set_direct_goes_on write_goes_on getter_goes_on goes_on_at_result)

section \<open>Mounting and unmounting\<close>

lemma typed_update:
  assumes "typed_world s" and "s_jrnl_instance_ptrs s' = (s_jrnl_instance_ptrs s)[i := p]"
    and "\<And>inst. p = Some inst \<Longrightarrow> typed_master (master inst)"
  shows "typed_world s'"
  using assms by (auto simp: typed_world_def dest!: subsetD [OF set_update_subset_insert])

lemma typed_same: "typed_world s \<Longrightarrow> s_jrnl_instance_ptrs s' = s_jrnl_instance_ptrs s \<Longrightarrow> typed_world s'"
  by (simp add: typed_world_def)

lemma mount_typed:
  assumes "esp_jrnl_mount E config k s = (Ret (err, k'), s')" and "typed_world s"
  shows "typed_world s'"
proof (cases "config = None \<or> k = None \<or> cfg_store_size_sectors (user_cfg (the config)) < JRNL_MIN_STORE_SIZE")
  case True
  then have "s' = s" using assms(1) by (auto simp: esp_jrnl_mount_def prog_simps split: option.splits if_splits)
  then show ?thesis using assms(2) by simp
next
  case False
  then obtain c where c: "config = Some c" "k \<noteq> None" "\<not> cfg_store_size_sectors (user_cfg c) < JRNL_MIN_STORE_SIZE" by auto
  have lk: "\<not> s_instances_lock s" using assms(1) c by (auto simp: esp_jrnl_mount_def prog_simps split: if_splits)
  let ?l = "s\<lparr>s_instances_lock := True\<rparr>" and ?h = "find_free_handle (s_jrnl_instance_ptrs s)"
  show ?thesis
  proof (cases "?h = JRNL_INVALID_HANDLE")
    case True
    then show ?thesis
      using assms c lk by (auto simp: esp_jrnl_mount_def prog_simps bind_assoc jrnl_delete_instance_def intro: typed_same)
  next
    case free: False
    obtain e p s1 where m: "mount_instance E c ?l = (Ret (e, p), s1)"
      using assms c lk free by (auto simp: esp_jrnl_mount_def prog_simps elim!: bind_RetE)
    have t: "s_jrnl_instance_ptrs s1 = s_jrnl_instance_ptrs s"
      using keeps_viewD [OF table.frame_mount_instance m] by (simp add: instance_table_def)
    have r: "s_jrnl_instance_ptrs s' = (if e = ESP_OK then (s_jrnl_instance_ptrs s)[nat ?h := p] else s_jrnl_instance_ptrs s)"
      using assms(1) c lk free m t
      by (auto simp: esp_jrnl_mount_def prog_simps bind_assoc run_bind_Ret put_instance_def jrnl_delete_instance_def split: if_splits)
    have "typed_master (master inst)" if "e = ESP_OK" "p = Some inst" for inst
      using mount_instance_typed m that c(3) by (metis leI option.inject)
    then show ?thesis using r assms(2) by (auto intro: typed_same typed_update split: if_splits)
  qed
qed

lemma unmount_typed:
  assumes "esp_jrnl_unmount h s = (Ret err, s')" and "typed_world s"
  shows "typed_world s'"
proof -
  have "\<not> s_instances_lock s" using assms(1) by (auto simp: esp_jrnl_unmount_def prog_simps)
  then have "s_jrnl_instance_ptrs s' = s_jrnl_instance_ptrs s \<or> s_jrnl_instance_ptrs s' = (s_jrnl_instance_ptrs s)[nat h := None]"
    using assms(1) by (auto simp: unmount_run check_handle_cases bind_def prog_simps put_instance_def jrnl_delete_instance_def
        split: if_splits)
  then show ?thesis using assms(2) by (auto intro: typed_same typed_update)
qed

lemma call_typed: "run_call E c s = (Ret r, s') \<Longrightarrow> typed_world s \<Longrightarrow> typed_world s'"
  using run_call_goes_on [of c E] unfolding goes_on_at_def by fastforce

lemma step_typed:
  assumes "handle_step E s e s'" and "typed_world s"
  shows "typed_world s'"
  using assms(1)
  by cases (use assms(2) in \<open>auto intro: mount_typed unmount_typed call_typed\<close>)

lemma empty_typed: "s_jrnl_instance_ptrs s = init_instance_ptrs \<Longrightarrow> typed_world s"
  by (auto simp: typed_world_def init_instance_ptrs_def)

text \<open>
  C6. Type soundness of the table of instances. Whatever calls a client makes in whatever order, and whatever
  the disk and the allocator answer, every instance stays well formed: marker, geometry, a
  free sector before the master record, and an empty log outside transactions. A further call on a handle
  (\<open>esp_jrnl_start\<close>, \<open>stop\<close>, \<open>set_direct_io\<close>, \<open>write\<close>, \<open>read\<close> or one of the three getters)
  then never fails an assertion. It returns; or it waits for the lock of its instance, when that is
  taken; or it loops, on an instance whose store has more than \<open>2 ^ 31\<close> sectors; or it is undefined, for a
  handle below the invalid one and on an instance whose sectors do not hold the header of an operation
  (16 bytes). A further \<open>esp_jrnl_mount\<close> or \<open>esp_jrnl_unmount\<close> is among the calls that keep the instances
  well formed when they return, and is not the further call of the second part: a mount can abort and can wait
  for the lock of the table.
\<close>

theorem instances_well_typed:
  assumes "handle_run E s es s'" and "typed_world s"
  shows "typed_world s' \<and>
    (case run_call E c s' of
       (Ret err, t) \<Rightarrow> typed_world t
     | (Blocked, t) \<Rightarrow> \<exists>inst. instance_of s' (handle_of c) = Some inst \<and> trans_lock inst
     | (Diverged, t) \<Rightarrow> \<exists>inst. instance_of s' (handle_of c) = Some inst \<and> \<not> bounded_store (master inst)
     | (Undefined, t) \<Rightarrow> handle_of c < JRNL_INVALID_HANDLE \<or>
         (\<exists>inst. instance_of s' (handle_of c) = Some inst \<and> unat (disk_sector_size (volume (master inst))) < sizeof_operation)
     | (Aborted, t) \<Rightarrow> False)"
proof -
  have "typed_world s'" using assms(1,2) by induction (auto intro: step_typed)
  then show ?thesis using run_call_goes_on [of c E, unfolded goes_on_at_def header_fits_def not_le, rule_format] by simp
qed

theorem instances_well_typed_witness:
  "\<exists>err t. handle_run sample_env (sample_world sample_instance) [Called] (sample_world sample_instance) \<and>
     run_call sample_env (Start 0) (sample_world sample_instance) = (Ret err, t) \<and> typed_world t"
proof -
  let ?s = "sample_world sample_instance"
  have t: "typed_world ?s"
    by (auto simp: typed_world_def JRNL_MAX_HANDLES_def sample_instance_def sample_master_def sample_volume_def
        typed_master_def JRNL_MIN_STORE_SIZE_def)
  have "run_call sample_env (Get_sector_size 5 True) ?s = (Ret ESP_ERR_NOT_FOUND, ?s)"
    by (simp add: esp_jrnl_get_sector_size_def check_handle_cases bind_def prog_simps)
  from handle_run.step [OF handle_run.start handle_step.call [OF this]] have r: "handle_run sample_env ?s [Called] ?s" by simp
  have i: "instance_of ?s 0 = Some sample_instance" "\<not> trans_lock sample_instance" "bounded_store (master sample_instance)"
    by (simp_all add: instance_of_def JRNL_MAX_HANDLES_def sample_instance_def bounded_store_def sample_master_def sample_volume_def)
  have sz: "\<not> unat (disk_sector_size (volume (master sample_instance))) < sizeof_operation"
    by (simp add: sample_instance_def sample_master_def sample_volume_def sizeof_operation_def)
  obtain x t' where x: "run_call sample_env (Start 0) ?s = (x, t')" by fastforce
  then have "\<exists>err. x = Ret err" "typed_world t'"
    using instances_well_typed [OF r t, of "Start 0"] i sz by (cases x; simp add: JRNL_INVALID_HANDLE_def)+
  then show ?thesis using r x by blast
qed

end
