(* ===== verification/Jrnl_Tasks.thy ===== *)
theory Jrnl_Tasks
  imports Jrnl_Correct Jrnl_Handles
begin

text \<open>
  Several tasks on one mounted journal. The functions of \<open>srcs/esp_jrnl.c\<close> are cut at their locks: what
  runs between \<open>_lock_acquire\<close> and \<open>_lock_release\<close> of \<open>trans_lock\<close> is one step, since every step that
  changes the instance or the store is such a section, and the tests made before a lock is taken are
  a step of their own. Each task runs transactions as the journaled VFS functions do: a start; if
  that succeeds, writes and a stop. Steps of the tasks interleave in any order.
\<close>

section \<open>The functions cut at their locks\<close>

text \<open>\<open>esp_jrnl_write\<close> up to the lock: \<open>Inl err\<close> when it returns before, \<open>Inr ()\<close> when it goes on to the section.\<close>

definition write_enter ::
  "esp_jrnl_handle_t \<Rightarrow> cbuf \<Rightarrow> u32 \<Rightarrow> u32 \<Rightarrow> (('d, 'z) jrnl_world_scheme, esp_err_t + unit) prog" where
  "write_enter h buff sec count =
     bind (jrnl_check_handle h) (\<lambda>err.
     if err \<noteq> ESP_OK then ret (Inl err)
     else with_instance h (\<lambda>inst.
       let sector_size = disk_sector_size (volume (master inst)) in
       if status (master inst) = ESP_JRNL_STATUS_FS_DIRECT then
         bind (jrnl_erase_range_raw inst (sec * sector_size) (count * sector_size)) (\<lambda>err.
         if err = ESP_OK then
           bind (jrnl_write_raw inst (sec * sector_size) buff (count * sector_size)) (\<lambda>err. ret (Inl err))
         else ret (Inl err))
       else if status (master inst) = ESP_JRNL_STATUS_TRANS_OPEN then
         if next_free_sector (master inst) + 1 + count < store_size_sectors (master inst) - 1 then ret (Inr ())
         else ret (Inl ESP_ERR_NO_MEM)
       else ret (Inl ESP_ERR_INVALID_STATE)))"

definition write_section ::
  "esp_env \<Rightarrow> esp_jrnl_handle_t \<Rightarrow> cbuf \<Rightarrow> u32 \<Rightarrow> u32 \<Rightarrow> (('d, 'z) jrnl_world_scheme, esp_err_t) prog" where
  "write_section E h buff sec count = with_instance h (\<lambda>inst.
     bind (lock_acquire (trans_lock inst)) (\<lambda>locked.
     bind (journal_write E (inst\<lparr>trans_lock := locked\<rparr>) buff sec count) (\<lambda>(err, inst1).
     bind (put_instance h (release_trans_lock (Some inst1))) (\<lambda>_.
     ret err))))"

text \<open>\<open>esp_jrnl_stop\<close>: the tests, the section that cancels, the one that records the commit, and the replay.\<close>

definition stop_enter :: "esp_jrnl_handle_t \<Rightarrow> bool \<Rightarrow> (('d, 'z) jrnl_world_scheme, esp_err_t + unit) prog" where
  "stop_enter h commit =
     bind (jrnl_check_handle h) (\<lambda>err.
     if err \<noteq> ESP_OK then ret (Inl err)
     else with_instance h (\<lambda>inst.
       if commit \<and> status (master inst) \<noteq> ESP_JRNL_STATUS_TRANS_OPEN then ret (Inl ESP_ERR_INVALID_STATE)
       else ret (Inr ())))"

definition cancel_section :: "esp_env \<Rightarrow> esp_jrnl_handle_t \<Rightarrow> (('d, 'z) jrnl_world_scheme, esp_err_t) prog" where
  "cancel_section E h = with_instance h (\<lambda>inst.
     bind (lock_acquire (trans_lock inst)) (\<lambda>locked.
     bind (jrnl_reset_master E (Some (inst\<lparr>trans_lock := locked\<rparr>)) False) (\<lambda>(err, p).
     bind (put_instance h (release_trans_lock p)) (\<lambda>_.
     ret err))))"

definition record_section :: "esp_env \<Rightarrow> esp_jrnl_handle_t \<Rightarrow> (('d, 'z) jrnl_world_scheme, esp_err_t) prog" where
  "record_section E h = with_instance h (\<lambda>inst.
     bind (lock_acquire (trans_lock inst)) (\<lambda>locked.
     let inst1 = inst\<lparr>trans_lock := locked,
                      master := (master inst)\<lparr>status := ESP_JRNL_STATUS_TRANS_COMMIT\<rparr>\<rparr>
     in bind (jrnl_update_master E inst1 (master inst1)) (\<lambda>err.
        bind (put_instance h (release_trans_lock (Some inst1))) (\<lambda>_.
        ret err))))"

definition replay_section :: "esp_env \<Rightarrow> esp_jrnl_handle_t \<Rightarrow> (('d, 'z) jrnl_world_scheme, esp_err_t) prog" where
  "replay_section E h = with_instance h (\<lambda>inst.
     bind (jrnl_replay E (Some inst)) (\<lambda>(err, p).
     bind (put_instance h p) (\<lambda>_.
     ret err)))"

text \<open>One task that runs the pieces without a pause runs the function.\<close>

lemma write_returns:
  "mounted h inst s \<Longrightarrow> write_enter h buff sec count s = (Ret (Inl err), s') \<Longrightarrow>
   esp_jrnl_write E h (Some buff) sec count s = (Ret err, s') \<and> mounted h inst s'"
  by (auto simp: esp_jrnl_write_def write_enter_def Let_def mounted_run prog_simps jrnl_erase_range_raw_def
      jrnl_write_raw_def bind_def split: if_splits prod.splits)

lemma write_pauses:
  "mounted h inst s \<Longrightarrow> write_enter h buff sec count s = (Ret (Inr ()), s') \<Longrightarrow>
   s' = s \<and> status (master inst) = ESP_JRNL_STATUS_TRANS_OPEN \<and>
   esp_jrnl_write E h (Some buff) sec count s = write_section E h buff sec count s"
  by (auto simp: esp_jrnl_write_def write_enter_def write_section_def Let_def mounted_run prog_simps
      elim!: bind_RetE split: if_splits)

lemma stop_returns:
  "mounted h inst s \<Longrightarrow> stop_enter h commit s = (Ret (Inl err), s') \<Longrightarrow>
   s' = s \<and> status (master inst) \<noteq> ESP_JRNL_STATUS_TRANS_OPEN \<and> esp_jrnl_stop E h commit s = (Ret err, s')"
  by (auto simp: esp_jrnl_stop_def stop_enter_def mounted_run prog_simps split: if_splits)

lemma stop_pauses:
  "mounted h inst s \<Longrightarrow> stop_enter h commit s = (Ret (Inr ()), s') \<Longrightarrow>
   s' = s \<and> (commit \<longrightarrow> status (master inst) = ESP_JRNL_STATUS_TRANS_OPEN)"
  by (auto simp: stop_enter_def mounted_run prog_simps split: if_splits)

lemma cancel_piece: "mounted h inst s \<Longrightarrow> esp_jrnl_stop E h False s = cancel_section E h s"
  by (simp add: esp_jrnl_stop_def cancel_section_def mounted_run)

text \<open>The functions below the table leave the slot as it is.\<close>

lemma mounted_below: "keeps_view instance_table p \<Longrightarrow> p s = (r, s') \<Longrightarrow> mounted h inst s' = mounted h inst s"
  by (auto simp: mounted_def instance_table_def dest!: keeps_viewD)

lemma put_instance_run: "put_instance h (Some inst) s = (Ret (), set_instance h inst s)"
  by (simp add: put_instance_def set_instance_def prog_simps)

lemma set_instance_same:
  assumes "mounted h inst s"
  shows "set_instance h inst s = s"
proof -
  have "(s_jrnl_instance_ptrs s)[nat h := Some inst] = s_jrnl_instance_ptrs s"
    using assms list_update_id [of "s_jrnl_instance_ptrs s" "nat h"] by (simp add: mounted_def)
  then show ?thesis by (simp add: set_instance_def)
qed

lemma record_run:
  assumes mt: "mounted h inst s" and r: "record_section E h s = (Ret err, s')"
  defines "inst1 \<equiv> inst\<lparr>master := (master inst)\<lparr>status := ESP_JRNL_STATUS_TRANS_COMMIT\<rparr>\<rparr>"
  shows "mounted h inst1 s'"
    and "status (master inst) = ESP_JRNL_STATUS_TRANS_OPEN \<Longrightarrow>
      esp_jrnl_stop E h True s = (if err = ESP_OK then replay_section E h s' else (Ret err, s'))"
proof -
  have lk: "\<not> trans_lock inst" using r by (auto simp: record_section_def mounted_run [OF mt] prog_simps split: if_splits)
  then have unl: "inst1\<lparr>trans_lock := False\<rparr> = inst1" by (cases inst) (simp add: inst1_def)
  let ?i = "inst\<lparr>trans_lock := True, master := master inst1\<rparr>"
  obtain s1 where up: "jrnl_update_master E ?i (master inst1) s = (Ret err, s1)" and s': "s' = set_instance h inst1 s1"
    using r lk
    by (auto simp: record_section_def mounted_run [OF mt] prog_simps Let_def inst1_def put_instance_run
        unl [unfolded inst1_def] elim!: bind_RetE)
  have "mounted h inst s1" using mounted_below [OF table.frame_master(1) up] mt by simp
  then show mt': "mounted h inst1 s'" using s' by simp
  assume "status (master inst) = ESP_JRNL_STATUS_TRANS_OPEN"
  then show "esp_jrnl_stop E h True s = (if err = ESP_OK then replay_section E h s' else (Ret err, s'))"
    using up lk s'
    by (simp add: unl [unfolded inst1_def] esp_jrnl_stop_def mounted_run [OF mt] prog_simps Let_def run_bind_Ret inst1_def
        replay_section_def mounted_run [OF mt', unfolded s' inst1_def])
qed

text \<open>The status of the mounted instance, through which the tasks exclude each other.\<close>

definition in_status :: "esp_jrnl_handle_t \<Rightarrow> esp_jrnl_trans_status_t \<Rightarrow> ('d, 'z) jrnl_world_scheme \<Rightarrow> bool" where
  "in_status h st s \<longleftrightarrow> (\<exists>inst. mounted h inst s \<and> status (master inst) = st)"

lemma in_status_unique: "in_status h st s \<Longrightarrow> in_status h st' s \<Longrightarrow> st' = st"
  by (auto simp: in_status_def mounted_def)

lemma start_run_status:
  assumes mt: "mounted h inst s" and r: "esp_jrnl_start E h s = (Ret err, s')"
  shows "if in_status h ESP_JRNL_STATUS_TRANS_READY s then in_status h ESP_JRNL_STATUS_TRANS_OPEN s'
         else err = ESP_ERR_INVALID_STATE \<and> s' = s"
proof -
  have lk: "\<not> trans_lock inst" using r by (auto simp: esp_jrnl_start_def mounted_run [OF mt] prog_simps split: if_splits)
  have st: "in_status h st s \<longleftrightarrow> status (master inst) = st" for st using mt by (auto simp: in_status_def mounted_def)
  show ?thesis
  proof (cases "status (master inst) = ESP_JRNL_STATUS_TRANS_READY")
    case True
    let ?i = "inst\<lparr>trans_lock := True, master := (master inst)\<lparr>status := ESP_JRNL_STATUS_TRANS_OPEN\<rparr>\<rparr>"
    obtain s1 where up: "jrnl_update_master E ?i (master ?i) s = (Ret err, s1)"
      and s': "s' = set_instance h (?i\<lparr>trans_lock := False\<rparr>) s1"
      using r lk True
      by (auto simp: esp_jrnl_start_def mounted_run [OF mt] prog_simps Let_def put_instance_run elim!: bind_RetE split: if_splits)
    have "mounted h inst s1" using mounted_below [OF table.frame_master(1) up] mt by simp
    then have "mounted h (?i\<lparr>trans_lock := False\<rparr>) s'" using s' by simp
    then have "in_status h ESP_JRNL_STATUS_TRANS_OPEN s'" 
      unfolding in_status_def by (intro exI [of _ "?i\<lparr>trans_lock := False\<rparr>"]) simp
    then show ?thesis using st True by simp
  next
    case False
    have "inst\<lparr>trans_lock := False\<rparr> = inst" using lk by (cases inst) simp
    then have same: "set_instance h (inst\<lparr>trans_lock := False\<rparr>) s = s" using set_instance_same [OF mt] by simp
    show ?thesis using r lk False st by (simp add: esp_jrnl_start_def mounted_run [OF mt] prog_simps same)
  qed
qed

lemma write_section_status:
  assumes "in_status h ESP_JRNL_STATUS_TRANS_OPEN s" and r: "write_section E h buff sec count s = (Ret err, s')"
  shows "in_status h ESP_JRNL_STATUS_TRANS_OPEN s'"
proof -
  obtain inst where mt: "mounted h inst s" and st: "status (master inst) = ESP_JRNL_STATUS_TRANS_OPEN"
    using assms(1) by (auto simp: in_status_def)
  obtain inst1 s1 where w: "journal_write E (inst\<lparr>trans_lock := True\<rparr>) buff sec count s = (Ret (err, inst1), s1)"
    and s': "s' = set_instance h (inst1\<lparr>trans_lock := False\<rparr>) s1"
    using r by (auto simp: write_section_def mounted_run [OF mt] prog_simps put_instance_run elim!: bind_RetE split: if_splits)
  have "status (master inst1) = ESP_JRNL_STATUS_TRANS_OPEN"
    using w st by (auto simp: journal_write_def Let_def prog_simps elim!: bind_RetE split: if_splits)
  moreover have "mounted h inst s1" using mounted_below [OF table.frame_journal_write w] mt by simp
  then have "mounted h (inst1\<lparr>trans_lock := False\<rparr>) s'" using s' by simp
  ultimately show ?thesis unfolding in_status_def by (intro exI [of _ "inst1\<lparr>trans_lock := False\<rparr>"]) simp
qed

lemma end_section_mounted:
  assumes mt: "mounted h inst s"
  shows "cancel_section E h s = (Ret err, s') \<Longrightarrow> \<exists>inst'. mounted h inst' s'"
    and "replay_section E h s = (Ret err, s') \<Longrightarrow> \<exists>inst'. mounted h inst' s'"
proof -
  assume "cancel_section E h s = (Ret err, s')"
  then obtain p s1 where r: "jrnl_reset_master E (Some (inst\<lparr>trans_lock := True\<rparr>)) False s = (Ret (err, p), s1)"
    and s': "put_instance h (release_trans_lock p) s1 = (Ret (), s')"
    by (auto simp: cancel_section_def mounted_run [OF mt] prog_simps elim!: bind_RetE split: if_splits)
  have "mounted h inst s1" using mounted_below [OF table.frame_master(2) r] mt by simp
  then show "\<exists>inst'. mounted h inst' s'"
    using reset_master_Some [OF r] s' by (auto simp: put_instance_def prog_simps mounted_def nat_less_iff)
next
  assume "replay_section E h s = (Ret err, s')"
  then obtain p s1 where r: "jrnl_replay E (Some inst) s = (Ret (err, p), s1)" and s': "put_instance h p s1 = (Ret (), s')"
    by (auto simp: replay_section_def mounted_run [OF mt] prog_simps elim!: bind_RetE)
  have "mounted h inst s1" using mounted_below [OF table.frame_replay r] mt by simp
  then show "\<exists>inst'. mounted h inst' s'"
    using replay_Some [OF r] s' by (auto simp: put_instance_def prog_simps mounted_def nat_less_iff)
qed

section \<open>Interleaved tasks\<close>

text \<open>
  Where a task is: outside a transaction; inside one; in a write or a stop, between the tests and the
  section; in a commit, between recording it and replaying.
\<close>

datatype task_pc = Idle | Within | Writing cbuf u32 u32 | Stopping bool | Recorded

text \<open>
  What a step shows: a call that took effect returned, a start that found a transaction running was refused, or nothing yet.
\<close>

datatype 't task_label = Done 't jrnl_event | Refused 't esp_err_t | Silent

inductive task_step ::
  "esp_env \<Rightarrow> nat \<Rightarrow> esp_jrnl_handle_t \<Rightarrow> ('t \<Rightarrow> task_pc) \<times> 'd jrnl_world \<Rightarrow> 't task_label \<Rightarrow>
   ('t \<Rightarrow> task_pc) \<times> 'd jrnl_world \<Rightarrow> bool" for E sec h where
  starts: "pc t = Idle \<Longrightarrow> esp_jrnl_start E h s = (Ret ESP_OK, s') \<Longrightarrow>
     task_step E sec h (pc, s) (Done t (Started ESP_OK)) (pc(t := Within), s')"
| start_fails: "pc t = Idle \<Longrightarrow> esp_jrnl_start E h s = (Ret err, s') \<Longrightarrow> err \<noteq> ESP_OK \<Longrightarrow>
     in_status h ESP_JRNL_STATUS_TRANS_READY s \<Longrightarrow> task_step E sec h (pc, s) (Done t (Started err)) (pc, s')"
| start_refused: "pc t = Idle \<Longrightarrow> esp_jrnl_start E h s = (Ret err, s') \<Longrightarrow> err \<noteq> ESP_OK \<Longrightarrow>
     \<not> in_status h ESP_JRNL_STATUS_TRANS_READY s \<Longrightarrow> task_step E sec h (pc, s) (Refused t err) (pc, s')"
| write_fails: "pc t = Within \<Longrightarrow> write_enter h buff target count s = (Ret (Inl err), s') \<Longrightarrow>
     task_step E sec h (pc, s) (Done t (Wrote (target, buf_bytes buff (unat count * sec)) err)) (pc, s')"
| write_enters: "pc t = Within \<Longrightarrow> write_enter h buff target count s = (Ret (Inr ()), s') \<Longrightarrow>
     task_step E sec h (pc, s) Silent (pc(t := Writing buff target count), s')"
| writes: "pc t = Writing buff target count \<Longrightarrow> write_section E h buff target count s = (Ret err, s') \<Longrightarrow>
     task_step E sec h (pc, s) (Done t (Wrote (target, buf_bytes buff (unat count * sec)) err)) (pc(t := Within), s')"
| stop_fails: "pc t = Within \<Longrightarrow> stop_enter h commit s = (Ret (Inl err), s') \<Longrightarrow>
     task_step E sec h (pc, s) (Done t (Stopped commit err)) (pc(t := Idle), s')"
| stop_enters: "pc t = Within \<Longrightarrow> stop_enter h commit s = (Ret (Inr ()), s') \<Longrightarrow>
     task_step E sec h (pc, s) Silent (pc(t := Stopping commit), s')"
| cancels: "pc t = Stopping False \<Longrightarrow> cancel_section E h s = (Ret err, s') \<Longrightarrow>
     task_step E sec h (pc, s) (Done t (Stopped False err)) (pc(t := Idle), s')"
| record_fails: "pc t = Stopping True \<Longrightarrow> record_section E h s = (Ret err, s') \<Longrightarrow> err \<noteq> ESP_OK \<Longrightarrow>
     task_step E sec h (pc, s) (Done t (Stopped True err)) (pc(t := Idle), s')"
| records: "pc t = Stopping True \<Longrightarrow> record_section E h s = (Ret ESP_OK, s') \<Longrightarrow>
     task_step E sec h (pc, s) Silent (pc(t := Recorded), s')"
| replays: "pc t = Recorded \<Longrightarrow> replay_section E h s = (Ret err, s') \<Longrightarrow>
     task_step E sec h (pc, s) (Done t (Stopped True err)) (pc(t := Idle), s')"

inductive task_run ::
  "esp_env \<Rightarrow> nat \<Rightarrow> esp_jrnl_handle_t \<Rightarrow> ('t \<Rightarrow> task_pc) \<times> 'd jrnl_world \<Rightarrow> 't task_label list \<Rightarrow>
   ('t \<Rightarrow> task_pc) \<times> 'd jrnl_world \<Rightarrow> bool" for E sec h where
  task_run_Nil: "task_run E sec h x [] x"
| task_run_snoc: "task_run E sec h x ls y \<Longrightarrow> task_step E sec h y l z \<Longrightarrow> task_run E sec h x (ls @ [l]) z"

text \<open>The calls that took effect, in the order of the run.\<close>

fun effects :: "'t task_label list \<Rightarrow> jrnl_event list" where
  "effects [] = []"
| "effects (Done t e # ls) = e # effects ls"
| "effects (_ # ls) = effects ls"

lemma effects_append [simp]: "effects (ls @ ls') = effects ls @ effects ls'"
  by (induction ls rule: effects.induct) simp_all

section \<open>One task at a time\<close>

text \<open>
  How far the task in the middle of a call has come: \<open>s0\<close> is the state its call started from, \<open>s\<close> the state now.
\<close>

fun midway :: "esp_env \<Rightarrow> esp_jrnl_handle_t \<Rightarrow> task_pc \<Rightarrow> 'd jrnl_world \<Rightarrow> 'd jrnl_world \<Rightarrow> bool" where
  "midway E h Idle s0 s \<longleftrightarrow> s = s0 \<and> (\<exists>inst. mounted h inst s)"
| "midway E h Within s0 s \<longleftrightarrow> s = s0 \<and> in_status h ESP_JRNL_STATUS_TRANS_OPEN s"
| "midway E h (Writing buff target count) s0 s \<longleftrightarrow> s = s0 \<and> in_status h ESP_JRNL_STATUS_TRANS_OPEN s \<and>
     esp_jrnl_write E h (Some buff) target count s0 = write_section E h buff target count s"
| "midway E h (Stopping commit) s0 s \<longleftrightarrow> s = s0 \<and> in_status h ESP_JRNL_STATUS_TRANS_OPEN s"
| "midway E h Recorded s0 s \<longleftrightarrow> in_status h ESP_JRNL_STATUS_TRANS_COMMIT s \<and>
     esp_jrnl_stop E h True s0 = replay_section E h s"

lemma midway_mounted: "midway E h p s0 s \<Longrightarrow> \<exists>inst. mounted h inst s"
  by (cases p) (auto simp: in_status_def)

lemma midway_not_ready: "midway E h p s0 s \<Longrightarrow> p \<noteq> Idle \<Longrightarrow> \<not> in_status h ESP_JRNL_STATUS_TRANS_READY s"
  by (cases p) (auto dest: in_status_unique)

lemma in_status_mounted: "mounted h inst s \<Longrightarrow> in_status h st s \<longleftrightarrow> status (master inst) = st"
  by (auto simp: in_status_def mounted_def)

text \<open>The invariant: one task \<open>w\<close> at most is not idle, and the calls that took effect lead to where its call began.\<close>

definition serial ::
  "esp_env \<Rightarrow> 'd esp_jrnl_config_extended_t \<Rightarrow> ('d \<Rightarrow> image) \<Rightarrow> nat \<Rightarrow> esp_jrnl_handle_t \<Rightarrow> 'd jrnl_world \<Rightarrow>
   jrnl_event list \<Rightarrow> 't \<Rightarrow> ('t \<Rightarrow> task_pc) \<Rightarrow> 'd jrnl_world \<Rightarrow> bool" where
  "serial E config content sec h s es w pc s' \<longleftrightarrow>
     (\<exists>s0. jrnl_run E config content sec (h, s) es (h, s0) \<and> midway E h (pc w) s0 s') \<and> (\<forall>t. t \<noteq> w \<longrightarrow> pc t = Idle)"

lemma serial_done:
  assumes "jrnl_run E config content sec (h, s) es (h, s0)" and "jrnl_step E config content sec (h, s0) e (h, s2)"
    and "midway E h (pc t) s2 s2" and "\<And>t'. t' \<noteq> t \<Longrightarrow> pc t' = Idle"
  shows "\<exists>w. serial E config content sec h s (es @ [e]) w pc s2"
  unfolding serial_def using jrnl_run_snoc [OF assms(1,2)] assms(3,4) by blast

lemma serial_silent:
  assumes "jrnl_run E config content sec (h, s) es (h, s0)" and "midway E h (pc t) s0 s2" and "\<And>t'. t' \<noteq> t \<Longrightarrow> pc t' = Idle"
  shows "\<exists>w. serial E config content sec h s es w pc s2"
  unfolding serial_def using assms by blast

lemma serial_start:
  assumes "serial E config content sec h s es w pc s1" and r: "esp_jrnl_start E h s1 = (Ret err, s2)" and "pc t = Idle"
  shows "if in_status h ESP_JRNL_STATUS_TRANS_READY s1
    then \<exists>w'. serial E config content sec h s (es @ [Started err]) w' (pc(t := if err = ESP_OK then Within else Idle)) s2
    else err = ESP_ERR_INVALID_STATE \<and> s2 = s1"
proof -
  obtain s0 where run: "jrnl_run E config content sec (h, s) es (h, s0)" and m: "midway E h (pc w) s0 s1"
    and others: "\<forall>t. t \<noteq> w \<longrightarrow> pc t = Idle" using assms(1) by (auto simp: serial_def)
  obtain inst where "mounted h inst s1" using midway_mounted [OF m] by blast
  note st = start_run_status [OF this r]
  show ?thesis
  proof (cases "in_status h ESP_JRNL_STATUS_TRANS_READY s1")
    case True
    then have "pc w = Idle" using midway_not_ready [OF m] by blast
    then have idle: "pc t = Idle" for t using others by (cases "t = w") simp_all
    have "s1 = s0" using m idle by simp
    then have "jrnl_step E config content sec (h, s0) (Started err) (h, s2)" using r by (auto intro: jrnl_step.call_start)
    moreover have "midway E h (if err = ESP_OK then Within else Idle) s2 s2" using st True by (auto simp: in_status_def)
    ultimately have "\<exists>w'. serial E config content sec h s (es @ [Started err]) w' (pc(t := if err = ESP_OK then Within else Idle)) s2"
      by (intro serial_done [OF run, where t = t]) (use idle in simp_all)
    then show ?thesis using True by simp
  next
    case False
    then show ?thesis using st by simp
  qed
qed

text \<open>The steps of the task \<open>w\<close> inside a transaction, the others being idle.\<close>

lemma owner_done:
  assumes "jrnl_run E config content sec (h, s) es (h, s0)" and "jrnl_step E config content sec (h, s0) e (h, s2)"
    and "midway E h p s2 s2" and "\<forall>t. t \<noteq> w \<longrightarrow> pc t = Idle"
  shows "\<exists>w'. serial E config content sec h s (es @ [e]) w' (pc(w := p)) s2"
  by (rule serial_done [OF assms(1,2), where t = w]) (use assms(3,4) in auto)

lemma owner_silent:
  assumes "jrnl_run E config content sec (h, s) es (h, s0)" and "midway E h p s0 s2" and "\<forall>t. t \<noteq> w \<longrightarrow> pc t = Idle"
  shows "\<exists>w'. serial E config content sec h s es w' (pc(w := p)) s2"
  by (rule serial_silent [OF assms(1), where t = w]) (use assms(2,3) in auto)

lemma owner_write_steps:
  assumes others: "\<forall>t. t \<noteq> w \<longrightarrow> pc t = Idle"
    and run: "jrnl_run E config content sec (h, s) es (h, s0)" and m: "midway E h (pc w) s0 s1"
  shows "pc w = Within \<Longrightarrow> write_enter h buff target count s1 = (Ret (Inl err), s2) \<Longrightarrow>
      \<exists>w'. serial E config content sec h s (es @ [Wrote (target, buf_bytes buff (unat count * sec)) err]) w' pc s2"
    and "pc w = Within \<Longrightarrow> write_enter h buff target count s1 = (Ret (Inr ()), s2) \<Longrightarrow>
      \<exists>w'. serial E config content sec h s es w' (pc(w := Writing buff target count)) s2"
    and "pc w = Writing buff target count \<Longrightarrow> write_section E h buff target count s1 = (Ret err, s2) \<Longrightarrow>
      \<exists>w'. serial E config content sec h s (es @ [Wrote (target, buf_bytes buff (unat count * sec)) err]) w' (pc(w := Within)) s2"
proof -
  assume pc: "pc w = Within" and r: "write_enter h buff target count s1 = (Ret (Inl err), s2)"
  obtain inst where s1: "s1 = s0" "mounted h inst s1" "status (master inst) = ESP_JRNL_STATUS_TRANS_OPEN"
    using m pc by (auto simp: in_status_def)
  note w = write_returns [OF s1(2) r, of E]
  have "midway E h Within s2 s2" using w s1(3) by (auto simp: in_status_def)
  with owner_done [OF run jrnl_step.call_write _ others] w s1(1) show
    "\<exists>w'. serial E config content sec h s (es @ [Wrote (target, buf_bytes buff (unat count * sec)) err]) w' pc s2"
    using pc by (metis fun_upd_idem)
next
  assume pc: "pc w = Within" and r: "write_enter h buff target count s1 = (Ret (Inr ()), s2)"
  obtain inst where s1: "s1 = s0" "mounted h inst s1" "in_status h ESP_JRNL_STATUS_TRANS_OPEN s1"
    using m pc by (auto simp: in_status_def)
  from owner_silent [OF run _ others] write_pauses [OF s1(2) r, of E] s1
  show "\<exists>w'. serial E config content sec h s es w' (pc(w := Writing buff target count)) s2" by simp
next
  assume pc: "pc w = Writing buff target count" and r: "write_section E h buff target count s1 = (Ret err, s2)"
  have c: "esp_jrnl_write E h (Some buff) target count s0 = (Ret err, s2)" and "in_status h ESP_JRNL_STATUS_TRANS_OPEN s1"
    using m pc r by auto
  then have "midway E h Within s2 s2" using write_section_status r by auto
  with owner_done [OF run jrnl_step.call_write [OF c] _ others] show
    "\<exists>w'. serial E config content sec h s (es @ [Wrote (target, buf_bytes buff (unat count * sec)) err]) w' (pc(w := Within)) s2"
    by simp
qed

lemma owner_stop_steps:
  assumes others: "\<forall>t. t \<noteq> w \<longrightarrow> pc t = Idle"
    and run: "jrnl_run E config content sec (h, s) es (h, s0)" and m: "midway E h (pc w) s0 s1"
  shows "pc w = Within \<Longrightarrow> stop_enter h commit s1 \<noteq> (Ret (Inl err), s2)"
    and "pc w = Within \<Longrightarrow> stop_enter h commit s1 = (Ret (Inr ()), s2) \<Longrightarrow>
      \<exists>w'. serial E config content sec h s es w' (pc(w := Stopping commit)) s2"
    and "pc w = Stopping False \<Longrightarrow> cancel_section E h s1 = (Ret err, s2) \<Longrightarrow>
      \<exists>w'. serial E config content sec h s (es @ [Stopped False err]) w' (pc(w := Idle)) s2"
proof -
  assume "pc w = Within"
  then obtain inst where s1: "s1 = s0" "mounted h inst s1" "status (master inst) = ESP_JRNL_STATUS_TRANS_OPEN"
    using m by (auto simp: in_status_def)
  show "stop_enter h commit s1 \<noteq> (Ret (Inl err), s2)" using stop_returns [OF s1(2)] s1(3) by blast
  assume "stop_enter h commit s1 = (Ret (Inr ()), s2)"
  from owner_silent [OF run _ others] stop_pauses [OF s1(2) this] s1
  show "\<exists>w'. serial E config content sec h s es w' (pc(w := Stopping commit)) s2" by (simp add: in_status_mounted)
next
  assume "pc w = Stopping False" and r: "cancel_section E h s1 = (Ret err, s2)"
  then obtain inst where s1: "s1 = s0" "mounted h inst s1" using m by (auto simp: in_status_def)
  have c: "esp_jrnl_stop E h False s0 = (Ret err, s2)" using cancel_piece [OF s1(2), of E] r s1(1) by simp
  have "midway E h Idle s2 s2" using end_section_mounted(1) [OF s1(2) r] by simp
  with owner_done [OF run jrnl_step.call_stop [OF c] _ others]
  show "\<exists>w'. serial E config content sec h s (es @ [Stopped False err]) w' (pc(w := Idle)) s2" by simp
qed

lemma owner_commit_steps:
  assumes others: "\<forall>t. t \<noteq> w \<longrightarrow> pc t = Idle"
    and run: "jrnl_run E config content sec (h, s) es (h, s0)" and m: "midway E h (pc w) s0 s1"
  shows "pc w = Stopping True \<Longrightarrow> record_section E h s1 = (Ret err, s2) \<Longrightarrow> err \<noteq> ESP_OK \<Longrightarrow>
      \<exists>w'. serial E config content sec h s (es @ [Stopped True err]) w' (pc(w := Idle)) s2"
    and "pc w = Stopping True \<Longrightarrow> record_section E h s1 = (Ret ESP_OK, s2) \<Longrightarrow>
      \<exists>w'. serial E config content sec h s es w' (pc(w := Recorded)) s2"
    and "pc w = Recorded \<Longrightarrow> replay_section E h s1 = (Ret err, s2) \<Longrightarrow>
      \<exists>w'. serial E config content sec h s (es @ [Stopped True err]) w' (pc(w := Idle)) s2"
proof -
  assume "pc w = Stopping True"
  then obtain inst where s1: "s1 = s0" "mounted h inst s1" "status (master inst) = ESP_JRNL_STATUS_TRANS_OPEN"
    using m by (auto simp: in_status_def)
  note r = record_run [OF s1(2)]
  show "\<exists>w'. serial E config content sec h s (es @ [Stopped True err]) w' (pc(w := Idle)) s2"
    if f: "record_section E h s1 = (Ret err, s2)" "err \<noteq> ESP_OK"
  proof -
    have c: "esp_jrnl_stop E h True s0 = (Ret err, s2)" using r(2) [OF f(1) s1(3)] f(2) s1(1) by simp
    have "midway E h Idle s2 s2" using r(1) [OF f(1)] by auto
    with owner_done [OF run jrnl_step.call_stop [OF c] _ others] show ?thesis by simp
  qed
  assume ok: "record_section E h s1 = (Ret ESP_OK, s2)"
  have "in_status h ESP_JRNL_STATUS_TRANS_COMMIT s2" using r(1) [OF ok] by (simp add: in_status_mounted)
  then have "midway E h Recorded s0 s2" using r(2) [OF ok s1(3)] s1(1) by simp
  with owner_silent [OF run _ others] show "\<exists>w'. serial E config content sec h s es w' (pc(w := Recorded)) s2" by simp
next
  assume pc: "pc w = Recorded" and r: "replay_section E h s1 = (Ret err, s2)"
  obtain inst where s1: "mounted h inst s1" using m pc by (auto simp: in_status_def)
  have c: "esp_jrnl_stop E h True s0 = (Ret err, s2)" using m pc r by simp
  have "midway E h Idle s2 s2" using end_section_mounted(2) [OF s1 r] by simp
  with owner_done [OF run jrnl_step.call_stop [OF c] _ others]
  show "\<exists>w'. serial E config content sec h s (es @ [Stopped True err]) w' (pc(w := Idle)) s2" by simp
qed

lemma owner_step:
  assumes step: "task_step E sec h (pc, s1) l (pc', s2)" and others: "\<forall>t. t \<noteq> w \<longrightarrow> pc t = Idle"
    and run: "jrnl_run E config content sec (h, s) es (h, s0)" and m: "midway E h (pc w) s0 s1"
    and notstart: "\<And>t err. l \<noteq> Done t (Started err)" "\<And>t err. l \<noteq> Refused t err"
  shows "\<exists>w'. serial E config content sec h s (es @ effects [l]) w' pc' s2"
proof -
  note steps = owner_write_steps [OF others run m] owner_stop_steps [OF others run m] owner_commit_steps [OF others run m]
  have w: "t = w" if "pc t \<noteq> Idle" for t using others that by auto
  from step show ?thesis
  proof cases
    case (write_fails t buff target count err)
    then show ?thesis using steps(1) w [of t] by simp
  next
    case (write_enters t buff target count)
    then show ?thesis using steps(2) w [of t] by simp
  next
    case (writes t buff target count err)
    then show ?thesis using steps(3) w [of t] by simp
  next
    case (stop_enters t commit)
    then show ?thesis using steps(5) w [of t] by simp
  next
    case (cancels t err)
    then show ?thesis using steps(6) w [of t] by simp
  next
    case (record_fails t err)
    then show ?thesis using steps(7) w [of t] by simp
  next
    case (records t)
    then show ?thesis using steps(8) w [of t] by simp
  next
    case (replays t err)
    then show ?thesis using steps(9) w [of t] by simp
  next
    case (stop_fails t commit err)
    then show ?thesis using steps(4) w [of t] by simp
  qed (use notstart in simp_all)
qed

lemma serial_step:
  assumes step: "task_step E sec h (pc, s1) l (pc', s2)" and inv: "serial E config content sec h s es w pc s1"
  shows "\<exists>w'. serial E config content sec h s (es @ effects [l]) w' pc' s2"
proof -
  obtain s0 where run: "jrnl_run E config content sec (h, s) es (h, s0)" and m: "midway E h (pc w) s0 s1"
    and others: "\<forall>t. t \<noteq> w \<longrightarrow> pc t = Idle" using inv by (auto simp: serial_def)
  consider (started) t err where "l = Done t (Started err)" | (refused) t err where "l = Refused t err"
    | (owner) "\<And>t err. l \<noteq> Done t (Started err)" "\<And>t err. l \<noteq> Refused t err" by blast
  then show ?thesis
  proof cases
    case started
    from step [unfolded started] show ?thesis
    proof cases
      case starts
      from serial_start [OF inv starts(4,3)] show ?thesis using starts(1,2) started by (auto split: if_splits)
    next
      case start_fails
      from serial_start [OF inv start_fails(3,2)] show ?thesis
        using start_fails started by (auto simp: fun_upd_idem split: if_splits)
    qed
  next
    case refused
    from step [unfolded refused] show ?thesis
    proof cases
      case start_refused
      from serial_start [OF inv start_refused(3,2)] show ?thesis using start_refused inv refused by auto
    qed
  next
    case owner
    show ?thesis by (rule owner_step [OF step others run m owner])
  qed
qed

lemma serial_run:
  assumes "task_run E sec h (pc, s1) ls (pc', s2)" and "serial E config content sec h s es w pc s1"
  shows "\<exists>w'. serial E config content sec h s (es @ effects ls) w' pc' s2"
  using assms
proof (induction "(pc, s1)" ls "(pc', s2)" arbitrary: pc' s2)
  case task_run_Nil
  then show ?case by auto
next
  case (task_run_snoc ls y l)
  obtain pc1 s1' where y: "y = (pc1, s1')" by fastforce
  obtain w1 where "serial E config content sec h s (es @ effects ls) w1 pc1 s1'" using task_run_snoc(2,4) y by blast
  from serial_step [OF task_run_snoc(3) [unfolded y] this] show ?case by simp
qed

lemma serial_initial: "mounted h inst s \<Longrightarrow> serial E config content sec h s [] w (\<lambda>_. Idle) s"
  by (auto simp: serial_def intro: jrnl_run_Nil)

text \<open>
  C17. Tasks that share a journal exclude each other. However the steps of any number of tasks interleave, on any
  device and with any errors, at most one task is inside a transaction, and as long as one is, the start of
  every other that returns is refused with \<open>ESP_ERR_INVALID_STATE\<close> at once and changes nothing.
\<close>

theorem tasks_exclude_each_other:
  assumes "mounted h inst s" and "task_run E sec h (\<lambda>_. Idle, s) ls (pc, s')" and "pc t \<noteq> Idle" and "t' \<noteq> t"
  shows "pc t' = Idle \<and> (\<forall>err s2. esp_jrnl_start E h s' = (Ret err, s2) \<longrightarrow> err = ESP_ERR_INVALID_STATE \<and> s2 = s')"
proof -
  obtain w where "serial E undefined undefined sec h s ([] @ effects ls) w pc s'"
    using serial_run [OF assms(2) serial_initial [OF assms(1)]] by blast
  then obtain s0 where m: "midway E h (pc w) s0 s'" and others: "\<forall>t. t \<noteq> w \<longrightarrow> pc t = Idle" by (auto simp: serial_def)
  have w: "w = t" using others assms(3) by auto
  obtain inst' where mt: "mounted h inst' s'" using midway_mounted [OF m] by blast
  have "\<not> in_status h ESP_JRNL_STATUS_TRANS_READY s'" using midway_not_ready [OF m] w assms(3) by blast
  then show ?thesis using start_run_status [OF mt] others w assms(4) by simp
qed

text \<open>
  C5. Interleaved tasks are serialised. From a ready journal, however the steps of any number of tasks interleave,
  at most one task \<open>w\<close> is inside a transaction, and the calls that took effect, in the order they returned, are a run
  of a single client to a state \<open>s0\<close>; refused starts had no effect. Unless \<open>w\<close> is in a commit, between
  recording it and replaying it, \<open>s0\<close> is the present memory and disk; if it is, its commit has been
  run from \<open>s0\<close> up to there. If moreover that sequence of calls is disciplined, that is, targets lie within the file
  system and no transaction was started after a commit that reported an error, the run is one of the abstract
  volume, so the tasks' transactions are atomic and isolated from each other. After an error in a commit and
  without a new mount this second part says nothing.
\<close>

theorem tasks_refine_volume:
  assumes "block_device io content sec cap er" and "geom sec cap m" and "matches m io config"
    and "journal_ready E io content sec m h fs s" and "task_run E sec h (\<lambda>_. Idle, s) ls (pc, s')"
  shows "\<exists>w s0. jrnl_run E config content sec (h, s) (effects ls) (h, s0) \<and> (\<forall>t. t \<noteq> w \<longrightarrow> pc t = Idle) \<and>
    (if pc w = Recorded then esp_jrnl_stop E h True s0 = replay_section E h s' else s0 = s') \<and>
    (\<forall>ph. disciplined sec m Outside (effects ls) = Some ph \<longrightarrow>
       (\<exists>b. vol_run sec (Ready fs) (effects ls) b \<and> refines E io content sec m b (h, s0) \<and> vol_phase b = ph))"
proof -
  obtain inst where "mounted h inst s" using assms(4) by (auto simp: journal_ready_def attached_def)
  then obtain w where "serial E config content sec h s ([] @ effects ls) w pc s'"
    using serial_run [OF assms(5) serial_initial] by blast
  then obtain s0 where run: "jrnl_run E config content sec (h, s) (effects ls) (h, s0)" and m: "midway E h (pc w) s0 s'"
    and others: "\<forall>t. t \<noteq> w \<longrightarrow> pc t = Idle"
    by (auto simp: serial_def)
  have "if pc w = Recorded then esp_jrnl_stop E h True s0 = replay_section E h s' else s0 = s'"
    using m by (cases "pc w") auto
  moreover have "\<exists>b. vol_run sec (Ready fs) (effects ls) b \<and> refines E io content sec m b (h, s0) \<and> vol_phase b = ph"
    if "disciplined sec m Outside (effects ls) = Some ph" for ph
    using block_device.simulates_run [OF assms(1-3) run, of "Ready fs" ph] assms(4) that by simp
  ultimately show ?thesis using run others by blast
qed

section \<open>Two tasks on the sample volume\<close>

lemma write_pieces:
  "mounted h inst s \<Longrightarrow> status (master inst) = ESP_JRNL_STATUS_TRANS_OPEN \<Longrightarrow>
   esp_jrnl_write E h (Some buff) sec count s = (Ret ESP_OK, s') \<Longrightarrow>
   write_enter h buff sec count s = (Ret (Inr ()), s) \<and> write_section E h buff sec count s = (Ret ESP_OK, s')"
  by (auto simp: esp_jrnl_write_def write_enter_def write_section_def Let_def mounted_run prog_simps split: if_splits)

lemma stop_pieces:
  assumes mt: "mounted h inst s" and "\<not> trans_lock inst" and st: "status (master inst) = ESP_JRNL_STATUS_TRANS_OPEN"
    and "esp_jrnl_stop E h True s = (Ret ESP_OK, s')"
  obtains s1 where "stop_enter h True s = (Ret (Inr ()), s)" and "record_section E h s = (Ret ESP_OK, s1)"
    and "replay_section E h s1 = (Ret ESP_OK, s')"
proof -
  let ?i = "inst\<lparr>trans_lock := True, master := (master inst)\<lparr>status := ESP_JRNL_STATUS_TRANS_COMMIT\<rparr>\<rparr>"
  obtain err s2 where "jrnl_update_master E ?i (master ?i) s = (Ret err, s2)" using returns_master(1) by (rule returnsE)
  then obtain s1 where r: "record_section E h s = (Ret err, s1)"
    using assms(2) by (auto simp: record_section_def mounted_run [OF mt] prog_simps Let_def run_bind_Ret)
  have "stop_enter h True s = (Ret (Inr ()), s)" using st by (simp add: stop_enter_def mounted_run [OF mt] prog_simps)
  with that record_run(2) [OF mt r st] r assms(4) show thesis by (auto split: if_splits)
qed

lemma start_when_open:
  assumes "mounted h inst s" and "\<not> trans_lock inst" and "status (master inst) = ESP_JRNL_STATUS_TRANS_OPEN"
  shows "esp_jrnl_start E h s = (Ret ESP_ERR_INVALID_STATE, s)" "\<not> in_status h ESP_JRNL_STATUS_TRANS_READY s"
proof -
  have "inst\<lparr>trans_lock := False\<rparr> = inst" using assms(2) by (cases inst) simp
  then have "set_instance h (inst\<lparr>trans_lock := False\<rparr>) s = s" using set_instance_same [OF assms(1)] by simp
  then show "esp_jrnl_start E h s = (Ret ESP_ERR_INVALID_STATE, s)"
    using assms by (simp add: esp_jrnl_start_def mounted_run prog_simps)
  show "\<not> in_status h ESP_JRNL_STATUS_TRANS_READY s" using assms by (simp add: in_status_mounted)
qed

text \<open>Task \<open>True\<close> runs a transaction; task \<open>False\<close> tries to start one meanwhile.\<close>

lemma sample_tasks:
  obtains h s s1 s3 where "sample_ready h sample_fs s"
    and "task_run sample_env 32 h (\<lambda>_. Idle, s)
      [Done True (Started ESP_OK), Refused False ESP_ERR_INVALID_STATE] ((\<lambda>_. Idle)(True := Within), s1)"
    and "task_run sample_env 32 h (\<lambda>_. Idle, s)
      [Done True (Started ESP_OK), Refused False ESP_ERR_INVALID_STATE, Silent, Done True (Wrote sample_op ESP_OK),
       Silent, Silent, Done True (Stopped True ESP_OK)] (\<lambda>_. Idle, s3)"
proof -
  obtain h s s1 s2 s3 where s: "sample_ready h sample_fs s"
    and r1: "esp_jrnl_start sample_env h s = (Ret ESP_OK, s1)" and o1: "sample_open h sample_fs [] s1"
    and r2: "esp_jrnl_write sample_env h (Some (\<lambda>_. 7)) 1 1 s1 = (Ret ESP_OK, s2)"
    and o2: "sample_open h sample_fs [sample_op] s2" and r3: "esp_jrnl_stop sample_env h True s2 = (Ret ESP_OK, s3)"
    by (rule sample_session)
  obtain i1 where i1: "mounted h i1 s1" "\<not> trans_lock i1" "status (master i1) = ESP_JRNL_STATUS_TRANS_OPEN"
    using o1 by (rule journal_openE)
  obtain i2 where i2: "mounted h i2 s2" "\<not> trans_lock i2" "status (master i2) = ESP_JRNL_STATUS_TRANS_OPEN"
    using o2 by (rule journal_openE)
  note wr = write_pieces [OF i1(1,3) r2]
  obtain s2' where sp: "stop_enter h True s2 = (Ret (Inr ()), s2)" "record_section sample_env h s2 = (Ret ESP_OK, s2')"
    "replay_section sample_env h s2' = (Ret ESP_OK, s3)" by (rule stop_pieces [OF i2 r3])
  let ?in = "(\<lambda>_. Idle)(True := Within)"
  let ?run = "task_run sample_env 32 h (\<lambda>_. Idle, s)"
  have "?run ([] @ [Done True (Started ESP_OK)]) (?in, s1)"
    by (rule task_run_snoc [OF task_run_Nil], rule task_step.starts) (simp_all add: r1)
  moreover have "task_step sample_env 32 h (?in, s1) (Refused False ESP_ERR_INVALID_STATE) (?in, s1)"
    by (rule task_step.start_refused) (simp_all add: start_when_open [OF i1])
  ultimately have "?run (([] @ [Done True (Started ESP_OK)]) @ [Refused False ESP_ERR_INVALID_STATE]) (?in, s1)"
    by (rule task_run_snoc)
  then have a: "?run [Done True (Started ESP_OK), Refused False ESP_ERR_INVALID_STATE] (?in, s1)" by simp
  have "task_step sample_env 32 h (?in, s1) Silent (?in(True := Writing (\<lambda>_. 7) 1 1), s1)"
    by (rule task_step.write_enters) (simp_all add: wr)
  note b = task_run_snoc [OF a this]
  have "task_step sample_env 32 h (?in(True := Writing (\<lambda>_. 7) 1 1), s1) (Done True (Wrote sample_op ESP_OK))
      (?in(True := Writing (\<lambda>_. 7) 1 1, True := Within), s2)"
    unfolding sample_op_buffer by (rule task_step.writes) (simp_all add: wr)
  note c = task_run_snoc [OF b this, simplified]
  have "task_step sample_env 32 h (?in, s2) Silent (?in(True := Stopping True), s2)"
    by (rule task_step.stop_enters) (simp_all add: sp)
  note d = task_run_snoc [OF c this]
  have "task_step sample_env 32 h (?in(True := Stopping True), s2) Silent (?in(True := Stopping True, True := Recorded), s2')"
    by (rule task_step.records) (simp_all add: sp)
  note e = task_run_snoc [OF d this]
  have "task_step sample_env 32 h (?in(True := Stopping True, True := Recorded), s2') (Done True (Stopped True ESP_OK))
      (?in(True := Stopping True, True := Recorded, True := Idle), s3)"
    by (rule task_step.replays) (simp_all add: sp)
  note f = task_run_snoc [OF e this, simplified]
  have "?in(True := Idle) = (\<lambda>_. Idle)" by (rule ext) simp
  then show thesis using that [OF s a] f by simp
qed

theorem tasks_exclude_each_other_witness:
  "\<exists>h (s :: flash jrnl_world) s1. task_run sample_env 32 h (\<lambda>_. Idle, s)
      [Done True (Started ESP_OK), Refused False ESP_ERR_INVALID_STATE] ((\<lambda>_. Idle)(True := Within), s1) \<and>
     (\<forall>err s2. esp_jrnl_start sample_env h s1 = (Ret err, s2) \<longrightarrow> err = ESP_ERR_INVALID_STATE \<and> s2 = s1)"
proof -
  obtain h s s1 where s: "sample_ready h sample_fs s"
    and r: "task_run sample_env 32 h (\<lambda>_. Idle, s)
      [Done True (Started ESP_OK), Refused False ESP_ERR_INVALID_STATE] ((\<lambda>_. Idle)(True := Within), s1)"
    by (rule sample_tasks)
  obtain inst where "mounted h inst s" using s by (auto simp: journal_ready_def attached_def)
  from tasks_exclude_each_other [OF this r, of True False]
  have "\<forall>err s2. esp_jrnl_start sample_env h s1 = (Ret err, s2) \<longrightarrow> err = ESP_ERR_INVALID_STATE \<and> s2 = s1" by simp
  with r show ?thesis by blast
qed

theorem tasks_refine_volume_witness:
  "\<exists>h s s' ls. task_run sample_env 32 h (\<lambda>_ :: bool. Idle, s) ls (\<lambda>_. Idle, s') \<and>
     effects ls = [Started ESP_OK, Wrote sample_op ESP_OK, Stopped True ESP_OK] \<and>
     (\<exists>b. vol_run 32 (Ready sample_fs) (effects ls) b \<and> refines sample_env sample_io cells 32 sample_master b (h, s') \<and>
          vol_phase b = Outside)"
proof -
  obtain h s s3 where s: "sample_ready h sample_fs s"
    and r: "task_run sample_env 32 h (\<lambda>_. Idle, s)
      [Done True (Started ESP_OK), Refused False ESP_ERR_INVALID_STATE, Silent, Done True (Wrote sample_op ESP_OK),
       Silent, Silent, Done True (Stopped True ESP_OK)] (\<lambda>_. Idle, s3)" (is "task_run _ _ _ _ ?ls _")
    by (rule sample_tasks)
  have e: "effects ?ls = [Started ESP_OK, Wrote sample_op ESP_OK, Stopped True ESP_OK]" by simp
  have "disciplined 32 sample_master Outside (effects ?ls) = Some Outside" using sample_op_ok by simp
  with tasks_refine_volume [OF sample_device sample_geom sample_matches s r] r e show ?thesis by fastforce
qed

end
