(* ===== verification/Jrnl_Print.thy ===== *)
theory Jrnl_Print
  imports Jrnl_Sample
begin

text \<open>
  The printing functions of \<open>srcs/esp_jrnl.c\<close>, compiled in debugging builds and called by
  \<open>jrnl_replay\<close> under \<open>CONFIG_ESP_JRNL_DEBUG_PRINT\<close>. What \<open>esp_rom_printf\<close> sends to the console is
  the result of the models, character by character; \<open>ESP_LOG\<close> output is left out as everywhere.
  \<open>print_jrnl_instance\<close> walks over the log like the redo loop does, but without an allocation that
  depends on the header it reads: on a log it lists exactly the operations of the log, and on a
  header with the largest sector count it never ends.
\<close>

section \<open>Conversions of \<open>esp_rom_printf\<close>\<close>

definition digit_char :: "nat \<Rightarrow> char" where
  "digit_char d = (''0123456789ABCDEF'') ! d"

text \<open>\<open>%u\<close> and \<open>%d\<close>, and \<open>%08X\<close>: eight upper-case digits.\<close>

fun fmt_dec :: "nat \<Rightarrow> string" where
  "fmt_dec n = (if n < 10 then [digit_char n] else fmt_dec (n div 10) @ [digit_char (n mod 10)])"

declare fmt_dec.simps [simp del]

definition fmt_int :: "int \<Rightarrow> string" where
  "fmt_int i = (if i < 0 then ''-'' @ fmt_dec (nat (- i)) else fmt_dec (nat i))"

definition fmt_u :: "u32 \<Rightarrow> string" where
  "fmt_u w = fmt_dec (unat w)"

definition fmt_08X :: "u32 \<Rightarrow> string" where
  "fmt_08X w = map (\<lambda>i. digit_char (unat (drop_bit (4 * i) w AND 15))) [7, 6, 5, 4, 3, 2, 1, 0]"

definition fmt_bool :: "bool \<Rightarrow> string" where
  "fmt_bool b = (if b then ''1'' else ''0'')"

definition print_line :: "string \<Rightarrow> string \<Rightarrow> string" where
  "print_line label val = label @ val @ [CHR 0x0A]"

section \<open>Configuration and master record\<close>

text \<open>The addresses of the three disk routines, printed as numbers, are an argument.\<close>

definition print_jrnl_config_extended ::
  "u32 \<times> u32 \<times> u32 \<Rightarrow> 'd esp_jrnl_config_extended_t \<Rightarrow> string" where
  "print_jrnl_config_extended addrs config =
     (let (rd, wr, er) = addrs in
      [CHR 0x0A] @ print_line ''JRNL configuration:'' [] @
      print_line ''  user_cfg:'' [] @
      print_line ''    overwrite_existing: '' (fmt_bool (overwrite_existing (user_cfg config))) @
      print_line ''    store_size_sectors: '' (fmt_u (cfg_store_size_sectors (user_cfg config))) @
      print_line ''  fs_volume_id: '' (fmt_dec (unat (cfg_fs_volume_id config))) @
      print_line ''  volume_cfg:'' [] @
      print_line ''    volume_size: '' (fmt_u (volume_size (volume_cfg config))) @
      print_line ''    disk_sector_size: '' (fmt_u (disk_sector_size (volume_cfg config))) @
      print_line ''  diskio_cfg:'' [] @
      print_line ''    diskio_ctrl_handle: '' (fmt_int (diskio_ctrl_handle (diskio_cfg config))) @
      print_line ''    disk_read: Ox'' (fmt_08X rd) @
      print_line ''    disk_write: Ox'' (fmt_08X wr) @
      print_line ''    disk_erase_range: Ox'' (fmt_08X er))"

definition print_jrnl_master :: "esp_jrnl_master_t \<Rightarrow> string" where
  "print_jrnl_master m =
     [CHR 0x0A] @ print_line ''JRNL master record:'' [] @
     print_line ''   jrnl_magic_mark: 0x'' (fmt_08X (jrnl_magic_mark m)) @
     print_line ''   store_size_sectors: '' (fmt_u (store_size_sectors m)) @
     print_line ''   next_free_sector: '' (fmt_u (next_free_sector m)) @
     print_line ''   status: '' (jrnl_status_to_str (status m)) @
     print_line ''   volume.volume_size: '' (fmt_u (volume_size (volume m))) @
     print_line ''   volume.store_volume_offset_sector: '' (fmt_u (store_volume_offset_sector m)) @
     print_line ''   volume.disk_sector_size: '' (fmt_u (disk_sector_size (volume m)))"

section \<open>The log\<close>

text \<open>What is printed for the header number \<open>record_count\<close>.\<close>

definition print_operation :: "u32 \<Rightarrow> esp_jrnl_operation_t \<Rightarrow> string" where
  "print_operation record_count oper =
     [CHR 0x0A] @ print_line (''   OPER.HEADER '' @ fmt_u record_count @ '':'') [] @
     print_line ''      header.target_sector: '' (fmt_u (target_sector (oper_header oper))) @
     print_line ''      header.sector_count: '' (fmt_u (sector_count (oper_header oper))) @
     print_line ''      header.crc32_data: Ox'' (fmt_08X (crc32_data (oper_header oper))) @
     print_line ''      crc32_header: Ox'' (fmt_08X (crc32_header oper))"

text \<open>The loop, with the text printed so far; it has no result when it does not end.\<close>

partial_function (option) print_loop ::
  "esp_env \<Rightarrow> 'd esp_jrnl_instance_t \<Rightarrow> u32 \<Rightarrow> u32 \<Rightarrow> string \<Rightarrow> ('d, 'z) mach_scheme \<Rightarrow>
   (string outcome \<times> ('d, 'z) mach_scheme) option" where
  "print_loop E inst i record_count out s =
     (if \<not> i < next_free_sector (master inst) then Some (Ret out, s)
      else case jrnl_read_internal (Some inst) True i 1 s of
             (Ret (err, hdr), s') \<Rightarrow>
               if err \<noteq> ESP_OK then Some (Ret out, s')
               else if unat (disk_sector_size (volume (master inst))) < sizeof_operation then Some (Undefined, s')
               else
                 let oper = operation_of_bytes hdr in
                 if esp_crc32_le E UINT32_MAX (take sizeof_oper_header hdr) \<noteq> crc32_header oper
                 then Some (Ret out, s')
                 else print_loop E inst (i + (1 + sector_count (oper_header oper))) (record_count + 1)
                        (out @ print_operation record_count oper) s'
           | (Blocked, s') \<Rightarrow> Some (Blocked, s')
           | (Aborted, s') \<Rightarrow> Some (Aborted, s')
           | (Undefined, s') \<Rightarrow> Some (Undefined, s')
           | (Diverged, s') \<Rightarrow> Some (Diverged, s'))"

definition print_jrnl_instance ::
  "esp_env \<Rightarrow> 'd esp_jrnl_instance_t \<Rightarrow> (('d, 'z) mach_scheme, string) prog" where
  "print_jrnl_instance E inst =
     (let out = print_jrnl_master (master inst) in
      bind (calloc 1 (disk_sector_size (volume (master inst)))) (\<lambda>allocated.
      if \<not> allocated then ret out
      else (\<lambda>s. case print_loop E inst 0 0 out s of None \<Rightarrow> (Diverged, s) | Some r \<Rightarrow> r)))"

section \<open>What is printed for a log\<close>

fun print_log :: "esp_env \<Rightarrow> nat \<Rightarrow> u32 \<Rightarrow> jop list \<Rightarrow> string" where
  "print_log E sec n [] = []"
| "print_log E sec n (p # ps) = print_operation n (op_record E sec p) @ print_log E sec (n + 1) ps"

text \<open>One turn of the loop on a header the code wrote.\<close>

lemma print_loop_entry:
  assumes "i < next_free_sector (master inst)"
    and "jrnl_read_internal (Some inst) True i 1 s = (Ret (ESP_OK, header_sector E sec p), s')"
    and "sizeof_operation \<le> unat (disk_sector_size (volume (master inst)))"
  shows "print_loop E inst i n out s =
     print_loop E inst (i + (1 + of_nat (op_sectors sec p))) (n + 1) (out @ print_operation n (op_record E sec p)) s'"
  using assms by (subst print_loop.simps)
    (simp add: header_sector_parse op_record_def op_header_def sizeof_oper_header_def)

context block_device
begin

lemma print_loop_run:
  assumes io: "diskio inst = io" and g: "geom sector capacity (master inst)"
    and "log_from E sector (master inst) i ps (content (dev s))"
  shows "\<exists>k d. print_loop E inst i n out s =
       Some (Ret (out @ print_log E sector n (take k ps)), s\<lparr>dev := d\<rparr>) \<and> content d = content (dev s)"
  using assms(3)
proof (induction ps arbitrary: i n out s)
  case Nil
  then show ?case
    by (intro exI [of _ 0] exI [of _ "dev s"]) (simp add: print_loop.simps log_from_Nil [OF Nil])
next
  case (Cons p ps)
  let ?i = "i + (1 + of_nat (op_sectors sector p))"
  note hd = log_from_Cons [OF g Cons.prems]
  obtain err bs d where r: "jrnl_read_internal (Some inst) True i 1 s = (Ret (err, bs), s\<lparr>dev := d\<rparr>)"
    and c: "content d = content (dev s)" and b: "err = ESP_OK \<Longrightarrow> bs = header_sector E sector p"
    using read_internal_run [OF io g, of i 1 s] operation_at(3) [OF g hd(2-4)] hd(4) by auto
  show ?case
  proof (cases "err = ESP_OK")
    case False
    then show ?thesis using r hd(1) c
      by (intro exI [of _ 0] exI [of _ d]) (simp add: print_loop.simps [of E inst i])
  next
    case True
    let ?out = "out @ print_operation n (op_record E sector p)"
    obtain k d' where "print_loop E inst ?i (n + 1) ?out (s\<lparr>dev := d\<rparr>) =
        Some (Ret (?out @ print_log E sector (n + 1) (take k ps)), s\<lparr>dev := d'\<rparr>)" and "content d' = content d"
      using Cons.IH [of ?i "s\<lparr>dev := d\<rparr>" "n + 1" ?out] hd(5) c by auto
    then show ?thesis
      using print_loop_entry [OF hd(1) r [unfolded True b [OF True]] geom_header_fits [OF g]] c
      by (intro exI [of _ "Suc k"] exI [of _ d']) simp
  qed
qed

end

text \<open>On a healthy device every operation is printed.\<close>

context reliable_device
begin

lemma print_loop_serves:
  assumes io: "diskio inst = io" and g: "geom sector capacity (master inst)"
    and "log_from E sector (master inst) i ps (content (dev s))" and "healthy (dev s)"
  shows "\<exists>d. print_loop E inst i n out s = Some (Ret (out @ print_log E sector n ps), s\<lparr>dev := d\<rparr>) \<and>
     content d = content (dev s)"
  using assms(3,4)
proof (induction ps arbitrary: i n out s)
  case Nil
  then show ?case by (intro exI [of _ "dev s"]) (simp add: print_loop.simps log_from_Nil [OF Nil(1)])
next
  case (Cons p ps)
  let ?i = "i + (1 + of_nat (op_sectors sector p))" and ?out = "out @ print_operation n (op_record E sector p)"
  note hd = log_from_Cons [OF g Cons.prems(1)]
  obtain d where r: "jrnl_read_internal (Some inst) True i 1 s = (Ret (ESP_OK, header_sector E sector p), s\<lparr>dev := d\<rparr>)"
    and h: "healthy d" and c: "content d = content (dev s)"
    by (rule read_internal_serves [OF io g, of i 1 s])
      (use Cons.prems(2) hd(4) operation_at(3) [OF g hd(2-4)] in simp_all)
  obtain d' where "print_loop E inst ?i (n + 1) ?out (s\<lparr>dev := d\<rparr>) =
      Some (Ret (?out @ print_log E sector (n + 1) ps), s\<lparr>dev := d'\<rparr>)" and "content d' = content d"
    using Cons.IH [of ?i "s\<lparr>dev := d\<rparr>" "n + 1" ?out] hd(5) h c by auto
  then show ?case
    using print_loop_entry [OF hd(1) r geom_header_fits [OF g]] c by (intro exI [of _ d']) simp
qed

text \<open>
  A header at store sector 0 that passes the check and counts \<open>UINT32_MAX\<close> sectors: the index goes
  on by \<open>1 + UINT32_MAX\<close>, which is 0.
\<close>

lemma print_loop_stuck:
  fixes s :: "('d, 'z) mach_scheme"
  assumes io: "diskio inst = io" and g: "geom sector capacity (master inst)"
    and nf: "0 < next_free_sector (master inst)"
    and hdr: "get_bytes c (fs_sectors (master inst) * sector) sector = bs"
    and crc: "esp_crc32_le E UINT32_MAX (take sizeof_oper_header bs) = crc32_header (operation_of_bytes bs)"
    and cnt: "sector_count (oper_header (operation_of_bytes bs)) = UINT32_MAX"
    and "healthy (dev s)" and "content (dev s) = c"
  shows "print_loop E inst 0 n out s = None"
proof -
  let ?stuck = "\<lambda>E' inst' i t. E' = E \<and> inst' = inst \<and> i = 0 \<and> healthy (dev t) \<and> content (dev t) = c"
  have "\<not> ?stuck E' inst' i t"
    if "print_loop E' inst' i k o1 t = Some y" for E' inst' i k o1 y and t :: "('d, 'z) mach_scheme"
  proof (rule print_loop.raw_induct [where P = "\<lambda>E' inst' i k o1 t y. \<not> ?stuck E' inst' i t", OF _ that],
      goal_cases)
    case (1 rec E' inst' i k o1 t y)
    show ?case
    proof
      assume A: "?stuck E' inst' i t"
      obtain d where r: "jrnl_read_internal (Some inst) True 0 1 t = (Ret (ESP_OK, bs), t\<lparr>dev := d\<rparr>)"
        and h: "healthy d" and c: "content d = content (dev t)"
        by (rule read_internal_serves [OF io g, of 0 1 t])
          (use A hdr geom_sector_pos [OF g] in simp_all)
      have wrap: "(4294967296 :: u32) = 0" by simp
      obtain o2 where "rec E inst 0 (k + 1) o2 (t\<lparr>dev := d\<rparr>) = Some y"
        using 1(2) A r nf crc cnt geom_header_fits [OF g] by (auto simp: Let_def wrap)
      from 1(1) [OF this] show False using A h c by simp
    qed
  qed
  then show ?thesis using assms(7,8) by (cases "print_loop E inst 0 n out s") auto
qed

end

section \<open>Theorems\<close>

text \<open>
  C27. What is printed: on a healthy device with memory to spare, \<open>print_jrnl_instance\<close> prints the master
  record and then one entry for every operation of the log in the store, numbered from 0, with the
  target, the length and the two checksums the write put there; it changes nothing on the disk.
\<close>

theorem print_lists_log:
  assumes "reliable_device io content sec cap er healthy" and "diskio inst = io" and "geom sec cap (master inst)"
    and "log_in_store E sec (master inst) ps (content (dev s))"
    and "used_sectors (master inst) = log_sectors sec ps"
    and "healthy (dev s)" and "heap s = []"
  shows "\<exists>d. print_jrnl_instance E inst s =
       (Ret (print_jrnl_master (master inst) @ print_log E sec 0 ps), s\<lparr>dev := d\<rparr>) \<and>
     content d = content (dev s)"
proof -
  have "log_from E sec (master inst) 0 ps (content (dev s))"
    using assms(4,5) by (simp add: log_from_def log_in_store_def)
  from reliable_device.print_loop_serves [OF assms(1-3) this assms(6)]
  obtain d where l: "print_loop E inst 0 0 (print_jrnl_master (master inst)) s =
      Some (Ret (print_jrnl_master (master inst) @ print_log E sec 0 ps), s\<lparr>dev := d\<rparr>)"
    and c: "content d = content (dev s)"
    by blast
  have "unat (disk_sector_size (volume (master inst))) < 2 ^ 32" by (rule unat_lt_2_32)
  then have "calloc 1 (disk_sector_size (volume (master inst))) s = (Ret True, s)"
    using assms(7) by (intro calloc_empty_heap) simp_all
  then show ?thesis
    using l c by (intro exI [of _ d]) (simp add: print_jrnl_instance_def Let_def run_bind_Ret)
qed

definition committed_instance :: "flash esp_jrnl_instance_t" where
  "committed_instance = (sample_in ESP_JRNL_STATUS_TRANS_COMMIT)\<lparr>master := committed_master\<rparr>"

theorem print_lists_log_witness:
  "\<exists>d. print_jrnl_instance sample_env committed_instance (boot committed_flash []) =
     (Ret (print_jrnl_master committed_master @ print_operation 0 (op_record sample_env 32 sample_op)),
      (boot committed_flash [])\<lparr>dev := d\<rparr>) \<and> cells d = cells committed_flash"
proof -
  have rel: "reliable_device sample_io cells 32 384 0xFF (\<lambda>f. ops_left f = None)"
    using sample_reliable by (simp add: byte_reliable_device_def)
  have geo: "same_geometry sample_master committed_master" by (simp add: committed_master_def)
  have "log_in_store sample_env 32 committed_master [sample_op] (cells committed_flash)"
    using committed_sample by (simp add: committed_disk_def same_geometry_log [OF geo])
  then show ?thesis
    using print_lists_log [OF rel, of committed_instance sample_env "[sample_op]" "boot committed_flash []"]
      sample_geom same_geometry_geom [OF geo, of 32 384]
    by (simp add: committed_instance_def sample_in_def sample_instance_def boot_def committed_flash_def
        sample_flash_def committed_master_def op_sectors_def sample_op_def new_instance_def sample_config_def)
qed

text \<open>
  Printing may never end. On a store whose first header passes its checksum and counts
  \<open>UINT32_MAX\<close> sectors, the index of the loop wraps round to the same header:
  \<open>print_jrnl_instance\<close> prints it for ever. The redo loop of \<open>jrnl_replay\<close> over the same store returns
  \<open>ESP_ERR_NO_MEM\<close>, because it has to allocate a buffer for the data first.
\<close>

theorem print_may_not_end:
  assumes dev: "reliable_device io content sec cap er healthy" and io: "diskio inst = io"
    and g: "geom sec cap (master inst)" and nf: "0 < next_free_sector (master inst)"
    and hdr: "get_bytes (content (dev s)) (fs_sectors (master inst) * sec) sec = operation_bytes p @ rest"
    and crc: "esp_crc32_le E UINT32_MAX (oper_header_bytes (oper_header p)) = crc32_header p"
    and cnt: "sector_count (oper_header p) = UINT32_MAX"
    and hl: "healthy (dev s)" and hp: "heap s = []"
  shows "fst (print_jrnl_instance E inst s) = Diverged \<and>
     (\<exists>s'. replay_operations E inst s = (Ret ESP_ERR_NO_MEM, s'))"
proof
  let ?bs = "operation_bytes p @ rest" and ?ss = "disk_sector_size (volume (master inst))"
  have parse: "operation_of_bytes ?bs = p" "take sizeof_oper_header ?bs = oper_header_bytes (oper_header p)"
    by (simp_all only: operation_roundtrip sizeof_oper_header_def take_operation_bytes)
  have l: "print_loop E inst 0 0 out s = None" for out
    by (rule reliable_device.print_loop_stuck [OF dev io g nf hdr _ _ hl refl]) (simp_all only: parse crc cnt)
  have "unat ?ss < 2 ^ 32" by (rule unat_lt_2_32)
  then have "calloc 1 ?ss s = (Ret True, s)" using hp by (intro calloc_empty_heap) simp_all
  then show "fst (print_jrnl_instance E inst s) = Diverged"
    using l by (simp add: print_jrnl_instance_def Let_def run_bind_Ret)
  obtain d where r: "jrnl_read_internal (Some inst) True 0 1 s = (Ret (ESP_OK, ?bs), s\<lparr>dev := d\<rparr>)"
    by (rule reliable_device.read_internal_serves [OF dev io g, of 0 1 s])
      (use hl hdr geom_sector_pos [OF g] in simp_all)
  have "28 \<le> unat ?ss" using g geom_sector_pos [OF g] by (simp add: geom_def)
  then have "2 ^ 32 \<le> unat (UINT32_MAX) * unat ?ss"
    using mult_le_mono2 [of 28 "unat ?ss" "unat UINT32_MAX"] by simp
  then have "calloc UINT32_MAX ?ss (s\<lparr>dev := d\<rparr>) = (Ret False, s\<lparr>dev := d\<rparr>)" by (simp add: calloc_def)
  moreover have "esp_crc32_le E UINT32_MAX (take sizeof_oper_header ?bs) = crc32_header p"
    by (simp only: parse crc)
  ultimately have "fetch_operation E inst 0 s = (Ret (Inl ESP_ERR_NO_MEM), s\<lparr>dev := d\<rparr>)"
    using r parse(1) cnt geom_header_fits [OF g]
    by (simp add: fetch_operation_def Let_def bind_def ret_def)
  then show "\<exists>s'. replay_operations E inst s = (Ret ESP_ERR_NO_MEM, s')"
    using nf by (simp add: replay_operations_def replay_loop.simps [of E inst 0] replay_operation_def
        run_bind_Ret run_ret)
qed

definition endless_operation :: esp_jrnl_operation_t where
  "endless_operation =
     (let h = \<lparr> target_sector = 0, sector_count = UINT32_MAX, crc32_data = 0 \<rparr>
      in \<lparr> oper_header = h, crc32_header = esp_crc32_le sample_env UINT32_MAX (oper_header_bytes h) \<rparr>)"

definition endless_flash :: flash where
  "endless_flash = sample_flash\<lparr>cells :=
     put_bytes (cells sample_flash) 128 (operation_bytes endless_operation @ replicate 16 0)\<rparr>"

theorem print_may_not_end_witness:
  "fst (print_jrnl_instance sample_env committed_instance (boot endless_flash [])) = Diverged \<and>
   (\<exists>s'. replay_operations sample_env committed_instance (boot endless_flash []) = (Ret ESP_ERR_NO_MEM, s'))"
proof -
  have rel: "reliable_device sample_io cells 32 384 0xFF (\<lambda>f. ops_left f = None)"
    using sample_reliable by (simp add: byte_reliable_device_def)
  have geo: "same_geometry sample_master committed_master" by (simp add: committed_master_def)
  have hdr: "get_bytes (cells (dev (boot endless_flash []))) (fs_sectors (master committed_instance) * 32) 32 =
      operation_bytes endless_operation @ replicate 16 0"
    by (simp add: boot_def endless_flash_def committed_instance_def committed_master_def sample_master_def get_put_same)
  show ?thesis
    using print_may_not_end [OF rel _ _ _ hdr, of sample_env] sample_geom same_geometry_geom [OF geo, of 32 384]
    by (simp add: committed_instance_def sample_in_def sample_instance_def boot_def endless_flash_def
        sample_flash_def committed_master_def endless_operation_def Let_def new_instance_def sample_config_def)
qed

end
