(* ===== verification/Jrnl_Testmode.thy ===== *)
theory Jrnl_Testmode
  imports Jrnl_Sample
begin

text \<open>
  The build with \<open>CONFIG_ESP_JRNL_ENABLE_TESTMODE\<close>: flags in the instance (\<open>test_config\<close>) make
  \<open>esp_jrnl_stop\<close> and \<open>jrnl_replay\<close> call \<open>esp_restart\<close> at chosen points, to emulate a loss of power
  there, or switch transactions off. The functions the flags reach are modelled a second time with
  the test macros in their places; every other function is the one of the production build. The
  theorems: without an effective flag the two builds are the same, every emulated loss of power leaves a
  disk from which the next mount recovers the file system the flag stands for, and suspended
  transactions leave the journal closed.
\<close>

section \<open>Model\<close>

definition ESP_JRNL_TEST_STOP_SKIP_COMMIT :: u32 where "ESP_JRNL_TEST_STOP_SKIP_COMMIT = 0x01"
definition ESP_JRNL_TEST_STOP_SET_COMMIT_AND_EXIT :: u32 where "ESP_JRNL_TEST_STOP_SET_COMMIT_AND_EXIT = 0x02"
definition ESP_JRNL_TEST_REPLAY_ERASE_AND_EXIT :: u32 where "ESP_JRNL_TEST_REPLAY_ERASE_AND_EXIT = 0x04"
definition ESP_JRNL_TEST_REPLAY_WRITE_AND_EXIT :: u32 where "ESP_JRNL_TEST_REPLAY_WRITE_AND_EXIT = 0x08"
definition ESP_JRNL_TEST_REPLAY_EXIT_BEFORE_CLOSE :: u32 where "ESP_JRNL_TEST_REPLAY_EXIT_BEFORE_CLOSE = 0x10"
definition ESP_JRNL_TEST_REQUIRE_FILE_CLOSE :: u32 where "ESP_JRNL_TEST_REQUIRE_FILE_CLOSE = 0x20"
definition ESP_JRNL_TEST_SUSPEND_TRANSACTION :: u32 where "ESP_JRNL_TEST_SUSPEND_TRANSACTION = 0x40"

text \<open>
  The field \<open>test_config\<close> of the instance in each slot of the table. The functions modelled here only
  read it; a mount creates the instance with \<open>calloc\<close>, so it starts as 0.
\<close>

record 'd test_world = "'d jrnl_world" +
  test_configs :: "u32 list"

abbreviation test_config :: "esp_jrnl_handle_t \<Rightarrow> ('d, 'z) test_world_scheme \<Rightarrow> u32" where
  "test_config h s \<equiv> test_configs s ! nat h"

text \<open>\<open>esp_restart\<close> does not return: the memory is lost, the devices stay as they are.\<close>

datatype 'a test_run = Finished 'a | Restarted

definition finished :: "('s, 'a) prog \<Rightarrow> ('s, 'a test_run) prog" where
  "finished p = bind p (\<lambda>x. ret (Finished x))"

text \<open>The condition of \<open>JRNL_TEST_PRELIMINARY_EXIT\<close> and that of \<open>JRNL_TEST_TRANSACTION_SUSPENDED\<close>.\<close>

definition JRNL_TEST_PRELIMINARY_EXIT :: "u32 \<Rightarrow> esp_jrnl_master_t \<Rightarrow> u32 \<Rightarrow> bool" where
  "JRNL_TEST_PRELIMINARY_EXIT cfg m flags \<longleftrightarrow> 0 < next_free_sector m \<and> cfg AND flags \<noteq> 0"

definition JRNL_TEST_TRANSACTION_SUSPENDED :: "u32 \<Rightarrow> bool" where
  "JRNL_TEST_TRANSACTION_SUSPENDED cfg \<longleftrightarrow> cfg AND ESP_JRNL_TEST_SUSPEND_TRANSACTION \<noteq> 0"

definition test_replay_operation ::
  "esp_env \<Rightarrow> u32 \<Rightarrow> 'd esp_jrnl_instance_t \<Rightarrow> u32 \<Rightarrow>
   (('d, 'z) mach_scheme, (esp_err_t + u32) test_run) prog" where
  "test_replay_operation E cfg inst oper_sector_index =
     bind (fetch_operation E inst oper_sector_index) (\<lambda>fetched.
     case fetched of
       Inl err \<Rightarrow> ret (Finished (Inl err))
     | Inr (h, data) \<Rightarrow>
         let sector_size = disk_sector_size (volume (master inst)); n = sector_count h * sector_size in
         bind (jrnl_erase_range_raw inst (target_sector h * sector_size) n) (\<lambda>err.
         if err \<noteq> ESP_OK then ret (Finished (Inl err))
         else if JRNL_TEST_PRELIMINARY_EXIT cfg (master inst) ESP_JRNL_TEST_REPLAY_ERASE_AND_EXIT
         then ret Restarted
         else
         bind (jrnl_write_raw inst (target_sector h * sector_size) data n) (\<lambda>err.
         if err \<noteq> ESP_OK then ret (Finished (Inl err))
         else if JRNL_TEST_PRELIMINARY_EXIT cfg (master inst) ESP_JRNL_TEST_REPLAY_WRITE_AND_EXIT
         then ret Restarted
         else ret (Finished (Inr (oper_sector_index + (1 + sector_count h)))))))"

partial_function (option) test_replay_loop ::
  "esp_env \<Rightarrow> u32 \<Rightarrow> 'd esp_jrnl_instance_t \<Rightarrow> u32 \<Rightarrow> ('d, 'z) mach_scheme \<Rightarrow>
   (esp_err_t test_run outcome \<times> ('d, 'z) mach_scheme) option" where
  "test_replay_loop E cfg inst i s =
     (if \<not> i < next_free_sector (master inst) then Some (Ret (Finished ESP_OK), s)
      else case test_replay_operation E cfg inst i s of
             (Ret (Finished (Inl err)), s') \<Rightarrow> Some (Ret (Finished err), s')
           | (Ret (Finished (Inr i')), s') \<Rightarrow> test_replay_loop E cfg inst i' s'
           | (Ret Restarted, s') \<Rightarrow> Some (Ret Restarted, s')
           | (Blocked, s') \<Rightarrow> Some (Blocked, s')
           | (Aborted, s') \<Rightarrow> Some (Aborted, s')
           | (Undefined, s') \<Rightarrow> Some (Undefined, s')
           | (Diverged, s') \<Rightarrow> Some (Diverged, s'))"

definition test_replay_operations ::
  "esp_env \<Rightarrow> u32 \<Rightarrow> 'd esp_jrnl_instance_t \<Rightarrow> (('d, 'z) mach_scheme, esp_err_t test_run) prog" where
  "test_replay_operations E cfg inst =
     (\<lambda>s. case test_replay_loop E cfg inst 0 s of None \<Rightarrow> (Diverged, s) | Some r \<Rightarrow> r)"

definition test_jrnl_replay ::
  "esp_env \<Rightarrow> u32 \<Rightarrow> 'd esp_jrnl_instance_t option \<Rightarrow>
   (('d, 'z) mach_scheme, (esp_err_t \<times> 'd esp_jrnl_instance_t option) test_run) prog" where
  "test_jrnl_replay E cfg inst_ptr =
     (case inst_ptr of
        None \<Rightarrow> ret (Finished (ESP_ERR_INVALID_ARG, None))
      | Some inst0 \<Rightarrow>
          bind (lock_acquire (trans_lock inst0)) (\<lambda>locked.
          let inst = inst0\<lparr>trans_lock := locked\<rparr> in
          bind (assert_that (status (master inst) \<noteq> ESP_JRNL_STATUS_FS_INIT)) (\<lambda>_.
          if status (master inst) \<noteq> ESP_JRNL_STATUS_TRANS_COMMIT then
            bind (case status (master inst) of
                    ESP_JRNL_STATUS_TRANS_READY \<Rightarrow> ret (ESP_OK, Some inst)
                  | ESP_JRNL_STATUS_TRANS_OPEN \<Rightarrow> jrnl_reset_master E (Some inst) False
                  | _ \<Rightarrow> ret (ESP_ERR_INVALID_STATE, Some inst)) (\<lambda>(err, p).
            ret (Finished (err, release_trans_lock p)))
          else
            bind (calloc 1 (disk_sector_size (volume (master inst)))) (\<lambda>allocated.
            if \<not> allocated then ret (Finished (ESP_ERR_NO_MEM, Some inst))
            else
            bind (test_replay_operations E cfg inst) (\<lambda>replayed.
            case replayed of Restarted \<Rightarrow> ret Restarted | Finished err \<Rightarrow>
            if err \<noteq> ESP_OK then ret (Finished (err, release_trans_lock (Some inst)))
            else if JRNL_TEST_PRELIMINARY_EXIT cfg (master inst) ESP_JRNL_TEST_REPLAY_EXIT_BEFORE_CLOSE
            then ret Restarted
            else
              bind (jrnl_reset_master E (Some inst) False) (\<lambda>(err, p).
              ret (Finished (err, release_trans_lock p))))))))"

definition test_esp_jrnl_start ::
  "esp_env \<Rightarrow> esp_jrnl_handle_t \<Rightarrow> (('d, 'z) test_world_scheme, esp_err_t) prog" where
  "test_esp_jrnl_start E h =
     bind (jrnl_check_handle h) (\<lambda>err.
     if err \<noteq> ESP_OK then ret err
     else with_instance h (\<lambda>inst.
       bind (gets (test_config h)) (\<lambda>cfg.
       if JRNL_TEST_TRANSACTION_SUSPENDED cfg then ret ESP_OK
       else
       bind (lock_acquire (trans_lock inst)) (\<lambda>locked.
       if status (master inst) = ESP_JRNL_STATUS_TRANS_READY then
         bind (assert_that (next_free_sector (master inst) = 0)) (\<lambda>_.
         let inst1 = inst\<lparr>trans_lock := locked,
                          master := (master inst)\<lparr>status := ESP_JRNL_STATUS_TRANS_OPEN\<rparr>\<rparr>
         in bind (jrnl_update_master E inst1 (master inst1)) (\<lambda>err.
            bind (put_instance h (release_trans_lock (Some inst1))) (\<lambda>_.
            ret err)))
       else
         bind (put_instance h (release_trans_lock (Some inst))) (\<lambda>_.
         ret ESP_ERR_INVALID_STATE)))))"

text \<open>
  The exit after the commit record does not look at the result of writing it.
\<close>

definition test_esp_jrnl_stop ::
  "esp_env \<Rightarrow> esp_jrnl_handle_t \<Rightarrow> bool \<Rightarrow> (('d, 'z) test_world_scheme, esp_err_t test_run) prog" where
  "test_esp_jrnl_stop E h commit =
     bind (jrnl_check_handle h) (\<lambda>err.
     if err \<noteq> ESP_OK then ret (Finished err)
     else with_instance h (\<lambda>inst.
       bind (gets (test_config h)) (\<lambda>cfg.
       if JRNL_TEST_TRANSACTION_SUSPENDED cfg then ret (Finished ESP_OK)
       else if \<not> commit then
         bind (lock_acquire (trans_lock inst)) (\<lambda>locked.
         bind (jrnl_reset_master E (Some (inst\<lparr>trans_lock := locked\<rparr>)) False) (\<lambda>(err, p).
         bind (put_instance h (release_trans_lock p)) (\<lambda>_.
         ret (Finished err))))
       else if JRNL_TEST_PRELIMINARY_EXIT cfg (master inst) ESP_JRNL_TEST_STOP_SKIP_COMMIT
       then ret Restarted
       else if status (master inst) = ESP_JRNL_STATUS_TRANS_OPEN then
         bind (lock_acquire (trans_lock inst)) (\<lambda>locked.
         let inst1 = inst\<lparr>trans_lock := locked,
                          master := (master inst)\<lparr>status := ESP_JRNL_STATUS_TRANS_COMMIT\<rparr>\<rparr>
         in bind (jrnl_update_master E inst1 (master inst1)) (\<lambda>err.
            let p1 = release_trans_lock (Some inst1) in
            bind (put_instance h p1) (\<lambda>_.
            if JRNL_TEST_PRELIMINARY_EXIT cfg (master inst1) ESP_JRNL_TEST_STOP_SET_COMMIT_AND_EXIT
            then ret Restarted
            else if err \<noteq> ESP_OK then ret (Finished err)
            else
              bind (test_jrnl_replay E cfg p1) (\<lambda>replayed.
              case replayed of Restarted \<Rightarrow> ret Restarted | Finished (err, p2) \<Rightarrow>
              bind (put_instance h p2) (\<lambda>_.
              ret (Finished err))))))
       else ret (Finished ESP_ERR_INVALID_STATE))))"

section \<open>Without an effective flag\<close>

text \<open>The flags that stop the program, as one mask.\<close>

definition no_exit :: "u32 \<Rightarrow> esp_jrnl_master_t \<Rightarrow> bool" where
  "no_exit cfg m \<longleftrightarrow> next_free_sector m = 0 \<or> cfg AND 0x1F = 0"

lemma and_mask_zero:
  fixes a b c :: u32
  assumes "a AND b = 0" and "b AND c = c"
  shows "a AND c = 0"
  using assms by (metis and.assoc zero_and_eq)

lemma no_exit_exits [simp]:
  assumes "no_exit cfg m"
  shows "\<not> JRNL_TEST_PRELIMINARY_EXIT cfg m ESP_JRNL_TEST_STOP_SKIP_COMMIT"
    "\<not> JRNL_TEST_PRELIMINARY_EXIT cfg m ESP_JRNL_TEST_STOP_SET_COMMIT_AND_EXIT"
    "\<not> JRNL_TEST_PRELIMINARY_EXIT cfg m ESP_JRNL_TEST_REPLAY_ERASE_AND_EXIT"
    "\<not> JRNL_TEST_PRELIMINARY_EXIT cfg m ESP_JRNL_TEST_REPLAY_WRITE_AND_EXIT"
    "\<not> JRNL_TEST_PRELIMINARY_EXIT cfg m ESP_JRNL_TEST_REPLAY_EXIT_BEFORE_CLOSE"
proof -
  have "cfg AND f = 0" if "cfg AND 0x1F = 0" "(0x1F :: u32) AND f = f" for f
    using that by (rule and_mask_zero)
  then show "\<not> JRNL_TEST_PRELIMINARY_EXIT cfg m ESP_JRNL_TEST_STOP_SKIP_COMMIT"
    "\<not> JRNL_TEST_PRELIMINARY_EXIT cfg m ESP_JRNL_TEST_STOP_SET_COMMIT_AND_EXIT"
    "\<not> JRNL_TEST_PRELIMINARY_EXIT cfg m ESP_JRNL_TEST_REPLAY_ERASE_AND_EXIT"
    "\<not> JRNL_TEST_PRELIMINARY_EXIT cfg m ESP_JRNL_TEST_REPLAY_WRITE_AND_EXIT"
    "\<not> JRNL_TEST_PRELIMINARY_EXIT cfg m ESP_JRNL_TEST_REPLAY_EXIT_BEFORE_CLOSE"
    using assms
    by (auto simp: no_exit_def JRNL_TEST_PRELIMINARY_EXIT_def ESP_JRNL_TEST_STOP_SKIP_COMMIT_def
        ESP_JRNL_TEST_STOP_SET_COMMIT_AND_EXIT_def ESP_JRNL_TEST_REPLAY_ERASE_AND_EXIT_def
        ESP_JRNL_TEST_REPLAY_WRITE_AND_EXIT_def ESP_JRNL_TEST_REPLAY_EXIT_BEFORE_CLOSE_def)
qed

lemma no_exit_status [simp]: "no_exit cfg (m\<lparr>status := st\<rparr>) = no_exit cfg m"
  by (simp add: no_exit_def)

text \<open>\<open>finished\<close> runs through the combinators.\<close>

named_theorems finished_simps \<open>moving \<open>finished\<close> inwards\<close>

lemma finished_bind [finished_simps]: "finished (bind p f) = bind p (\<lambda>x. finished (f x))"
  by (simp add: finished_def bind_assoc)

lemma finished_ret [finished_simps]: "finished (ret x) = ret (Finished x)"
  by (simp add: finished_def fun_eq_iff prog_simps)

lemma finished_split [finished_simps]:
  "finished (if b then p else q) = (if b then finished p else finished q)"
  "finished (case r of (x, y) \<Rightarrow> f x y) = (case r of (x, y) \<Rightarrow> finished (f x y))"
  "finished (case z of Inl x \<Rightarrow> g x | Inr y \<Rightarrow> k y) = (case z of Inl x \<Rightarrow> finished (g x) | Inr y \<Rightarrow> finished (k y))"
  by (simp_all split: prod.splits sum.splits)

lemma finished_with_instance [finished_simps]:
  "finished (with_instance h f) = with_instance h (\<lambda>i. finished (f i))"
  unfolding with_instance_def finished_bind
  by (rule arg_cong [where f = "bind _"], rule ext)
    (auto simp: finished_def fun_eq_iff prog_simps split: option.splits)

lemma bind_finished: "bind (finished p) f = bind p (\<lambda>x. f (Finished x))"
  by (simp add: finished_def bind_assoc) (simp add: bind_def ret_def fun_eq_iff split: prod.splits outcome.splits)

lemma test_replay_operation_no_exit:
  "no_exit cfg (master inst) \<Longrightarrow> test_replay_operation E cfg inst i = finished (replay_operation E inst i)"
  unfolding test_replay_operation_def replay_operation_def finished_bind
  by (intro arg_cong [where f = "bind _"] ext) (auto simp: finished_simps Let_def split: sum.splits cong: if_cong)

lemma finished_run: "finished p s = (case p s of (r, t) \<Rightarrow> (map_outcome Finished r, t))"
  by (auto simp: finished_def bind_def ret_def split: prod.splits outcome.splits)

lemma finished_not_restarted: "finished p s \<noteq> (Ret Restarted, t)"
  by (cases "p s", cases "fst (p s)") (auto simp: finished_run)

text \<open>The two loops end together and with the same result.\<close>

lemma replay_loop_test:
  assumes q: "no_exit cfg (master inst)" and "replay_loop E inst i s = Some (r, t)"
  shows "test_replay_loop E cfg inst i s = Some (map_outcome Finished r, t)"
proof -
  have "E' = E \<and> inst' = inst \<longrightarrow>
      test_replay_loop E cfg inst i s = Some (map_outcome Finished (fst y), snd y)"
    if "replay_loop E' inst' i s = Some y" for E' inst' i s y
  proof (rule replay_loop.raw_induct [where P = "\<lambda>E' inst' i s y. E' = E \<and> inst' = inst \<longrightarrow>
      test_replay_loop E cfg inst i s = Some (map_outcome Finished (fst y), snd y)", OF _ that], goal_cases)
    case (1 rec E' inst' i s y)
    obtain x s' where x: "replay_operation E inst i s = (x, s')" by fastforce
    have "test_replay_operation E cfg inst i s = (map_outcome Finished x, s')"
      by (simp add: test_replay_operation_no_exit [OF q] finished_run x)
    then show ?case
      using 1 x by (subst test_replay_loop.simps) (auto split: outcome.splits sum.splits)
  qed
  from this [OF assms(2)] show ?thesis by simp
qed

lemma test_loop_ends:
  assumes q: "no_exit cfg (master inst)" and "test_replay_loop E cfg inst i s = Some y"
  shows "replay_loop E inst i s \<noteq> None"
proof -
  have "E' = E \<and> cfg' = cfg \<and> inst' = inst \<longrightarrow> replay_loop E inst i s \<noteq> None"
    if "test_replay_loop E' cfg' inst' i s = Some y" for E' cfg' inst' i s y
  proof (rule test_replay_loop.raw_induct [where P = "\<lambda>E' cfg' inst' i s y.
      E' = E \<and> cfg' = cfg \<and> inst' = inst \<longrightarrow> replay_loop E inst i s \<noteq> None", OF _ that], goal_cases)
    case (1 rec E' cfg' inst' i s y)
    obtain x s' where x: "replay_operation E inst i s = (x, s')" by fastforce
    have "test_replay_operation E cfg inst i s = (map_outcome Finished x, s')"
      by (simp add: test_replay_operation_no_exit [OF q] finished_run x)
    moreover have "\<exists>a b. replay_loop E inst j t = Some (a, b)" if "rec E cfg inst j t = Some y" for j t
      using 1(1) [OF that] by auto
    ultimately show ?case
      using 1(2) x by (subst replay_loop.simps) (auto split: outcome.splits sum.splits if_splits)
  qed
  from this [OF assms(2)] show ?thesis by simp
qed

lemma test_replay_operations_no_exit:
  assumes "no_exit cfg (master inst)"
  shows "test_replay_operations E cfg inst = finished (replay_operations E inst)"
proof
  fix s
  show "test_replay_operations E cfg inst s = finished (replay_operations E inst) s"
  proof (cases "replay_loop E inst 0 s")
    case None
    then have "test_replay_loop E cfg inst 0 s = None" 
      using test_loop_ends [OF assms, of E 0 s] by (cases "test_replay_loop E cfg inst 0 s") auto
    then show ?thesis using None by (simp add: test_replay_operations_def replay_operations_def finished_run)
  next
    case (Some y)
    then show ?thesis using replay_loop_test [OF assms, of E 0 s "fst y" "snd y"]
      by (simp add: test_replay_operations_def replay_operations_def finished_run split: prod.splits)
  qed
qed

lemma test_jrnl_replay_no_exit:
  assumes "\<And>inst. p = Some inst \<Longrightarrow> no_exit cfg (master inst)"
  shows "test_jrnl_replay E cfg p = finished (jrnl_replay E p)"
proof (cases p)
  case (Some inst)
  then have q: "no_exit cfg (master inst)" using assms by simp
  have eq: "test_replay_operations E cfg (inst\<lparr>trans_lock := b\<rparr>) = finished (replay_operations E (inst\<lparr>trans_lock := b\<rparr>))" for b
    using q by (simp add: test_replay_operations_no_exit)
  show ?thesis
    using q unfolding test_jrnl_replay_def jrnl_replay_def Some option.case Let_def finished_bind
    by (intro arg_cong [where f = "bind _"] ext)
      (auto simp: finished_simps eq bind_finished bind_assoc run_bind_simple fun_eq_iff
        intro!: arg_cong [where f = "\<lambda>f. bind _ f _"] split: prod.splits)
qed (simp add: test_jrnl_replay_def jrnl_replay_def finished_simps)

lemma check_handle_result: "jrnl_check_handle h s = (Undefined, s) \<or> (\<exists>err. jrnl_check_handle h s = (Ret err, s))"
  by (auto simp: jrnl_check_handle_def prog_simps)

lemma test_start_no_exit:
  assumes "\<not> JRNL_TEST_TRANSACTION_SUSPENDED (test_config h s)"
  shows "test_esp_jrnl_start E h s = esp_jrnl_start E h s"
  using check_handle_result [of h s] assms
  unfolding test_esp_jrnl_start_def esp_jrnl_start_def with_instance_def
  by (elim disjE exE) (simp_all add: bind_def [of "jrnl_check_handle h"] prog_simps split: option.splits)

lemma test_stop_no_exit:
  assumes ns: "\<not> JRNL_TEST_TRANSACTION_SUSPENDED (test_config h s)"
    and q: "\<forall>inst. s_jrnl_instance_ptrs s ! nat h = Some inst \<longrightarrow> no_exit (test_config h s) (master inst)"
  shows "test_esp_jrnl_stop E h commit s = finished (esp_jrnl_stop E h commit) s"
proof (cases "s_jrnl_instance_ptrs s ! nat h")
  case None
  then show ?thesis
    using check_handle_result [of h s]
    unfolding test_esp_jrnl_stop_def esp_jrnl_stop_def with_instance_def finished_simps
    by (elim disjE exE) (simp_all add: bind_def [of "jrnl_check_handle h"] prog_simps finished_run undefined_behaviour_def)
next
  case (Some inst)
  have rep: "test_jrnl_replay E (test_config h s) (Some i) = finished (jrnl_replay E (Some i))"
    if "next_free_sector (master i) = next_free_sector (master inst)" for i
    using q Some that by (intro test_jrnl_replay_no_exit) (simp add: no_exit_def)
  from check_handle_result [of h s] show ?thesis
    unfolding test_esp_jrnl_stop_def esp_jrnl_stop_def with_instance_def finished_simps
    using ns q Some
    by (elim disjE exE)
      (auto simp: bind_def [of "jrnl_check_handle h"] prog_simps finished_simps Let_def rep bind_finished
        release_trans_lock_def intro!: arg_cong [where f = "\<lambda>f. bind _ f _"] split: prod.splits)
qed

text \<open>
  C18. Equivalence of the builds. As long as transactions are not suspended, starting one is what it is
  in the production build. Stopping one is too, and ends without a restart, if in addition nothing
  was journaled or none of the five flags that emulate a loss of power is set. The replay in a
  mount, whose instance comes from \<open>calloc\<close>, is that of the production build as well.
\<close>

theorem test_build_equivalent:
  assumes "\<not> JRNL_TEST_TRANSACTION_SUSPENDED (test_config h s)"
  shows "test_esp_jrnl_start E h s = esp_jrnl_start E h s \<and>
     ((\<forall>inst. s_jrnl_instance_ptrs s ! nat h = Some inst \<longrightarrow> no_exit (test_config h s) (master inst)) \<longrightarrow>
      test_esp_jrnl_stop E h commit s = finished (esp_jrnl_stop E h commit) s) \<and>
     test_jrnl_replay E 0 p = finished (jrnl_replay E p)"
  using test_start_no_exit [OF assms] test_stop_no_exit [OF assms] test_jrnl_replay_no_exit [of p 0 E]
  by (simp add: no_exit_def)

section \<open>Emulated losses of power\<close>

lemma something_logged:
  "used_sectors m = log_sectors sec ps \<Longrightarrow> 0 < next_free_sector m \<longleftrightarrow> ps \<noteq> []"
  by (cases ps) (auto simp: word_less_nat_alt unat_eq_zero)

lemma test_commit_run:
  assumes mt: "mounted h inst s" and unlocked: "\<not> trans_lock inst"
    and st: "status (master inst) = ESP_JRNL_STATUS_TRANS_OPEN"
    and ns: "\<not> JRNL_TEST_TRANSACTION_SUSPENDED (test_config h s)"
  defines "inst1 \<equiv> inst\<lparr>master := (master inst)\<lparr>status := ESP_JRNL_STATUS_TRANS_COMMIT\<rparr>\<rparr>"
  shows "test_esp_jrnl_stop E h True s =
    (if JRNL_TEST_PRELIMINARY_EXIT (test_config h s) (master inst) ESP_JRNL_TEST_STOP_SKIP_COMMIT
     then (Ret Restarted, s)
     else bind (jrnl_update_master E (inst1\<lparr>trans_lock := True\<rparr>) (master inst1)) (\<lambda>err.
       bind (put_instance h (Some inst1)) (\<lambda>_.
       if JRNL_TEST_PRELIMINARY_EXIT (test_config h s) (master inst) ESP_JRNL_TEST_STOP_SET_COMMIT_AND_EXIT
       then ret Restarted
       else if err \<noteq> ESP_OK then ret (Finished err)
       else bind (test_jrnl_replay E (test_config h s) (Some inst1)) (\<lambda>replayed.
            case replayed of Restarted \<Rightarrow> ret Restarted | Finished (err, p2) \<Rightarrow>
            bind (put_instance h p2) (\<lambda>_. ret (Finished err))))) s)"
proof (cases inst)
  case (fields lk vid dio ms)
  then show ?thesis
    using unlocked st ns unfolding inst1_def
    by (simp add: test_esp_jrnl_stop_def mounted_run [OF mt] prog_simps Let_def JRNL_TEST_PRELIMINARY_EXIT_def
        release_trans_lock_def cong: if_cong)
qed

context block_device
begin

lemma test_operation_run:
  assumes io: "diskio inst = io" and g: "geom sector capacity (master inst)"
    and ok: "op_ok sector (master inst) p"
    and at: "log_at E sector (fs_sectors (master inst) + unat i) [p] (content (dev s))"
    and room: "unat i + (1 + op_sectors sector p) < store_sectors (master inst)"
  obtains r d hp where "test_replay_operation E cfg inst i s = (Ret r, s\<lparr>dev := d, heap := hp\<rparr>)"
    and "agree_off (touched sector [p]) (content (dev s)) (content d)"
    and "r = Restarted \<or> (\<exists>err. err \<noteq> ESP_OK \<and> r = Finished (Inl err)) \<or>
         r = Finished (Inr (i + (1 + of_nat (op_sectors sector p)))) \<and> content d = apply_op sector p (content (dev s))"
proof -
  let ?ss = "disk_sector_size (volume (master inst))" and ?k = "of_nat (op_sectors sector p) :: u32"
  let ?src = "buf_of (snd p) (\<lambda>_. 0)"
  obtain r d hp where f: "fetch_operation E inst i s = (Ret r, s\<lparr>dev := d, heap := hp\<rparr>)"
    and c: "content d = content (dev s)"
    and rr: "(\<exists>err. err \<noteq> ESP_OK \<and> r = Inl err) \<or> r = Inr (op_header E sector p, ?src)"
    by (rule fetch_operation_run [OF io g ok at room])
  show thesis
  proof (cases r)
    case (Inl err)
    then show thesis using that [of "Finished (Inl err)" hp d] rr f c
      by (auto simp: test_replay_operation_def run_bind_Ret run_ret)
  next
    case (Inr fetched)
    obtain e1 d1 where e: "disk_erase_range io (diskio_ctrl_handle io) (fst p * ?ss) (?k * ?ss) d = (e1, d1)" by fastforce
    obtain e2 d2 where w: "disk_write io (diskio_ctrl_handle io) (fst p * ?ss) ?src (?k * ?ss) d1 = (e2, d2)" by fastforce
    note tr = operation_transfer [OF g ok at room e w, unfolded c]
    let ?exit = "JRNL_TEST_PRELIMINARY_EXIT cfg (master inst)"
    have run: "test_replay_operation E cfg inst i s =
       (if e1 \<noteq> ESP_OK then (Ret (Finished (Inl e1)), s\<lparr>dev := d1, heap := hp\<rparr>)
        else if ?exit ESP_JRNL_TEST_REPLAY_ERASE_AND_EXIT then (Ret Restarted, s\<lparr>dev := d1, heap := hp\<rparr>)
        else if e2 \<noteq> ESP_OK then (Ret (Finished (Inl e2)), s\<lparr>dev := d2, heap := hp\<rparr>)
        else if ?exit ESP_JRNL_TEST_REPLAY_WRITE_AND_EXIT then (Ret Restarted, s\<lparr>dev := d2, heap := hp\<rparr>)
        else (Ret (Finished (Inr (i + (1 + ?k)))), s\<lparr>dev := d2, heap := hp\<rparr>))"
      using f rr Inr e w io
      by (auto simp: test_replay_operation_def run_bind_Ret run_ret Let_def op_header_def
          jrnl_erase_range_raw_def jrnl_write_raw_def)
    show thesis
      using that [of "Finished (Inl e1)" hp d1] that [of Restarted hp d1] that [of "Finished (Inl e2)" hp d2]
        that [of Restarted hp d2] that [of "Finished (Inr (i + (1 + ?k)))" hp d2] run tr
      by (simp split: if_splits)
  qed
qed

lemma test_loop_run:
  assumes io: "diskio inst = io" and g: "geom sector capacity (master inst)"
    and "log_from E sector (master inst) i ps (content (dev s))"
  shows "\<exists>r d hp. test_replay_loop E cfg inst i s = Some (Ret r, s\<lparr>dev := d, heap := hp\<rparr>) \<and>
     agree_off (touched sector ps) (content (dev s)) (content d) \<and>
     (r = Finished ESP_OK \<longrightarrow> content d = apply_ops sector ps (content (dev s)))"
  using assms(3)
proof (induction ps arbitrary: i s)
  case Nil
  then show ?case
    by (intro exI [of _ "Finished ESP_OK"] exI [of _ "dev s"] exI [of _ "heap s"])
      (simp add: test_replay_loop.simps log_from_Nil [OF Nil])
next
  case (Cons p ps)
  let ?i = "i + (1 + of_nat (op_sectors sector p))"
  note hd = log_from_Cons [OF g Cons.prems]
  obtain r d hp where r: "test_replay_operation E cfg inst i s = (Ret r, s\<lparr>dev := d, heap := hp\<rparr>)"
    and ag: "agree_off (touched sector [p]) (content (dev s)) (content d)"
    and rr: "r = Restarted \<or> (\<exists>err. err \<noteq> ESP_OK \<and> r = Finished (Inl err)) \<or>
         r = Finished (Inr ?i) \<and> content d = apply_op sector p (content (dev s))"
    by (rule test_operation_run [OF io g hd(2-4)])
  have ag1: "agree_off (touched sector (p # ps)) (content (dev s)) (content d)"
    using ag by (rule agree_off_mono) auto
  let ?s1 = "s\<lparr>dev := d, heap := hp\<rparr>"
  show ?case
    using rr
  proof (elim disjE exE conjE)
    assume r': "r = Finished (Inr ?i)" and c: "content d = apply_op sector p (content (dev s))"
    have step: "test_replay_loop E cfg inst i s = test_replay_loop E cfg inst ?i ?s1"
      using r r' hd(1) by (simp add: test_replay_loop.simps [of E cfg inst i s])
    have "log_from E sector (master inst) ?i ps (content (dev ?s1))"
      using log_from_agree [OF hd(5) ag] hd(2) by simp
    from Cons.IH [OF this] obtain x d' hp' where
      "test_replay_loop E cfg inst ?i ?s1 = Some (Ret x, s\<lparr>dev := d', heap := hp'\<rparr>)"
      and ag': "agree_off (touched sector ps) (content d) (content d')"
      and "x = Finished ESP_OK \<longrightarrow> content d' = apply_ops sector ps (content d)"
      by auto
    moreover have "agree_off (touched sector (p # ps)) (content d) (content d')"
      using ag' by (rule agree_off_mono) auto
    ultimately show ?thesis using step c agree_off_trans [OF ag1] by auto
  qed (use r hd(1) ag1 in \<open>auto simp: test_replay_loop.simps [of E cfg inst i s]\<close>)
qed

text \<open>
  The replay of a committed disk, interrupted anywhere: the disk stands for the file system with the
  log applied.
\<close>

lemma test_replay_recovers:
  assumes g: "geom sector capacity m" and io: "diskio inst = io" and unlocked: "\<not> trans_lock inst"
    and ms: "master inst = stored_master sector m (content (dev s))"
    and cm: "committed_disk E sector m ps (content (dev s))"
  defines "fs \<equiv> write_fs sector ps (fs_bytes sector m (content (dev s)))"
  shows "\<exists>r s'. test_jrnl_replay E cfg (Some inst) s = (Ret r, s') \<and> recovers_to E sector m (content (dev s')) fs"
proof -
  let ?c = "content (dev s)" and ?i = "inst\<lparr>trans_lock := True\<rparr>" and ?m' = "reset_fields False (master inst)"
  have st: "status (master inst) = ESP_JRNL_STATUS_TRANS_COMMIT" and geo: "same_geometry m (master inst)"
    and us: "used_sectors (master inst) = log_sectors sector ps"
    using cm by (simp_all add: committed_disk_def Let_def ms)
  have gi: "geom sector capacity (master inst)" using g same_geometry_geom [OF geo] by simp
  have lf: "log_from E sector (master ?i) 0 ps ?c"
    using cm us by (simp add: committed_disk_def same_geometry_log [OF geo, symmetric] log_in_store_def log_from_def)
  obtain a hp0 where al: "calloc 1 (disk_sector_size (volume (master inst))) s = (Ret a, s\<lparr>heap := hp0\<rparr>)"
    by (rule calloc_run)
  obtain r d hp where l: "test_replay_operations E cfg ?i (s\<lparr>heap := hp0\<rparr>) = (Ret r, s\<lparr>dev := d, heap := hp\<rparr>)"
    and ag: "agree_off (touched sector ps) ?c (content d)"
    and ap: "r = Finished ESP_OK \<longrightarrow> content d = apply_ops sector ps ?c"
    using test_loop_run [of ?i E 0 ps "s\<lparr>heap := hp0\<rparr>" cfg] io gi lf by (auto simp: test_replay_operations_def)
  let ?s1 = "s\<lparr>dev := d, heap := hp\<rparr>"
  obtain err d' where rs: "jrnl_reset_master E (Some ?i) False ?s1 =
      (Ret (err, Some (?i\<lparr>master := ?m'\<rparr>)), ?s1\<lparr>dev := d'\<rparr>)"
    and u: "sector_update erased (content d) (master_addr sector (master inst)) (master_sector E sector ?m') err (content d')"
    by (rule reset_master_run [of ?i E False ?s1]) (use io gi in simp_all)
  have rc0: "recovers_to E sector m ?c fs" using cm unfolding recovers_to_def fs_def by blast
  have rc1: "recovers_to E sector m (content d) fs"
    using committed_agree [OF g cm ag] unfolding recovers_to_def fs_def by blast
  have rc2: "recovers_to E sector m (content d') fs" if "r = Finished ESP_OK"
    using replayed_update(2) [OF g _ cm, of ?m' erased err "content d'"] u ap that geo
    by (simp add: same_geometry_layout [OF geo] reset_fields_def fs_def)
  show ?thesis
    using unlocked st al l rs rc0 rc1 rc2
    by (auto simp: test_jrnl_replay_def prog_simps Let_def run_bind_Ret split: test_run.splits)
qed

text \<open>
  Stopping with a commit under any flags: it returns or restarts, and the disk stands for the old or
  the new file system; which one, where the flag decides it.
\<close>

lemma test_stop_recovers:
  assumes g: "geom sector capacity m" and op: "journal_open E io content sector m h fs ps s"
    and ns: "\<not> JRNL_TEST_TRANSACTION_SUSPENDED (test_config h s)"
  defines "skip \<equiv> ps \<noteq> [] \<and> test_config h s AND ESP_JRNL_TEST_STOP_SKIP_COMMIT \<noteq> 0"
    and "commit_only \<equiv> test_config h s AND ESP_JRNL_TEST_STOP_SET_COMMIT_AND_EXIT \<noteq> 0"
  shows "\<exists>r s'. test_esp_jrnl_stop E h True s = (Ret r, s') \<and> (r = Restarted \<longrightarrow> ps \<noteq> []) \<and>
     (if skip then r = Restarted \<and> recovers_to E sector m (content (dev s')) fs
      else (recovers_to E sector m (content (dev s')) fs \<or>
            recovers_to E sector m (content (dev s')) (write_fs sector ps fs)) \<and>
           (r = Restarted \<and> \<not> commit_only \<longrightarrow> recovers_to E sector m (content (dev s')) (write_fs sector ps fs)))"
proof -
  obtain inst where at: "attached io m h inst s" and mt: "mounted h inst s" and io: "diskio inst = io"
    and unl: "\<not> trans_lock inst" and geo: "same_geometry m (master inst)"
    and mg: "jrnl_magic_mark (master inst) = JRNL_STORE_MARKER"
    and st: "status (master inst) = ESP_JRNL_STATUS_TRANS_OPEN"
    and us: "used_sectors (master inst) = log_sectors sector ps"
    and lg: "log_in_store E sector m ps (content (dev s))" and idle: "idle_disk sector m (content (dev s))"
    and f: "fs_bytes sector m (content (dev s)) = fs"
    using op by (rule journal_openE)
  let ?cfg = "test_config h s" and ?i1 = "inst\<lparr>master := (master inst)\<lparr>status := ESP_JRNL_STATUS_TRANS_COMMIT\<rparr>\<rparr>"
  note nf = something_logged [OF us]
  obtain err d where up: "jrnl_update_master E (?i1\<lparr>trans_lock := True\<rparr>) (master ?i1) s = (Ret err, s\<lparr>dev := d\<rparr>)"
    and rd: "recovers_to E sector m (content d) fs \<or> recovers_to E sector m (content d) (write_fs sector ps fs)"
    and cm: "err = ESP_OK \<longrightarrow> committed_disk E sector m ps (content d) \<and> fs_bytes sector m (content d) = fs \<and>
           master ?i1 = stored_master sector m (content d)"
    by (rule commit_record_run [OF g io geo mg us lg idle f])
  let ?s1 = "set_instance h ?i1 (s\<lparr>dev := d\<rparr>)"
  have run: "test_esp_jrnl_stop E h True s =
     (if skip then (Ret Restarted, s)
      else if ps \<noteq> [] \<and> commit_only then (Ret Restarted, ?s1)
      else if err \<noteq> ESP_OK then (Ret (Finished err), ?s1)
      else bind (test_jrnl_replay E ?cfg (Some ?i1)) (\<lambda>replayed.
           case replayed of Restarted \<Rightarrow> ret Restarted | Finished (err, p2) \<Rightarrow>
           bind (put_instance h p2) (\<lambda>_. ret (Finished err))) ?s1)"
    using test_commit_run [OF mt unl st ns, of E] up nf
    by (simp add: run_bind_Ret prog_simps skip_def commit_only_def JRNL_TEST_PRELIMINARY_EXIT_def)
  consider "skip" | "\<not> skip" "ps \<noteq> [] \<and> commit_only \<or> err \<noteq> ESP_OK"
    | "\<not> skip" "\<not> (ps \<noteq> [] \<and> commit_only)" "err = ESP_OK" by blast
  then show ?thesis
  proof cases
    case 1
    then show ?thesis using run open_recovers [OF op] by (simp add: skip_def)
  next
    case 2
    then show ?thesis using run rd by auto
  next
    case 3
    obtain r s' where r: "test_jrnl_replay E ?cfg (Some ?i1) ?s1 = (Ret r, s')"
      and rc: "recovers_to E sector m (content (dev s')) (write_fs sector ps fs)"
      using test_replay_recovers [OF g, of ?i1 ?s1 E ps ?cfg] io unl cm 3(3) by auto
    have "ps \<noteq> []" if "r = Restarted"
    proof (rule ccontr)
      assume "\<not> ps \<noteq> []"
      then have "no_exit ?cfg (master ?i1)" using nf by (simp add: no_exit_def word_gt_0)
      then have "test_jrnl_replay E ?cfg (Some ?i1) ?s1 = finished (jrnl_replay E (Some ?i1)) ?s1"
        by (subst test_jrnl_replay_no_exit) (simp_all only: option.inject)
      then show False using r that finished_not_restarted by metis
    qed
    then show ?thesis
      using run r rc 3 by (auto simp: run_bind_Ret prog_simps put_instance_def split: test_run.splits)
  qed
qed

end

text \<open>
  C19. Emulated losses of power are recovered from. A commit under any flags that do not suspend
  transactions returns or restarts, and restarts only when something was journaled. After a restart
  every mount that succeeds finds: with \<open>SKIP_COMMIT\<close> the file system of before the transaction, with
  \<open>SET_COMMIT_AND_EXIT\<close> that or the one with the transaction (the exit is taken also when the commit
  record could not be written), and with the flags of the replay the one with the transaction, however much of
  it had reached the file system.
\<close>

theorem emulated_power_loss_recovers:
  fixes s :: "('d, 'z) test_world_scheme"
  assumes "block_device io content sec cap er" and "geom sec cap m" and "matches m io config"
    and "journal_open E io content sec m h fs ps s"
    and "\<not> JRNL_TEST_TRANSACTION_SUSPENDED (test_config h s)"
  shows "\<exists>r s1. test_esp_jrnl_stop E h True s = (Ret r, s1) \<and>
     (ps \<noteq> [] \<and> test_config h s AND ESP_JRNL_TEST_STOP_SKIP_COMMIT \<noteq> 0 \<longrightarrow> r = Restarted) \<and>
     (r = Restarted \<longrightarrow> ps \<noteq> [] \<and>
       (\<forall>hp h0 h' s2. esp_jrnl_mount E (Some config) (Some h0) (boot (dev s1) hp) = (Ret (ESP_OK, Some h'), s2) \<longrightarrow>
         (if test_config h s AND ESP_JRNL_TEST_STOP_SKIP_COMMIT \<noteq> 0
          then journal_ready E io content sec m h' fs s2
          else journal_ready E io content sec m h' (write_fs sec ps fs) s2 \<or>
               test_config h s AND ESP_JRNL_TEST_STOP_SET_COMMIT_AND_EXIT \<noteq> 0 \<and>
               journal_ready E io content sec m h' fs s2)))"
proof -
  have mount: "journal_ready E io content sec m h' fs' s2"
    if "recovers_to E sec m (content d) fs'"
      and "esp_jrnl_mount E (Some config) (Some h0) (boot d hp) = (Ret (ESP_OK, Some h'), s2)" for fs' d hp h0 h' s2
    by (rule block_device.mount_refines [OF assms(1-3), of E "boot d hp" fs' h0])
      (use that in \<open>simp_all add: boot_table\<close>)
  from block_device.test_stop_recovers [OF assms(1,2,4,5)] show ?thesis
    by (elim exE conjE, intro exI conjI) (auto dest: mount split: if_splits)
qed

section \<open>Suspended transactions\<close>

text \<open>
  With \<open>SUSPEND_TRANSACTION\<close> set, starting and stopping a transaction report success and change
  nothing; a journal that is ready stays so, and a write that a client makes between the two is refused
  with \<open>ESP_ERR_INVALID_STATE\<close>: only a journal in direct mode lets it through.
\<close>

theorem suspended_transactions:
  fixes s :: "('d, 'z) test_world_scheme"
  assumes "mounted h inst s" and "JRNL_TEST_TRANSACTION_SUSPENDED (test_config h s)"
  shows "test_esp_jrnl_start E h s = (Ret ESP_OK, s) \<and>
     test_esp_jrnl_stop E h commit s = (Ret (Finished ESP_OK), s) \<and>
     (status (master inst) = ESP_JRNL_STATUS_TRANS_READY \<longrightarrow>
      esp_jrnl_write E h (Some buff) sec count s = (Ret ESP_ERR_INVALID_STATE, s))"
  using assms(2)
  by (simp add: test_esp_jrnl_start_def test_esp_jrnl_stop_def esp_jrnl_write_def mounted_run [OF assms(1)]
      prog_simps Let_def)

section \<open>Witnesses\<close>

text \<open>A machine of the production build, taken over by the test build with the same flags in every slot.\<close>

definition with_flags :: "u32 \<Rightarrow> 'd jrnl_world \<Rightarrow> 'd test_world" where
  "with_flags cfg s = jrnl_world.extend s (test_world.fields (replicate JRNL_MAX_HANDLES cfg))"

lemma with_flags_simps [simp]:
  "dev (with_flags cfg s) = dev s" "heap (with_flags cfg s) = heap s"
  "s_jrnl_instance_ptrs (with_flags cfg s) = s_jrnl_instance_ptrs s"
  "test_configs (with_flags cfg s) = replicate JRNL_MAX_HANDLES cfg"
  by (simp_all add: with_flags_def jrnl_world.defs test_world.defs)

lemma with_flags_open:
  "journal_open E io content sec m h fs ps (with_flags cfg s) = journal_open E io content sec m h fs ps s"
  by (simp add: journal_open_def attached_def mounted_def)

lemma open_handle:
  assumes "journal_open E io content sec m h fs ps s"
  shows "nat h < JRNL_MAX_HANDLES"
  using assms by (auto simp: journal_open_def attached_def mounted_def)

theorem test_build_equivalent_witness:
  "\<exists>h (s :: flash test_world). journal_open sample_env sample_io cells 32 sample_master h sample_fs [sample_op] s \<and>
     test_config h s = ESP_JRNL_TEST_REQUIRE_FILE_CLOSE \<and>
     test_esp_jrnl_start sample_env h s = esp_jrnl_start sample_env h s \<and>
     test_esp_jrnl_stop sample_env h True s = finished (esp_jrnl_stop sample_env h True) s \<and>
     test_jrnl_replay sample_env 0 (None :: flash esp_jrnl_instance_t option) =
       (finished (jrnl_replay sample_env None) :: (flash mach, _) prog)"
proof -
  obtain h s0 where op: "sample_open h sample_fs [sample_op] s0" by (rule sample_session)
  let ?s = "with_flags ESP_JRNL_TEST_REQUIRE_FILE_CLOSE s0"
  have c: "test_config h ?s = ESP_JRNL_TEST_REQUIRE_FILE_CLOSE" using open_handle [OF op] by simp
  have "\<not> JRNL_TEST_TRANSACTION_SUSPENDED (test_config h ?s)" and "no_exit (test_config h ?s) m" for m
    by (simp_all only: c) (simp_all add: JRNL_TEST_TRANSACTION_SUSPENDED_def no_exit_def
        ESP_JRNL_TEST_REQUIRE_FILE_CLOSE_def ESP_JRNL_TEST_SUSPEND_TRANSACTION_def)
  moreover have "journal_open sample_env sample_io cells 32 sample_master h sample_fs [sample_op] ?s"
    using op by (simp add: with_flags_open)
  ultimately show ?thesis
    using c test_build_equivalent [where h = h and s = ?s and E = sample_env and commit = True and p = "None :: flash esp_jrnl_instance_t option"]
    by (intro exI [of _ h] exI [of _ ?s]) simp
qed

theorem emulated_power_loss_recovers_witness:
  "\<exists>h (s :: flash test_world) s1 h' s2.
     journal_open sample_env sample_io cells 32 sample_master h sample_fs [sample_op] s \<and>
     test_config h s = ESP_JRNL_TEST_STOP_SKIP_COMMIT \<and>
     test_esp_jrnl_stop sample_env h True s = (Ret Restarted, s1) \<and>
     esp_jrnl_mount sample_env (Some sample_config) (Some 0) (boot (dev s1) []) = (Ret (ESP_OK, Some h'), s2) \<and>
     sample_ready h' sample_fs s2"
proof -
  obtain h s0 where op: "sample_open h sample_fs [sample_op] s0" and pw: "ops_left (dev s0) = None"
    by (rule sample_session)
  let ?s = "with_flags ESP_JRNL_TEST_STOP_SKIP_COMMIT s0"
  have c: "test_config h ?s = ESP_JRNL_TEST_STOP_SKIP_COMMIT" using open_handle [OF op] by simp
  have ns: "\<not> JRNL_TEST_TRANSACTION_SUSPENDED (test_config h ?s)"
    by (simp only: c) (simp add: JRNL_TEST_TRANSACTION_SUSPENDED_def
        ESP_JRNL_TEST_STOP_SKIP_COMMIT_def ESP_JRNL_TEST_SUSPEND_TRANSACTION_def)
  have opf: "journal_open sample_env sample_io cells 32 sample_master h sample_fs [sample_op] ?s"
    using op by (simp add: with_flags_open)
  have fl: "ESP_JRNL_TEST_STOP_SKIP_COMMIT AND ESP_JRNL_TEST_STOP_SKIP_COMMIT \<noteq> 0"
    by (simp add: ESP_JRNL_TEST_STOP_SKIP_COMMIT_def)
  obtain s1 where stop: "test_esp_jrnl_stop sample_env h True ?s = (Ret Restarted, s1)"
    and rdy: "\<And>hp h0 h' s2. esp_jrnl_mount sample_env (Some sample_config) (Some h0) (boot (dev s1) hp) =
      (Ret (ESP_OK, Some h'), s2) \<Longrightarrow> sample_ready h' sample_fs s2"
    using emulated_power_loss_recovers [OF sample_device sample_geom sample_matches opf ns] fl unfolding c by auto
  have "s1 = ?s"
  proof (rule journal_openE [OF opf])
    fix inst assume i: "mounted h inst ?s" "\<not> trans_lock inst" "status (master inst) = ESP_JRNL_STATUS_TRANS_OPEN"
      and us: "used_sectors (master inst) = log_sectors 32 [sample_op]"
    have "JRNL_TEST_PRELIMINARY_EXIT (test_config h ?s) (master inst) ESP_JRNL_TEST_STOP_SKIP_COMMIT"
      unfolding c JRNL_TEST_PRELIMINARY_EXIT_def using fl something_logged [OF us] by simp
    then show ?thesis using test_commit_run [OF i ns, of sample_env] stop by simp
  qed
  then have "recovers_to sample_env 32 sample_master (cells (dev (boot (dev s1) []))) sample_fs"
    and "ops_left (dev (boot (dev s1) [])) = None"
    using open_recovers [OF op] pw by (simp_all add: boot_table)
  then obtain h' s2 where
    "esp_jrnl_mount sample_env (Some sample_config) (Some 0) (boot (dev s1) []) = (Ret (ESP_OK, Some h'), s2)"
    by (rule byte_reliable_device.mount_serves [OF sample_reliable sample_geom sample_matches _ boot_table(3,1,2)])
      (simp_all add: boot_def)
  then show ?thesis using opf c stop rdy by blast
qed

theorem suspended_transactions_witness:
  "let s = with_flags ESP_JRNL_TEST_SUSPEND_TRANSACTION (sample_world (sample_in ESP_JRNL_STATUS_TRANS_READY))
   in test_esp_jrnl_start sample_env 0 s = (Ret ESP_OK, s) \<and>
      test_esp_jrnl_stop sample_env 0 True s = (Ret (Finished ESP_OK), s) \<and>
      esp_jrnl_write sample_env 0 (Some (\<lambda>_. 7)) 1 1 s = (Ret ESP_ERR_INVALID_STATE, s)"
proof -
  let ?i = "sample_in ESP_JRNL_STATUS_TRANS_READY"
  let ?s = "with_flags ESP_JRNL_TEST_SUSPEND_TRANSACTION (sample_world ?i)"
  have "mounted 0 ?i ?s" using sample_mounted [of ?i] by (simp add: mounted_def)
  moreover have "JRNL_TEST_TRANSACTION_SUSPENDED (test_config 0 ?s)"
    by (simp add: JRNL_TEST_TRANSACTION_SUSPENDED_def ESP_JRNL_TEST_SUSPEND_TRANSACTION_def JRNL_MAX_HANDLES_def)
  ultimately show ?thesis
    using suspended_transactions [of 0 ?i ?s sample_env True "\<lambda>_. 7" 1 1] by (simp add: Let_def sample_in_def)
qed

end
