(* ===== verification/Jrnl_Interface.thy ===== *)
theory Jrnl_Interface
  imports Jrnl_Sample Jrnl_Frame
begin

text \<open>
  The journal as an interface. \<open>transactions\<close> states what a client of \<open>esp_jrnl_start\<close> and
  \<open>esp_jrnl_stop\<close> relies on, without a word about stores and logs, and the client's lemma is
  proved once from it: an operation put between a start and a stop is atomic.
  \<open>volume_journal\<close> is a journal on a device, and provides the interface.
\<close>

section \<open>What a client relies on\<close>

text \<open>
  \<open>ready fs\<close>: no transaction is open over the file system \<open>fs\<close>. \<open>inside fs fs'\<close>: a transaction is open that
  would turn \<open>fs\<close> into \<open>fs'\<close>. \<open>stands_for fs\<close>: the next successful mount finds \<open>fs\<close>. \<open>own\<close> relates states
  with the same data of the client.
\<close>

locale transactions =
  fixes start :: "('s, esp_err_t) prog" and stop :: "bool \<Rightarrow> ('s, esp_err_t) prog"
    and ready :: "'f \<Rightarrow> 's \<Rightarrow> bool" and inside :: "'f \<Rightarrow> 'f \<Rightarrow> 's \<Rightarrow> bool" and stands_for :: "'f \<Rightarrow> 's \<Rightarrow> bool"
    and own :: "'s \<Rightarrow> 's \<Rightarrow> bool"
  assumes start_law: "ready fs s \<Longrightarrow>
      \<exists>err s'. start s = (Ret err, s') \<and> own s s' \<and> stands_for fs s' \<and> (err = ESP_OK \<longrightarrow> inside fs fs s')"
    and cancel_law: "inside fs fs' s \<Longrightarrow> \<exists>err s'. stop False s = (Ret err, s') \<and> own s s' \<and> ready fs s'"
    and commit_law: "inside fs fs' s \<Longrightarrow>
      \<exists>err s'. stop True s = (Ret err, s') \<and> own s s' \<and> (stands_for fs s' \<or> stands_for fs' s') \<and>
        (err = ESP_OK \<longrightarrow> ready fs' s')"
begin

text \<open>
  The operation between start and stop, with what the client does when one of them is refused: \<open>refused\<close>
  for the start, \<open>undone r\<close> for the stop after the result \<open>r\<close>.
\<close>

definition around :: "('a \<Rightarrow> bool) \<Rightarrow> ('s, 'a) prog \<Rightarrow> ('a \<Rightarrow> ('s, 'a) prog) \<Rightarrow> ('s, 'a) prog \<Rightarrow> ('s, 'a) prog" where
  "around commit refused undone oper =
     bind start (\<lambda>err. if err \<noteq> ESP_OK then refused
       else bind oper (\<lambda>r. bind (stop (commit r)) (\<lambda>err. if err \<noteq> ESP_OK then undone r else ret r)))"

text \<open>
  An operation that stays in the transaction: the start was refused; or the operation asked for no commit
  and the file system is the one of before; or it was committed; or the commit was interrupted and the
  disk stands for the file system of before or with all writes. \<open>K\<close> is what the operation
  leaves behind in the data of the client.
\<close>

lemma around_atomic:
  assumes "ready fs s"
    and op: "\<And>s1. inside fs fs s1 \<Longrightarrow> own s s1 \<Longrightarrow> \<exists>r fs' s2. oper s1 = (Ret r, s2) \<and> inside fs fs' s2 \<and> K s2"
    and K: "\<And>s1 s2. K s1 \<Longrightarrow> own s1 s2 \<Longrightarrow> K s2"
  obtains (refused) s1 where "around commit refused undone oper s = refused s1" and "own s s1" and "stands_for fs s1"
    | (ended) s1 r fs' s2 err s3 where "start s = (Ret ESP_OK, s1)" and "oper s1 = (Ret r, s2)" and "inside fs fs' s2" and "K s3"
        and "around commit refused undone oper s = (if err \<noteq> ESP_OK then undone r s3 else (Ret r, s3))"
        and "if commit r then (stands_for fs s3 \<or> stands_for fs' s3) \<and> (err = ESP_OK \<longrightarrow> ready fs' s3) else ready fs s3"
proof -
  obtain err s1 where st: "start s = (Ret err, s1)" and o: "own s s1" and k: "stands_for fs s1"
    and i: "err = ESP_OK \<longrightarrow> inside fs fs s1"
    using start_law [OF assms(1)] by blast
  show thesis
  proof (cases "err = ESP_OK")
    case False
    then show thesis using st o k by (intro refused [of s1]) (simp_all add: around_def run_bind_Ret)
  next
    case True
    then obtain r fs' s2 where r: "oper s1 = (Ret r, s2)" and i2: "inside fs fs' s2" and K2: "K s2"
      using op [OF _ o] i by blast
    have "\<exists>err s'. stop (commit r) s2 = (Ret err, s') \<and> own s2 s' \<and>
        (if commit r then (stands_for fs s' \<or> stands_for fs' s') \<and> (err = ESP_OK \<longrightarrow> ready fs' s') else ready fs s')"
      using cancel_law [OF i2] commit_law [OF i2] by (cases "commit r") simp_all
    then obtain err' s3 where sp: "stop (commit r) s2 = (Ret err', s3)" "own s2 s3"
      and c: "if commit r then (stands_for fs s3 \<or> stands_for fs' s3) \<and> (err' = ESP_OK \<longrightarrow> ready fs' s3) else ready fs s3"
      by blast
    have "around commit refused undone oper s = (if err' \<noteq> ESP_OK then undone r s3 else (Ret r, s3))"
      using st True r sp(1) by (simp add: around_def run_bind_Ret run_ret)
    then show thesis using ended [OF _ r i2 K [OF K2 sp(2)] _ c] st True by blast
  qed
qed

end

section \<open>The journal of a volume\<close>

text \<open>The transaction so far turns \<open>fs\<close> into \<open>fs'\<close>; the data above the journal.\<close>

definition open_towards ::
  "esp_env \<Rightarrow> 'd esp_jrnl_diskio_t \<Rightarrow> ('d \<Rightarrow> image) \<Rightarrow> nat \<Rightarrow> esp_jrnl_master_t \<Rightarrow> esp_jrnl_handle_t \<Rightarrow> byte list \<Rightarrow>
   byte list \<Rightarrow> ('d, 'z) jrnl_world_scheme \<Rightarrow> bool" where
  "open_towards E io content sec m h fs fs' s \<longleftrightarrow>
     (\<exists>ps. fs' = write_fs sec ps fs \<and> journal_open E io content sec m h fs ps s)"

definition same_above :: "('d, 'z) jrnl_world_scheme \<Rightarrow> ('d, 'z) jrnl_world_scheme \<Rightarrow> bool" where
  "same_above s s' \<longleftrightarrow> jrnl_world.more s' = jrnl_world.more s"

locale volume_journal = block_device io content sector capacity erased
  for io :: "'d esp_jrnl_diskio_t" and content :: "'d \<Rightarrow> image" and sector capacity erased +
  fixes E :: esp_env and m :: esp_jrnl_master_t
  assumes geometry: "geom sector capacity m"

sublocale volume_journal \<subseteq> tx: transactions "esp_jrnl_start E h" "esp_jrnl_stop E h"
  "journal_ready E io content sector m h" "open_towards E io content sector m h"
  "\<lambda>fs s. recovers_to E sector m (content (dev s)) fs" same_above
  for h
proof
  fix fs fs' and s :: "('d, 'z) jrnl_world_scheme"
  show "\<exists>err s'. esp_jrnl_start E h s = (Ret err, s') \<and> same_above s s' \<and> recovers_to E sector m (content (dev s')) fs \<and>
      (err = ESP_OK \<longrightarrow> open_towards E io content sector m h fs fs s')"
    if rd: "journal_ready E io content sector m h fs s"
  proof -
    obtain err s' where r: "esp_jrnl_start E h s = (Ret err, s')"
      and "err = ESP_OK \<Longrightarrow> journal_open E io content sector m h fs [] s'" and "recovers_to E sector m (content (dev s')) fs"
      by (rule start_refines [OF geometry rd]) (rule that; blast)
    moreover have "fs = write_fs sector [] fs" by simp
    moreover have "same_above s s'" unfolding same_above_def using frame_interface(3) r by (rule keeps_moreD)
    ultimately show ?thesis unfolding open_towards_def by blast
  qed
  assume "open_towards E io content sector m h fs fs' s"
  then obtain ps where ps: "fs' = write_fs sector ps fs" and op: "journal_open E io content sector m h fs ps s"
    by (auto simp: open_towards_def)
  show "\<exists>err s'. esp_jrnl_stop E h False s = (Ret err, s') \<and> same_above s s' \<and> journal_ready E io content sector m h fs s'"
    using cancel_refines [OF geometry op] keeps_moreD [OF frame_interface(4)] unfolding same_above_def by metis
  obtain err s' where r: "esp_jrnl_stop E h True s = (Ret err, s')"
    and "err = ESP_OK \<Longrightarrow> journal_ready E io content sector m h fs' s'"
    and "recovers_to E sector m (content (dev s')) fs \<or> recovers_to E sector m (content (dev s')) fs'"
    by (rule commit_refines [OF geometry op, folded ps]) (rule that; blast)
  moreover have "same_above s s'" unfolding same_above_def using frame_interface(4) r by (rule keeps_moreD)
  ultimately show "\<exists>err s'. esp_jrnl_stop E h True s = (Ret err, s') \<and> same_above s s' \<and>
      (recovers_to E sector m (content (dev s')) fs \<or> recovers_to E sector m (content (dev s')) fs') \<and>
      (err = ESP_OK \<longrightarrow> journal_ready E io content sector m h fs' s')"
    by blast
qed

interpretation sample_journal: volume_journal sample_io cells 32 384 "0xFF" sample_env sample_master
  using sample_device sample_geom by (intro volume_journal.intro volume_journal_axioms.intro)

end
