(* ===== verification/Jrnl_Hoare.thy ===== *)
theory Jrnl_Hoare
  imports Jrnl_Prelude
begin

text \<open>
  Total correctness of the state-passing programs, for the layers above the journal: a triple
  says that a program started where its precondition holds returns, and that its postcondition
  holds then. Loops whose end is not visible in their text are iterated to \<open>None\<close>. Two special
  forms have collections of rules, so that the triple of a C function is found by
  introduction: \<open>keeps\<close> one assertion, and \<open>moves\<close> between two.
\<close>

section \<open>Loops\<close>

text \<open>
  \<open>iterate body x\<close> runs the body until it yields \<open>Inl r\<close>, the value the loop leaves with; \<open>Inr x'\<close>
  starts the next turn.
\<close>

partial_function (option) iterate ::
  "('x \<Rightarrow> ('s, 'r + 'x) prog) \<Rightarrow> 'x \<Rightarrow> 's \<Rightarrow> ('r outcome \<times> 's) option" where
  "iterate body x s =
     (case body x s of
        (Ret (Inl r), s') \<Rightarrow> Some (Ret r, s')
      | (Ret (Inr x'), s') \<Rightarrow> iterate body x' s'
      | (Blocked, s') \<Rightarrow> Some (Blocked, s')
      | (Aborted, s') \<Rightarrow> Some (Aborted, s')
      | (Undefined, s') \<Rightarrow> Some (Undefined, s')
      | (Diverged, s') \<Rightarrow> Some (Diverged, s'))"

definition loop :: "('x \<Rightarrow> ('s, 'r + 'x) prog) \<Rightarrow> 'x \<Rightarrow> ('s, 'r) prog" where
  "loop body x = (\<lambda>s. case iterate body x s of None \<Rightarrow> (Diverged, s) | Some r \<Rightarrow> r)"

lemma loop_leave: "body x s = (Ret (Inl r), s') \<Longrightarrow> loop body x s = (Ret r, s')"
  by (simp add: loop_def iterate.simps [of body x])

lemma loop_next:
  assumes "body x s = (Ret (Inr x'), s')" and "loop body x' s' = (Ret r, s'')"
  shows "loop body x s = (Ret r, s'')"
  using assms by (simp add: loop_def iterate.simps [of body x] split: option.splits)

section \<open>Triples\<close>

definition hoare :: "('s \<Rightarrow> bool) \<Rightarrow> ('s, 'a) prog \<Rightarrow> ('a \<Rightarrow> 's \<Rightarrow> bool) \<Rightarrow> bool" where
  "hoare P p Q \<longleftrightarrow> (\<forall>s. P s \<longrightarrow> (\<exists>x s'. p s = (Ret x, s') \<and> Q x s'))"

lemma hoareI: "(\<And>s. P s \<Longrightarrow> \<exists>x s'. p s = (Ret x, s') \<and> Q x s') \<Longrightarrow> hoare P p Q"
  by (simp add: hoare_def)

lemma hoare_run: "hoare P p Q \<Longrightarrow> P s \<Longrightarrow> \<exists>x s'. p s = (Ret x, s') \<and> Q x s'"
  by (simp add: hoare_def)

lemma hoareE:
  assumes "hoare P p Q" and "P s"
  obtains x s' where "p s = (Ret x, s')" and "Q x s'"
  using assms by (auto simp: hoare_def)

lemma hoare_weaken:
  assumes "hoare P' p Q'" and "\<And>s. P s \<Longrightarrow> P' s" and "\<And>x s. Q' x s \<Longrightarrow> Q x s"
  shows "hoare P p Q"
  using assms by (force simp: hoare_def)

lemma hoare_pre: "hoare P' p Q \<Longrightarrow> (\<And>s. P s \<Longrightarrow> P' s) \<Longrightarrow> hoare P p Q"
  by (rule hoare_weaken)

lemma hoare_post: "hoare P p Q' \<Longrightarrow> (\<And>x s. Q' x s \<Longrightarrow> Q x s) \<Longrightarrow> hoare P p Q"
  by (rule hoare_weaken)

lemma hoare_ret: "(\<And>s. P s \<Longrightarrow> Q x s) \<Longrightarrow> hoare P (ret x) Q"
  by (auto simp: hoare_def prog_simps)

lemma hoare_bind:
  assumes "hoare P p R" and "\<And>x. hoare (R x) (f x) Q"
  shows "hoare P (bind p f) Q"
proof (rule hoareI)
  fix s assume "P s"
  with assms(1) obtain x s1 where p: "p s = (Ret x, s1)" and R: "R x s1" by (rule hoareE)
  from assms(2) R obtain y s2 where "f x s1 = (Ret y, s2)" and "Q y s2" by (rule hoareE)
  with p show "\<exists>x s'. bind p f s = (Ret x, s') \<and> Q x s'" by (simp add: run_bind_Ret)
qed

lemma hoare_gets: "(\<And>s. P s \<Longrightarrow> Q (g s) s) \<Longrightarrow> hoare P (gets g) Q"
  by (auto simp: hoare_def prog_simps)

lemma hoare_modify: "(\<And>s. P s \<Longrightarrow> Q () (g s)) \<Longrightarrow> hoare P (modify g) Q"
  by (auto simp: hoare_def prog_simps)

lemma hoare_assert: "b \<Longrightarrow> (\<And>s. P s \<Longrightarrow> Q () s) \<Longrightarrow> hoare P (assert_that b) Q"
  by (auto simp: hoare_def prog_simps)

lemma hoare_if: "(b \<Longrightarrow> hoare P p Q) \<Longrightarrow> (\<not> b \<Longrightarrow> hoare P q Q) \<Longrightarrow> hoare P (if b then p else q) Q"
  by simp

lemma hoare_prod: "(\<And>x y. z = (x, y) \<Longrightarrow> hoare P (f x y) Q) \<Longrightarrow> hoare P (case z of (x, y) \<Rightarrow> f x y) Q"
  by (cases z) simp

lemma hoare_option:
  "(z = None \<Longrightarrow> hoare P p Q) \<Longrightarrow> (\<And>x. z = Some x \<Longrightarrow> hoare P (f x) Q) \<Longrightarrow>
   hoare P (case z of None \<Rightarrow> p | Some x \<Rightarrow> f x) Q"
  by (cases z) simp_all

text \<open>A fact the precondition carries can be used while the rest of the program is looked at.\<close>

lemma hoare_fact: "(F \<Longrightarrow> hoare P p Q) \<Longrightarrow> hoare (\<lambda>s. P s \<and> F) p Q"
  by (auto simp: hoare_def)

lemma hoare_facts: "(\<And>s. P s \<Longrightarrow> F) \<Longrightarrow> (F \<Longrightarrow> hoare P p Q) \<Longrightarrow> hoare P p Q"
  by (auto simp: hoare_def)

text \<open>A loop whose measure decreases in every turn leaves.\<close>

lemma hoare_loop:
  fixes \<mu> :: "'x \<Rightarrow> nat"
  assumes "\<And>x. hoare (P x) (body x) (\<lambda>y s. case y of Inl r \<Rightarrow> Q r s | Inr x' \<Rightarrow> P x' s \<and> \<mu> x' < \<mu> x)"
  shows "hoare (P x) (loop body x) Q"
proof (induction "\<mu> x" arbitrary: x rule: less_induct)
  case less
  show ?case
  proof (rule hoareI)
    fix s assume "P x s"
    with assms [of x] obtain y s1 where b: "body x s = (Ret y, s1)"
      and y: "case y of Inl r \<Rightarrow> Q r s1 | Inr x' \<Rightarrow> P x' s1 \<and> \<mu> x' < \<mu> x"
      by (rule hoareE)
    show "\<exists>r s'. loop body x s = (Ret r, s') \<and> Q r s'"
    proof (cases y)
      case (Inl r)
      then show ?thesis using b y by (auto simp: loop_leave)
    next
      case (Inr x')
      then have "P x' s1" "\<mu> x' < \<mu> x" using y by simp_all
      from less [OF this(2)] this(1) obtain r s' where "loop body x' s1 = (Ret r, s')" "Q r s'"
        by (rule hoareE)
      then show ?thesis using b Inr by (auto intro: loop_next)
    qed
  qed
qed

text \<open>The measure may also be read off the state.\<close>

lemma hoare_loop_state:
  fixes \<mu> :: "'x \<Rightarrow> 's \<Rightarrow> nat"
  assumes "\<And>x s. P x s \<Longrightarrow> \<exists>y s'. body x s = (Ret y, s') \<and>
      (case y of Inl r \<Rightarrow> Q r s' | Inr x' \<Rightarrow> P x' s' \<and> \<mu> x' s' < \<mu> x s)"
  shows "hoare (P x) (loop body x) Q"
proof -
  have "\<exists>r s'. loop body x s = (Ret r, s') \<and> Q r s'" if "P x s" "\<mu> x s = k" for x s k
    using that
  proof (induction k arbitrary: x s rule: less_induct)
    case (less k)
    obtain y s1 where b: "body x s = (Ret y, s1)"
      and y: "case y of Inl r \<Rightarrow> Q r s1 | Inr x' \<Rightarrow> P x' s1 \<and> \<mu> x' s1 < \<mu> x s"
      using assms [OF less.prems(1)] by blast
    show ?case
    proof (cases y)
      case (Inl r)
      then show ?thesis using b y by (auto simp: loop_leave)
    next
      case (Inr x')
      then obtain r s' where "loop body x' s1 = (Ret r, s')" "Q r s'"
        using less.IH [OF _ _ refl, of x' s1] less.prems(2) y by auto
      then show ?thesis using b Inr by (auto intro: loop_next)
    qed
  qed
  then show ?thesis by (auto intro: hoareI)
qed

text \<open>
  A program keeps an assertion when it returns and the assertion still holds. Most functions of
  the upper layers are shown to keep one assertion in every step.
\<close>

definition keeps :: "('s \<Rightarrow> bool) \<Rightarrow> ('s, 'a) prog \<Rightarrow> bool" where
  "keeps P p \<longleftrightarrow> hoare P p (\<lambda>_. P)"

lemma keepsD: "keeps P p \<Longrightarrow> hoare P p (\<lambda>_. P)"
  by (simp add: keeps_def)

lemma keepsI: "(\<And>s. P s \<Longrightarrow> \<exists>x s'. p s = (Ret x, s') \<and> P s') \<Longrightarrow> keeps P p"
  by (simp add: keeps_def hoare_def)

lemma keepsE:
  assumes "keeps P p" and "P s"
  obtains x s' where "p s = (Ret x, s')" and "P s'"
  using assms by (auto simp: keeps_def hoare_def)

lemma keeps_run: "keeps P p \<Longrightarrow> P s \<Longrightarrow> \<exists>x s'. p s = (Ret x, s') \<and> P s'"
  by (simp add: keeps_def hoare_def)

named_theorems keeps_intros \<open>programs that keep an assertion\<close>

lemma keeps_ret [keeps_intros]: "keeps P (ret x)"
  by (simp add: keeps_def hoare_ret)

lemma keeps_gets [keeps_intros]: "keeps P (gets g)"
  by (simp add: keeps_def hoare_gets)

lemma keeps_bind [keeps_intros]: "keeps P p \<Longrightarrow> (\<And>x. keeps P (f x)) \<Longrightarrow> keeps P (bind p f)"
  unfolding keeps_def by (rule hoare_bind)

lemma keeps_if [keeps_intros]: "(b \<Longrightarrow> keeps P p) \<Longrightarrow> (\<not> b \<Longrightarrow> keeps P q) \<Longrightarrow> keeps P (if b then p else q)"
  by simp

lemma keeps_prod [keeps_intros]: "(\<And>x y. keeps P (f x y)) \<Longrightarrow> keeps P (case z of (x, y) \<Rightarrow> f x y)"
  by (cases z) simp

lemma keeps_option [keeps_intros]:
  "keeps P p \<Longrightarrow> (\<And>x. keeps P (f x)) \<Longrightarrow> keeps P (case z of None \<Rightarrow> p | Some x \<Rightarrow> f x)"
  by (cases z) simp_all

text \<open>
  Functions that take and give back a lock move between two assertions, \<open>A True\<close> while the lock is
  held and \<open>A False\<close> while it is free. Applied as introduction rules, the rules follow the text of
  a function and find the assertion between any two statements.
\<close>

definition moves :: "(bool \<Rightarrow> 's \<Rightarrow> bool) \<Rightarrow> bool \<Rightarrow> ('s, 'a) prog \<Rightarrow> bool \<Rightarrow> bool" where
  "moves A l p l' \<longleftrightarrow> hoare (A l) p (\<lambda>_. A l')"

named_theorems moves_intros \<open>programs between two assertions\<close>

lemma moves_bind [moves_intros]:
  "moves A l p m \<Longrightarrow> (\<And>x. moves A m (f x) l') \<Longrightarrow> moves A l (bind p f) l'"
  unfolding moves_def by (rule hoare_bind)

lemma moves_ret [moves_intros]: "moves A l (ret x) l"
  by (simp add: moves_def hoare_ret)

lemma moves_cases [moves_intros]:
  "(b \<Longrightarrow> moves A l p m) \<Longrightarrow> (\<not> b \<Longrightarrow> moves A l q m) \<Longrightarrow> moves A l (if b then p else q) m"
  "(\<And>x y. moves A l (g x y) m) \<Longrightarrow> moves A l (case z of (x, y) \<Rightarrow> g x y) m"
  "(\<And>x y. moves A l (g' x y v) m) \<Longrightarrow> moves A l ((case z' of (x, y) \<Rightarrow> g' x y) v) m"
  "(\<And>x. moves A l (h x) m) \<Longrightarrow> (\<And>y. moves A l (k y) m) \<Longrightarrow>
   moves A l (case w of Inl x \<Rightarrow> h x | Inr y \<Rightarrow> k y) m"
  by (auto split: prod.splits sum.splits)

lemma moves_run: "moves A l p l' \<Longrightarrow> A l s \<Longrightarrow> \<exists>x s'. p s = (Ret x, s') \<and> A l' s'"
  by (simp add: moves_def hoare_def)

lemma moves_keeps: "keeps (A l) p \<Longrightarrow> moves A l p l"
  by (simp add: keeps_def moves_def)

end
