(* ===== verification/Diskio_Jrnl.thy ===== *)
theory Diskio_Jrnl
  imports Jrnl_Interface Jrnl_Hoare
begin

text \<open>
  \<open>srcs/fatfs/diskio/diskio_jrnl.c\<close>: the routines FatFS calls to reach the disk, and the table
  that maps a FatFS drive number to a journal handle. The lemmas show that the table behaves
  as a partial map, that the callbacks are the journal operations of the drive's handle, and
  that any program that touches the disk only through them stays inside the transaction it
  was started in.
\<close>

section \<open>Model\<close>

text \<open>
  The world grows by the table. \<open>FF_VOLUMES\<close> is a build-time setting of FatFS;
  \<open>ff_diskio_register\<close> belongs to the FatFS port and is a parameter: what it does to the world
  when a drive gets the journaled routines.
\<close>

record 'd ff_world = "'d jrnl_world" +
  ff_jrnl_handles :: "esp_jrnl_handle_t list"

definition init_ff_jrnl_handles :: "esp_jrnl_handle_t list" where
  "init_ff_jrnl_handles = replicate JRNL_MAX_HANDLES JRNL_INVALID_HANDLE"

datatype DRESULT = RES_OK | RES_ERROR

datatype ioctl_cmd = CTRL_SYNC | GET_SECTOR_COUNT | GET_SECTOR_SIZE | GET_BLOCK_SIZE | IOCTL_OTHER byte

text \<open>What an ioctl leaves in its buffer: a 32-bit or a 16-bit number, or nothing.\<close>

datatype ioctl_out = Untouched | Out_DWORD u32 | Out_WORD "16 word"

definition ff_jrnl_initialize :: "byte \<Rightarrow> ('s, byte) prog" where
  "ff_jrnl_initialize pdrv = ret 0"

definition ff_jrnl_status :: "byte \<Rightarrow> ('s, byte) prog" where
  "ff_jrnl_status pdrv = ret 0"

text \<open>The handle of a drive; each callback asserts that the drive is in the table.\<close>

definition drive_handle :: "byte \<Rightarrow> (('d, 'z) ff_world_scheme, esp_jrnl_handle_t) prog" where
  "drive_handle pdrv =
     bind (assert_that (unat pdrv < JRNL_MAX_HANDLES)) (\<lambda>_.
     gets (\<lambda>s. ff_jrnl_handles s ! unat pdrv))"

definition ff_jrnl_ioctl ::
  "byte \<Rightarrow> ioctl_cmd \<Rightarrow> (('d, 'z) ff_world_scheme, DRESULT \<times> ioctl_out) prog" where
  "ff_jrnl_ioctl pdrv cmd =
     bind (drive_handle pdrv) (\<lambda>jrnl_handle.
     case cmd of
       CTRL_SYNC \<Rightarrow> ret (RES_OK, Untouched)
     | GET_SECTOR_COUNT \<Rightarrow>
         bind (esp_jrnl_get_sector_count jrnl_handle True) (\<lambda>(err, ff_sector_count).
         case ff_sector_count of
           Some n \<Rightarrow> if err \<noteq> ESP_OK then ret (RES_ERROR, Untouched) else ret (RES_OK, Out_DWORD n)
         | None \<Rightarrow> if err \<noteq> ESP_OK then ret (RES_ERROR, Untouched) else undefined_behaviour)
     | GET_SECTOR_SIZE \<Rightarrow>
         bind (esp_jrnl_get_sector_size jrnl_handle True) (\<lambda>(err, ff_sector_size).
         case ff_sector_size of
           Some n \<Rightarrow> if err \<noteq> ESP_OK then ret (RES_ERROR, Untouched) else ret (RES_OK, Out_WORD (ucast n))
         | None \<Rightarrow> if err \<noteq> ESP_OK then ret (RES_ERROR, Untouched) else undefined_behaviour)
     | GET_BLOCK_SIZE \<Rightarrow> ret (RES_ERROR, Untouched)
     | IOCTL_OTHER n \<Rightarrow> ret (RES_ERROR, Untouched))"

definition ff_jrnl_write ::
  "esp_env \<Rightarrow> byte \<Rightarrow> cbuf option \<Rightarrow> u32 \<Rightarrow> u32 \<Rightarrow> (('d, 'z) ff_world_scheme, DRESULT) prog" where
  "ff_jrnl_write E pdrv buff sec count =
     bind (drive_handle pdrv) (\<lambda>jrnl_handle.
     bind (esp_jrnl_write E jrnl_handle buff sec count) (\<lambda>err.
     if err \<noteq> ESP_OK then ret RES_ERROR else ret RES_OK))"

definition ff_jrnl_read ::
  "byte \<Rightarrow> bool \<Rightarrow> u32 \<Rightarrow> u32 \<Rightarrow> (('d, 'z) ff_world_scheme, DRESULT \<times> byte list) prog" where
  "ff_jrnl_read pdrv buff sec count =
     bind (drive_handle pdrv) (\<lambda>jrnl_handle.
     bind (esp_jrnl_read jrnl_handle sec buff count) (\<lambda>(err, bs).
     if err \<noteq> ESP_OK then ret (RES_ERROR, bs) else ret (RES_OK, bs)))"

definition ff_diskio_register_jrnl ::
  "nat \<Rightarrow> (byte \<Rightarrow> (('d, 'z) ff_world_scheme, unit) prog) \<Rightarrow> byte \<Rightarrow> esp_jrnl_handle_t \<Rightarrow>
   (('d, 'z) ff_world_scheme, esp_err_t) prog" where
  "ff_diskio_register_jrnl FF_VOLUMES ff_diskio_register pdrv jrnl_handle =
     bind (assert_that (FF_VOLUMES \<le> JRNL_MAX_HANDLES)) (\<lambda>_.
     if FF_VOLUMES \<le> unat pdrv then ret ESP_ERR_INVALID_ARG
     else
       bind (ff_diskio_register pdrv) (\<lambda>_.
       bind (modify (\<lambda>s. s\<lparr>ff_jrnl_handles := (ff_jrnl_handles s)[unat pdrv := jrnl_handle]\<rparr>)) (\<lambda>_.
       ret ESP_OK)))"

text \<open>The two loops run over \<open>FF_VOLUMES\<close> entries; beyond the table that would be out of bounds.\<close>

definition ff_diskio_get_pdrv_jrnl ::
  "nat \<Rightarrow> esp_jrnl_handle_t \<Rightarrow> (('d, 'z) ff_world_scheme, byte) prog" where
  "ff_diskio_get_pdrv_jrnl FF_VOLUMES jrnl_handle =
     bind (gets (\<lambda>s. first_index (\<lambda>h. jrnl_handle = h) (take FF_VOLUMES (ff_jrnl_handles s)))) (\<lambda>found.
     case found of
       Some i \<Rightarrow> ret (of_nat i)
     | None \<Rightarrow> if FF_VOLUMES \<le> JRNL_MAX_HANDLES then ret 0xFF else undefined_behaviour)"

definition ff_diskio_clear_pdrv_jrnl ::
  "nat \<Rightarrow> esp_jrnl_handle_t \<Rightarrow> (('d, 'z) ff_world_scheme, unit) prog" where
  "ff_diskio_clear_pdrv_jrnl FF_VOLUMES jrnl_handle =
     (if JRNL_MAX_HANDLES < FF_VOLUMES then undefined_behaviour
      else modify (\<lambda>s. s\<lparr>ff_jrnl_handles :=
        map (\<lambda>h. if jrnl_handle = h then JRNL_INVALID_HANDLE else h) (take FF_VOLUMES (ff_jrnl_handles s))
        @ drop FF_VOLUMES (ff_jrnl_handles s)\<rparr>))"

section \<open>The table of drives\<close>

definition wf_drives :: "nat \<Rightarrow> ('d, 'z) ff_world_scheme \<Rightarrow> bool" where
  "wf_drives FF_VOLUMES s \<longleftrightarrow>
     FF_VOLUMES \<le> JRNL_MAX_HANDLES \<and> length (ff_jrnl_handles s) = JRNL_MAX_HANDLES"

text \<open>
  Register, look up, clear: after a drive number below \<open>FF_VOLUMES\<close> was given a handle that
  no other drive has, looking the handle up yields that drive, and once the handle is cleared
  it is unknown again and no other drive has changed.
\<close>

theorem drive_table_roundtrip:
  assumes "wf_drives V s" and "unat pdrv < V" and "h \<noteq> JRNL_INVALID_HANDLE"
    and "h \<notin> set (ff_jrnl_handles s)"
    and "\<forall>s. reg pdrv s = (Ret (), s)"
  shows "\<exists>s1 s2. ff_diskio_register_jrnl V reg pdrv h s = (Ret ESP_OK, s1) \<and>
     ff_diskio_get_pdrv_jrnl V h s1 = (Ret pdrv, s1) \<and>
     ff_diskio_clear_pdrv_jrnl V h s1 = (Ret (), s2) \<and>
     ff_diskio_get_pdrv_jrnl V h s2 = (Ret 0xFF, s2) \<and>
     ff_jrnl_handles s2 = (ff_jrnl_handles s)[unat pdrv := JRNL_INVALID_HANDLE]"
proof -
  let ?t = "ff_jrnl_handles s" and ?p = "unat pdrv"
  let ?s1 = "s\<lparr>ff_jrnl_handles := ?t[?p := h]\<rparr>"
  have V: "V \<le> 8" and len: "length ?t = 8" and p: "?p < 8"
    using assms(1,2) by (simp_all add: wf_drives_def JRNL_MAX_HANDLES_def)
  have nth: "?t ! j \<noteq> h" if "j < 8" for j using assms(4) len that by (metis nth_mem)
  have reg: "bind (reg pdrv) f t = f () t" for f :: "unit \<Rightarrow> (_, esp_err_t) prog" and t
    using assms(5) by (simp add: run_bind_Ret)
  have r: "ff_diskio_register_jrnl V reg pdrv h s = (Ret ESP_OK, ?s1)"
    using V assms(2) reg by (simp add: ff_diskio_register_jrnl_def prog_simps JRNL_MAX_HANDLES_def)
  have ne: "h \<noteq> ?t ! j" if "j < ?p" for j using nth [of j] p that by auto
  have "first_index (\<lambda>x. h = x) (take V (?t[?p := h])) = Some ?p"
    unfolding first_index_Some using assms(2) V len ne by (simp add: nth_list_update)
  then have g1: "ff_diskio_get_pdrv_jrnl V h ?s1 = (Ret pdrv, ?s1)"
    by (simp add: ff_diskio_get_pdrv_jrnl_def prog_simps)
  let ?t2 = "?t[?p := JRNL_INVALID_HANDLE]"
  have "map (\<lambda>x. if h = x then JRNL_INVALID_HANDLE else x) (take V (?t[?p := h])) @ drop V (?t[?p := h]) = ?t2"
    by (rule nth_equalityI) (use len V p nth assms(2) in \<open>auto simp: nth_append nth_list_update\<close>)
  then have c: "ff_diskio_clear_pdrv_jrnl V h ?s1 = (Ret (), s\<lparr>ff_jrnl_handles := ?t2\<rparr>)"
    using V by (simp add: ff_diskio_clear_pdrv_jrnl_def prog_simps JRNL_MAX_HANDLES_def)
  have "h \<notin> set ?t2" using assms(3,4) set_update_subset_insert [of ?t ?p JRNL_INVALID_HANDLE] by auto
  then have "first_index (\<lambda>x. h = x) (take V ?t2) = None"
    unfolding first_index_None by (auto dest: in_set_takeD)
  then have "ff_diskio_get_pdrv_jrnl V h (s\<lparr>ff_jrnl_handles := ?t2\<rparr>) = (Ret 0xFF, s\<lparr>ff_jrnl_handles := ?t2\<rparr>)"
    using V by (simp add: ff_diskio_get_pdrv_jrnl_def prog_simps JRNL_MAX_HANDLES_def)
  then show ?thesis using r g1 c by (intro exI [of _ ?s1] exI [of _ "s\<lparr>ff_jrnl_handles := ?t2\<rparr>"]) simp
qed

definition sample_ff :: "flash esp_jrnl_instance_t \<Rightarrow> flash ff_world" where
  "sample_ff inst = jrnl_world.extend (sample_world inst) \<lparr> ff_jrnl_handles = init_ff_jrnl_handles \<rparr>"

lemma sample_ff_simps [simp]:
  "ff_jrnl_handles (sample_ff inst) = replicate 8 (-1)" "dev (sample_ff inst) = sample_flash"
  "heap (sample_ff inst) = []" "s_jrnl_instance_ptrs (sample_ff inst) = Some inst # replicate 7 None"
  by (simp_all add: sample_ff_def jrnl_world.defs init_ff_jrnl_handles_def JRNL_MAX_HANDLES_def
      JRNL_INVALID_HANDLE_def sample_world_def boot_def)

theorem drive_table_roundtrip_witness:
  "\<exists>s1 s2. ff_diskio_register_jrnl 2 (\<lambda>_. ret ()) 1 0 (sample_ff sample_instance) = (Ret ESP_OK, s1) \<and>
     ff_diskio_get_pdrv_jrnl 2 0 s1 = (Ret 1, s1) \<and>
     ff_diskio_clear_pdrv_jrnl 2 0 s1 = (Ret (), s2) \<and>
     ff_diskio_get_pdrv_jrnl 2 0 s2 = (Ret 0xFF, s2)"
proof -
  have "wf_drives 2 (sample_ff sample_instance)" "unat (1 :: byte) < 2" "0 \<noteq> JRNL_INVALID_HANDLE"
    "0 \<notin> set (ff_jrnl_handles (sample_ff sample_instance))" "\<forall>s. (\<lambda>_. ret ()) (1 :: byte) s = (Ret (), s)"
    by (simp_all add: wf_drives_def JRNL_MAX_HANDLES_def JRNL_INVALID_HANDLE_def run_ret)
  from drive_table_roundtrip [OF this] show ?thesis by blast
qed

section \<open>Programs that reach the disk through the callbacks\<close>

text \<open>The drive a volume is bound to.\<close>

definition on_drive :: "byte \<Rightarrow> esp_jrnl_handle_t \<Rightarrow> ('d, 'z) ff_world_scheme \<Rightarrow> bool" where
  "on_drive pdrv h s \<longleftrightarrow> unat pdrv < JRNL_MAX_HANDLES \<and> ff_jrnl_handles s ! unat pdrv = h"

lemma drive_handle_run: "on_drive pdrv h s \<Longrightarrow> bind (drive_handle pdrv) f s = f h s"
  by (simp add: drive_handle_def on_drive_def bind_assoc prog_simps)

text \<open>
  In a transaction of the drive: the file system of before it is \<open>fs\<close>, and some operations have
  been journaled since. A program that keeps this assertion, whatever it does, can have
  appended to the log only.
\<close>

definition in_transaction ::
  "esp_env \<Rightarrow> 'd esp_jrnl_diskio_t \<Rightarrow> ('d \<Rightarrow> image) \<Rightarrow> nat \<Rightarrow> esp_jrnl_master_t \<Rightarrow> esp_jrnl_handle_t \<Rightarrow>
   byte \<Rightarrow> byte list \<Rightarrow> ('d, 'z) ff_world_scheme \<Rightarrow> bool" where
  "in_transaction E io content sec m h pdrv fs s \<longleftrightarrow>
     (\<exists>ps. journal_open E io content sec m h fs ps s) \<and> on_drive pdrv h s"

lemma journal_open_dev:
  "content d = content (dev s) \<Longrightarrow> journal_open E io content sec m h fs ps s \<Longrightarrow>
   journal_open E io content sec m h fs ps (s\<lparr>dev := d\<rparr>)"
  by (simp add: journal_open_def attached_def)

context block_device
begin

text \<open>
  FatFS writes a run of sectors of its volume: inside a transaction the disk below the journal
  store does not change, and the callback reports an error exactly when the journal refused.
\<close>

lemma ff_write_keeps:
  assumes g: "geom sector capacity m" and ok: "op_ok sector m (sec, buf_bytes buff (unat count * sector))"
  shows "keeps (in_transaction E io content sector m h pdrv fs :: ('d, 'z) ff_world_scheme \<Rightarrow> bool)
      (ff_jrnl_write E pdrv (Some buff) sec count)"
proof (rule keepsI)
  fix s :: "('d, 'z) ff_world_scheme"
  assume "in_transaction E io content sector m h pdrv fs s"
  then obtain ps where o: "journal_open E io content sector m h fs ps s" and d: "on_drive pdrv h s"
    by (auto simp: in_transaction_def)
  obtain err s' ps' where w: "esp_jrnl_write E h (Some buff) sec count s = (Ret err, s')"
    and o': "journal_open E io content sector m h fs ps' s'"
    by (rule write_refines [OF g o ok refl])
  have "jrnl_world.more s' = jrnl_world.more s" using frame_interface(6) w by (rule keeps_moreD)
  then have "on_drive pdrv h s'" using d by (cases s, cases s') (simp add: on_drive_def)
  then show "\<exists>x s'. ff_jrnl_write E pdrv (Some buff) sec count s = (Ret x, s') \<and>
      in_transaction E io content sector m h pdrv fs s'"
    using w o' by (auto simp: ff_jrnl_write_def drive_handle_run [OF d] run_bind_Ret in_transaction_def prog_simps)
qed

lemma any_read_run:
  assumes g: "geom sector capacity m" and at: "attached io m h inst s" and nw: "unat sec + unat count < 2 ^ 32"
  obtains err bs d where "esp_jrnl_read h sec True count s = (Ret (err, bs), s\<lparr>dev := d\<rparr>)"
    and "content d = content (dev s)"
proof (cases "store_volume_offset_sector (master inst) \<le> sec + count")
  case True
  then show thesis using at that [of ESP_ERR_INVALID_SIZE "[]" "dev s"]
    by (simp add: attached_def esp_jrnl_read_def mounted_run [of h inst s] Let_def prog_simps)
next
  case False
  let ?ss = "disk_sector_size (volume (master inst))"
  obtain err bs d where r: "disk_read io (diskio_ctrl_handle io) (sec * ?ss) (count * ?ss) (dev s) = ((err, bs), d)"
    by (metis surj_pair)
  have "unat (sec + count) = unat sec + unat count" using nw by (rule unat_add_no_wrap)
  then have "unat sec + unat count \<le> fs_sectors m + store_sectors m"
    using False at by (simp add: attached_def same_geometry_def word_le_nat_alt)
  then have "unat (sec * ?ss) + unat (count * ?ss) \<le> capacity"
    using geom_address [OF g, of sec count] at by (simp add: attached_def same_geometry_def)
  then show thesis using at False that [of err bs d] r read_frame [OF r]
    by (simp add: attached_def esp_jrnl_read_def mounted_run [of h inst s] Let_def jrnl_read_raw_def)
qed

lemma ff_read_keeps:
  assumes "geom sector capacity m" and "unat sec + unat count < 2 ^ 32"
  shows "keeps (in_transaction E io content sector m h pdrv fs :: ('d, 'z) ff_world_scheme \<Rightarrow> bool)
     (ff_jrnl_read pdrv True sec count)"
proof (rule keepsI)
  fix s :: "('d, 'z) ff_world_scheme"
  assume "in_transaction E io content sector m h pdrv fs s"
  then obtain ps inst where o: "journal_open E io content sector m h fs ps s" and d: "on_drive pdrv h s"
    and at: "attached io m h inst s"
    by (auto simp: in_transaction_def journal_open_def)
  obtain err bs e where r: "esp_jrnl_read h sec True count s = (Ret (err, bs), s\<lparr>dev := e\<rparr>)"
    and c: "content e = content (dev s)"
    by (rule any_read_run [OF assms(1) at assms(2)])
  have "on_drive pdrv h (s\<lparr>dev := e\<rparr>)" using d by (simp add: on_drive_def)
  then show "\<exists>x s'. ff_jrnl_read pdrv True sec count s = (Ret x, s') \<and>
      in_transaction E io content sector m h pdrv fs s'"
    using r journal_open_dev [OF c o]
    by (auto simp: ff_jrnl_read_def drive_handle_run [OF d] run_bind_Ret in_transaction_def prog_simps)
qed

end

section \<open>What FatFS sees of the disk\<close>

text \<open>
  On a mounted drive the control codes report the file system, not the disk: the number of
  sectors below the journal store, and the sector size cut to 16 bits. \<open>CTRL_SYNC\<close> always
  succeeds and every other code is refused. A drive number beyond the table fails the
  assertion.
\<close>

theorem ioctl_reports_volume:
  assumes "geom sec cap m" and "attached io m h inst s" and "on_drive pdrv h s"
  shows "ff_jrnl_ioctl pdrv GET_SECTOR_COUNT s = (Ret (RES_OK, Out_DWORD (of_nat (fs_sectors m))), s) \<and>
     ff_jrnl_ioctl pdrv GET_SECTOR_SIZE s = (Ret (RES_OK, Out_WORD (of_nat sec)), s) \<and>
     ff_jrnl_ioctl pdrv CTRL_SYNC s = (Ret (RES_OK, Untouched), s) \<and>
     ff_jrnl_ioctl pdrv GET_BLOCK_SIZE s = (Ret (RES_ERROR, Untouched), s) \<and>
     ff_jrnl_ioctl pdrv (IOCTL_OTHER n) s = (Ret (RES_ERROR, Untouched), s) \<and>
     (8 \<le> unat p \<longrightarrow> fst (ff_jrnl_ioctl p cmd s) = Aborted)"
proof -
  note g = getters_run [OF assms(1,2)]
  have sec: "ucast (disk_sector_size (volume m)) = (of_nat sec :: 16 word)"
    using assms(1) of_nat_unat [of "disk_sector_size (volume m)", where 'a = "16 word"] by (simp add: geom_def)
  have "fst (ff_jrnl_ioctl p cmd s) = Aborted" if "8 \<le> unat p"
    using that by (simp add: ff_jrnl_ioctl_def drive_handle_def bind_assoc prog_simps JRNL_MAX_HANDLES_def)
  then show ?thesis
    unfolding ff_jrnl_ioctl_def drive_handle_run [OF assms(3)]
    by (simp add: run_bind_Ret g prog_simps sec)
qed

lemma sample_ff_attached:
  "attached sample_io sample_master 0 (sample_in st) (sample_ff (sample_in st))"
  using sample_attached [of st]
  by (simp add: attached_def mounted_def JRNL_MAX_HANDLES_def)

theorem ioctl_reports_volume_witness:
  "let s = (sample_ff (sample_in ESP_JRNL_STATUS_TRANS_READY))\<lparr>ff_jrnl_handles := [0]\<rparr> in
   ff_jrnl_ioctl 0 GET_SECTOR_COUNT s = (Ret (RES_OK, Out_DWORD 4), s) \<and>
   ff_jrnl_ioctl 0 GET_SECTOR_SIZE s = (Ret (RES_OK, Out_WORD 32), s)"
proof -
  let ?s = "(sample_ff (sample_in ESP_JRNL_STATUS_TRANS_READY))\<lparr>ff_jrnl_handles := [0]\<rparr>"
  have "attached sample_io sample_master 0 (sample_in ESP_JRNL_STATUS_TRANS_READY) ?s"
    using sample_ff_attached by (simp add: attached_def mounted_def)
  moreover have "on_drive 0 0 ?s" by (simp add: on_drive_def JRNL_MAX_HANDLES_def)
  ultimately show ?thesis
    using ioctl_reports_volume [OF sample_geom, of _ _ _ ?s] by (simp add: Let_def sample_master_def)
qed

text \<open>
  C26. While FatFS works inside a transaction, no call of the disk callbacks that stays within the
  volume can fail the program or touch the file system on the disk: writes of any sectors
  of the volume and reads of any sectors, as long as their sum does not wrap, leave a transaction whose file system is the one of
  before, on every device, also when the journal is full and when the device fails.
\<close>

theorem callbacks_stay_in_transaction:
  fixes s :: "('d, 'z) ff_world_scheme"
  assumes "block_device io content sec cap er" and "geom sec cap m"
    and "in_transaction E io content sec m h pdrv fs s"
    and "op_ok sec m (target, buf_bytes buff (unat count * sec))" and "unat target' + unat count' < 2 ^ 32"
  shows "(\<exists>res s'. ff_jrnl_write E pdrv (Some buff) target count s = (Ret res, s') \<and>
       in_transaction E io content sec m h pdrv fs s') \<and>
     (\<exists>res s'. ff_jrnl_read pdrv True target' count' s = (Ret res, s') \<and>
       in_transaction E io content sec m h pdrv fs s')"
  using keeps_run [OF block_device.ff_write_keeps [OF assms(1,2,4)], of E h pdrv fs s]
    keeps_run [OF block_device.ff_read_keeps [OF assms(1,2,5)], of E h pdrv fs s] assms(3)
  by simp

lemma sample_ff_transaction:
  "in_transaction sample_env sample_io cells 32 sample_master 0 0 sample_fs
     ((sample_ff (sample_in ESP_JRNL_STATUS_TRANS_OPEN))\<lparr>ff_jrnl_handles := [0]\<rparr>)"
proof -
  have "attached sample_io sample_master 0 (sample_in ESP_JRNL_STATUS_TRANS_OPEN)
      ((sample_ff (sample_in ESP_JRNL_STATUS_TRANS_OPEN))\<lparr>ff_jrnl_handles := [0]\<rparr>)"
    using sample_ff_attached by (simp add: attached_def mounted_def)
  moreover have "used_sectors (master (sample_in ESP_JRNL_STATUS_TRANS_OPEN)) = log_sectors 32 []"
    by (simp add: sample_in_def sample_master_def)
  moreover have "status (master (sample_in ESP_JRNL_STATUS_TRANS_OPEN)) = ESP_JRNL_STATUS_TRANS_OPEN"
    by (simp add: sample_in_def)
  moreover have "fs_bytes 32 sample_master (cells sample_flash) = sample_fs"
    using blank_fs by (simp add: sample_flash_def)
  ultimately have "journal_open sample_env sample_io cells 32 sample_master 0 sample_fs []
      ((sample_ff (sample_in ESP_JRNL_STATUS_TRANS_OPEN))\<lparr>ff_jrnl_handles := [0]\<rparr>)"
    unfolding journal_open_def using log_in_store_Nil [OF sample_geom] blank_idle
    by (intro conjI exI [of _ "sample_in ESP_JRNL_STATUS_TRANS_OPEN"]) simp_all
  then show ?thesis by (auto simp: in_transaction_def on_drive_def JRNL_MAX_HANDLES_def)
qed

theorem callbacks_stay_in_transaction_witness:
  "let s = (sample_ff (sample_in ESP_JRNL_STATUS_TRANS_OPEN))\<lparr>ff_jrnl_handles := [0]\<rparr> in
   (\<exists>res s'. ff_jrnl_write sample_env 0 (Some (\<lambda>_. 7)) 1 1 s = (Ret res, s') \<and>
     in_transaction sample_env sample_io cells 32 sample_master 0 0 sample_fs s') \<and>
   (\<exists>res s'. ff_jrnl_read 0 True 2 1 s = (Ret res, s') \<and>
     in_transaction sample_env sample_io cells 32 sample_master 0 0 sample_fs s')"
proof -
  have "op_ok 32 sample_master (1, buf_bytes (\<lambda>_. 7) (unat (1 :: u32) * 32))"
    using sample_op_ok sample_op_buffer by simp
  moreover have "unat (2 :: u32) + unat (1 :: u32) < 2 ^ 32" by simp
  ultimately show ?thesis
    unfolding Let_def by (rule callbacks_stay_in_transaction [OF sample_device sample_geom sample_ff_transaction])
qed

end
