(* ===== verification/Jrnl_Bounds.thy ===== *)
theory Jrnl_Bounds
  imports Jrnl_Correct Diskio_Jrnl
begin

text \<open>
  The range of the disk accesses. A guard is put between the journal and the disk routines: it
  refuses a request that does not lie inside the volume, remembers it, and refuses every request
  after it. The contract \<open>block_device\<close> says nothing of requests outside the volume, so the guard
  may claim any content from then on, also one no mount could recover from; as the journal
  always leaves a disk a mount can recover from, the guard is never triggered.
\<close>

section \<open>The guard\<close>

definition guarded :: "nat \<Rightarrow> 'd esp_jrnl_diskio_t \<Rightarrow> ('d \<times> bool) esp_jrnl_diskio_t" where
  "guarded vol io =
     \<lparr> diskio_ctrl_handle = diskio_ctrl_handle io,
       disk_read = (\<lambda>h a n (d, bad).
         if bad \<or> vol < unat a + unat n then ((ESP_FAIL, []), (d, True))
         else case disk_read io h a n d of (r, d') \<Rightarrow> (r, (d', False))),
       disk_write = (\<lambda>h a src n (d, bad).
         if bad \<or> vol < unat a + unat n then (ESP_FAIL, (d, True))
         else case disk_write io h a src n d of (e, d') \<Rightarrow> (e, (d', False))),
       disk_erase_range = (\<lambda>h a n (d, bad).
         if bad \<or> vol < unat a + unat n then (ESP_FAIL, (d, True))
         else case disk_erase_range io h a n d of (e, d') \<Rightarrow> (e, (d', False))) \<rparr>"

abbreviation out_of_volume :: "'d \<times> bool \<Rightarrow> bool" where
  "out_of_volume \<equiv> snd"

text \<open>The content a triggered guard claims is \<open>g\<close>.\<close>

definition claimed :: "('d \<Rightarrow> image) \<Rightarrow> image \<Rightarrow> 'd \<times> bool \<Rightarrow> image" where
  "claimed content g x = (if out_of_volume x then g else content (fst x))"

lemma guarded_device:
  assumes "block_device io content sec cap er" and "vol \<le> cap"
  shows "block_device (guarded vol io) (claimed content g) sec vol er"
proof -
  note dev = block_device.read_frame [OF assms(1)] block_device.read_ok [OF assms(1)]
    block_device.erase_ok [OF assms(1)] block_device.erase_frame [OF assms(1)]
    block_device.erase_sector [OF assms(1)] block_device.write_ok [OF assms(1)]
    block_device.write_frame [OF assms(1)] block_device.write_sector [OF assms(1)]
  show ?thesis
    by unfold_locales
      (use assms(2) in \<open>auto simp: guarded_def claimed_def split: prod.splits if_splits dest: dev\<close>)
qed

text \<open>A record left in the initial status is one no mount recovers from.\<close>

definition unrecoverable :: "esp_env \<Rightarrow> nat \<Rightarrow> esp_jrnl_master_t \<Rightarrow> image" where
  "unrecoverable E sec m =
     put_bytes (\<lambda>_. 0) (master_addr sec m)
       (master_sector E sec (m\<lparr>jrnl_magic_mark := JRNL_STORE_MARKER, status := ESP_JRNL_STATUS_FS_INIT\<rparr>))"

lemma unrecoverable_stands_for_nothing:
  assumes "geom sec cap m"
  shows "\<not> recovers_to E sec m (unrecoverable E sec m) fs"
proof -
  let ?m = "m\<lparr>jrnl_magic_mark := JRNL_STORE_MARKER, status := ESP_JRNL_STATUS_FS_INIT\<rparr>"
  have "stored_master sec m (unrecoverable E sec m) = ?m"
    unfolding unrecoverable_def by (rule stored_master_put [OF assms]) simp
  then show ?thesis by (simp add: recovers_to_def idle_disk_def committed_disk_def)
qed

section \<open>Runs on a guarded disk\<close>

text \<open>
  A power cycle keeps the bytes of the disk and what the guard remembers: both are encoded in one
  image.
\<close>

definition tagged :: "('d \<Rightarrow> image) \<Rightarrow> 'd \<times> bool \<Rightarrow> image" where
  "tagged content x = case_nat (of_bool (out_of_volume x)) (content (fst x))"

lemma tagged_eq: "tagged content x = tagged content y \<longleftrightarrow> out_of_volume x = out_of_volume y \<and> content (fst x) = content (fst y)"
  by (auto simp: tagged_def fun_eq_iff split: nat.splits)

lemma tagged_claimed: "tagged content x = tagged content y \<Longrightarrow> claimed content g x = claimed content g y"
  by (simp add: tagged_eq claimed_def)

text \<open>A run only uses the content of the disk to say what a power cycle keeps.\<close>

lemma jrnl_run_content:
  assumes "jrnl_run E config content sec x tr y"
    and keeps: "\<And>d d'. content d = content d' \<Longrightarrow> content' d = content' d'"
  shows "jrnl_run E config content' sec x tr y"
  using assms(1)
proof (induction rule: jrnl_run.induct)
  case (jrnl_run_snoc x tr y e z)
  have "jrnl_step E config content' sec y e z"
    using jrnl_run_snoc.hyps(2) by (cases rule: jrnl_step.cases) (auto intro: jrnl_step.intros keeps)
  with jrnl_run_snoc.IH show ?case by (rule jrnl_run.jrnl_run_snoc)
qed (rule jrnl_run_Nil)

lemma refines_claimed:
  assumes "geom sec cap m" and "refines E io (claimed content (unrecoverable E sec m)) sec m b (h, s)"
  shows "\<not> out_of_volume (dev s)"
  using refines_recovers [OF assms(2)] unrecoverable_stands_for_nothing [OF assms(1)] by (auto simp: claimed_def)

lemma geom_volume: "geom sec cap m \<Longrightarrow> geom sec (unat (volume_size (volume m))) m \<and> unat (volume_size (volume m)) \<le> cap"
  by (simp add: geom_def)

text \<open>
  C8. No disk access leaves the volume. From the start of the machine on a disk a mount can recover
  from, through every trace of mounts, calls and power cycles of a disciplined client, with failures
  at any access, every request to the disk routines lies inside the volume, whatever the size of the
  disk; while a journal is mounted that is also true of reads, as long as the first sector and the
  count do not add up to \<open>2 ^ 32\<close>.
\<close>

theorem accesses_stay_in_volume:
  fixes config :: "('d \<times> bool) esp_jrnl_config_extended_t"
  assumes "block_device io content sec cap er" and "geom sec cap m"
    and "matches m (guarded (unat (volume_size (volume m))) io) config"
    and "recovers_to E sec m (content d) fs"
    and "jrnl_run E config (tagged content) sec (h0, boot (d, False) hp) tr (h, s)"
    and "disciplined sec m Down tr = Some ph"
  shows "\<not> out_of_volume (dev s) \<and>
     (ph \<noteq> Down \<and> unat target + unat count < 2 ^ 32 \<longrightarrow>
        (\<exists>r s'. esp_jrnl_read h target True count s = (Ret r, s') \<and> \<not> out_of_volume (dev s')))"
proof -
  let ?io = "guarded (unat (volume_size (volume m))) io" and ?c = "claimed content (unrecoverable E sec m)"
  have g: "geom sec (unat (volume_size (volume m))) m" and "unat (volume_size (volume m)) \<le> cap"
    using geom_volume [OF assms(2)] by simp_all
  then have bd: "block_device ?io ?c sec (unat (volume_size (volume m))) er" using guarded_device [OF assms(1)] by simp
  have run: "jrnl_run E config ?c sec (h0, boot (d, False) hp) tr (h, s)"
    using assms(5) tagged_claimed by (rule jrnl_run_content)
  have "refines E ?io ?c sec m (Unsure {fs}) (h0, boot (d, False) hp)"
    using assms(4) by (simp add: claimed_def boot_def)
  then obtain b where b: "refines E ?io ?c sec m b (h, s)" "vol_phase b = ph"
    using block_device.simulates_run [OF bd g assms(3) run] assms(6) by fastforce
  note ok = refines_claimed [OF assms(2) b(1)]
  have "\<exists>r s'. esp_jrnl_read h target True count s = (Ret r, s') \<and> \<not> out_of_volume (dev s')"
    if down: "ph \<noteq> Down" and nw: "unat target + unat count < 2 ^ 32"
  proof -
    obtain inst where at: "attached ?io m h inst s"
      using b down by (cases b) (auto simp: journal_ready_def journal_open_def)
    obtain err bs e where "esp_jrnl_read h target True count s = (Ret (err, bs), s\<lparr>dev := e\<rparr>)" "?c e = ?c (dev s)"
      by (rule block_device.any_read_run [OF bd g at nw])
    moreover from this(2) have "\<not> out_of_volume e"
      using refines_recovers [OF b(1)] unrecoverable_stands_for_nothing [OF assms(2)] by (auto simp: claimed_def)
    ultimately show ?thesis by auto
  qed
  with ok show ?thesis by blast
qed

text \<open>A guarded disk serves what the disk below it serves.\<close>

lemma guarded_reliable:
  assumes "byte_reliable_device io content sec cap er healthy" and "vol \<le> cap"
  shows "byte_reliable_device (guarded vol io) (claimed content g) sec vol er
     (\<lambda>x. \<not> out_of_volume x \<and> healthy (fst x))"
proof -
  note bytes = byte_reliable_device.read_serves_bytes [OF assms(1)]
  have rel: "reliable_device io content sec cap er healthy"
    using assms(1) by (rule byte_reliable_device.axioms(1))
  note serves = reliable_device.read_serves [OF rel] reliable_device.erase_serves [OF rel] reliable_device.write_serves [OF rel]
  note bd = guarded_device [OF reliable_device.axioms(1) [OF rel] assms(2)]
  have r: "\<exists>bs y. disk_read (guarded vol io) (diskio_ctrl_handle (guarded vol io)) a n x = ((ESP_OK, bs), y) \<and>
      \<not> out_of_volume y \<and> healthy (fst y)"
    if "\<not> out_of_volume x \<and> healthy (fst x)" "unat a + unat n \<le> vol" for a n x
    using bytes [of "fst x" a n] that assms(2) by (cases x) (auto simp: guarded_def)
  have e: "\<exists>y. disk_erase_range (guarded vol io) (diskio_ctrl_handle (guarded vol io)) a n x = (ESP_OK, y) \<and>
      \<not> out_of_volume y \<and> healthy (fst y)"
    if "\<not> out_of_volume x \<and> healthy (fst x)" "sec dvd unat a" "sec dvd unat n" "unat a + unat n \<le> vol" for a n x
    using serves(2) [of "fst x" a n] that assms(2) by (cases x) (auto simp: guarded_def)
  have w: "\<exists>y. disk_write (guarded vol io) (diskio_ctrl_handle (guarded vol io)) a src n x = (ESP_OK, y) \<and>
      \<not> out_of_volume y \<and> healthy (fst y)"
    if "\<not> out_of_volume x \<and> healthy (fst x)" "sec dvd unat a" "sec dvd unat n" "unat a + unat n \<le> vol" for a src n x
    using serves(3) [of "fst x" a n src] that assms(2) by (cases x) (auto simp: guarded_def)
  show ?thesis
    by (intro byte_reliable_device.intro reliable_device.intro bd reliable_device_axioms.intro
        byte_reliable_device_axioms.intro r e w)
qed

text \<open>The sample volume on a guarded flash.\<close>

definition guarded_config :: "(flash \<times> bool) esp_jrnl_config_extended_t" where
  "guarded_config = \<lparr> user_cfg = user_cfg sample_config, cfg_fs_volume_id = 0, volume_cfg = volume_cfg sample_config,
     diskio_cfg = guarded 384 sample_io \<rparr>"

lemma guarded_sample:
  "byte_reliable_device (guarded 384 sample_io) (claimed cells g) 32 384 0xFF
     (\<lambda>x. \<not> out_of_volume x \<and> ops_left (fst x) = None)"
  by (rule guarded_reliable [OF sample_reliable]) simp

lemma guarded_matches: "matches sample_master (guarded 384 sample_io) guarded_config"
  using sample_matches by (simp add: matches_def describes_def guarded_config_def)

theorem accesses_stay_in_volume_witness:
  "\<exists>h s r s'. jrnl_run sample_env guarded_config (tagged cells) 32 (0, boot (sample_flash, False) [])
       [Power_cycled ESP_OK, Started ESP_OK, Wrote sample_op ESP_OK, Stopped True ESP_OK] (h, s) \<and>
     \<not> out_of_volume (dev s) \<and>
     esp_jrnl_read h 2 True 1 s = (Ret r, s') \<and> \<not> out_of_volume (dev s')"
proof -
  let ?run = "jrnl_run sample_env guarded_config (tagged cells) 32 (0, boot (sample_flash, False) [])"
  let ?tr = "[Power_cycled ESP_OK, Started ESP_OK, Wrote sample_op ESP_OK, Stopped True ESP_OK]"
  have d: "recovers_to sample_env 32 sample_master (claimed cells (\<lambda>_. 0) (sample_flash, False)) sample_fs"
    "\<not> out_of_volume (sample_flash, False) \<and> ops_left (fst (sample_flash, False)) = None"
    using blank_recovers by (simp_all add: claimed_def sample_flash_def)
  obtain h s s1 s2 s3 where r0: "esp_jrnl_mount sample_env (Some guarded_config) (Some 0) (boot (sample_flash, False) []) =
      (Ret (ESP_OK, Some h), s)"
    and r1: "esp_jrnl_start sample_env h s = (Ret ESP_OK, s1)"
    and r2: "esp_jrnl_write sample_env h (Some (\<lambda>_. 7)) 1 1 s1 = (Ret ESP_OK, s2)"
    and r3: "esp_jrnl_stop sample_env h True s2 = (Ret ESP_OK, s3)"
    by (rule session_serves [OF guarded_sample guarded_matches d])
  have "?run ([] @ [Power_cycled ESP_OK]) (h, s)"
    by (rule jrnl_run_snoc [OF jrnl_run_Nil power [OF _ r0]]) (simp add: boot_def)
  note run = jrnl_run_snoc [OF jrnl_run_snoc [OF jrnl_run_snoc [OF this call_start [OF r1]] call_write [OF r2]] call_stop [OF r3]]
  have run: "?run ?tr (h, s3)" using run by (simp add: sample_op_buffer)
  have "matches sample_master (guarded (unat (volume_size (volume sample_master))) sample_io) guarded_config"
    using guarded_matches by (simp add: sample_master_def sample_volume_def)
  moreover have "disciplined 32 sample_master Down ?tr = Some Outside" using sample_op_ok by simp
  ultimately have "\<not> out_of_volume (dev s3) \<and> (Outside \<noteq> Down \<and> unat (2 :: u32) + unat (1 :: u32) < 2 ^ 32 \<longrightarrow>
      (\<exists>r s'. esp_jrnl_read h 2 True 1 s3 = (Ret r, s') \<and> \<not> out_of_volume (dev s')))"
    using run by (intro accesses_stay_in_volume [OF sample_device sample_geom _ blank_recovers])
  moreover have "unat (2 :: u32) + unat (1 :: u32) < 2 ^ 32" "Outside \<noteq> Down" by simp_all
  ultimately show ?thesis using run by blast
qed

text \<open>
  C35. The bound of \<open>esp_jrnl_read\<close> adds sector and count in 32 bits. A read of two sectors from
  sector \<open>2 ^ 32 - 1\<close> on passes it and is handed to the disk, which is asked for an address beyond
  every volume.
\<close>

theorem read_bound_wraps:
  fixes s :: "('d \<times> bool, 'z) jrnl_world_scheme"
  assumes "geom sec cap m" and "attached (guarded (unat (volume_size (volume m))) io) m h inst s" and "1 < fs_sectors m"
  shows "\<exists>s'. esp_jrnl_read h (- 1) True 2 s = (Ret (ESP_FAIL, []), s') \<and> out_of_volume (dev s')"
proof -
  let ?ss = "disk_sector_size (volume m)" and ?vol = "unat (volume_size (volume m))"
  have mt: "mounted h inst s" and io: "diskio inst = guarded ?vol io" and geo: "same_geometry m (master inst)"
    using assms(2) by (simp_all add: attached_def)
  have sec: "unat ?ss = sec" "28 \<le> sec" using assms(1) geom_sector_pos [OF assms(1)] by (simp_all add: geom_def)
  have two: "unat (2 * ?ss) = 2 * sec" using geom_address(2) [OF assms(1), of 0 2] assms(3) by simp
  have "(unat (- ?ss) + sec) mod 2 ^ 32 = 0"
    using unat_word_ariths(1) [of "- ?ss" ?ss] sec(1) by simp
  then have "2 ^ 32 \<le> unat (- ?ss) + sec" using sec(2) by (intro dvd_imp_le) (auto simp: mod_eq_0_iff_dvd)
  then have "?vol < unat (- 1 * ?ss) + unat (2 * ?ss)" using two sec(2) unat_lt_2_32 [of "volume_size (volume m)"] by simp
  moreover have "\<not> store_volume_offset_sector (master inst) \<le> - 1 + 2"
    using assms(3) geo by (simp add: same_geometry_def word_le_nat_alt)
  ultimately show ?thesis
    using io geo by (cases "dev s") (simp add: esp_jrnl_read_def mounted_run [OF mt] Let_def jrnl_read_raw_def guarded_def same_geometry_def)
qed

theorem read_bound_wraps_witness:
  "\<exists>s'. esp_jrnl_read 0 (- 1) True 2
     ((boot (sample_flash, False) [])\<lparr>s_jrnl_instance_ptrs :=
        Some \<lparr> trans_lock = False, fs_volume_id = 0, diskio = guarded 384 sample_io, master = sample_master \<rparr> # replicate 7 None\<rparr>)
     = (Ret (ESP_FAIL, []), s') \<and> out_of_volume (dev s')"
proof (rule read_bound_wraps [OF sample_geom])
  show "attached (guarded (unat (volume_size (volume sample_master))) sample_io) sample_master 0
      \<lparr> trans_lock = False, fs_volume_id = 0, diskio = guarded 384 sample_io, master = sample_master \<rparr>
      ((boot (sample_flash, False) [])\<lparr>s_jrnl_instance_ptrs :=
        Some \<lparr> trans_lock = False, fs_volume_id = 0, diskio = guarded 384 sample_io, master = sample_master \<rparr> # replicate 7 None\<rparr>)"
    by (simp add: attached_def mounted_def JRNL_MAX_HANDLES_def)
      (simp add: sample_master_def sample_volume_def)
qed (simp add: sample_master_def)

end
