(* ===== verification/Vfs_Types.thy ===== *)
theory Vfs_Types
  imports Diskio_Jrnl
begin

text \<open>
  The data of the VFS layer (\<open>srcs/fatfs/vfs/vfs_jrnl_fat.c\<close>): contexts, files and directory
  streams, the state it adds to the machine, its conversions (open flags, error numbers, paths,
  date and time), and the interface of FatFS it is a client of.

  FatFS is not part of the repository. Its functions are the fields of \<open>fatfs_api\<close>, programs
  on the whole machine, since they call back into the disk routines; the structures of FatFS have the
  members this layer uses and one more that stands for the rest of their bytes. The build-time
  settings are the fields of \<open>vfs_config\<close>. The target is the 32-bit one of the component, with
  \<open>FF_FS_EXFAT\<close> off: \<open>off_t\<close>, \<open>size_t\<close> and \<open>FSIZE_t\<close> have 32 bits.
\<close>

section \<open>Error numbers\<close>

datatype errno_t =
    ENONE | EIO | ENODEV | ENOENT | EINVAL | EACCES | EEXIST | EBADF | ENXIO | EINTR | ETIMEDOUT
  | ENOMEM | ENFILE | ENOSPC | ENOTSUP

text \<open>The result codes of FatFS. The enumeration has these values and no other.\<close>

datatype FRESULT =
    FR_OK | FR_DISK_ERR | FR_INT_ERR | FR_NOT_READY | FR_NO_FILE | FR_NO_PATH | FR_INVALID_NAME
  | FR_DENIED | FR_EXIST | FR_INVALID_OBJECT | FR_WRITE_PROTECTED | FR_INVALID_DRIVE | FR_NOT_ENABLED
  | FR_NO_FILESYSTEM | FR_MKFS_ABORTED | FR_TIMEOUT | FR_LOCKED | FR_NOT_ENOUGH_CORE
  | FR_TOO_MANY_OPEN_FILES | FR_INVALID_PARAMETER

text \<open>The switch has a case for every value, so the assertion after it is never reached.\<close>

fun fresult_to_errno :: "FRESULT \<Rightarrow> errno_t" where
  "fresult_to_errno FR_DISK_ERR = EIO"
| "fresult_to_errno FR_INT_ERR = EIO"
| "fresult_to_errno FR_NOT_READY = ENODEV"
| "fresult_to_errno FR_NO_FILE = ENOENT"
| "fresult_to_errno FR_NO_PATH = ENOENT"
| "fresult_to_errno FR_INVALID_NAME = EINVAL"
| "fresult_to_errno FR_DENIED = EACCES"
| "fresult_to_errno FR_EXIST = EEXIST"
| "fresult_to_errno FR_INVALID_OBJECT = EBADF"
| "fresult_to_errno FR_WRITE_PROTECTED = EACCES"
| "fresult_to_errno FR_INVALID_DRIVE = ENXIO"
| "fresult_to_errno FR_NOT_ENABLED = ENODEV"
| "fresult_to_errno FR_NO_FILESYSTEM = ENODEV"
| "fresult_to_errno FR_MKFS_ABORTED = EINTR"
| "fresult_to_errno FR_TIMEOUT = ETIMEDOUT"
| "fresult_to_errno FR_LOCKED = EACCES"
| "fresult_to_errno FR_NOT_ENOUGH_CORE = ENOMEM"
| "fresult_to_errno FR_TOO_MANY_OPEN_FILES = ENFILE"
| "fresult_to_errno FR_INVALID_PARAMETER = EINVAL"
| "fresult_to_errno FR_OK = ENONE"

section \<open>Structures\<close>

record FIL =
  obj_fs :: bool
  objsize :: u32
  fptr :: u32
  cltbl :: "u32 option"
  fil_rest :: cbuf

definition zero_fil :: FIL where
  "zero_fil = \<lparr> obj_fs = False, objsize = 0, fptr = 0, cltbl = None, fil_rest = (\<lambda>_. 0) \<rparr>"

record FATFS =
  fs_pdrv :: byte
  fs_csize :: "16 word"
  fs_rest :: cbuf

definition zero_fatfs :: FATFS where
  "zero_fatfs = \<lparr> fs_pdrv = 0, fs_csize = 0, fs_rest = (\<lambda>_. 0) \<rparr>"

record FILINFO =
  fi_fsize :: u32
  fi_fdate :: "16 word"
  fi_ftime :: "16 word"
  fi_fattrib :: byte
  fi_fname :: string

definition zero_filinfo :: FILINFO where
  "zero_filinfo = \<lparr> fi_fsize = 0, fi_fdate = 0, fi_ftime = 0, fi_fattrib = 0, fi_fname = [] \<rparr>"

record cached_data =
  cd_file_path :: string
  cd_fileinfo :: FILINFO

definition zero_cached :: cached_data where
  "zero_cached = \<lparr> cd_file_path = [], cd_fileinfo = zero_filinfo \<rparr>"

record vfs_fat_ctx_t =
  fat_drive :: string
  base_path :: string
  max_files :: u32
  fat_lock :: bool
  fat_fs :: FATFS
  tmp_path_buf :: string
  tmp_path_buf2 :: string
  o_append :: "bool list"
  dir_path :: string
  cached_fileinfo :: cached_data
  files :: "FIL list"

type_synonym FF_DIR = cbuf

datatype d_type = DT_UNKNOWN | DT_REG | DT_DIR

record dirent =
  d_ino :: int
  d_type :: d_type
  d_name :: string

record vfs_fat_dir_t =
  dir_offset :: u32
  ffdir :: FF_DIR
  dir_filinfo :: FILINFO
  cur_dirent :: dirent

record stat =
  st_size :: u32
  st_mode :: u32
  st_mtime :: int
  st_atime :: int
  st_ctime :: int
  st_blksize :: u32

definition zero_stat :: stat where
  "zero_stat = \<lparr> st_size = 0, st_mode = 0, st_mtime = 0, st_atime = 0, st_ctime = 0, st_blksize = 0 \<rparr>"

section \<open>State\<close>

text \<open>
  The globals of the file, \<open>errno\<close>, the directory streams by address, and the private memory
  of FatFS. A pointer to a context is its index in the table; one whose entry is gone dangles.
\<close>

record 'd vfs_world = "'d ff_world" +
  errno :: errno_t
  s_fat_ctxs :: "vfs_fat_ctx_t option list"
  s_fat_ctx :: "nat option"
  s_jrnl_handles :: "esp_jrnl_handle_t list"
  dirs :: "vfs_fat_dir_t option list"
  ff_static :: cbuf

record vfs_config =
  FF_VOLUMES :: nat
  FILENAME_MAX :: nat
  ESP_VFS_PATH_MAX :: nat
  sizeof_ctx :: u32
  sizeof_FIL :: u32
  sizeof_dir :: u32
  sizeof_cached_path :: nat
  sizeof_d_name :: nat
  FATFS_USE_FASTSEEK :: bool
  FATFS_FAST_SEEK_BUFFER_SIZE :: u32
  FATFS_IMMEDIATE_FSYNC :: bool
  FATFS_LINK_LOCK :: bool
  FATFS_VFS_FSTAT_BLKSIZE :: u32

text \<open>
  FatFS. An object is handed over by value and comes back updated; an output parameter is
  part of the result. \<open>f_read\<close> yields the count and the bytes in the buffer.
\<close>

record 'w fatfs_api =
  FA_READ :: u32
  FA_WRITE :: u32
  FA_OPEN_EXISTING :: u32
  FA_CREATE_NEW :: u32
  FA_CREATE_ALWAYS :: u32
  FA_OPEN_ALWAYS :: u32
  AM_RDO :: byte
  AM_DIR :: byte
  f_open :: "string \<Rightarrow> byte \<Rightarrow> FIL \<Rightarrow> ('w, FRESULT \<times> FIL) prog"
  f_close :: "FIL \<Rightarrow> ('w, FRESULT \<times> FIL) prog"
  f_sync :: "FIL \<Rightarrow> ('w, FRESULT \<times> FIL) prog"
  f_truncate :: "FIL \<Rightarrow> ('w, FRESULT \<times> FIL) prog"
  f_read :: "u32 \<Rightarrow> FIL \<Rightarrow> ('w, (FRESULT \<times> u32 \<times> byte list) \<times> FIL) prog"
  f_write :: "cbuf \<Rightarrow> u32 \<Rightarrow> FIL \<Rightarrow> ('w, (FRESULT \<times> u32) \<times> FIL) prog"
  f_lseek :: "u32 \<Rightarrow> FIL \<Rightarrow> ('w, FRESULT \<times> FIL) prog"
  f_stat :: "string \<Rightarrow> ('w, FRESULT \<times> FILINFO) prog"
  f_unlink :: "string \<Rightarrow> ('w, FRESULT) prog"
  f_rename :: "string \<Rightarrow> string \<Rightarrow> ('w, FRESULT) prog"
  f_mkdir :: "string \<Rightarrow> ('w, FRESULT) prog"
  f_utime :: "string \<Rightarrow> FILINFO \<Rightarrow> ('w, FRESULT) prog"
  f_opendir :: "string \<Rightarrow> FF_DIR \<Rightarrow> ('w, FRESULT \<times> FF_DIR) prog"
  f_closedir :: "FF_DIR \<Rightarrow> ('w, FRESULT \<times> FF_DIR) prog"
  f_rewinddir :: "FF_DIR \<Rightarrow> ('w, FRESULT \<times> FF_DIR) prog"
  f_readdir :: "FF_DIR \<Rightarrow> FILINFO \<Rightarrow> ('w, (FRESULT \<times> FILINFO) \<times> FF_DIR) prog"

text \<open>The macros of FatFS that read a file object.\<close>

abbreviation f_size :: "FIL \<Rightarrow> u32" where
  "f_size file \<equiv> objsize file"

abbreviation f_tell :: "FIL \<Rightarrow> u32" where
  "f_tell file \<equiv> fptr file"

definition CREATE_LINKMAP :: u32 where
  "CREATE_LINKMAP = 0 - 1"

section \<open>Open flags\<close>

text \<open>The flags of the C library.\<close>

definition O_ACCMODE :: u32 where
  "O_ACCMODE = 3"

definition O_RDONLY :: u32 where
  "O_RDONLY = 0"

definition O_WRONLY :: u32 where
  "O_WRONLY = 1"

definition O_RDWR :: u32 where
  "O_RDWR = 2"

definition O_APPEND :: u32 where
  "O_APPEND = 8"

definition O_CREAT :: u32 where
  "O_CREAT = 0x200"

definition O_TRUNC :: u32 where
  "O_TRUNC = 0x400"

definition O_EXCL :: u32 where
  "O_EXCL = 0x800"

lemmas open_flags = O_ACCMODE_def O_RDONLY_def O_WRONLY_def O_RDWR_def O_APPEND_def O_CREAT_def
  O_TRUNC_def O_EXCL_def

definition has_flag :: "u32 \<Rightarrow> u32 \<Rightarrow> bool" where
  "has_flag m f \<longleftrightarrow> m AND f \<noteq> 0"

definition fat_mode_conv :: "'w fatfs_api \<Rightarrow> u32 \<Rightarrow> u32" where
  "fat_mode_conv FF m =
     (let acc_mode = m AND O_ACCMODE;
          res = (if acc_mode = O_RDONLY then FA_READ FF
                 else if acc_mode = O_WRONLY then FA_WRITE FF
                 else if acc_mode = O_RDWR then FA_READ FF OR FA_WRITE FF
                 else 0)
      in res OR
         (if has_flag m O_CREAT \<and> has_flag m O_EXCL then FA_CREATE_NEW FF
          else if has_flag m O_CREAT \<and> has_flag m O_TRUNC then FA_CREATE_ALWAYS FF
          else if has_flag m O_APPEND \<or> has_flag m O_CREAT then FA_OPEN_ALWAYS FF
          else FA_OPEN_EXISTING FF))"

section \<open>Strings\<close>

text \<open>
  \<open>strlcpy\<close> and \<open>snprintf\<close> into a buffer of \<open>n\<close> bytes keep at most \<open>n - 1\<close> characters.
\<close>

definition strlcpy :: "string \<Rightarrow> nat \<Rightarrow> string" where
  "strlcpy src n = take (n - 1) src"

section \<open>Date and time\<close>

text \<open>
  The two bit-field structures of 16 bits, the first member in the lowest bits; storing an
  \<open>int\<close> into a member keeps its low bits.
\<close>

record tm =
  tm_sec :: int
  tm_min :: int
  tm_hour :: int
  tm_mday :: int
  tm_mon :: int
  tm_year :: int
  tm_isdst :: int

definition fat_date_as_int :: "int \<Rightarrow> int \<Rightarrow> int \<Rightarrow> 16 word" where
  "fat_date_as_int mday mon year =
     word_of_int (take_bit 5 mday) OR push_bit 5 (word_of_int (take_bit 4 mon)) OR
     push_bit 9 (word_of_int (take_bit 7 year))"

definition fat_date_mday :: "16 word \<Rightarrow> int" where
  "fat_date_mday w = uint (take_bit 5 w)"

definition fat_date_mon :: "16 word \<Rightarrow> int" where
  "fat_date_mon w = uint (take_bit 4 (drop_bit 5 w))"

definition fat_date_year :: "16 word \<Rightarrow> int" where
  "fat_date_year w = uint (take_bit 7 (drop_bit 9 w))"

definition fat_time_as_int :: "int \<Rightarrow> int \<Rightarrow> int \<Rightarrow> 16 word" where
  "fat_time_as_int sec mins hour =
     word_of_int (take_bit 5 sec) OR push_bit 5 (word_of_int (take_bit 6 mins)) OR
     push_bit 11 (word_of_int (take_bit 5 hour))"

definition fat_time_sec :: "16 word \<Rightarrow> int" where
  "fat_time_sec w = uint (take_bit 5 w)"

definition fat_time_min :: "16 word \<Rightarrow> int" where
  "fat_time_min w = uint (take_bit 6 (drop_bit 5 w))"

definition fat_time_hour :: "16 word \<Rightarrow> int" where
  "fat_time_hour w = uint (take_bit 5 (drop_bit 11 w))"

text \<open>The part of \<open>update_stat_struct\<close> that unpacks, and the part of \<open>vfs_fat_utime\<close> that packs.\<close>

definition tm_of_fat :: "16 word \<Rightarrow> 16 word \<Rightarrow> tm" where
  "tm_of_fat fdate ftime =
     \<lparr> tm_sec = fat_time_sec ftime * 2, tm_min = fat_time_min ftime, tm_hour = fat_time_hour ftime,
       tm_mday = fat_date_mday fdate, tm_mon = fat_date_mon fdate - 1,
       tm_year = fat_date_year fdate + 80, tm_isdst = -1 \<rparr>"

text \<open>Division of C truncates toward zero.\<close>

definition fat_of_tm :: "tm \<Rightarrow> 16 word \<times> 16 word" where
  "fat_of_tm t =
     (fat_date_as_int (tm_mday t) (tm_mon t + 1) (tm_year t - 80),
      fat_time_as_int (sgn (tm_sec t) * (\<bar>tm_sec t\<bar> div 2)) (tm_min t) (tm_hour t))"

lemma uint_small_field: "n \<le> 16 \<Longrightarrow> uint (word_of_int (take_bit n i) :: 16 word) = take_bit n i"
  by (simp add: uint_word_of_int_eq min_def)

lemma fat_date_fields:
  "fat_date_mday (fat_date_as_int d mo y) = take_bit 5 d"
  "fat_date_mon (fat_date_as_int d mo y) = take_bit 4 mo"
  "fat_date_year (fat_date_as_int d mo y) = take_bit 7 y"
proof -
  let ?w = "fat_date_as_int d mo y"
  have "take_bit 5 ?w = word_of_int (take_bit 5 d)" "take_bit 4 (drop_bit 5 ?w) = word_of_int (take_bit 4 mo)"
    "take_bit 7 (drop_bit 9 ?w) = word_of_int (take_bit 7 y)"
    by (rule bit_word_eqI; auto simp: fat_date_as_int_def bit_simps)+
  then show "fat_date_mday ?w = take_bit 5 d" "fat_date_mon ?w = take_bit 4 mo" "fat_date_year ?w = take_bit 7 y"
    by (simp_all add: fat_date_mday_def fat_date_mon_def fat_date_year_def uint_small_field)
qed

lemma fat_time_fields:
  "fat_time_sec (fat_time_as_int sec mi h) = take_bit 5 sec"
  "fat_time_min (fat_time_as_int sec mi h) = take_bit 6 mi"
  "fat_time_hour (fat_time_as_int sec mi h) = take_bit 5 h"
proof -
  let ?w = "fat_time_as_int sec mi h"
  have "take_bit 5 ?w = word_of_int (take_bit 5 sec)" "take_bit 6 (drop_bit 5 ?w) = word_of_int (take_bit 6 mi)"
    "take_bit 5 (drop_bit 11 ?w) = word_of_int (take_bit 5 h)"
    by (rule bit_word_eqI; auto simp: fat_time_as_int_def bit_simps)+
  then show "fat_time_sec ?w = take_bit 5 sec" "fat_time_min ?w = take_bit 6 mi" "fat_time_hour ?w = take_bit 5 h"
    by (simp_all add: fat_time_sec_def fat_time_min_def fat_time_hour_def uint_small_field)
qed

end
