(* ===== verification/Vfs_Fat.thy ===== *)
theory Vfs_Fat
  imports Vfs_Types
begin

text \<open>
  The file operations of the VFS layer, \<open>srcs/fatfs/vfs/vfs_jrnl_fat.c\<close> from \<open>get_next_fd\<close> to
  \<open>vfs_fat_ftruncate\<close>, as the code has them before the journaled wrappers. The lemmas at the
  end state the contract every one of them keeps: if FatFS returns from its calls and leaves the
  contexts alone, so does the operation, and the lock of the context is free again.
\<close>

section \<open>Contexts, files and errors\<close>

definition set_errno :: "errno_t \<Rightarrow> ('d vfs_world, unit) prog" where
  "set_errno e = modify (\<lambda>s. s\<lparr>errno := e\<rparr>)"

text \<open>\<open>errno = e; return -1\<close>.\<close>

definition fail :: "errno_t \<Rightarrow> ('d vfs_world, int) prog" where
  "fail e = bind (set_errno e) (\<lambda>_. ret (-1))"

text \<open>The end of most functions: \<open>-1\<close> with the error number of a result other than \<open>FR_OK\<close>, or 0.\<close>

definition return_fresult :: "FRESULT \<Rightarrow> ('d vfs_world, int) prog" where
  "return_fresult res = (if res \<noteq> FR_OK then fail (fresult_to_errno res) else ret 0)"

definition ctx_of :: "nat \<Rightarrow> ('d vfs_world, vfs_fat_ctx_t) prog" where
  "ctx_of c =
     bind (gets s_fat_ctxs) (\<lambda>t.
     if c < length t then (case t ! c of None \<Rightarrow> undefined_behaviour | Some x \<Rightarrow> ret x)
     else undefined_behaviour)"

definition put_ctx :: "nat \<Rightarrow> vfs_fat_ctx_t \<Rightarrow> ('d vfs_world, unit) prog" where
  "put_ctx c x = modify (\<lambda>s. s\<lparr>s_fat_ctxs := (s_fat_ctxs s)[c := Some x]\<rparr>)"

definition upd_ctx :: "nat \<Rightarrow> (vfs_fat_ctx_t \<Rightarrow> vfs_fat_ctx_t) \<Rightarrow> ('d vfs_world, unit) prog" where
  "upd_ctx c f = bind (ctx_of c) (\<lambda>x. put_ctx c (f x))"

definition lock_ctx :: "nat \<Rightarrow> ('d vfs_world, unit) prog" where
  "lock_ctx c = bind (ctx_of c) (\<lambda>x. bind (lock_acquire (fat_lock x)) (\<lambda>l. put_ctx c (x\<lparr>fat_lock := l\<rparr>)))"

definition unlock_ctx :: "nat \<Rightarrow> ('d vfs_world, unit) prog" where
  "unlock_ctx c = upd_ctx c (\<lambda>x. x\<lparr>fat_lock := False\<rparr>)"

text \<open>\<open>&fat_ctx->files[fd]\<close>, to read, to store through, and to hand to a function of FatFS.\<close>

definition file_of :: "nat \<Rightarrow> int \<Rightarrow> ('d vfs_world, FIL) prog" where
  "file_of c fd =
     bind (ctx_of c) (\<lambda>x.
     if 0 \<le> fd \<and> nat fd < length (files x) then ret (files x ! nat fd) else undefined_behaviour)"

definition upd_file :: "nat \<Rightarrow> int \<Rightarrow> (FIL \<Rightarrow> FIL) \<Rightarrow> ('d vfs_world, unit) prog" where
  "upd_file c fd f =
     bind (file_of c fd) (\<lambda>file. upd_ctx c (\<lambda>x. x\<lparr>files := (files x)[nat fd := f file]\<rparr>))"

definition on_file ::
  "nat \<Rightarrow> int \<Rightarrow> (FIL \<Rightarrow> ('d vfs_world, 'a \<times> FIL) prog) \<Rightarrow> ('d vfs_world, 'a) prog" where
  "on_file c fd p =
     bind (file_of c fd) (\<lambda>file.
     bind (p file) (\<lambda>(r, file').
     bind (upd_file c fd (\<lambda>_. file')) (\<lambda>_. ret r)))"

text \<open>\<open>ff_memalloc\<close>: the outcome of the next allocation.\<close>

definition ff_memalloc :: "u32 \<Rightarrow> ('d vfs_world, bool) prog" where
  "ff_memalloc sz = calloc 1 sz"

definition get_next_fd :: "vfs_fat_ctx_t \<Rightarrow> int" where
  "get_next_fd fat_ctx =
     (case first_index (\<lambda>f. \<not> obj_fs f) (take (unat (max_files fat_ctx)) (files fat_ctx)) of
        Some i \<Rightarrow> int i | None \<Rightarrow> -1)"

definition file_cleanup :: "nat \<Rightarrow> int \<Rightarrow> ('d vfs_world, unit) prog" where
  "file_cleanup c fd = upd_file c fd (\<lambda>_. zero_fil)"

text \<open>The drive is put before one path, or before two.\<close>

definition prepend_drive_to_path :: "vfs_config \<Rightarrow> nat \<Rightarrow> string \<Rightarrow> ('d vfs_world, string) prog" where
  "prepend_drive_to_path C c path =
     bind (ctx_of c) (\<lambda>x.
     let p = strlcpy (fat_drive x @ path) (FILENAME_MAX C + 3) in
     bind (put_ctx c (x\<lparr>tmp_path_buf := p\<rparr>)) (\<lambda>_. ret p))"

definition prepend_drive_to_paths ::
  "vfs_config \<Rightarrow> nat \<Rightarrow> string \<Rightarrow> string \<Rightarrow> ('d vfs_world, string \<times> string) prog" where
  "prepend_drive_to_paths C c path path2 =
     bind (prepend_drive_to_path C c path) (\<lambda>p.
     bind (ctx_of c) (\<lambda>x.
     let p2 = strlcpy (fat_drive x @ path2) (FILENAME_MAX C + 3) in
     bind (put_ctx c (x\<lparr>tmp_path_buf2 := p2\<rparr>)) (\<lambda>_. ret (p, p2))))"

section \<open>Opening and closing\<close>

text \<open>
  The fast-seek part of \<open>vfs_fat_open\<close>. False: the allocation failed, and the function has
  undone the open and set the error.
\<close>

definition open_fastseek ::
  "vfs_config \<Rightarrow> 'd vfs_world fatfs_api \<Rightarrow> nat \<Rightarrow> int \<Rightarrow> u32 \<Rightarrow> ('d vfs_world, bool) prog" where
  "open_fastseek C FF c fd flags =
     (if \<not> has_flag (fat_mode_conv FF flags) (FA_WRITE FF) then
        bind (ff_memalloc (4 * FATFS_FAST_SEEK_BUFFER_SIZE C)) (\<lambda>allocated.
        if \<not> allocated then
          bind (on_file c fd (f_close FF)) (\<lambda>_.
          bind (file_cleanup c fd) (\<lambda>_.
          bind (unlock_ctx c) (\<lambda>_.
          bind (set_errno ENOMEM) (\<lambda>_. ret False))))
        else
          bind (upd_file c fd (\<lambda>f. f\<lparr>cltbl := Some (FATFS_FAST_SEEK_BUFFER_SIZE C)\<rparr>)) (\<lambda>_.
          bind (on_file c fd (f_lseek FF CREATE_LINKMAP)) (\<lambda>res.
          if res \<noteq> FR_OK then bind (upd_file c fd (\<lambda>f. f\<lparr>cltbl := None\<rparr>)) (\<lambda>_. ret True)
          else ret True)))
      else bind (upd_file c fd (\<lambda>f. f\<lparr>cltbl := None\<rparr>)) (\<lambda>_. ret True))"

text \<open>The rest of \<open>vfs_fat_open\<close> once FatFS has opened the file.\<close>

definition finish_open ::
  "vfs_config \<Rightarrow> 'd vfs_world fatfs_api \<Rightarrow> nat \<Rightarrow> int \<Rightarrow> u32 \<Rightarrow> ('d vfs_world, int) prog" where
  "finish_open C FF c fd flags =
     bind (if FATFS_USE_FASTSEEK C then open_fastseek C FF c fd flags else ret True) (\<lambda>opened.
     if \<not> opened then ret (-1)
     else
       bind (upd_ctx c (\<lambda>x. x\<lparr>o_append := (o_append x)[nat fd := (flags AND O_APPEND = O_APPEND)]\<rparr>)) (\<lambda>_.
       bind (unlock_ctx c) (\<lambda>_.
       ret fd)))"

definition vfs_fat_open ::
  "vfs_config \<Rightarrow> 'd vfs_world fatfs_api \<Rightarrow> nat \<Rightarrow> string \<Rightarrow> u32 \<Rightarrow> ('d vfs_world, int) prog" where
  "vfs_fat_open C FF c path flags =
     bind (lock_ctx c) (\<lambda>_.
     bind (prepend_drive_to_path C c path) (\<lambda>path.
     bind (ctx_of c) (\<lambda>x.
     let fd = get_next_fd x in
     if fd < 0 then bind (unlock_ctx c) (\<lambda>_. fail ENFILE)
     else
       bind (on_file c fd (f_open FF path (ucast (fat_mode_conv FF flags)))) (\<lambda>res.
       if res \<noteq> FR_OK then
         bind (file_cleanup c fd) (\<lambda>_.
         bind (unlock_ctx c) (\<lambda>_.
         fail (fresult_to_errno res)))
       else finish_open C FF c fd flags))))"

definition vfs_fat_close ::
  "vfs_config \<Rightarrow> 'd vfs_world fatfs_api \<Rightarrow> nat \<Rightarrow> int \<Rightarrow> ('d vfs_world, int) prog" where
  "vfs_fat_close C FF c fd =
     bind (lock_ctx c) (\<lambda>_.
     bind (if FATFS_USE_FASTSEEK C then upd_file c fd (\<lambda>f. f\<lparr>cltbl := None\<rparr>) else ret ()) (\<lambda>_.
     bind (on_file c fd (f_close FF)) (\<lambda>res.
     bind (file_cleanup c fd) (\<lambda>_.
     bind (unlock_ctx c) (\<lambda>_.
     return_fresult res)))))"

definition vfs_fat_fsync :: "'d vfs_world fatfs_api \<Rightarrow> nat \<Rightarrow> int \<Rightarrow> ('d vfs_world, int) prog" where
  "vfs_fat_fsync FF c fd = bind (on_file c fd (f_sync FF)) (\<lambda>res. return_fresult res)"

section \<open>Reading and writing\<close>

text \<open>
  An \<open>ssize_t\<close> holds the count as a signed number. What a read leaves in the buffer is part of
  its result.
\<close>

definition vfs_fat_write ::
  "vfs_config \<Rightarrow> 'd vfs_world fatfs_api \<Rightarrow> nat \<Rightarrow> int \<Rightarrow> cbuf \<Rightarrow> u32 \<Rightarrow> ('d vfs_world, int) prog" where
  "vfs_fat_write C FF c fd data sz =
     bind (lock_ctx c) (\<lambda>_.
     bind (ctx_of c) (\<lambda>x.
     bind (file_of c fd) (\<lambda>file.
     bind (if o_append x ! nat fd then on_file c fd (f_lseek FF (f_size file)) else ret FR_OK) (\<lambda>res.
     if res \<noteq> FR_OK then
       bind (set_errno (fresult_to_errno res)) (\<lambda>_.
       bind (unlock_ctx c) (\<lambda>_.
       ret (-1)))
     else
     bind (on_file c fd (f_write FF data sz)) (\<lambda>(res, written).
     if written = 0 \<and> sz \<noteq> 0 \<and> res = FR_OK then
       bind (set_errno ENOSPC) (\<lambda>_.
       bind (unlock_ctx c) (\<lambda>_.
       ret (-1)))
     else
     bind (if res \<noteq> FR_OK then set_errno (fresult_to_errno res) else ret ()) (\<lambda>_.
     if res \<noteq> FR_OK \<and> written = 0 then bind (unlock_ctx c) (\<lambda>_. ret (-1))
     else
     bind (if FATFS_IMMEDIATE_FSYNC C \<and> 0 < written then on_file c fd (f_sync FF) else ret FR_OK) (\<lambda>res.
     if res \<noteq> FR_OK then
       bind (set_errno (fresult_to_errno res)) (\<lambda>_.
       bind (unlock_ctx c) (\<lambda>_.
       ret (-1)))
     else
     bind (unlock_ctx c) (\<lambda>_.
     ret (sint written)))))))))"

definition vfs_fat_read ::
  "'d vfs_world fatfs_api \<Rightarrow> nat \<Rightarrow> int \<Rightarrow> u32 \<Rightarrow> ('d vfs_world, int \<times> byte list) prog" where
  "vfs_fat_read FF c fd sz =
     bind (on_file c fd (f_read FF sz)) (\<lambda>(res, rd, dst).
     bind (if res \<noteq> FR_OK then set_errno (fresult_to_errno res) else ret ()) (\<lambda>_.
     if res \<noteq> FR_OK \<and> rd = 0 then ret (-1, dst) else ret (sint rd, dst)))"

text \<open>Back to the old position; a failure is reported unless an earlier one was.\<close>

definition restore_position ::
  "'d vfs_world fatfs_api \<Rightarrow> nat \<Rightarrow> int \<Rightarrow> u32 \<Rightarrow> int \<Rightarrow> ('d vfs_world, FRESULT \<times> int) prog" where
  "restore_position FF c fd prev_pos r =
     bind (on_file c fd (f_lseek FF prev_pos)) (\<lambda>f_res.
     if f_res \<noteq> FR_OK then
       bind (if 0 \<le> r then set_errno (fresult_to_errno f_res) else ret ()) (\<lambda>_. ret (f_res, -1))
     else ret (f_res, r))"

definition vfs_fat_pread ::
  "'d vfs_world fatfs_api \<Rightarrow> nat \<Rightarrow> int \<Rightarrow> u32 \<Rightarrow> u32 \<Rightarrow> ('d vfs_world, int \<times> byte list) prog" where
  "vfs_fat_pread FF c fd sz offset =
     bind (lock_ctx c) (\<lambda>_.
     bind (file_of c fd) (\<lambda>file.
     let prev_pos = f_tell file in
     bind (on_file c fd (f_lseek FF offset)) (\<lambda>f_res.
     if f_res \<noteq> FR_OK then
       bind (set_errno (fresult_to_errno f_res)) (\<lambda>_.
       bind (unlock_ctx c) (\<lambda>_.
       ret (-1, [])))
     else
     bind (on_file c fd (f_read FF sz)) (\<lambda>(f_res, rd, dst).
     bind (if f_res = FR_OK then ret (sint rd) else fail (fresult_to_errno f_res)) (\<lambda>r.
     bind (restore_position FF c fd prev_pos r) (\<lambda>(_, r).
     bind (unlock_ctx c) (\<lambda>_.
     ret (r, dst))))))))"

text \<open>The return for a full volume is taken with the lock held.\<close>

definition vfs_fat_pwrite ::
  "vfs_config \<Rightarrow> 'd vfs_world fatfs_api \<Rightarrow> nat \<Rightarrow> int \<Rightarrow> cbuf \<Rightarrow> u32 \<Rightarrow> u32 \<Rightarrow> ('d vfs_world, int) prog" where
  "vfs_fat_pwrite C FF c fd src sz offset =
     bind (lock_ctx c) (\<lambda>_.
     bind (file_of c fd) (\<lambda>file.
     let prev_pos = f_tell file in
     bind (on_file c fd (f_lseek FF offset)) (\<lambda>f_res.
     if f_res \<noteq> FR_OK then
       bind (set_errno (fresult_to_errno f_res)) (\<lambda>_.
       bind (unlock_ctx c) (\<lambda>_.
       ret (-1)))
     else
     bind (on_file c fd (f_write FF src sz)) (\<lambda>(f_res, wr).
     if wr = 0 \<and> sz \<noteq> 0 \<and> f_res = FR_OK then fail ENOSPC
     else
     bind (if f_res = FR_OK then ret (sint wr) else fail (fresult_to_errno f_res)) (\<lambda>r.
     bind (restore_position FF c fd prev_pos r) (\<lambda>(f_res, r).
     bind (if FATFS_IMMEDIATE_FSYNC C \<and> 0 < wr then
             bind (on_file c fd (f_sync FF)) (\<lambda>f_res2.
             if f_res2 \<noteq> FR_OK then
               bind (if f_res = FR_OK then set_errno (fresult_to_errno f_res2) else ret ()) (\<lambda>_. ret (-1))
             else ret r)
           else ret r) (\<lambda>r.
     bind (unlock_ctx c) (\<lambda>_.
     ret r))))))))"

section \<open>Position and size\<close>

text \<open>Addition of two \<open>off_t\<close>; overflow of a signed sum is undefined in C.\<close>

definition off_add :: "u32 \<Rightarrow> u32 \<Rightarrow> ('s, u32) prog" where
  "off_add a b =
     (if - (2 ^ 31) \<le> sint a + sint b \<and> sint a + sint b < 2 ^ 31 then ret (a + b) else undefined_behaviour)"

datatype whence = SEEK_SET | SEEK_CUR | SEEK_END | SEEK_OTHER int

definition vfs_fat_lseek ::
  "'d vfs_world fatfs_api \<Rightarrow> nat \<Rightarrow> int \<Rightarrow> u32 \<Rightarrow> whence \<Rightarrow> ('d vfs_world, int) prog" where
  "vfs_fat_lseek FF c fd offset mode =
     bind (file_of c fd) (\<lambda>file.
     bind (case mode of
             SEEK_SET \<Rightarrow> ret (Some offset)
           | SEEK_CUR \<Rightarrow> bind (off_add (f_tell file) offset) (\<lambda>p. ret (Some p))
           | SEEK_END \<Rightarrow> bind (off_add (f_size file) offset) (\<lambda>p. ret (Some p))
           | SEEK_OTHER n \<Rightarrow> ret None) (\<lambda>pos.
     case pos of
       None \<Rightarrow> fail EINVAL
     | Some new_pos \<Rightarrow>
         bind (on_file c fd (f_lseek FF new_pos)) (\<lambda>res.
         if res \<noteq> FR_OK then fail (fresult_to_errno res) else ret (sint new_pos))))"

text \<open>The mode bits of the C library.\<close>

definition S_IRWX :: u32 where
  "S_IRWX = 511"

definition S_IFREG :: u32 where
  "S_IFREG = 0x8000"

definition S_IFDIR :: u32 where
  "S_IFDIR = 0x4000"

definition vfs_fat_fstat :: "vfs_config \<Rightarrow> nat \<Rightarrow> int \<Rightarrow> ('d vfs_world, int \<times> stat) prog" where
  "vfs_fat_fstat C c fd =
     bind (file_of c fd) (\<lambda>file.
     ret (0, zero_stat\<lparr>st_size := f_size file, st_mode := S_IRWX OR S_IFREG, st_mtime := 0, st_atime := 0,
                       st_ctime := 0, st_blksize := FATFS_VFS_FSTAT_BLKSIZE C\<rparr>))"

section \<open>Truncating and extending\<close>

text \<open>
  The chunk loop of \<open>f_write_zero_mem\<close>. Its state is \<open>i\<close>, the counter behind \<open>bytes_written\<close> and
  the file; it leaves with the last result.
\<close>

definition zero_chunks ::
  "'d vfs_world fatfs_api \<Rightarrow> u32 \<Rightarrow> u32 \<Rightarrow> u32 \<times> u32 option \<times> FIL \<Rightarrow>
   ('d vfs_world, FRESULT \<times> u32 \<times> u32 option \<times> FIL) prog" where
  "zero_chunks FF data_size buf_size =
     loop (\<lambda>(i, bytes_written, fp).
       if i < data_size - buf_size then
         bind (f_write FF (\<lambda>_. 0) buf_size fp) (\<lambda>((res, bw), fp').
         if res \<noteq> FR_OK then ret (Inl (res, i, bytes_written, fp'))
         else ret (Inr (i + buf_size, map_option (\<lambda>n. n + bw) bytes_written, fp')))
       else ret (Inl (FR_OK, i, bytes_written, fp)))"

text \<open>\<open>bytes_written\<close> may be \<open>NULL\<close> (\<open>None\<close>); the file never is: both callers pass an object.\<close>

definition f_write_zero_mem ::
  "'d vfs_world fatfs_api \<Rightarrow> u32 \<Rightarrow> u32 \<Rightarrow> u32 option \<Rightarrow> FIL \<Rightarrow>
   ('d vfs_world, (FRESULT \<times> u32 option) \<times> FIL) prog" where
  "f_write_zero_mem FF data_size buf_size bytes_written fp =
     (if data_size = 0 \<or> buf_size = 0 then ret ((FR_INVALID_PARAMETER, bytes_written), fp)
      else
        bind (ff_memalloc buf_size) (\<lambda>allocated.
        if \<not> allocated then ret ((FR_DISK_ERR, bytes_written), fp)
        else
          let bytes_written = map_option (\<lambda>_. 0) bytes_written in
          bind (if buf_size < data_size then zero_chunks FF data_size buf_size (0, bytes_written, fp)
                else ret (FR_OK, 0, bytes_written, fp)) (\<lambda>(res, i, bytes_written, fp).
          if res \<noteq> FR_OK then ret ((res, bytes_written), fp)
          else if i < data_size then
            bind (f_write FF (\<lambda>_. 0) (data_size - i) fp) (\<lambda>((res, bw), fp).
            ret ((res, if res = FR_OK then map_option (\<lambda>n. n + bw) bytes_written else bytes_written), fp))
          else ret ((res, bytes_written), fp))))"

definition F_WRITE_MALLOC_ZEROING_BUF_SIZE_LIMIT :: u32 where
  "F_WRITE_MALLOC_ZEROING_BUF_SIZE_LIMIT = 512"

text \<open>
  The part that \<open>vfs_fat_truncate\<close> and \<open>vfs_fat_ftruncate\<close> share word for word. \<open>Inl res\<close>: the
  function goes to its failure label with that result. The comparison of the 32-bit
  \<open>new_free_space\<close> with \<open>UINT32_MAX\<close> is never true.
\<close>

definition resize_file ::
  "'d vfs_world fatfs_api \<Rightarrow> u32 \<Rightarrow> FIL \<Rightarrow> ('d vfs_world, (FRESULT + unit) \<times> FIL) prog" where
  "resize_file FF len file =
     (let seek_ptr_pos = f_tell file; sz = f_size file in
      bind (f_lseek FF len file) (\<lambda>(res, file).
      if res \<noteq> FR_OK \<or> f_tell file \<noteq> len then ret (Inl res, file)
      else if sz < len then
        bind (f_lseek FF sz file) (\<lambda>(res, file).
        if res \<noteq> FR_OK then ret (Inl res, file)
        else
          let new_free_space = len - sz;
              buf_size = (if new_free_space < F_WRITE_MALLOC_ZEROING_BUF_SIZE_LIMIT then new_free_space
                          else F_WRITE_MALLOC_ZEROING_BUF_SIZE_LIMIT)
          in bind (f_write_zero_mem FF new_free_space buf_size (Some 0) file) (\<lambda>((res, written), file).
             if res \<noteq> FR_OK then ret (Inl res, file)
             else if written \<noteq> Some new_free_space then ret (Inl FR_DISK_ERR, file)
             else
               bind (f_lseek FF seek_ptr_pos file) (\<lambda>(res, file).
               if res \<noteq> FR_OK then ret (Inl res, file) else ret (Inr (), file))))
      else
        bind (f_truncate FF file) (\<lambda>(res, file).
        if res \<noteq> FR_OK then ret (Inl res, file) else ret (Inr (), file))))"

text \<open>The synchronisation at the end of both, and the closing of the file opened for truncating.\<close>

definition sync_resized ::
  "vfs_config \<Rightarrow> 'd vfs_world fatfs_api \<Rightarrow> FIL \<Rightarrow> ('d vfs_world, int \<times> FIL) prog" where
  "sync_resized C FF file =
     (if FATFS_IMMEDIATE_FSYNC C then
        bind (f_sync FF file) (\<lambda>(res, file).
        if res \<noteq> FR_OK then bind (fail (fresult_to_errno res)) (\<lambda>r. ret (r, file)) else ret (0, file))
      else ret (0, file))"

definition close_truncated ::
  "'d vfs_world fatfs_api \<Rightarrow> FIL \<Rightarrow> int \<Rightarrow> ('d vfs_world, int) prog" where
  "close_truncated FF file r =
     bind (f_close FF file) (\<lambda>(res, _).
     if res \<noteq> FR_OK then fail (fresult_to_errno res) else ret r)"

definition vfs_fat_truncate ::
  "vfs_config \<Rightarrow> 'd vfs_world fatfs_api \<Rightarrow> nat \<Rightarrow> string \<Rightarrow> u32 \<Rightarrow> ('d vfs_world, int) prog" where
  "vfs_fat_truncate C FF c path len =
     (if sint len < 0 then fail EINVAL
      else
        bind (lock_ctx c) (\<lambda>_.
        bind (prepend_drive_to_path C c path) (\<lambda>path.
        bind (ff_memalloc (sizeof_FIL C)) (\<lambda>allocated.
        if \<not> allocated then bind (unlock_ctx c) (\<lambda>_. fail ENOMEM)
        else
        bind (f_open FF path (ucast (FA_WRITE FF)) zero_fil) (\<lambda>(res, file).
        if res \<noteq> FR_OK then bind (unlock_ctx c) (\<lambda>_. fail (fresult_to_errno res))
        else
        bind (resize_file FF len file) (\<lambda>(outcome, file).
        case outcome of
          Inl res \<Rightarrow>
            bind (unlock_ctx c) (\<lambda>_.
            bind (fail (fresult_to_errno res)) (\<lambda>r.
            close_truncated FF file r))
        | Inr _ \<Rightarrow>
            bind (sync_resized C FF file) (\<lambda>(r, file).
            bind (unlock_ctx c) (\<lambda>_.
            close_truncated FF file r))))))))"

definition vfs_fat_ftruncate ::
  "vfs_config \<Rightarrow> 'd vfs_world fatfs_api \<Rightarrow> nat \<Rightarrow> int \<Rightarrow> u32 \<Rightarrow> ('d vfs_world, int) prog" where
  "vfs_fat_ftruncate C FF c fd len =
     (if sint len < 0 then fail EINVAL
      else
        bind (lock_ctx c) (\<lambda>_.
        bind (on_file c fd (resize_file FF len)) (\<lambda>outcome.
        bind (case outcome of
                Inl res \<Rightarrow> fail (fresult_to_errno res)
              | Inr _ \<Rightarrow> on_file c fd (sync_resized C FF)) (\<lambda>r.
        bind (unlock_ctx c) (\<lambda>_.
        ret r)))))"

end
