(* ===== verification/Vfs_Dir.thy ===== *)
theory Vfs_Dir
  imports Vfs_Fat
begin

text \<open>
  The operations of the VFS layer on paths and directories, \<open>srcs/fatfs/vfs/vfs_jrnl_fat.c\<close>
  under \<open>CONFIG_VFS_SUPPORT_DIR\<close>: status, linking, renaming, removing, directory streams,
  access checks and time stamps.
\<close>

section \<open>Status\<close>

text \<open>
  What the layer uses of the C library's clock and calendar; it depends on the time zone and on
  the moment of the call.
\<close>

record libc_time =
  mktime :: "tm \<Rightarrow> int"
  localtime_r :: "int \<Rightarrow> tm"
  gettimeofday_sec :: int

definition get_stat_mode :: "bool \<Rightarrow> u32" where
  "get_stat_mode is_dir = S_IRWX OR (if is_dir then S_IFDIR else S_IFREG)"

definition update_stat_struct :: "libc_time \<Rightarrow> 'w fatfs_api \<Rightarrow> FILINFO \<Rightarrow> stat" where
  "update_stat_struct L FF info =
     zero_stat\<lparr>st_size := fi_fsize info, st_mode := get_stat_mode (fi_fattrib info AND AM_DIR FF \<noteq> 0),
       st_mtime := mktime L (tm_of_fat (fi_fdate info) (fi_ftime info)), st_atime := 0, st_ctime := 0\<rparr>"

text \<open>
  A hit in the cache clears \<open>sizeof(FILINFO)\<close> bytes at the start of the cached path, which leaves
  the empty string and the old file information.
\<close>

definition vfs_fat_stat ::
  "libc_time \<Rightarrow> vfs_config \<Rightarrow> 'd vfs_world fatfs_api \<Rightarrow> nat \<Rightarrow> string \<Rightarrow> ('d vfs_world, int \<times> stat option) prog" where
  "vfs_fat_stat L C FF c path =
     (if path = ''/'' then ret (0, Some (zero_stat\<lparr>st_mode := get_stat_mode True\<rparr>))
      else
        bind (ctx_of c) (\<lambda>x.
        if path = cd_file_path (cached_fileinfo x) then
          bind (upd_ctx c (\<lambda>x. x\<lparr>cached_fileinfo := (cached_fileinfo x)\<lparr>cd_file_path := []\<rparr>\<rparr>)) (\<lambda>_.
          ret (0, Some (update_stat_struct L FF (cd_fileinfo (cached_fileinfo x)))))
        else
          bind (upd_ctx c (\<lambda>x. x\<lparr>cached_fileinfo := zero_cached\<rparr>)) (\<lambda>_.
          bind (lock_ctx c) (\<lambda>_.
          bind (prepend_drive_to_path C c path) (\<lambda>path.
          bind (f_stat FF path) (\<lambda>(res, info).
          bind (unlock_ctx c) (\<lambda>_.
          if res \<noteq> FR_OK then bind (fail (fresult_to_errno res)) (\<lambda>r. ret (r, None))
          else ret (0, Some (update_stat_struct L FF info)))))))))"

definition W_OK :: u32 where
  "W_OK = 2"

definition vfs_fat_access ::
  "vfs_config \<Rightarrow> 'd vfs_world fatfs_api \<Rightarrow> nat \<Rightarrow> string \<Rightarrow> u32 \<Rightarrow> ('d vfs_world, int) prog" where
  "vfs_fat_access C FF c path amode =
     bind (lock_ctx c) (\<lambda>_.
     bind (prepend_drive_to_path C c path) (\<lambda>path.
     bind (f_stat FF path) (\<lambda>(res, info).
     bind (unlock_ctx c) (\<lambda>_.
     if res = FR_OK then
       if amode AND W_OK = W_OK \<and> fi_fattrib info AND AM_RDO FF = AM_RDO FF then fail EACCES else ret 0
     else fail (fresult_to_errno res)))))"

section \<open>Names\<close>

text \<open>The text \<open>vfs_fat_unlink\<close>, \<open>vfs_fat_mkdir\<close> and \<open>vfs_fat_rmdir\<close> share around one call of FatFS.\<close>

definition locked_path_call ::
  "vfs_config \<Rightarrow> nat \<Rightarrow> string \<Rightarrow> (string \<Rightarrow> ('d vfs_world, FRESULT) prog) \<Rightarrow> ('d vfs_world, int) prog" where
  "locked_path_call C c path call =
     bind (lock_ctx c) (\<lambda>_.
     bind (prepend_drive_to_path C c path) (\<lambda>path.
     bind (call path) (\<lambda>res.
     bind (unlock_ctx c) (\<lambda>_.
     return_fresult res))))"

definition vfs_fat_unlink ::
  "vfs_config \<Rightarrow> 'd vfs_world fatfs_api \<Rightarrow> nat \<Rightarrow> string \<Rightarrow> ('d vfs_world, int) prog" where
  "vfs_fat_unlink C FF c path = locked_path_call C c path (f_unlink FF)"

definition vfs_fat_mkdir ::
  "vfs_config \<Rightarrow> 'd vfs_world fatfs_api \<Rightarrow> nat \<Rightarrow> string \<Rightarrow> u32 \<Rightarrow> ('d vfs_world, int) prog" where
  "vfs_fat_mkdir C FF c name mode = locked_path_call C c name (f_mkdir FF)"

definition vfs_fat_rmdir ::
  "vfs_config \<Rightarrow> 'd vfs_world fatfs_api \<Rightarrow> nat \<Rightarrow> string \<Rightarrow> ('d vfs_world, int) prog" where
  "vfs_fat_rmdir C FF c name = locked_path_call C c name (f_unlink FF)"

definition vfs_fat_rename ::
  "vfs_config \<Rightarrow> 'd vfs_world fatfs_api \<Rightarrow> nat \<Rightarrow> string \<Rightarrow> string \<Rightarrow> ('d vfs_world, int) prog" where
  "vfs_fat_rename C FF c src dst =
     bind (lock_ctx c) (\<lambda>_.
     bind (prepend_drive_to_paths C c src dst) (\<lambda>(src, dst).
     bind (f_rename FF src dst) (\<lambda>res.
     bind (unlock_ctx c) (\<lambda>_.
     return_fresult res))))"

text \<open>
  The copy loop of \<open>vfs_fat_link\<close>: chunks of at most \<open>copy_buf_size\<close> bytes until \<open>size_left\<close> is 0.
\<close>

definition copy_file ::
  "'d vfs_world fatfs_api \<Rightarrow> u32 \<Rightarrow> u32 \<times> FIL \<times> FIL \<Rightarrow> ('d vfs_world, FRESULT \<times> FIL \<times> FIL) prog" where
  "copy_file FF copy_buf_size =
     loop (\<lambda>(size_left, pf1, pf2).
       if size_left = 0 then ret (Inl (FR_OK, pf1, pf2))
       else
         let will_copy = (if size_left < copy_buf_size then size_left else copy_buf_size) in
         bind (f_read FF will_copy pf1) (\<lambda>((res, rd, buf), pf1).
         if res \<noteq> FR_OK then ret (Inl (res, pf1, pf2))
         else if rd \<noteq> will_copy then ret (Inl (FR_DISK_ERR, pf1, pf2))
         else
           bind (f_write FF (buf_of buf (\<lambda>_. 0)) will_copy pf2) (\<lambda>((res, written), pf2).
           if res \<noteq> FR_OK then ret (Inl (res, pf1, pf2))
           else if written \<noteq> will_copy then ret (Inl (FR_DISK_ERR, pf1, pf2))
           else ret (Inr (size_left - will_copy, pf1, pf2)))))"

text \<open>The two files of \<open>vfs_fat_link\<close>, once the allocations have succeeded.\<close>

definition link_files ::
  "vfs_config \<Rightarrow> 'd vfs_world fatfs_api \<Rightarrow> nat \<Rightarrow> string \<Rightarrow> string \<Rightarrow> u32 \<Rightarrow> ('d vfs_world, FRESULT) prog" where
  "link_files C FF c n1 n2 copy_buf_size =
     bind (f_open FF n1 (ucast (FA_READ FF OR FA_OPEN_EXISTING FF)) zero_fil) (\<lambda>(res, pf1).
     if res \<noteq> FR_OK then bind (unlock_ctx c) (\<lambda>_. ret res)
     else
     bind (f_open FF n2 (ucast (FA_WRITE FF OR FA_CREATE_NEW FF)) zero_fil) (\<lambda>(res, pf2).
     bind (if \<not> FATFS_LINK_LOCK C then unlock_ctx c else ret ()) (\<lambda>_.
     bind (if res \<noteq> FR_OK then ret (res, pf1)
           else
             bind (copy_file FF copy_buf_size (f_size pf1, pf1, pf2)) (\<lambda>(res, pf1, pf2).
             bind (f_close FF pf2) (\<lambda>_.
             ret (res, pf1)))) (\<lambda>(res, pf1).
     bind (f_close FF pf1) (\<lambda>_.
     bind (if FATFS_LINK_LOCK C then unlock_ctx c else ret ()) (\<lambda>_.
     ret res))))))"

definition vfs_fat_link ::
  "vfs_config \<Rightarrow> 'd vfs_world fatfs_api \<Rightarrow> nat \<Rightarrow> string \<Rightarrow> string \<Rightarrow> ('d vfs_world, int) prog" where
  "vfs_fat_link C FF c n1 n2 =
     bind (lock_ctx c) (\<lambda>_.
     bind (prepend_drive_to_paths C c n1 n2) (\<lambda>(n1, n2).
     bind (ff_memalloc (sizeof_FIL C)) (\<lambda>pf1.
     bind (ff_memalloc (sizeof_FIL C)) (\<lambda>pf2.
     bind (ctx_of c) (\<lambda>x.
     let copy_buf_size = ucast (fs_csize (fat_fs x)) in
     bind (ff_memalloc copy_buf_size) (\<lambda>buf.
     if \<not> buf \<or> \<not> pf1 \<or> \<not> pf2 then bind (unlock_ctx c) (\<lambda>_. fail ENOMEM)
     else
       bind (link_files C FF c n1 n2 copy_buf_size) (\<lambda>res.
       return_fresult res)))))))"

section \<open>Directory streams\<close>

text \<open>A \<open>DIR *\<close> is \<open>None\<close> for \<open>NULL\<close> or the address of a stream, which may have been freed.\<close>

definition dir_of :: "nat \<Rightarrow> ('d vfs_world, vfs_fat_dir_t) prog" where
  "dir_of a =
     bind (gets dirs) (\<lambda>ds.
     if a < length ds then (case ds ! a of None \<Rightarrow> undefined_behaviour | Some d \<Rightarrow> ret d)
     else undefined_behaviour)"

definition put_dir :: "nat \<Rightarrow> vfs_fat_dir_t option \<Rightarrow> ('d vfs_world, unit) prog" where
  "put_dir a d = modify (\<lambda>s. s\<lparr>dirs := (dirs s)[a := d]\<rparr>)"

definition zero_dirent :: dirent where
  "zero_dirent = \<lparr> d_ino = 0, d_type = DT_UNKNOWN, d_name = [] \<rparr>"

definition zero_dir :: vfs_fat_dir_t where
  "zero_dir = \<lparr> dir_offset = 0, ffdir = (\<lambda>_. 0), dir_filinfo = zero_filinfo, cur_dirent = zero_dirent \<rparr>"

definition new_dir :: "vfs_fat_dir_t \<Rightarrow> ('d vfs_world, nat) prog" where
  "new_dir d = (\<lambda>s. (Ret (length (dirs s)), s\<lparr>dirs := dirs s @ [Some d]\<rparr>))"

definition vfs_fat_opendir ::
  "vfs_config \<Rightarrow> 'd vfs_world fatfs_api \<Rightarrow> nat \<Rightarrow> string \<Rightarrow> ('d vfs_world, nat option) prog" where
  "vfs_fat_opendir C FF c name =
     bind (upd_ctx c (\<lambda>x. x\<lparr>dir_path := strlcpy name (FILENAME_MAX C)\<rparr>)) (\<lambda>_.
     bind (lock_ctx c) (\<lambda>_.
     bind (prepend_drive_to_path C c name) (\<lambda>name.
     bind (ff_memalloc (sizeof_dir C)) (\<lambda>allocated.
     if \<not> allocated then bind (unlock_ctx c) (\<lambda>_. bind (set_errno ENOMEM) (\<lambda>_. ret None))
     else
       bind (f_opendir FF name (ffdir zero_dir)) (\<lambda>(res, dir).
       bind (unlock_ctx c) (\<lambda>_.
       if res \<noteq> FR_OK then bind (set_errno (fresult_to_errno res)) (\<lambda>_. ret None)
       else bind (new_dir (zero_dir\<lparr>ffdir := dir\<rparr>)) (\<lambda>a. ret (Some a))))))))"

definition vfs_fat_closedir :: "'d vfs_world fatfs_api \<Rightarrow> nat option \<Rightarrow> ('d vfs_world, int) prog" where
  "vfs_fat_closedir FF pdir =
     bind (assert_that (pdir \<noteq> None)) (\<lambda>_.
     let a = the pdir in
     bind (dir_of a) (\<lambda>fat_dir.
     bind (f_closedir FF (ffdir fat_dir)) (\<lambda>(res, _).
     bind (put_dir a None) (\<lambda>_.
     return_fresult res))))"

text \<open>
  The result of \<open>vfs_fat_readdir_r\<close> is the error number, the new value of \<open>*entry\<close>, and whether
  \<open>*out_dirent\<close> points to it.
\<close>

definition vfs_fat_readdir_r ::
  "vfs_config \<Rightarrow> 'd vfs_world fatfs_api \<Rightarrow> nat option \<Rightarrow> dirent \<Rightarrow> ('d vfs_world, errno_t \<times> dirent \<times> bool) prog" where
  "vfs_fat_readdir_r C FF pdir entry =
     bind (assert_that (pdir \<noteq> None)) (\<lambda>_.
     let a = the pdir in
     bind (dir_of a) (\<lambda>fat_dir.
     bind (f_readdir FF (ffdir fat_dir) (dir_filinfo fat_dir)) (\<lambda>((res, info), dir).
     let fat_dir = fat_dir\<lparr>ffdir := dir, dir_filinfo := info\<rparr> in
     bind (put_dir a (Some fat_dir)) (\<lambda>_.
     if res \<noteq> FR_OK then ret (fresult_to_errno res, entry, False)
     else if fi_fname info = [] then ret (ENONE, entry, False)
     else
       bind (put_dir a (Some (fat_dir\<lparr>dir_offset := dir_offset fat_dir + 1\<rparr>))) (\<lambda>_.
       ret (ENONE, entry\<lparr>d_ino := 0,
              d_type := (if fi_fattrib info AND AM_DIR FF \<noteq> 0 then DT_DIR else DT_REG),
              d_name := strlcpy (fi_fname info) (sizeof_d_name C)\<rparr>, True))))))"

text \<open>The path under which \<open>vfs_fat_readdir\<close> caches the file information.\<close>

definition cached_path :: "vfs_config \<Rightarrow> string \<Rightarrow> string \<Rightarrow> string" where
  "cached_path C dir name =
     strlcpy (if dir = ''/'' then ''/'' @ name else dir @ ''/'' @ name) (sizeof_cached_path C)"

definition vfs_fat_readdir ::
  "vfs_config \<Rightarrow> 'd vfs_world fatfs_api \<Rightarrow> nat \<Rightarrow> nat option \<Rightarrow> ('d vfs_world, dirent option) prog" where
  "vfs_fat_readdir C FF c pdir =
     bind (assert_that (pdir \<noteq> None)) (\<lambda>_.
     let a = the pdir in
     bind (dir_of a) (\<lambda>fat_dir.
     bind (vfs_fat_readdir_r C FF pdir (cur_dirent fat_dir)) (\<lambda>(err, entry, found).
     bind (dir_of a) (\<lambda>fat_dir.
     bind (put_dir a (Some (fat_dir\<lparr>cur_dirent := entry\<rparr>))) (\<lambda>_.
     if err \<noteq> ENONE then bind (set_errno err) (\<lambda>_. ret None)
     else
       bind (upd_ctx c (\<lambda>x. x\<lparr>cached_fileinfo :=
               \<lparr> cd_file_path = cached_path C (dir_path x) (fi_fname (dir_filinfo fat_dir)),
                 cd_fileinfo = dir_filinfo fat_dir \<rparr>\<rparr>)) (\<lambda>_.
       ret (if found then Some entry else None)))))))"

definition vfs_fat_telldir :: "nat option \<Rightarrow> ('d vfs_world, int) prog" where
  "vfs_fat_telldir pdir =
     bind (assert_that (pdir \<noteq> None)) (\<lambda>_. bind (dir_of (the pdir)) (\<lambda>fat_dir. ret (sint (dir_offset fat_dir))))"

text \<open>
  The loop of \<open>vfs_fat_seekdir\<close>, on the stream; \<open>Inl res\<close> is the early return of the function.
\<close>

definition seek_entries ::
  "'d vfs_world fatfs_api \<Rightarrow> nat \<Rightarrow> u32 \<Rightarrow> ('d vfs_world, FRESULT) prog" where
  "seek_entries FF a offset =
     loop (\<lambda>_.
       bind (dir_of a) (\<lambda>fat_dir.
       if dir_offset fat_dir <s offset then
         bind (f_readdir FF (ffdir fat_dir) (dir_filinfo fat_dir)) (\<lambda>((res, info), dir).
         let fat_dir = fat_dir\<lparr>ffdir := dir, dir_filinfo := info\<rparr> in
         if res \<noteq> FR_OK then bind (put_dir a (Some fat_dir)) (\<lambda>_. ret (Inl res))
         else bind (put_dir a (Some (fat_dir\<lparr>dir_offset := dir_offset fat_dir + 1\<rparr>))) (\<lambda>_. ret (Inr ())))
       else ret (Inl FR_OK))) ()"

text \<open>Both early returns are taken with the lock held.\<close>

definition vfs_fat_seekdir ::
  "'d vfs_world fatfs_api \<Rightarrow> nat \<Rightarrow> nat option \<Rightarrow> u32 \<Rightarrow> ('d vfs_world, unit) prog" where
  "vfs_fat_seekdir FF c pdir offset =
     bind (assert_that (pdir \<noteq> None)) (\<lambda>_.
     let a = the pdir in
     bind (lock_ctx c) (\<lambda>_.
     bind (dir_of a) (\<lambda>fat_dir.
     bind (if offset <s dir_offset fat_dir then
             bind (f_rewinddir FF (ffdir fat_dir)) (\<lambda>(res, dir).
             if res \<noteq> FR_OK then bind (put_dir a (Some (fat_dir\<lparr>ffdir := dir\<rparr>))) (\<lambda>_. ret res)
             else bind (put_dir a (Some (fat_dir\<lparr>ffdir := dir, dir_offset := 0\<rparr>))) (\<lambda>_. ret FR_OK))
           else ret FR_OK) (\<lambda>res.
     if res \<noteq> FR_OK then set_errno (fresult_to_errno res)
     else
       bind (seek_entries FF a offset) (\<lambda>res.
       if res \<noteq> FR_OK then set_errno (fresult_to_errno res)
       else unlock_ctx c)))))"

section \<open>Time stamps\<close>

text \<open>\<open>modtime_ptr\<close> is the modification time asked for, or \<open>None\<close> for \<open>NULL\<close>.\<close>

definition vfs_fat_utime ::
  "libc_time \<Rightarrow> vfs_config \<Rightarrow> 'd vfs_world fatfs_api \<Rightarrow> nat \<Rightarrow> string \<Rightarrow> int option \<Rightarrow> ('d vfs_world, int) prog" where
  "vfs_fat_utime L C FF c path modtime_ptr =
     (let tm_time = localtime_r L (case modtime_ptr of Some modtime \<Rightarrow> modtime | None \<Rightarrow> gettimeofday_sec L) in
      if tm_year tm_time < 80 then fail EINVAL
      else
        let (fdate, ftime) = fat_of_tm tm_time;
            filinfo_time = zero_filinfo\<lparr>fi_fdate := fdate, fi_ftime := ftime\<rparr>
        in
        bind (lock_ctx c) (\<lambda>_.
        bind (prepend_drive_to_path C c path) (\<lambda>path.
        bind (f_utime FF path filinfo_time) (\<lambda>res.
        bind (unlock_ctx c) (\<lambda>_.
        return_fresult res)))))"

end
