(* ===== verification/Vfs_Contract.thy ===== *)
theory Vfs_Contract
  imports Vfs_Dir
begin

text \<open>
  The contract between FatFS and the operations of the VFS layer. \<open>fatfs_frame\<close> says what the
  layer relies on: every function of FatFS returns, keeps some assertion \<open>I\<close> on the machine, and leaves
  the data of the layer alone but for the work area inside the context, whose drive and cluster
  size it does not change while a volume is mounted. From that
  the lemmas derive, for each operation, that it returns and that the lock of its context is
  free again and \<open>I\<close> still holds.
\<close>

section \<open>Chunks\<close>

text \<open>The counters of the two copying loops do not wrap.\<close>

lemma chunk_step:
  fixes i data_size buf_size :: u32
  assumes "i < data_size - buf_size" and "0 < buf_size" and "buf_size < data_size"
  shows "unat (i + buf_size) = unat i + unat buf_size" and "unat (i + buf_size) < unat data_size"
proof -
  have "unat (data_size - buf_size) = unat data_size - unat buf_size"
    using assms(3) by (simp add: unat_diff_no_wrap word_less_nat_alt)
  then have "unat i + unat buf_size < unat data_size" using assms by (simp add: word_less_nat_alt)
  moreover from this show "unat (i + buf_size) = unat i + unat buf_size"
    using unat_lt_2_32 [of data_size] by (intro unat_add_no_wrap) linarith
  ultimately show "unat (i + buf_size) < unat data_size" by simp
qed

lemma ucast16_pos: "w \<noteq> 0 \<Longrightarrow> 0 < (ucast (w :: 16 word) :: u32)"
proof -
  assume w: "w \<noteq> 0"
  have "unat w < 2 ^ 16" using unsigned_less [of w, where 'a = nat] by simp
  then have "unat (ucast w :: u32) = unat w" by (simp add: unsigned_ucast_eq take_bit_nat_eq_self)
  then show ?thesis using w by (simp add: word_less_nat_alt unat_gt_0)
qed

section \<open>What FatFS leaves alone\<close>

definition hide_fs :: "vfs_fat_ctx_t \<Rightarrow> vfs_fat_ctx_t" where
  "hide_fs x = x\<lparr>fat_fs := (fat_fs x)\<lparr>fs_rest := (\<lambda>_. 0)\<rparr>\<rparr>"

definition vfs_view ::
  "'d vfs_world \<Rightarrow> esp_jrnl_handle_t list \<times> errno_t \<times> vfs_fat_ctx_t option list \<times> nat option \<times>
     esp_jrnl_handle_t list \<times> vfs_fat_dir_t option list" where
  "vfs_view s = (ff_jrnl_handles s, errno s, map (map_option hide_fs) (s_fat_ctxs s), s_fat_ctx s,
     s_jrnl_handles s, dirs s)"

text \<open>
  The context at an index: its lock, the number of its files and its drive, with a cluster size
  that is not zero, as in every mounted volume; the table of handles;
  and directory streams that are open.
\<close>

definition ctx_shape :: "bool \<Rightarrow> nat \<Rightarrow> byte \<Rightarrow> vfs_fat_ctx_t \<Rightarrow> bool" where
  "ctx_shape l n pdrv x \<longleftrightarrow>
     fat_lock x = l \<and> length (files x) = n \<and> length (o_append x) = n \<and> unat (max_files x) = n \<and>
     fs_pdrv (fat_fs x) = pdrv \<and> fs_csize (fat_fs x) \<noteq> 0"

definition ctx_at :: "nat \<Rightarrow> nat \<Rightarrow> byte \<Rightarrow> esp_jrnl_handle_t list \<Rightarrow> nat set \<Rightarrow> bool \<Rightarrow> 'd vfs_world \<Rightarrow> bool" where
  "ctx_at c n pdrv hs D l s \<longleftrightarrow>
     c < length (s_fat_ctxs s) \<and> (\<exists>x. s_fat_ctxs s ! c = Some x \<and> ctx_shape l n pdrv x) \<and>
     s_jrnl_handles s = hs \<and> (\<forall>a \<in> D. a < length (dirs s) \<and> dirs s ! a \<noteq> None)"

definition with_ctx ::
  "('d vfs_world \<Rightarrow> bool) \<Rightarrow> nat \<Rightarrow> nat \<Rightarrow> byte \<Rightarrow> esp_jrnl_handle_t list \<Rightarrow> nat set \<Rightarrow> bool \<Rightarrow> 'd vfs_world \<Rightarrow> bool" where
  "with_ctx I c n pdrv hs D l s \<longleftrightarrow> I s \<and> ctx_at c n pdrv hs D l s"

lemma hide_fs_fields:
  assumes "hide_fs y = hide_fs x"
  shows "files y = files x" "fat_lock y = fat_lock x" "o_append y = o_append x"
  using arg_cong [OF assms, of files] arg_cong [OF assms, of fat_lock] arg_cong [OF assms, of o_append]
  by (simp_all add: hide_fs_def)

lemma ctx_shape_hide: "ctx_shape l n pdrv (hide_fs x) = ctx_shape l n pdrv x"
  by (simp add: ctx_shape_def hide_fs_def)

lemma view_ctx:
  assumes "vfs_view s' = vfs_view s" and "c < length (s_fat_ctxs s)" and "s_fat_ctxs s ! c = Some x"
  obtains y where "c < length (s_fat_ctxs s')" and "s_fat_ctxs s' ! c = Some y" and "hide_fs y = hide_fs x"
proof -
  have m: "map (map_option hide_fs) (s_fat_ctxs s') = map (map_option hide_fs) (s_fat_ctxs s)"
    using assms(1) by (simp add: vfs_view_def)
  then have len: "length (s_fat_ctxs s') = length (s_fat_ctxs s)" by (rule map_eq_imp_length_eq)
  have "map_option hide_fs (s_fat_ctxs s' ! c) = map_option hide_fs (s_fat_ctxs s ! c)"
    using arg_cong [OF m, of "\<lambda>t. t ! c"] assms(2) len by simp
  then show thesis using that assms(2,3) len by (auto simp: map_option_eq_Some)
qed

lemma ctx_at_view:
  assumes "vfs_view s' = vfs_view s" and "ctx_at c n pdrv hs D l s"
  shows "ctx_at c n pdrv hs D l s'"
proof -
  obtain x where x: "c < length (s_fat_ctxs s)" "s_fat_ctxs s ! c = Some x" "ctx_shape l n pdrv x"
    using assms(2) by (auto simp: ctx_at_def)
  obtain y where y: "c < length (s_fat_ctxs s')" "s_fat_ctxs s' ! c = Some y" "hide_fs y = hide_fs x"
    using assms(1) x(1,2) by (rule view_ctx)
  moreover have "ctx_shape l n pdrv y" using x(3) y(3) ctx_shape_hide by metis
  ultimately show ?thesis using assms by (simp add: ctx_at_def vfs_view_def)
qed

text \<open>Running the steps of an operation on a context that is known.\<close>

definition holds :: "nat \<Rightarrow> vfs_fat_ctx_t \<Rightarrow> 'd vfs_world \<Rightarrow> bool" where
  "holds c x s \<longleftrightarrow> c < length (s_fat_ctxs s) \<and> s_fat_ctxs s ! c = Some x"

definition set_ctx :: "nat \<Rightarrow> vfs_fat_ctx_t \<Rightarrow> 'd vfs_world \<Rightarrow> 'd vfs_world" where
  "set_ctx c x s = s\<lparr>s_fat_ctxs := (s_fat_ctxs s)[c := Some x]\<rparr>"

lemma holds_set_ctx [simp]: "holds c y (set_ctx c y s) \<longleftrightarrow> c < length (s_fat_ctxs s)"
    "length (s_fat_ctxs (set_ctx c y s)) = length (s_fat_ctxs s)"
  by (auto simp: holds_def set_ctx_def)

lemma holds_in_table: "holds c x s \<Longrightarrow> c < length (s_fat_ctxs s)"
  by (simp add: holds_def)

lemma holds_errno [simp]: "holds c x (s\<lparr>errno := e\<rparr>) = holds c x s"
  by (simp add: holds_def)

lemma view_holds:
  assumes "vfs_view s' = vfs_view s" and "holds c x s"
  obtains y where "holds c y s'" and "hide_fs y = hide_fs x"
  using assms view_ctx [OF assms(1)] unfolding holds_def by metis

lemma set_ctx_errno [simp]: "errno (set_ctx c x s) = errno s"
  by (simp add: set_ctx_def)

lemma ctx_at_holds:
  "ctx_at c n pdrv hs D l s \<longleftrightarrow> (\<exists>x. holds c x s \<and> ctx_shape l n pdrv x) \<and> s_jrnl_handles s = hs \<and>
     (\<forall>a \<in> D. a < length (dirs s) \<and> dirs s ! a \<noteq> None)"
  by (auto simp: ctx_at_def holds_def)

lemma run_ctx: "holds c x s \<Longrightarrow> ctx_of c s = (Ret x, s)" "holds c x s \<Longrightarrow> bind (ctx_of c) f s = f x s"
  "put_ctx c x s = (Ret (), set_ctx c x s)" "bind (put_ctx c x) k s = k () (set_ctx c x s)"
  by (simp_all add: ctx_of_def holds_def put_ctx_def set_ctx_def bind_assoc prog_simps)

lemma run_lock:
  assumes "holds c x s"
  shows "bind (lock_ctx c) f s = (if fat_lock x then (Blocked, s) else f () (set_ctx c (x\<lparr>fat_lock := True\<rparr>) s))"
  using assms by (simp add: lock_ctx_def bind_assoc prog_simps run_ctx)

lemma run_file:
  assumes "holds c x s" and "0 \<le> fd" and "nat fd < length (files x)"
  shows "file_of c fd s = (Ret (files x ! nat fd), s)" "bind (file_of c fd) f s = f (files x ! nat fd) s"
  using assms by (simp_all add: file_of_def bind_assoc prog_simps run_ctx)

lemma run_on_file:
  assumes "holds c x s" and "0 \<le> fd" and "nat fd < length (files x)"
    and "p (files x ! nat fd) s = (Ret (r, f'), s)"
  shows "bind (on_file c fd p) k s = k r (set_ctx c (x\<lparr>files := (files x)[nat fd := f']\<rparr>) s)"
  using assms
  by (simp add: on_file_def upd_file_def upd_ctx_def bind_assoc run_bind_Ret prog_simps run_ctx run_file)

text \<open>The same where FatFS changes the machine and keeps the data of the layer.\<close>

lemma run_on_file_view:
  assumes "holds c x s" and "0 \<le> fd" and "nat fd < length (files x)"
    and "p (files x ! nat fd) s = (Ret (r, f'), s')" and "vfs_view s' = vfs_view s"
  obtains y where "holds c y s'" and "hide_fs y = hide_fs x"
    and "\<And>k :: 'a \<Rightarrow> ('d vfs_world, 'b) prog. bind (on_file c fd p) k s = k r (set_ctx c (y\<lparr>files := (files x)[nat fd := f']\<rparr>) s')"
proof -
  obtain y where y: "holds c y s'" and e: "hide_fs y = hide_fs x" using assms(5,1) by (rule view_holds)
  have f: "files y = files x" using e by (rule hide_fs_fields)
  have "bind (on_file c fd p) k s = k r (set_ctx c (y\<lparr>files := (files x)[nat fd := f']\<rparr>) s')"
    for k :: "'a \<Rightarrow> ('d vfs_world, 'b) prog"
    using assms(1-4) y f
    by (simp add: on_file_def upd_file_def upd_ctx_def bind_assoc run_bind_Ret prog_simps run_ctx run_file)
  with y e show thesis by (rule that)
qed

text \<open>
  Evaluation: with the context kept in front of a fixed state, every step rewrites one such state into
  the next.
\<close>

named_theorems vfs_run \<open>running operations on a known context\<close>

lemma set_ctx_id: "holds c x s \<Longrightarrow> set_ctx c x s = s"
proof -
  assume "holds c x s"
  then have "(s_fat_ctxs s)[c := Some x] = s_fat_ctxs s" by (metis holds_def list_update_id)
  then show ?thesis by (simp add: set_ctx_def)
qed

lemma set_ctx_set_ctx [vfs_run]: "set_ctx c y (set_ctx c x s) = set_ctx c y s"
  by (simp add: set_ctx_def)

lemma errno_set_ctx [vfs_run]: "(set_ctx c x s)\<lparr>errno := e\<rparr> = set_ctx c x (s\<lparr>errno := e\<rparr>)"
  by (simp add: set_ctx_def)

lemma run_set_ctx [vfs_run]:
  assumes "c < length (s_fat_ctxs s)"
  shows "ctx_of c (set_ctx c x s) = (Ret x, set_ctx c x s)"
    "bind (ctx_of c) f (set_ctx c x s) = f x (set_ctx c x s)"
    "bind (put_ctx c y) k (set_ctx c x s) = k () (set_ctx c y s)"
    "bind (upd_ctx c g) k (set_ctx c x s) = k () (set_ctx c (g x) s)"
    "bind (unlock_ctx c) k (set_ctx c x s) = k () (set_ctx c (x\<lparr>fat_lock := False\<rparr>) s)"
    "bind (lock_ctx c) k (set_ctx c x s) =
      (if fat_lock x then (Blocked, set_ctx c x s) else k () (set_ctx c (x\<lparr>fat_lock := True\<rparr>) s))"
    "bind (prepend_drive_to_path C c path) h (set_ctx c x s) =
      (let p = strlcpy (fat_drive x @ path) (FILENAME_MAX C + 3) in h p (set_ctx c (x\<lparr>tmp_path_buf := p\<rparr>) s))"
proof -
  have h: "holds c x (set_ctx c x s)" for x using assms by simp
  show "ctx_of c (set_ctx c x s) = (Ret x, set_ctx c x s)"
    "bind (ctx_of c) f (set_ctx c x s) = f x (set_ctx c x s)"
    "bind (put_ctx c y) k (set_ctx c x s) = k () (set_ctx c y s)"
    "bind (upd_ctx c g) k (set_ctx c x s) = k () (set_ctx c (g x) s)"
    "bind (unlock_ctx c) k (set_ctx c x s) = k () (set_ctx c (x\<lparr>fat_lock := False\<rparr>) s)"
    "bind (lock_ctx c) k (set_ctx c x s) =
      (if fat_lock x then (Blocked, set_ctx c x s) else k () (set_ctx c (x\<lparr>fat_lock := True\<rparr>) s))"
    "bind (prepend_drive_to_path C c path) h (set_ctx c x s) =
      (let p = strlcpy (fat_drive x @ path) (FILENAME_MAX C + 3) in h p (set_ctx c (x\<lparr>tmp_path_buf := p\<rparr>) s))"
    by (simp_all add: run_ctx(1,2) [OF h] run_ctx(3,4) upd_ctx_def unlock_ctx_def run_lock [OF h]
        prepend_drive_to_path_def bind_assoc prog_simps set_ctx_set_ctx Let_def)
qed

lemma run_set_errno [vfs_run]: "bind (set_errno e) k s = k () (s\<lparr>errno := e\<rparr>)" "fail e s = (Ret (-1), s\<lparr>errno := e\<rparr>)"
  "bind (fail e) k' s = k' (-1) (s\<lparr>errno := e\<rparr>)"
  by (simp_all add: set_errno_def fail_def bind_assoc prog_simps)

lemma memalloc_empty_heap: "heap s = [] \<Longrightarrow> ff_memalloc sz s = (Ret True, s)"
  using unat_lt_2_32 [of sz] by (simp add: ff_memalloc_def calloc_empty_heap)

lemma run_memalloc [vfs_run]:
  "heap s = [] \<Longrightarrow> bind (ff_memalloc sz) k (set_ctx c x s) = k True (set_ctx c x s)"
  by (rule run_bind_Ret, rule memalloc_empty_heap) (simp add: set_ctx_def)

text \<open>Moving the position: the sum of position and offset has to be an \<open>off_t\<close>.\<close>

definition seek_defined :: "nat \<Rightarrow> int \<Rightarrow> u32 \<Rightarrow> whence \<Rightarrow> 'd vfs_world \<Rightarrow> bool" where
  "seek_defined c fd offset mode s \<longleftrightarrow>
     (\<forall>file. file_of c fd s = (Ret file, s) \<longrightarrow>
        (case mode of
           SEEK_CUR \<Rightarrow> - (2 ^ 31) \<le> sint (f_tell file) + sint offset \<and> sint (f_tell file) + sint offset < 2 ^ 31
         | SEEK_END \<Rightarrow> - (2 ^ 31) \<le> sint (f_size file) + sint offset \<and> sint (f_size file) + sint offset < 2 ^ 31
         | _ \<Rightarrow> True))"

locale fatfs_calls =
  fixes FF :: "'d vfs_world fatfs_api"
    and I :: "'d vfs_world \<Rightarrow> bool"
  assumes f_file_keeps:
      "keeps (\<lambda>s. I s \<and> vfs_view s = v) (f_open FF path mode file)"
      "keeps (\<lambda>s. I s \<and> vfs_view s = v) (f_close FF file)"
      "keeps (\<lambda>s. I s \<and> vfs_view s = v) (f_sync FF file)"
      "keeps (\<lambda>s. I s \<and> vfs_view s = v) (f_truncate FF file)"
      "keeps (\<lambda>s. I s \<and> vfs_view s = v) (f_read FF n file)"
      "keeps (\<lambda>s. I s \<and> vfs_view s = v) (f_write FF src n file)"
      "keeps (\<lambda>s. I s \<and> vfs_view s = v) (f_lseek FF n file)"
    and f_path_keeps:
      "keeps (\<lambda>s. I s \<and> vfs_view s = v) (f_stat FF path)"
      "keeps (\<lambda>s. I s \<and> vfs_view s = v) (f_unlink FF path)"
      "keeps (\<lambda>s. I s \<and> vfs_view s = v) (f_rename FF path path2)"
      "keeps (\<lambda>s. I s \<and> vfs_view s = v) (f_mkdir FF path)"
      "keeps (\<lambda>s. I s \<and> vfs_view s = v) (f_utime FF path info)"
    and f_dir_keeps:
      "keeps (\<lambda>s. I s \<and> vfs_view s = v) (f_opendir FF path dir)"
      "keeps (\<lambda>s. I s \<and> vfs_view s = v) (f_closedir FF dir)"
      "keeps (\<lambda>s. I s \<and> vfs_view s = v) (f_rewinddir FF dir)"
      "keeps (\<lambda>s. I s \<and> vfs_view s = v) (f_readdir FF dir info)"

text \<open>The assertion is about the machine below the layer.\<close>

locale fatfs_frame = fatfs_calls FF I for FF :: "'d vfs_world fatfs_api" and I +
  assumes I_local:
      "I (s\<lparr>errno := e\<rparr>) \<longleftrightarrow> I s" "I (s\<lparr>s_fat_ctxs := t\<rparr>) \<longleftrightarrow> I s" "I (s\<lparr>dirs := ds\<rparr>) \<longleftrightarrow> I s"
      "I (s\<lparr>heap := hp\<rparr>) \<longleftrightarrow> I s"
begin

lemma moves_view:
  assumes "\<And>v. keeps (\<lambda>s. I s \<and> vfs_view s = v) p"
  shows "moves (with_ctx I c n pdrv hs D) l p l"
  unfolding moves_def
proof (rule hoareI)
  fix s assume s: "with_ctx I c n pdrv hs D l s"
  obtain x s' where "p s = (Ret x, s')" "I s'" "vfs_view s' = vfs_view s"
    using keepsE [OF assms [of "vfs_view s"], of s] s unfolding with_ctx_def by blast
  then show "\<exists>x s'. p s = (Ret x, s') \<and> with_ctx I c n pdrv hs D l s'"
    using s ctx_at_view by (auto simp: with_ctx_def)
qed

lemmas moves_fatfs [moves_intros] =
  f_file_keeps [THEN moves_view] f_path_keeps [THEN moves_view] f_dir_keeps [THEN moves_view]

lemma moves_errno [moves_intros]:
  "moves (with_ctx I c n pdrv hs D) l (set_errno e) l" "moves (with_ctx I c n pdrv hs D) l (fail e) l"
  by (auto simp: moves_def hoare_def set_errno_def fail_def prog_simps with_ctx_def ctx_at_def I_local)

lemma moves_return [moves_intros]: "moves (with_ctx I c n pdrv hs D) l (return_fresult r) l"
  unfolding return_fresult_def by (rule moves_intros)+

lemma moves_memalloc [moves_intros]: "moves (with_ctx I c n pdrv hs D) l (ff_memalloc sz) l"
  unfolding moves_def
proof (rule hoareI)
  fix s assume s: "with_ctx I c n pdrv hs D l s"
  obtain ok hp where "ff_memalloc sz s = (Ret ok, s\<lparr>heap := hp\<rparr>)"
    unfolding ff_memalloc_def by (rule calloc_run)
  then show "\<exists>x s'. ff_memalloc sz s = (Ret x, s') \<and> with_ctx I c n pdrv hs D l s'"
    using s by (auto simp: with_ctx_def I_local ctx_at_def)
qed

text \<open>Reading the context yields one of the right shape, and storing one of some shape gives that shape.\<close>

lemma hoare_ctx_of:
  "hoare (with_ctx I c n pdrv hs D l) (ctx_of c) (\<lambda>x s. with_ctx I c n pdrv hs D l s \<and> ctx_shape l n pdrv x)"
  by (auto simp: hoare_def ctx_of_def prog_simps with_ctx_def ctx_at_def)

lemma hoare_put_ctx:
  "ctx_shape l' n pdrv x \<Longrightarrow> hoare (with_ctx I c n pdrv hs D l) (put_ctx c x) (\<lambda>_. with_ctx I c n pdrv hs D l')"
  by (auto simp: hoare_def put_ctx_def prog_simps with_ctx_def ctx_at_def I_local)

lemma moves_bind_ctx:
  assumes "\<And>x. ctx_shape l n pdrv x \<Longrightarrow> moves (with_ctx I c n pdrv hs D) l (f x) l'"
  shows "moves (with_ctx I c n pdrv hs D) l (bind (ctx_of c) f) l'"
  unfolding moves_def
  by (rule hoare_bind [OF hoare_ctx_of], rule hoare_fact) (rule assms [unfolded moves_def])

lemma moves_ctx_of [moves_intros]: "moves (with_ctx I c n pdrv hs D) l (ctx_of c) l"
  unfolding moves_def by (rule hoare_post [OF hoare_ctx_of]) simp

lemma moves_put_ctx: "ctx_shape l' n pdrv x \<Longrightarrow> moves (with_ctx I c n pdrv hs D) l (put_ctx c x) l'"
  unfolding moves_def by (rule hoare_put_ctx)

lemma moves_upd_ctx:
  "(\<And>x. ctx_shape l n pdrv x \<Longrightarrow> ctx_shape l' n pdrv (f x)) \<Longrightarrow>
   moves (with_ctx I c n pdrv hs D) l (upd_ctx c f) l'"
  unfolding upd_ctx_def by (rule moves_bind_ctx, rule moves_put_ctx) simp

lemma moves_lock [moves_intros]:
  "moves (with_ctx I c n pdrv hs D) False (lock_ctx c) True"
  "moves (with_ctx I c n pdrv hs D) l (unlock_ctx c) False"
proof -
  show "moves (with_ctx I c n pdrv hs D) False (lock_ctx c) True"
    unfolding lock_ctx_def
  proof (rule moves_bind_ctx)
    fix x assume x: "ctx_shape False n pdrv x"
    have "lock_acquire (fat_lock x) = ret True"
      using x by (simp add: ctx_shape_def lock_acquire_def ret_def)
    then show "moves (with_ctx I c n pdrv hs D) False
        (bind (lock_acquire (fat_lock x)) (\<lambda>l. put_ctx c (x\<lparr>fat_lock := l\<rparr>))) True"
      using moves_put_ctx [of True n pdrv "x\<lparr>fat_lock := True\<rparr>" c hs D False] x
      by (simp add: moves_def hoare_def prog_simps ctx_shape_def)
  qed
  show "moves (with_ctx I c n pdrv hs D) l (unlock_ctx c) False"
    unfolding unlock_ctx_def by (rule moves_upd_ctx) (simp add: ctx_shape_def)
qed

lemma moves_path [moves_intros]:
  "moves (with_ctx I c n pdrv hs D) l (prepend_drive_to_path C c path) l"
  unfolding prepend_drive_to_path_def Let_def
  by (rule moves_bind_ctx, rule moves_bind [OF moves_put_ctx moves_ret]) (simp add: ctx_shape_def)

lemma moves_paths [moves_intros]:
  "moves (with_ctx I c n pdrv hs D) l (prepend_drive_to_paths C c path path2) l"
  unfolding prepend_drive_to_paths_def Let_def
  by (rule moves_bind [OF moves_path], rule moves_bind_ctx, rule moves_bind [OF moves_put_ctx moves_ret])
    (simp add: ctx_shape_def)

text \<open>Files of the context, at a valid index.\<close>

lemma moves_file_of [moves_intros]:
  "0 \<le> fd \<and> nat fd < n \<Longrightarrow> moves (with_ctx I c n pdrv hs D) l (file_of c fd) l"
  unfolding file_of_def by (rule moves_bind_ctx) (simp add: ctx_shape_def moves_ret)

lemma moves_upd_file [moves_intros]:
  "0 \<le> fd \<and> nat fd < n \<Longrightarrow> moves (with_ctx I c n pdrv hs D) l (upd_file c fd f) l"
  unfolding upd_file_def
  by (rule moves_bind [OF moves_file_of], assumption, rule moves_upd_ctx) (simp add: ctx_shape_def)

lemma moves_cleanup [moves_intros]:
  "0 \<le> fd \<and> nat fd < n \<Longrightarrow> moves (with_ctx I c n pdrv hs D) l (file_cleanup c fd) l"
  unfolding file_cleanup_def by (rule moves_upd_file)

lemma moves_on_file [moves_intros]:
  assumes "0 \<le> fd \<and> nat fd < n" and "\<And>file. moves (with_ctx I c n pdrv hs D) l (p file) l"
  shows "moves (with_ctx I c n pdrv hs D) l (on_file c fd p) l"
  unfolding on_file_def by (rule moves_intros assms)+

section \<open>The file operations\<close>

lemma moves_fsync [moves_intros]:
  "0 \<le> fd \<and> nat fd < n \<Longrightarrow> moves (with_ctx I c n pdrv hs D) l (vfs_fat_fsync FF c fd) l"
  unfolding vfs_fat_fsync_def by (rule moves_intros | assumption)+

lemma moves_close:
  "0 \<le> fd \<and> nat fd < n \<Longrightarrow> moves (with_ctx I c n pdrv hs D) False (vfs_fat_close C FF c fd) False"
  unfolding vfs_fat_close_def by (rule moves_intros | assumption)+

lemma moves_write:
  "0 \<le> fd \<and> nat fd < n \<Longrightarrow> moves (with_ctx I c n pdrv hs D) False (vfs_fat_write C FF c fd data sz) False"
  unfolding vfs_fat_write_def by (rule moves_intros | assumption)+

lemma moves_read [moves_intros]:
  "0 \<le> fd \<and> nat fd < n \<Longrightarrow> moves (with_ctx I c n pdrv hs D) l (vfs_fat_read FF c fd sz) l"
  unfolding vfs_fat_read_def by (rule moves_intros | assumption)+

lemma moves_restore [moves_intros]:
  "0 \<le> fd \<and> nat fd < n \<Longrightarrow> moves (with_ctx I c n pdrv hs D) l (restore_position FF c fd pos r) l"
  unfolding restore_position_def by (rule moves_intros | assumption)+

lemma moves_pread:
  "0 \<le> fd \<and> nat fd < n \<Longrightarrow> moves (with_ctx I c n pdrv hs D) False (vfs_fat_pread FF c fd sz off) False"
  unfolding vfs_fat_pread_def Let_def by (rule moves_intros | assumption)+

text \<open>Opening: the fast-seek part reports in its result whether it has released the lock.\<close>

lemma hoare_fastseek:
  assumes "0 \<le> fd \<and> nat fd < n"
  shows "hoare (with_ctx I c n pdrv hs D True) (open_fastseek C FF c fd flags)
    (\<lambda>opened. with_ctx I c n pdrv hs D opened)"
proof -
  have "hoare (with_ctx I c n pdrv hs D True) (bind p (\<lambda>_. ret True)) (\<lambda>opened. with_ctx I c n pdrv hs D opened)"
    if "moves (with_ctx I c n pdrv hs D) True p True" for p :: "('d vfs_world, unit) prog"
    using that unfolding moves_def by (rule hoare_bind) (rule hoare_ret, simp)
  note tail = this [OF moves_upd_file [OF assms]]
  have seek: "hoare (with_ctx I c n pdrv hs D True)
      (if res \<noteq> FR_OK then bind (upd_file c fd (\<lambda>f. f\<lparr>cltbl := None\<rparr>)) (\<lambda>_. ret True) else ret True)
      (\<lambda>opened. with_ctx I c n pdrv hs D opened)" for res
    by (rule hoare_if) (rule tail, rule hoare_ret, simp)
  have undo: "moves (with_ctx I c n pdrv hs D) True (bind (on_file c fd (f_close FF)) (\<lambda>_.
      bind (file_cleanup c fd) (\<lambda>_. bind (unlock_ctx c) (\<lambda>_. set_errno ENOMEM)))) False"
    by (rule moves_intros assms)+
  have undo': "hoare (with_ctx I c n pdrv hs D True) (bind (on_file c fd (f_close FF)) (\<lambda>_.
      bind (file_cleanup c fd) (\<lambda>_. bind (unlock_ctx c) (\<lambda>_. bind (set_errno ENOMEM) (\<lambda>_. ret False)))))
      (\<lambda>opened. with_ctx I c n pdrv hs D opened)"
    using hoare_bind [OF undo [unfolded moves_def] hoare_ret] by (simp add: bind_assoc)
  show ?thesis
    unfolding open_fastseek_def
    by (rule hoare_if hoare_bind [OF moves_memalloc [unfolded moves_def]] undo' tail
        hoare_bind [OF moves_upd_file [OF assms, unfolded moves_def]]
        hoare_bind [OF moves_on_file [OF assms moves_fatfs(7), unfolded moves_def]] seek)+
qed

lemma moves_finish_open:
  assumes "0 \<le> fd \<and> nat fd < n"
  shows "moves (with_ctx I c n pdrv hs D) True (finish_open C FF c fd flags) False"
  unfolding moves_def finish_open_def
proof (rule hoare_bind [where R = "\<lambda>opened. with_ctx I c n pdrv hs D opened"])
  show "hoare (with_ctx I c n pdrv hs D True)
      (if FATFS_USE_FASTSEEK C then open_fastseek C FF c fd flags else ret True)
      (\<lambda>opened. with_ctx I c n pdrv hs D opened)"
    using hoare_fastseek [OF assms] by (simp add: hoare_ret)
  let ?app = "bind (upd_ctx c (\<lambda>x. x\<lparr>o_append := (o_append x)[nat fd := (flags AND O_APPEND = O_APPEND)]\<rparr>))
      (\<lambda>_. bind (unlock_ctx c) (\<lambda>_. ret fd))"
  have "moves (with_ctx I c n pdrv hs D) True ?app False"
    by (rule moves_bind, rule moves_upd_ctx [where l' = True], simp add: ctx_shape_def) (rule moves_intros)+
  then show "hoare (with_ctx I c n pdrv hs D opened) (if \<not> opened then ret (-1) else ?app)
      (\<lambda>_. with_ctx I c n pdrv hs D False)" for opened
    by (cases opened) (simp_all add: moves_def hoare_ret)
qed

lemma moves_open:
  "moves (with_ctx I c n pdrv hs D) False (vfs_fat_open C FF c path flags) False"
  unfolding vfs_fat_open_def Let_def
proof (rule moves_bind [OF moves_lock(1)], rule moves_bind [OF moves_path], rule moves_bind_ctx, rule moves_cases)
  fix x assume "ctx_shape True n pdrv x" and "\<not> get_next_fd x < 0"
  then have "0 \<le> get_next_fd x \<and> nat (get_next_fd x) < n"
    by (auto simp: get_next_fd_def first_index_Some ctx_shape_def split: option.splits)
  then show "moves (with_ctx I c n pdrv hs D) True
      (bind (on_file c (get_next_fd x) (f_open FF path' (ucast (fat_mode_conv FF flags)))) (\<lambda>res.
       if res \<noteq> FR_OK then bind (file_cleanup c (get_next_fd x)) (\<lambda>_. bind (unlock_ctx c) (\<lambda>_. fail (fresult_to_errno res)))
       else finish_open C FF c (get_next_fd x) flags)) False" for path'
    by - (rule moves_intros moves_finish_open | assumption)+
qed (rule moves_intros)+

text \<open>Seeking.\<close>

lemma hoare_lseek:
  assumes fd: "0 \<le> fd \<and> nat fd < n"
  shows "hoare (\<lambda>s. with_ctx I c n pdrv hs D l s \<and> seek_defined c fd offset mode s)
    (vfs_fat_lseek FF c fd offset mode) (\<lambda>_. with_ctx I c n pdrv hs D l)"
proof (rule hoareI, elim conjE)
  fix s assume s: "with_ctx I c n pdrv hs D l s" and sd: "seek_defined c fd offset mode s"
  obtain fp where f: "file_of c fd s = (Ret fp, s)"
    using s fd by (auto simp: file_of_def ctx_of_def with_ctx_def ctx_at_def ctx_shape_def bind_assoc prog_simps)
  have seek: "moves (with_ctx I c n pdrv hs D) l (bind (on_file c fd (f_lseek FF p)) (\<lambda>res.
      if res \<noteq> FR_OK then fail (fresult_to_errno res) else ret (sint p))) l" for p
    by (rule moves_intros fd)+
  have no: "moves (with_ctx I c n pdrv hs D) l (fail EINVAL) l" by (rule moves_intros)
  show "\<exists>x s'. vfs_fat_lseek FF c fd offset mode s = (Ret x, s') \<and> with_ctx I c n pdrv hs D l s'"
    using sd f moves_run [where A = "with_ctx I c n pdrv hs D", OF seek s]
      moves_run [where A = "with_ctx I c n pdrv hs D", OF no s]
    by (cases mode) (auto simp: vfs_fat_lseek_def run_bind_Ret seek_defined_def off_add_def bind_assoc prog_simps)
qed

lemma moves_fstat [moves_intros]:
  "0 \<le> fd \<and> nat fd < n \<Longrightarrow> moves (with_ctx I c n pdrv hs D) l (vfs_fat_fstat C c fd) l"
  unfolding vfs_fat_fstat_def by (rule moves_intros | assumption)+

text \<open>Filling with zeros: the loop over the chunks ends, whatever FatFS reports as written.\<close>

lemma moves_zero_chunks:
  assumes b: "0 < buf_size" "buf_size < data_size"
  shows "moves (with_ctx I c n pdrv hs D) l (zero_chunks FF data_size buf_size x) l"
  unfolding moves_def zero_chunks_def
proof (rule hoare_loop [where P = "\<lambda>_. with_ctx I c n pdrv hs D l" and \<mu> = "\<lambda>x. unat data_size - unat (fst x)"])
  fix x :: "u32 \<times> u32 option \<times> FIL"
  obtain i bw fp where x: "x = (i, bw, fp)" by (cases x)
  note w = moves_fatfs(6) [of c n pdrv hs D l "\<lambda>_. 0" buf_size fp, unfolded moves_def]
  have "unat data_size - unat (i + buf_size) < unat data_size - unat i" if "i < data_size - buf_size"
    using chunk_step [OF that b] b(1) by (simp add: word_less_nat_alt)
  then show "hoare (with_ctx I c n pdrv hs D l)
      (case x of (i, bytes_written, fp) \<Rightarrow>
         if i < data_size - buf_size then
           bind (f_write FF (\<lambda>_. 0) buf_size fp) (\<lambda>((res, bw), fp').
           if res \<noteq> FR_OK then ret (Inl (res, i, bytes_written, fp'))
           else ret (Inr (i + buf_size, map_option (\<lambda>n. n + bw) bytes_written, fp')))
         else ret (Inl (FR_OK, i, bytes_written, fp)))
      (\<lambda>y s. case y of Inl r \<Rightarrow> with_ctx I c n pdrv hs D l s
         | Inr x' \<Rightarrow> with_ctx I c n pdrv hs D l s \<and> unat data_size - unat (fst x') < unat data_size - unat (fst x))"
    unfolding x by (auto intro!: hoare_bind [OF w] hoare_ret split: prod.splits)
qed

lemma moves_zero_mem [moves_intros]:
  "moves (with_ctx I c n pdrv hs D) l (f_write_zero_mem FF data_size buf_size bw fp) l"
  unfolding f_write_zero_mem_def Let_def
  by (rule moves_intros | rule moves_zero_chunks, simp add: word_neq_0_conv, assumption)+

lemma moves_resize [moves_intros]: "moves (with_ctx I c n pdrv hs D) l (resize_file FF len file) l"
  unfolding resize_file_def Let_def by (rule moves_intros)+

lemma moves_sync_resized [moves_intros]: "moves (with_ctx I c n pdrv hs D) l (sync_resized C FF file) l"
  unfolding sync_resized_def by (rule moves_intros)+

lemma moves_close_truncated [moves_intros]:
  "moves (with_ctx I c n pdrv hs D) l (close_truncated FF file r) l"
  unfolding close_truncated_def by (rule moves_intros)+

lemma moves_truncate: "moves (with_ctx I c n pdrv hs D) False (vfs_fat_truncate C FF c path len) False"
  unfolding vfs_fat_truncate_def by (rule moves_intros)+

lemma moves_ftruncate:
  "0 \<le> fd \<and> nat fd < n \<Longrightarrow> moves (with_ctx I c n pdrv hs D) False (vfs_fat_ftruncate C FF c fd len) False"
  unfolding vfs_fat_ftruncate_def by (rule moves_intros | assumption)+

section \<open>The operations on names and directories\<close>

lemma moves_access: "moves (with_ctx I c n pdrv hs D) False (vfs_fat_access C FF c path amode) False"
  unfolding vfs_fat_access_def by (rule moves_intros)+

lemma moves_path_call:
  assumes "\<And>p. moves (with_ctx I c n pdrv hs D) True (call p) True"
  shows "moves (with_ctx I c n pdrv hs D) False (locked_path_call C c path call) False"
  unfolding locked_path_call_def by (rule moves_intros assms)+

lemma moves_names:
  "moves (with_ctx I c n pdrv hs D) False (vfs_fat_unlink C FF c path) False"
  "moves (with_ctx I c n pdrv hs D) False (vfs_fat_mkdir C FF c path mode) False"
  "moves (with_ctx I c n pdrv hs D) False (vfs_fat_rmdir C FF c path) False"
  unfolding vfs_fat_unlink_def vfs_fat_mkdir_def vfs_fat_rmdir_def
  by (rule moves_path_call, rule moves_fatfs)+

lemma moves_rename: "moves (with_ctx I c n pdrv hs D) False (vfs_fat_rename C FF c src dst) False"
  unfolding vfs_fat_rename_def by (rule moves_intros)+

lemma moves_utime: "moves (with_ctx I c n pdrv hs D) False (vfs_fat_utime L C FF c path modtime) False"
  unfolding vfs_fat_utime_def Let_def by (rule moves_intros)+

lemma moves_stat: "moves (with_ctx I c n pdrv hs D) False (vfs_fat_stat L C FF c path) False"
proof -
  have "moves (with_ctx I c n pdrv hs D) False (upd_ctx c (\<lambda>x. x\<lparr>cached_fileinfo := g x\<rparr>)) False" for g
    by (rule moves_upd_ctx) (simp add: ctx_shape_def)
  then show ?thesis unfolding vfs_fat_stat_def by - (rule moves_intros | assumption)+
qed

text \<open>Linking copies in chunks of the cluster size, which has to be positive for the loop to end.\<close>

lemma moves_copy_file:
  assumes "0 < copy_buf_size"
  shows "moves (with_ctx I c n pdrv hs D) l (copy_file FF copy_buf_size x) l"
  unfolding moves_def copy_file_def
proof (rule hoare_loop [where P = "\<lambda>_. with_ctx I c n pdrv hs D l" and \<mu> = "\<lambda>x. unat (fst x)"])
  fix x :: "u32 \<times> FIL \<times> FIL"
  obtain sl pf1 pf2 where x: "x = (sl, pf1, pf2)" by (cases x)
  let ?w = "if sl < copy_buf_size then sl else copy_buf_size"
  note r = moves_fatfs(5) [of c n pdrv hs D l ?w pf1, unfolded moves_def]
  note w = moves_fatfs(6) [of c n pdrv hs D l _ ?w pf2, unfolded moves_def]
  have d: "unat (sl - ?w) < unat sl" if "sl \<noteq> 0"
    using that assms by (simp add: unat_diff_no_wrap word_less_nat_alt unat_gt_0 [symmetric] del: unat_gt_0)
  show "hoare (with_ctx I c n pdrv hs D l)
      (case x of (size_left, pf1, pf2) \<Rightarrow>
         if size_left = 0 then ret (Inl (FR_OK, pf1, pf2))
         else
           let will_copy = (if size_left < copy_buf_size then size_left else copy_buf_size) in
           bind (f_read FF will_copy pf1) (\<lambda>((res, rd, buf), pf1).
           if res \<noteq> FR_OK then ret (Inl (res, pf1, pf2))
           else if rd \<noteq> will_copy then ret (Inl (FR_DISK_ERR, pf1, pf2))
           else
             bind (f_write FF (buf_of buf (\<lambda>_. 0)) will_copy pf2) (\<lambda>((res, written), pf2).
             if res \<noteq> FR_OK then ret (Inl (res, pf1, pf2))
             else if written \<noteq> will_copy then ret (Inl (FR_DISK_ERR, pf1, pf2))
             else ret (Inr (size_left - will_copy, pf1, pf2)))))
      (\<lambda>y s. case y of Inl r \<Rightarrow> with_ctx I c n pdrv hs D l s
         | Inr x' \<Rightarrow> with_ctx I c n pdrv hs D l s \<and> unat (fst x') < unat (fst x))"
    unfolding x Let_def prod.case fst_conv
    by (rule hoare_if hoare_bind [OF r] hoare_bind [OF w] hoare_ret hoare_prod
        | simp only: split_beta | (use d in simp))+
qed

lemma moves_link_files:
  assumes "0 < b"
  shows "moves (with_ctx I c n pdrv hs D) True (link_files C FF c n1 n2 b) False"
proof (cases "FATFS_LINK_LOCK C")
  case True
  then show ?thesis unfolding link_files_def by simp (rule moves_intros moves_copy_file [OF assms])+
next
  case False
  then show ?thesis unfolding link_files_def by simp (rule moves_intros moves_copy_file [OF assms])+
qed

lemma moves_link: "moves (with_ctx I c n pdrv hs D) False (vfs_fat_link C FF c n1 n2) False"
  unfolding vfs_fat_link_def Let_def
proof (rule moves_bind [OF moves_lock(1)], rule moves_bind [OF moves_paths], rule moves_cases,
    rule moves_bind [OF moves_memalloc], rule moves_bind [OF moves_memalloc], rule moves_bind_ctx)
  fix n1' n2' pf1 pf2 x assume "ctx_shape True n pdrv x"
  then have "0 < (ucast (fs_csize (fat_fs x)) :: u32)"
    by (simp add: ctx_shape_def ucast16_pos)
  then show "moves (with_ctx I c n pdrv hs D) True
      (bind (ff_memalloc (ucast (fs_csize (fat_fs x)))) (\<lambda>buf.
       if \<not> buf \<or> \<not> pf1 \<or> \<not> pf2 then bind (unlock_ctx c) (\<lambda>_. fail ENOMEM)
       else bind (link_files C FF c n1' n2' (ucast (fs_csize (fat_fs x)))) (\<lambda>res. return_fresult res))) False"
    by - (rule moves_intros moves_link_files | assumption)+
qed

text \<open>Directory streams that stay open.\<close>

lemma moves_dir_of [moves_intros]: "a \<in> D \<Longrightarrow> moves (with_ctx I c n pdrv hs D) l (dir_of a) l"
  unfolding moves_def
proof (rule hoareI)
  fix s assume s: "with_ctx I c n pdrv hs D l s" and "a \<in> D"
  then obtain d where "a < length (dirs s)" "dirs s ! a = Some d"
    by (auto simp: with_ctx_def ctx_at_def)
  then have "dir_of a s = (Ret d, s)" by (simp add: dir_of_def prog_simps)
  then show "\<exists>x s'. dir_of a s = (Ret x, s') \<and> with_ctx I c n pdrv hs D l s'" using s by blast
qed

lemma moves_put_dir [moves_intros]: "moves (with_ctx I c n pdrv hs D) l (put_dir a (Some d)) l"
proof -
  have "ds[a := Some d] ! b \<noteq> None" if "b < length ds" "ds ! b \<noteq> None" for b ds
    using that by (cases "b = a") auto
  then show ?thesis
    by (auto simp: moves_def hoare_def put_dir_def prog_simps with_ctx_def ctx_at_def I_local simp del: not_None_eq)
qed

lemma moves_new_dir [moves_intros]: "moves (with_ctx I c n pdrv hs D) l (new_dir d) l"
  by (auto simp: moves_def hoare_def new_dir_def with_ctx_def ctx_at_def I_local nth_append)

lemma moves_assert [moves_intros]: "b \<Longrightarrow> moves (with_ctx I c n pdrv hs D) l (assert_that b) l"
  by (simp add: moves_def hoare_assert)

lemma moves_opendir: "moves (with_ctx I c n pdrv hs D) False (vfs_fat_opendir C FF c name) False"
  unfolding vfs_fat_opendir_def
  by (rule moves_bind, rule moves_upd_ctx [where l' = False], simp add: ctx_shape_def) (rule moves_intros)+

lemma moves_readdir_r [moves_intros]:
  "a \<in> D \<Longrightarrow> moves (with_ctx I c n pdrv hs D) l (vfs_fat_readdir_r C FF (Some a) entry) l"
  unfolding vfs_fat_readdir_r_def Let_def option.sel by (rule moves_intros | assumption | simp)+

lemma moves_readdir [moves_intros]:
  assumes "a \<in> D"
  shows "moves (with_ctx I c n pdrv hs D) l (vfs_fat_readdir C FF c (Some a)) l"
proof -
  have "moves (with_ctx I c n pdrv hs D) l (upd_ctx c (\<lambda>x. x\<lparr>cached_fileinfo := g x\<rparr>)) l" for g
    by (rule moves_upd_ctx) (simp add: ctx_shape_def)
  then show ?thesis
    unfolding vfs_fat_readdir_def Let_def option.sel using assms
    by - (rule moves_intros | assumption | simp)+
qed

lemma moves_telldir [moves_intros]:
  "a \<in> D \<Longrightarrow> moves (with_ctx I c n pdrv hs D) l (vfs_fat_telldir (Some a)) l"
  unfolding vfs_fat_telldir_def option.sel by (rule moves_intros | assumption | simp)+

text \<open>Closing a stream invalidates it and no other.\<close>

lemma hoare_closedir:
  assumes "a \<in> D"
  shows "hoare (with_ctx I c n pdrv hs D l) (vfs_fat_closedir FF (Some a)) (\<lambda>_. with_ctx I c n pdrv hs (D - {a}) l)"
proof -
  have put: "hoare (with_ctx I c n pdrv hs D l) (put_dir a None) (\<lambda>_. with_ctx I c n pdrv hs (D - {a}) l)"
    by (auto simp: hoare_def put_dir_def prog_simps with_ctx_def ctx_at_def I_local)
  show ?thesis
    unfolding vfs_fat_closedir_def Let_def option.sel
    by (rule hoare_bind [OF moves_assert [unfolded moves_def]], simp,
        rule hoare_bind [OF moves_dir_of [OF assms, unfolded moves_def]],
        rule hoare_bind [OF moves_fatfs(14) [unfolded moves_def]], rule hoare_prod,
        rule hoare_bind [OF put], rule moves_return [unfolded moves_def])
qed

text \<open>
  Seeking in a directory: every turn of the loop moves the offset of the stream by one, also beyond
  the end of the directory, so the loop ends.
\<close>

lemma seek_turn:
  assumes d: "a \<in> D" and s: "with_ctx I c n pdrv hs D l s" and e: "dirs s ! a = Some d"
  obtains res info dir s1 where "f_readdir FF (ffdir d) (dir_filinfo d) s = (Ret ((res, info), dir), s1)"
    and "with_ctx I c n pdrv hs D l s1" and "dirs s1 = dirs s"
proof -
  obtain y s1 where y: "f_readdir FF (ffdir d) (dir_filinfo d) s = (Ret y, s1)" "I s1" "vfs_view s1 = vfs_view s"
    using keepsE [OF f_dir_keeps(4) [of "vfs_view s" "ffdir d" "dir_filinfo d"], of s] s
    unfolding with_ctx_def by blast
  moreover have "with_ctx I c n pdrv hs D l s1" using y s ctx_at_view by (auto simp: with_ctx_def)
  moreover have "dirs s1 = dirs s" using y(3) by (simp add: vfs_view_def)
  ultimately show thesis using that by (metis surj_pair)
qed

lemma moves_seek_entries:
  assumes "a \<in> D"
  shows "moves (with_ctx I c n pdrv hs D) l (seek_entries FF a offset) l"
  unfolding moves_def seek_entries_def
proof (rule hoare_loop_state [where P = "\<lambda>_. with_ctx I c n pdrv hs D l"
      and \<mu> = "\<lambda>_ s. nat (sint offset - sint (dir_offset (the (dirs s ! a))))"], goal_cases)
  case (1 x s)
  then obtain d where d: "a < length (dirs s)" "dirs s ! a = Some d"
    using assms by (auto simp: with_ctx_def ctx_at_def)
  have run: "bind (dir_of a) f s = f d s" for f :: "vfs_fat_dir_t \<Rightarrow> ('d vfs_world, FRESULT + unit) prog"
    using d by (simp add: dir_of_def bind_assoc prog_simps)
  obtain res info dir s1 where r: "f_readdir FF (ffdir d) (dir_filinfo d) s = (Ret ((res, info), dir), s1)"
    and s1: "with_ctx I c n pdrv hs D l s1" "dirs s1 = dirs s"
    by (rule seek_turn [OF assms 1 d(2)])
  have put: "with_ctx I c n pdrv hs D l (s1\<lparr>dirs := (dirs s1)[a := Some e]\<rparr>)" for e
    using moves_run [OF moves_put_dir s1(1), of a e] by (simp add: put_dir_def prog_simps)
  show ?case
  proof (cases "dir_offset d <s offset")
    case False
    then show ?thesis using 1 by (simp add: run prog_simps)
  next
    case lt: True
    have "sint (dir_offset d + 1) = sint (dir_offset d) + 1"
      using lt sint_lt [of offset] sint_ge [of "dir_offset d"]
      by (simp add: sint_word_add word_sless_alt signed_take_bit_int_eq_self)
    then have "nat (sint offset - sint (dir_offset d + 1)) < nat (sint offset - sint (dir_offset d))"
      using lt by (simp add: word_sless_alt)
    then show ?thesis
      using lt r put d s1(2) by (cases "res = FR_OK") (simp_all add: run run_bind_Ret put_dir_def prog_simps Let_def)
  qed
qed

section \<open>The two operations that may keep the lock\<close>

text \<open>
  Positioned writing keeps the lock when the volume is full, and only then; seeking in a directory
  keeps it when FatFS reports an error.
\<close>

lemma hoare_pwrite:
  assumes fd: "0 \<le> fd \<and> nat fd < n"
  shows "hoare (with_ctx I c n pdrv hs D False) (vfs_fat_pwrite C FF c fd src sz offset)
    (\<lambda>r s. with_ctx I c n pdrv hs D False s \<or> with_ctx I c n pdrv hs D True s \<and> r = -1 \<and> errno s = ENOSPC)"
    (is "hoare ?pre _ ?Q")
proof -
  let ?A = "with_ctx I c n pdrv hs D"
  have ok: "moves ?A l p False \<Longrightarrow> hoare (?A l) p ?Q" for l and p :: "('d vfs_world, int) prog"
    by (auto simp: moves_def hoare_def)
  have leak: "hoare (?A True) (fail ENOSPC) ?Q"
    by (auto simp: hoare_def fail_def set_errno_def prog_simps with_ctx_def ctx_at_def I_local)
  have tail: "moves ?A True
      (bind (if f_res = FR_OK then ret (sint wr) else fail (fresult_to_errno f_res)) (\<lambda>r.
       bind (restore_position FF c fd pos r) (\<lambda>(f_res, r).
       bind (if FATFS_IMMEDIATE_FSYNC C \<and> 0 < wr then
               bind (on_file c fd (f_sync FF)) (\<lambda>f_res2.
               if f_res2 \<noteq> FR_OK then
                 bind (if f_res = FR_OK then set_errno (fresult_to_errno f_res2) else ret ()) (\<lambda>_. ret (-1))
               else ret r)
             else ret r) (\<lambda>r. bind (unlock_ctx c) (\<lambda>_. ret r))))) False" for f_res and wr :: u32 and pos
    by (rule moves_intros fd)+
  have no: "moves ?A True (bind (set_errno e) (\<lambda>_. bind (unlock_ctx c) (\<lambda>_. ret (-1 :: int)))) False" for e
    by (rule moves_intros)+
  show ?thesis
    unfolding vfs_fat_pwrite_def Let_def
    by (rule hoare_bind [OF moves_lock(1) [unfolded moves_def]]
        hoare_bind [OF moves_file_of [OF fd, unfolded moves_def]]
        hoare_bind [OF moves_on_file [OF fd moves_fatfs(7), unfolded moves_def]]
        hoare_bind [OF moves_on_file [OF fd moves_fatfs(6), unfolded moves_def]]
        hoare_if hoare_prod leak ok [OF tail] ok [OF no])+
qed

lemma hoare_seekdir:
  assumes a: "a \<in> D"
  shows "hoare (with_ctx I c n pdrv hs D False) (vfs_fat_seekdir FF c (Some a) offset)
    (\<lambda>_ s. with_ctx I c n pdrv hs D False s \<or>
       with_ctx I c n pdrv hs D True s \<and> (\<exists>res. res \<noteq> FR_OK \<and> errno s = fresult_to_errno res))"
    (is "hoare _ _ ?Q")
proof -
  let ?A = "with_ctx I c n pdrv hs D"
  have ok: "hoare (?A True) (unlock_ctx c) ?Q"
    using moves_lock(2) [of c n pdrv hs D True] unfolding moves_def by (rule hoare_post) blast
  have leak: "hoare (?A True) (set_errno (fresult_to_errno res)) ?Q" if "res \<noteq> FR_OK" for res
    using that by (auto simp: hoare_def set_errno_def prog_simps with_ctx_def ctx_at_def I_local)
  have rw: "moves ?A True
      (if offset <s dir_offset d then
         bind (f_rewinddir FF (ffdir d)) (\<lambda>(res, dir).
         if res \<noteq> FR_OK then bind (put_dir a (Some (d\<lparr>ffdir := dir\<rparr>))) (\<lambda>_. ret res)
         else bind (put_dir a (Some (d\<lparr>ffdir := dir, dir_offset := 0\<rparr>))) (\<lambda>_. ret FR_OK))
       else ret FR_OK) True" for d
    by (rule moves_intros)+
  show ?thesis
    unfolding vfs_fat_seekdir_def Let_def option.sel
    by (rule hoare_bind [OF moves_assert [unfolded moves_def]], simp)
      (rule hoare_bind [OF moves_lock(1) [unfolded moves_def]]
        hoare_bind [OF moves_dir_of [OF a, unfolded moves_def]]
        hoare_bind [OF rw [unfolded moves_def]]
        hoare_bind [OF moves_seek_entries [OF a, unfolded moves_def]] hoare_if ok leak | assumption)+
qed

end

end
