(* ===== verification/Vfs_Jrnl.thy ===== *)
theory Vfs_Jrnl
  imports Vfs_Contract
begin

text \<open>
  The journaled wrappers of \<open>srcs/fatfs/vfs/vfs_jrnl_fat.c\<close>, the table of functions given to the
  VFS, and the registration of contexts and journal handles.
\<close>

section \<open>Transactions around operations\<close>

text \<open>\<open>s_jrnl_handles[fat_ctx->fs.pdrv]\<close>; the drive number is not checked.\<close>

definition init_jrnl_handles :: "esp_jrnl_handle_t list" where
  "init_jrnl_handles = replicate JRNL_MAX_HANDLES JRNL_INVALID_HANDLE"

definition jrnl_handle_of :: "nat \<Rightarrow> ('d vfs_world, esp_jrnl_handle_t) prog" where
  "jrnl_handle_of c =
     bind (ctx_of c) (\<lambda>x.
     bind (gets s_jrnl_handles) (\<lambda>t.
     if unat (fs_pdrv (fat_fs x)) < length t then ret (t ! unat (fs_pdrv (fat_fs x)))
     else undefined_behaviour))"

text \<open>
  The macro \<open>ESP_JRNL_CHECK_ERRNO\<close>: on an error of the journal, \<open>errno\<close> and an early return with
  \<open>retval\<close>.
\<close>

definition ESP_JRNL_CHECK_ERRNO ::
  "('d vfs_world, esp_err_t) prog \<Rightarrow> errno_t \<Rightarrow> 'a \<Rightarrow> ('d vfs_world, 'a) prog \<Rightarrow> ('d vfs_world, 'a) prog" where
  "ESP_JRNL_CHECK_ERRNO oper erno retval rest =
     bind oper (\<lambda>err. if err \<noteq> ESP_OK then bind (set_errno erno) (\<lambda>_. ret retval) else rest)"

text \<open>
  The text of every wrapper: a transaction around an operation, committed if \<open>commit\<close> says so of
  the result. \<open>bad\<close> is what is returned when the journal refuses; the bytes a read has left
  in the caller's buffer stay there.
\<close>

definition in_jrnl ::
  "esp_env \<Rightarrow> nat \<Rightarrow> 'a \<Rightarrow> ('a \<Rightarrow> 'a) \<Rightarrow> ('a \<Rightarrow> bool) \<Rightarrow> ('d vfs_world, 'a) prog \<Rightarrow> ('d vfs_world, 'a) prog" where
  "in_jrnl E c bad0 bad commit oper =
     bind (jrnl_handle_of c) (\<lambda>jrnl_handle.
     ESP_JRNL_CHECK_ERRNO (esp_jrnl_start E jrnl_handle) EBADF bad0
       (bind oper (\<lambda>res.
        ESP_JRNL_CHECK_ERRNO (esp_jrnl_stop E jrnl_handle (commit res)) EBADF (bad res) (ret res))))"

definition vfs_fat_open_jrnl ::
  "esp_env \<Rightarrow> vfs_config \<Rightarrow> 'd vfs_world fatfs_api \<Rightarrow> nat \<Rightarrow> string \<Rightarrow> u32 \<Rightarrow> ('d vfs_world, int) prog" where
  "vfs_fat_open_jrnl E C FF c path flags = in_jrnl E c (-1) (\<lambda>_. -1) (\<lambda>fd. 0 \<le> fd) (vfs_fat_open C FF c path flags)"

definition vfs_fat_write_jrnl ::
  "esp_env \<Rightarrow> vfs_config \<Rightarrow> 'd vfs_world fatfs_api \<Rightarrow> nat \<Rightarrow> int \<Rightarrow> cbuf \<Rightarrow> u32 \<Rightarrow> ('d vfs_world, int) prog" where
  "vfs_fat_write_jrnl E C FF c fd data sz =
     in_jrnl E c (-1) (\<lambda>_. -1) (\<lambda>written. 0 \<le> written) (vfs_fat_write C FF c fd data sz)"

definition vfs_fat_read_jrnl ::
  "esp_env \<Rightarrow> 'd vfs_world fatfs_api \<Rightarrow> nat \<Rightarrow> int \<Rightarrow> u32 \<Rightarrow> ('d vfs_world, int \<times> byte list) prog" where
  "vfs_fat_read_jrnl E FF c fd sz =
     in_jrnl E c (-1, []) (\<lambda>(_, dst). (-1, dst)) (\<lambda>(rd, _). 0 \<le> rd) (vfs_fat_read FF c fd sz)"

definition vfs_fat_pread_jrnl ::
  "esp_env \<Rightarrow> 'd vfs_world fatfs_api \<Rightarrow> nat \<Rightarrow> int \<Rightarrow> u32 \<Rightarrow> u32 \<Rightarrow> ('d vfs_world, int \<times> byte list) prog" where
  "vfs_fat_pread_jrnl E FF c fd sz offset =
     in_jrnl E c (-1, []) (\<lambda>(_, dst). (-1, dst)) (\<lambda>(rd, _). 0 \<le> rd) (vfs_fat_pread FF c fd sz offset)"

definition vfs_fat_pwrite_jrnl ::
  "esp_env \<Rightarrow> vfs_config \<Rightarrow> 'd vfs_world fatfs_api \<Rightarrow> nat \<Rightarrow> int \<Rightarrow> cbuf \<Rightarrow> u32 \<Rightarrow> u32 \<Rightarrow> ('d vfs_world, int) prog" where
  "vfs_fat_pwrite_jrnl E C FF c fd src sz offset =
     in_jrnl E c (-1) (\<lambda>_. -1) (\<lambda>written. 0 \<le> written) (vfs_fat_pwrite C FF c fd src sz offset)"

definition vfs_fat_fsync_jrnl ::
  "esp_env \<Rightarrow> 'd vfs_world fatfs_api \<Rightarrow> nat \<Rightarrow> int \<Rightarrow> ('d vfs_world, int) prog" where
  "vfs_fat_fsync_jrnl E FF c fd = in_jrnl E c (-1) (\<lambda>_. -1) (\<lambda>res. res = 0) (vfs_fat_fsync FF c fd)"

definition vfs_fat_close_jrnl ::
  "esp_env \<Rightarrow> vfs_config \<Rightarrow> 'd vfs_world fatfs_api \<Rightarrow> nat \<Rightarrow> int \<Rightarrow> ('d vfs_world, int) prog" where
  "vfs_fat_close_jrnl E C FF c fd = in_jrnl E c (-1) (\<lambda>_. -1) (\<lambda>rc. 0 \<le> rc) (vfs_fat_close C FF c fd)"

definition vfs_fat_lseek_jrnl ::
  "esp_env \<Rightarrow> 'd vfs_world fatfs_api \<Rightarrow> nat \<Rightarrow> int \<Rightarrow> u32 \<Rightarrow> whence \<Rightarrow> ('d vfs_world, int) prog" where
  "vfs_fat_lseek_jrnl E FF c fd offset mode =
     in_jrnl E c (-1) (\<lambda>_. -1) (\<lambda>new_pos. 0 \<le> new_pos) (vfs_fat_lseek FF c fd offset mode)"

definition vfs_fat_unlink_jrnl ::
  "esp_env \<Rightarrow> vfs_config \<Rightarrow> 'd vfs_world fatfs_api \<Rightarrow> nat \<Rightarrow> string \<Rightarrow> ('d vfs_world, int) prog" where
  "vfs_fat_unlink_jrnl E C FF c path = in_jrnl E c (-1) (\<lambda>_. -1) (\<lambda>res. res = 0) (vfs_fat_unlink C FF c path)"

definition vfs_fat_link_jrnl ::
  "esp_env \<Rightarrow> vfs_config \<Rightarrow> 'd vfs_world fatfs_api \<Rightarrow> nat \<Rightarrow> string \<Rightarrow> string \<Rightarrow> ('d vfs_world, int) prog" where
  "vfs_fat_link_jrnl E C FF c n1 n2 = in_jrnl E c (-1) (\<lambda>_. -1) (\<lambda>res. res = 0) (vfs_fat_link C FF c n1 n2)"

definition vfs_fat_rename_jrnl ::
  "esp_env \<Rightarrow> vfs_config \<Rightarrow> 'd vfs_world fatfs_api \<Rightarrow> nat \<Rightarrow> string \<Rightarrow> string \<Rightarrow> ('d vfs_world, int) prog" where
  "vfs_fat_rename_jrnl E C FF c src dst =
     in_jrnl E c (-1) (\<lambda>_. -1) (\<lambda>res. res = 0) (vfs_fat_rename C FF c src dst)"

definition vfs_fat_mkdir_jrnl ::
  "esp_env \<Rightarrow> vfs_config \<Rightarrow> 'd vfs_world fatfs_api \<Rightarrow> nat \<Rightarrow> string \<Rightarrow> u32 \<Rightarrow> ('d vfs_world, int) prog" where
  "vfs_fat_mkdir_jrnl E C FF c name mode =
     in_jrnl E c (-1) (\<lambda>_. -1) (\<lambda>res. res = 0) (vfs_fat_mkdir C FF c name mode)"

definition vfs_fat_rmdir_jrnl ::
  "esp_env \<Rightarrow> vfs_config \<Rightarrow> 'd vfs_world fatfs_api \<Rightarrow> nat \<Rightarrow> string \<Rightarrow> ('d vfs_world, int) prog" where
  "vfs_fat_rmdir_jrnl E C FF c name = in_jrnl E c (-1) (\<lambda>_. -1) (\<lambda>res. res = 0) (vfs_fat_rmdir C FF c name)"

definition vfs_fat_truncate_jrnl ::
  "esp_env \<Rightarrow> vfs_config \<Rightarrow> 'd vfs_world fatfs_api \<Rightarrow> nat \<Rightarrow> string \<Rightarrow> u32 \<Rightarrow> ('d vfs_world, int) prog" where
  "vfs_fat_truncate_jrnl E C FF c path len =
     in_jrnl E c (-1) (\<lambda>_. -1) (\<lambda>res. res = 0) (vfs_fat_truncate C FF c path len)"

definition vfs_fat_ftruncate_jrnl ::
  "esp_env \<Rightarrow> vfs_config \<Rightarrow> 'd vfs_world fatfs_api \<Rightarrow> nat \<Rightarrow> int \<Rightarrow> u32 \<Rightarrow> ('d vfs_world, int) prog" where
  "vfs_fat_ftruncate_jrnl E C FF c fd len =
     in_jrnl E c (-1) (\<lambda>_. -1) (\<lambda>res. res = 0) (vfs_fat_ftruncate C FF c fd len)"

definition vfs_fat_utime_jrnl ::
  "esp_env \<Rightarrow> libc_time \<Rightarrow> vfs_config \<Rightarrow> 'd vfs_world fatfs_api \<Rightarrow> nat \<Rightarrow> string \<Rightarrow> int option \<Rightarrow> ('d vfs_world, int) prog" where
  "vfs_fat_utime_jrnl E L C FF c path modtime_ptr =
     in_jrnl E c (-1) (\<lambda>_. -1) (\<lambda>res. res = 0) (vfs_fat_utime L C FF c path modtime_ptr)"

text \<open>
  The entry \<open>vfs_fat_readdir\<close> returns is a member of the stream; the wrapper frees it when the
  commit fails, and \<open>free\<close> of a pointer into an object is undefined.
\<close>

definition vfs_fat_readdir_jrnl ::
  "esp_env \<Rightarrow> vfs_config \<Rightarrow> 'd vfs_world fatfs_api \<Rightarrow> nat \<Rightarrow> nat option \<Rightarrow> ('d vfs_world, dirent option) prog" where
  "vfs_fat_readdir_jrnl E C FF c pdir =
     bind (jrnl_handle_of c) (\<lambda>jrnl_handle.
     bind (esp_jrnl_start E jrnl_handle) (\<lambda>err.
     if err \<noteq> ESP_OK then bind (set_errno EBADF) (\<lambda>_. ret None)
     else
       bind (vfs_fat_readdir C FF c pdir) (\<lambda>out_dirent.
       bind (esp_jrnl_stop E jrnl_handle (out_dirent \<noteq> None)) (\<lambda>err.
       if err \<noteq> ESP_OK then
         if out_dirent \<noteq> None then undefined_behaviour
         else bind (set_errno EBADF) (\<lambda>_. ret None)
       else ret out_dirent))))"

definition vfs_fat_seekdir_jrnl ::
  "esp_env \<Rightarrow> 'd vfs_world fatfs_api \<Rightarrow> nat \<Rightarrow> nat option \<Rightarrow> u32 \<Rightarrow> ('d vfs_world, unit) prog" where
  "vfs_fat_seekdir_jrnl E FF c pdir offset =
     bind (jrnl_handle_of c) (\<lambda>jrnl_handle.
     bind (esp_jrnl_start E jrnl_handle) (\<lambda>err.
     if err \<noteq> ESP_OK then set_errno EBADF
     else
       bind (vfs_fat_seekdir FF c pdir offset) (\<lambda>_.
       bind (esp_jrnl_stop E jrnl_handle True) (\<lambda>err.
       if err \<noteq> ESP_OK then set_errno EBADF else ret ()))))"

section \<open>The table of functions\<close>

text \<open>
  The members of \<open>esp_vfs_t\<close> the component sets. A member is called with the context.
\<close>

record 'd esp_vfs_t =
  vfs_context_ptr :: bool
  write_p :: "nat \<Rightarrow> int \<Rightarrow> cbuf \<Rightarrow> u32 \<Rightarrow> ('d vfs_world, int) prog"
  lseek_p :: "nat \<Rightarrow> int \<Rightarrow> u32 \<Rightarrow> whence \<Rightarrow> ('d vfs_world, int) prog"
  read_p :: "nat \<Rightarrow> int \<Rightarrow> u32 \<Rightarrow> ('d vfs_world, int \<times> byte list) prog"
  pread_p :: "nat \<Rightarrow> int \<Rightarrow> u32 \<Rightarrow> u32 \<Rightarrow> ('d vfs_world, int \<times> byte list) prog"
  pwrite_p :: "nat \<Rightarrow> int \<Rightarrow> cbuf \<Rightarrow> u32 \<Rightarrow> u32 \<Rightarrow> ('d vfs_world, int) prog"
  open_p :: "nat \<Rightarrow> string \<Rightarrow> u32 \<Rightarrow> ('d vfs_world, int) prog"
  close_p :: "nat \<Rightarrow> int \<Rightarrow> ('d vfs_world, int) prog"
  fstat_p :: "nat \<Rightarrow> int \<Rightarrow> ('d vfs_world, int \<times> stat) prog"
  fsync_p :: "nat \<Rightarrow> int \<Rightarrow> ('d vfs_world, int) prog"
  stat_p :: "nat \<Rightarrow> string \<Rightarrow> ('d vfs_world, int \<times> stat option) prog"
  link_p :: "nat \<Rightarrow> string \<Rightarrow> string \<Rightarrow> ('d vfs_world, int) prog"
  unlink_p :: "nat \<Rightarrow> string \<Rightarrow> ('d vfs_world, int) prog"
  rename_p :: "nat \<Rightarrow> string \<Rightarrow> string \<Rightarrow> ('d vfs_world, int) prog"
  opendir_p :: "nat \<Rightarrow> string \<Rightarrow> ('d vfs_world, nat option) prog"
  closedir_p :: "nat \<Rightarrow> nat option \<Rightarrow> ('d vfs_world, int) prog"
  readdir_p :: "nat \<Rightarrow> nat option \<Rightarrow> ('d vfs_world, dirent option) prog"
  readdir_r_p :: "nat \<Rightarrow> nat option \<Rightarrow> dirent \<Rightarrow> ('d vfs_world, errno_t \<times> dirent \<times> bool) prog"
  seekdir_p :: "nat \<Rightarrow> nat option \<Rightarrow> u32 \<Rightarrow> ('d vfs_world, unit) prog"
  telldir_p :: "nat \<Rightarrow> nat option \<Rightarrow> ('d vfs_world, int) prog"
  mkdir_p :: "nat \<Rightarrow> string \<Rightarrow> u32 \<Rightarrow> ('d vfs_world, int) prog"
  rmdir_p :: "nat \<Rightarrow> string \<Rightarrow> ('d vfs_world, int) prog"
  access_p :: "nat \<Rightarrow> string \<Rightarrow> u32 \<Rightarrow> ('d vfs_world, int) prog"
  truncate_p :: "nat \<Rightarrow> string \<Rightarrow> u32 \<Rightarrow> ('d vfs_world, int) prog"
  ftruncate_p :: "nat \<Rightarrow> int \<Rightarrow> u32 \<Rightarrow> ('d vfs_world, int) prog"
  utime_p :: "nat \<Rightarrow> string \<Rightarrow> int option \<Rightarrow> ('d vfs_world, int) prog"

text \<open>The argument says whether the pointer is there; the filled structure is returned.\<close>

definition vfs_fat_get_default_api ::
  "esp_env \<Rightarrow> libc_time \<Rightarrow> vfs_config \<Rightarrow> 'd vfs_world fatfs_api \<Rightarrow> bool \<Rightarrow> esp_err_t \<times> 'd esp_vfs_t option" where
  "vfs_fat_get_default_api E L C FF vfs =
     (if \<not> vfs then (ESP_ERR_INVALID_ARG, None)
      else (ESP_OK, Some
        \<lparr> vfs_context_ptr = True,
          write_p = vfs_fat_write_jrnl E C FF,
          lseek_p = vfs_fat_lseek_jrnl E FF,
          read_p = vfs_fat_read_jrnl E FF,
          pread_p = vfs_fat_pread_jrnl E FF,
          pwrite_p = vfs_fat_pwrite_jrnl E C FF,
          open_p = vfs_fat_open_jrnl E C FF,
          close_p = vfs_fat_close_jrnl E C FF,
          fstat_p = vfs_fat_fstat C,
          fsync_p = vfs_fat_fsync_jrnl E FF,
          stat_p = vfs_fat_stat L C FF,
          link_p = vfs_fat_link_jrnl E C FF,
          unlink_p = vfs_fat_unlink_jrnl E C FF,
          rename_p = vfs_fat_rename_jrnl E C FF,
          opendir_p = vfs_fat_opendir C FF,
          closedir_p = (\<lambda>_. vfs_fat_closedir FF),
          readdir_p = vfs_fat_readdir_jrnl E C FF,
          readdir_r_p = (\<lambda>_. vfs_fat_readdir_r C FF),
          seekdir_p = vfs_fat_seekdir_jrnl E FF,
          telldir_p = (\<lambda>_. vfs_fat_telldir),
          mkdir_p = vfs_fat_mkdir_jrnl E C FF,
          rmdir_p = vfs_fat_rmdir_jrnl E C FF,
          access_p = vfs_fat_access C FF,
          truncate_p = vfs_fat_truncate_jrnl E C FF,
          ftruncate_p = vfs_fat_ftruncate_jrnl E C FF,
          utime_p = vfs_fat_utime_jrnl E L C FF \<rparr>))"

section \<open>Registration\<close>

text \<open>The registry of the VFS is a parameter: what it does when a path is registered or removed.\<close>

record 'd vfs_registry =
  esp_vfs_register :: "string \<Rightarrow> 'd esp_vfs_t \<Rightarrow> nat \<Rightarrow> ('d vfs_world, esp_err_t) prog"
  esp_vfs_unregister :: "string \<Rightarrow> ('d vfs_world, esp_err_t) prog"

record esp_vfs_fat_conf_t =
  conf_base_path :: string
  conf_fat_drive :: string
  conf_max_files :: u32

definition find_context_index_by_path :: "vfs_config \<Rightarrow> vfs_fat_ctx_t option list \<Rightarrow> string \<Rightarrow> nat" where
  "find_context_index_by_path C t path =
     (case first_index (\<lambda>p. case p of None \<Rightarrow> False | Some x \<Rightarrow> base_path x = path) t of
        Some i \<Rightarrow> i | None \<Rightarrow> FF_VOLUMES C)"

definition find_unused_context_index :: "vfs_config \<Rightarrow> vfs_fat_ctx_t option list \<Rightarrow> nat" where
  "find_unused_context_index C t =
     (case first_index (\<lambda>p. p = None) t of Some i \<Rightarrow> i | None \<Rightarrow> FF_VOLUMES C)"

definition new_ctx :: "vfs_config \<Rightarrow> esp_vfs_fat_conf_t \<Rightarrow> u32 \<Rightarrow> vfs_fat_ctx_t" where
  "new_ctx C conf n =
     \<lparr> fat_drive = strlcpy (conf_fat_drive conf) (8 - 1),
       base_path = strlcpy (conf_base_path conf) (ESP_VFS_PATH_MAX C - 1),
       max_files = n, fat_lock = False, fat_fs = zero_fatfs, tmp_path_buf = [], tmp_path_buf2 = [],
       o_append = replicate (unat n) False, dir_path = [], cached_fileinfo = zero_cached,
       files = replicate (unat n) zero_fil \<rparr>"

text \<open>
  The result carries the context whose work area \<open>*out_fs\<close> points to; on an error \<open>*out_fs\<close> is
  not assigned.
\<close>

definition vfs_fat_register_cfg_jrnl ::
  "esp_env \<Rightarrow> libc_time \<Rightarrow> vfs_config \<Rightarrow> 'd vfs_world fatfs_api \<Rightarrow> 'd vfs_registry \<Rightarrow> esp_vfs_fat_conf_t \<Rightarrow>
   ('d vfs_world, esp_err_t \<times> nat option) prog" where
  "vfs_fat_register_cfg_jrnl E L C FF V conf =
     bind (gets s_fat_ctxs) (\<lambda>t.
     if find_context_index_by_path C t (conf_base_path conf) < FF_VOLUMES C then ret (ESP_ERR_INVALID_STATE, None)
     else
       let ctx = find_unused_context_index C t in
       if ctx = FF_VOLUMES C then ret (ESP_ERR_NO_MEM, None)
       else
         let n = (if conf_max_files conf < 1 then 1 else conf_max_files conf) in
         bind (ff_memalloc (sizeof_ctx C + n * sizeof_FIL C)) (\<lambda>fat_ctx.
         if \<not> fat_ctx then ret (ESP_ERR_NO_MEM, None)
         else
         bind (ff_memalloc n) (\<lambda>appends.
         if \<not> appends then ret (ESP_ERR_NO_MEM, None)
         else
           bind (case vfs_fat_get_default_api E L C FF True of
                   (ESP_OK, Some vfs) \<Rightarrow> esp_vfs_register V (conf_base_path conf) vfs ctx
                 | (err, _) \<Rightarrow> ret err) (\<lambda>err.
           if err \<noteq> ESP_OK then ret (err, None)
           else
             bind (modify (\<lambda>s. s\<lparr>s_fat_ctxs := (s_fat_ctxs s)[ctx := Some (new_ctx C conf n)],
                                s_fat_ctx := Some ctx\<rparr>)) (\<lambda>_.
             ret (ESP_OK, Some ctx))))))"

definition vfs_fat_unregister_path_jrnl ::
  "vfs_config \<Rightarrow> 'd vfs_registry \<Rightarrow> string \<Rightarrow> ('d vfs_world, esp_err_t) prog" where
  "vfs_fat_unregister_path_jrnl C V path =
     bind (gets s_fat_ctxs) (\<lambda>t.
     let ctx = find_context_index_by_path C t path in
     if ctx = FF_VOLUMES C then ret ESP_ERR_INVALID_STATE
     else
       bind (ctx_of ctx) (\<lambda>fat_ctx.
       bind (esp_vfs_unregister V (base_path fat_ctx)) (\<lambda>err.
       if err \<noteq> ESP_OK then ret err
       else
         bind (modify (\<lambda>s. s\<lparr>s_fat_ctxs := (s_fat_ctxs s)[ctx := None]\<rparr>)) (\<lambda>_.
         ret ESP_OK))))"

definition vfs_fat_register_pdrv_jrnl_handle ::
  "byte \<Rightarrow> esp_jrnl_handle_t \<Rightarrow> ('d vfs_world, esp_err_t) prog" where
  "vfs_fat_register_pdrv_jrnl_handle pdrv jrnl_handle =
     (if JRNL_MAX_HANDLES \<le> unat pdrv then ret ESP_ERR_INVALID_ARG
      else
        bind (gets s_jrnl_handles) (\<lambda>t.
        if t ! unat pdrv \<noteq> JRNL_INVALID_HANDLE then ret ESP_ERR_INVALID_STATE
        else
          bind (modify (\<lambda>s. s\<lparr>s_jrnl_handles := (s_jrnl_handles s)[unat pdrv := jrnl_handle]\<rparr>)) (\<lambda>_.
          ret ESP_OK)))"

definition vfs_fat_unregister_pdrv_jrnl_handle :: "esp_jrnl_handle_t \<Rightarrow> ('d vfs_world, esp_err_t) prog" where
  "vfs_fat_unregister_pdrv_jrnl_handle jrnl_handle =
     (if jrnl_handle = JRNL_INVALID_HANDLE then ret ESP_ERR_INVALID_ARG
      else
        bind (gets (\<lambda>s. first_index (\<lambda>h. jrnl_handle = h) (s_jrnl_handles s))) (\<lambda>found.
        case found of
          None \<Rightarrow> ret ESP_ERR_NOT_FOUND
        | Some i \<Rightarrow>
            bind (modify (\<lambda>s. s\<lparr>s_jrnl_handles := (s_jrnl_handles s)[i := JRNL_INVALID_HANDLE]\<rparr>)) (\<lambda>_.
            ret ESP_OK)))"

end
