(* ===== verification/Vfs_Sample.thy ===== *)
theory Vfs_Sample
  imports Vfs_Jrnl
begin

text \<open>
  A small file system in the place of FatFS, on the sample volume: making a directory and writing
  to a file each write one sector of the volume through the disk callback, opening marks the file
  object, and everything else succeeds at once. It meets the contract \<open>fatfs_frame\<close>, and it
  is what the hypotheses about FatFS are instantiated with.
\<close>

definition sample_disk_write :: "byte \<Rightarrow> u32 \<Rightarrow> (flash vfs_world, FRESULT) prog" where
  "sample_disk_write b sec =
     bind (ff_jrnl_write sample_env 0 (Some (\<lambda>_. b)) sec 1) (\<lambda>res.
     ret (if res = RES_OK then FR_OK else FR_DISK_ERR))"

definition sample_fatfs :: "flash vfs_world fatfs_api" where
  "sample_fatfs =
     \<lparr> FA_READ = 1, FA_WRITE = 2, FA_OPEN_EXISTING = 0, FA_CREATE_NEW = 4, FA_CREATE_ALWAYS = 8,
       FA_OPEN_ALWAYS = 0x10, AM_RDO = 1, AM_DIR = 0x10,
       f_open = (\<lambda>path mode f. ret (FR_OK, f\<lparr>obj_fs := True\<rparr>)),
       f_close = (\<lambda>f. ret (FR_OK, f\<lparr>obj_fs := False\<rparr>)),
       f_sync = (\<lambda>f. ret (FR_OK, f)),
       f_truncate = (\<lambda>f. ret (FR_OK, f\<lparr>objsize := fptr f\<rparr>)),
       f_read = (\<lambda>n f. ret ((FR_OK, 0, []), f)),
       f_write = (\<lambda>src n f. bind (sample_disk_write (src 0) 2) (\<lambda>res.
          ret ((res, if res = FR_OK then n else 0), f\<lparr>fptr := fptr f + n, objsize := max (objsize f) (fptr f + n)\<rparr>))),
       f_lseek = (\<lambda>n f. ret (FR_OK, f\<lparr>fptr := n\<rparr>)),
       f_stat = (\<lambda>path. ret (FR_NO_FILE, zero_filinfo)),
       f_unlink = (\<lambda>path. ret FR_NO_FILE),
       f_rename = (\<lambda>src dst. ret FR_NO_FILE),
       f_mkdir = (\<lambda>path. sample_disk_write 7 1),
       f_utime = (\<lambda>path info. ret FR_OK),
       f_opendir = (\<lambda>path d. ret (FR_OK, d)),
       f_closedir = (\<lambda>d. ret (FR_OK, d)),
       f_rewinddir = (\<lambda>d. ret (FR_OK, d)),
       f_readdir = (\<lambda>d info. ret ((FR_OK, zero_filinfo), d)) \<rparr>"

abbreviation sample_inside :: "esp_jrnl_handle_t \<Rightarrow> byte list \<Rightarrow> flash vfs_world \<Rightarrow> bool" where
  "sample_inside h \<equiv> in_transaction sample_env sample_io cells 32 sample_master h 0"

lemma more_eq_view:
  fixes s s' :: "'d vfs_world"
  shows "jrnl_world.more s' = jrnl_world.more s \<Longrightarrow> vfs_view s' = vfs_view s"
  by (cases s, cases s') (simp add: vfs_view_def)

lemma keeps_view:
  fixes p :: "('d vfs_world, 'a) prog"
  assumes "keeps P p" and "keeps_more p"
  shows "keeps (\<lambda>s. P s \<and> vfs_view s = v) p"
proof (rule keepsI)
  fix s assume s: "P s \<and> vfs_view s = v"
  then obtain x s' where "p s = (Ret x, s')" "P s'" using keepsE [OF assms(1)] by blast
  then show "\<exists>x s'. p s = (Ret x, s') \<and> P s' \<and> vfs_view s' = v"
    using s more_eq_view [OF keeps_moreD [OF assms(2)]] by metis
qed

lemma sample_disk_write_keeps:
  assumes "unat sec < 4"
  shows "keeps (\<lambda>s. sample_inside h fs s \<and> vfs_view s = v) (sample_disk_write b sec)"
proof -
  have "op_ok 32 sample_master (sec, buf_bytes (\<lambda>_. b) (unat (1 :: u32) * 32))"
    using assms by (simp add: op_ok_def op_sectors_def sample_master_def)
  note k = block_device.ff_write_keeps [OF sample_device sample_geom this]
  have "keeps_more (ff_jrnl_write sample_env 0 (Some (\<lambda>_. b)) sec 1 :: (flash vfs_world, DRESULT) prog)"
    unfolding ff_jrnl_write_def drive_handle_def by (intro frame_intros)
  then show ?thesis
    unfolding sample_disk_write_def using keeps_view [OF k] by (intro keeps_bind keeps_ret)
qed

interpretation sample_fat: fatfs_frame sample_fatfs "sample_inside h fs"
  by unfold_locales
    (simp_all add: sample_fatfs_def keeps_ret keeps_bind sample_disk_write_keeps,
     simp_all add: in_transaction_def journal_open_def attached_def mounted_def on_drive_def)

text \<open>One mounted context, with two files, on drive 0 with journal handle 0.\<close>

definition sample_cfg :: vfs_config where
  "sample_cfg =
     \<lparr> FF_VOLUMES = 2, FILENAME_MAX = 20, ESP_VFS_PATH_MAX = 15, sizeof_ctx = 200, sizeof_FIL = 50,
       sizeof_dir = 80, sizeof_cached_path = 40, sizeof_d_name = 20, FATFS_USE_FASTSEEK = False,
       FATFS_FAST_SEEK_BUFFER_SIZE = 64, FATFS_IMMEDIATE_FSYNC = False, FATFS_LINK_LOCK = True,
       FATFS_VFS_FSTAT_BLKSIZE = 4096 \<rparr>"

definition sample_libc :: libc_time where
  "sample_libc =
     \<lparr> mktime = (\<lambda>t. tm_sec t),
       localtime_r = (\<lambda>t. \<lparr> tm_sec = 43, tm_min = 5, tm_hour = 7, tm_mday = 9, tm_mon = 3,
         tm_year = (if t < 0 then 69 else 120),
         tm_isdst = 0 \<rparr>), gettimeofday_sec = 0 \<rparr>"

definition sample_ctx :: vfs_fat_ctx_t where
  "sample_ctx =
     (new_ctx sample_cfg \<lparr> conf_base_path = ''/flash'', conf_fat_drive = ''0:'', conf_max_files = 2 \<rparr> 2)
       \<lparr>fat_fs := zero_fatfs\<lparr>fs_csize := 1\<rparr>\<rparr>"

definition sample_vfs :: "flash esp_jrnl_instance_t \<Rightarrow> flash vfs_world" where
  "sample_vfs inst =
     ff_world.extend ((sample_ff inst)\<lparr>ff_jrnl_handles := [0]\<rparr>)
       \<lparr> errno = ENONE, s_fat_ctxs = [Some sample_ctx, None], s_fat_ctx = Some 0, s_jrnl_handles = [0],
         dirs = [], ff_static = (\<lambda>_. 0) \<rparr>"

lemma sample_vfs_simps [simp]:
  "dev (sample_vfs inst) = sample_flash" "heap (sample_vfs inst) = []"
  "s_jrnl_instance_ptrs (sample_vfs inst) = Some inst # replicate 7 None"
  "ff_jrnl_handles (sample_vfs inst) = [0]" "errno (sample_vfs inst) = ENONE"
  "s_fat_ctxs (sample_vfs inst) = [Some sample_ctx, None]" "s_jrnl_handles (sample_vfs inst) = [0]"
  "dirs (sample_vfs inst) = []"
  by (simp_all add: sample_vfs_def ff_world.defs sample_ff_def jrnl_world.defs sample_world_def boot_def)

lemma sample_ctx_shape: "ctx_shape False 2 0 sample_ctx"
  by (simp add: ctx_shape_def sample_ctx_def new_ctx_def zero_fatfs_def)

lemma sample_ctx_at: "ctx_at 0 2 0 [0] {} False (sample_vfs inst)"
  using sample_ctx_shape by (simp add: ctx_at_def)

lemma sample_vfs_ready:
  "journal_ready sample_env sample_io cells 32 sample_master 0 sample_fs
     (sample_vfs (sample_in ESP_JRNL_STATUS_TRANS_READY))"
  using sample_world_ready by (simp add: journal_ready_def attached_def mounted_def)

lemma sample_vfs_drive: "on_drive 0 0 (sample_vfs inst)"
  by (simp add: on_drive_def JRNL_MAX_HANDLES_def)

section \<open>A machine that was just started\<close>

text \<open>The machine after a start, with nothing mounted.\<close>

definition sample_off :: "'d \<Rightarrow> 'd vfs_world" where
  "sample_off d =
     ff_world.extend (jrnl_world.extend (boot d []) \<lparr> ff_jrnl_handles = init_ff_jrnl_handles \<rparr>)
       \<lparr> errno = ENONE, s_fat_ctxs = [None, None], s_fat_ctx = None, s_jrnl_handles = init_jrnl_handles,
         dirs = [], ff_static = (\<lambda>_. 0) \<rparr>"

lemma sample_off_simps [simp]:
  "dev (sample_off d) = d" "heap (sample_off d) = []" "s_jrnl_instance_ptrs (sample_off d) = replicate 8 None"
  "\<not> s_instances_lock (sample_off d)" "ff_jrnl_handles (sample_off d) = replicate 8 (-1)"
  "s_fat_ctxs (sample_off d) = [None, None]" "s_jrnl_handles (sample_off d) = replicate 8 (-1)"
  by (simp_all add: sample_off_def ff_world.defs jrnl_world.defs boot_def init_ff_jrnl_handles_def init_jrnl_handles_def
      init_instance_ptrs_def JRNL_MAX_HANDLES_def JRNL_INVALID_HANDLE_def)

end
