(* ===== verification/Vfs_Correct.thy ===== *)
theory Vfs_Correct
  imports Vfs_Sample
begin

text \<open>
  Properties of the VFS layer as a whole: every journaled operation is atomic with respect to
  the file system on the disk, from the interface of the journal and the contract of FatFS, and the
  lock of a context is given back.
\<close>

section \<open>Calls\<close>

text \<open>
  The eighteen operations of the table that run inside a transaction, with and without the transaction, seen
  through a number: an entry or none of a directory is 0 or -1, a seek in a directory is 0. \<open>commits\<close> is the
  test the wrapper makes of the result.
\<close>

datatype vfs_call =
    Open string u32 | Write int cbuf u32 | Read int u32 | Pread int u32 u32 | Pwrite int cbuf u32 u32
  | Fsync int | Close int | Lseek int u32 whence | Unlink string | Link string string
  | Rename string string | Mkdir string u32 | Rmdir string | Truncate string u32 | Ftruncate int u32
  | Utime string "int option" | Readdir nat | Seekdir nat u32

fun plain_call ::
  "libc_time \<Rightarrow> vfs_config \<Rightarrow> 'd vfs_world fatfs_api \<Rightarrow> nat \<Rightarrow> vfs_call \<Rightarrow> ('d vfs_world, int) prog" where
  "plain_call L C FF c (Open path flags) = vfs_fat_open C FF c path flags"
| "plain_call L C FF c (Write fd data sz) = vfs_fat_write C FF c fd data sz"
| "plain_call L C FF c (Read fd sz) = bind (vfs_fat_read FF c fd sz) (\<lambda>(r, _). ret r)"
| "plain_call L C FF c (Pread fd sz off) = bind (vfs_fat_pread FF c fd sz off) (\<lambda>(r, _). ret r)"
| "plain_call L C FF c (Pwrite fd src sz off) = vfs_fat_pwrite C FF c fd src sz off"
| "plain_call L C FF c (Fsync fd) = vfs_fat_fsync FF c fd"
| "plain_call L C FF c (Close fd) = vfs_fat_close C FF c fd"
| "plain_call L C FF c (Lseek fd off mode) = vfs_fat_lseek FF c fd off mode"
| "plain_call L C FF c (Unlink path) = vfs_fat_unlink C FF c path"
| "plain_call L C FF c (Link n1 n2) = vfs_fat_link C FF c n1 n2"
| "plain_call L C FF c (Rename src dst) = vfs_fat_rename C FF c src dst"
| "plain_call L C FF c (Mkdir name mode) = vfs_fat_mkdir C FF c name mode"
| "plain_call L C FF c (Rmdir name) = vfs_fat_rmdir C FF c name"
| "plain_call L C FF c (Truncate path len) = vfs_fat_truncate C FF c path len"
| "plain_call L C FF c (Ftruncate fd len) = vfs_fat_ftruncate C FF c fd len"
| "plain_call L C FF c (Utime path t) = vfs_fat_utime L C FF c path t"
| "plain_call L C FF c (Readdir a) = bind (vfs_fat_readdir C FF c (Some a)) (\<lambda>entry. ret (if entry = None then -1 else 0))"
| "plain_call L C FF c (Seekdir a off) = bind (vfs_fat_seekdir FF c (Some a) off) (\<lambda>_. ret 0)"

fun jrnl_call ::
  "esp_env \<Rightarrow> libc_time \<Rightarrow> vfs_config \<Rightarrow> 'd vfs_world fatfs_api \<Rightarrow> nat \<Rightarrow> vfs_call \<Rightarrow> ('d vfs_world, int) prog" where
  "jrnl_call E L C FF c (Open path flags) = vfs_fat_open_jrnl E C FF c path flags"
| "jrnl_call E L C FF c (Write fd data sz) = vfs_fat_write_jrnl E C FF c fd data sz"
| "jrnl_call E L C FF c (Read fd sz) = bind (vfs_fat_read_jrnl E FF c fd sz) (\<lambda>(r, _). ret r)"
| "jrnl_call E L C FF c (Pread fd sz off) = bind (vfs_fat_pread_jrnl E FF c fd sz off) (\<lambda>(r, _). ret r)"
| "jrnl_call E L C FF c (Pwrite fd src sz off) = vfs_fat_pwrite_jrnl E C FF c fd src sz off"
| "jrnl_call E L C FF c (Fsync fd) = vfs_fat_fsync_jrnl E FF c fd"
| "jrnl_call E L C FF c (Close fd) = vfs_fat_close_jrnl E C FF c fd"
| "jrnl_call E L C FF c (Lseek fd off mode) = vfs_fat_lseek_jrnl E FF c fd off mode"
| "jrnl_call E L C FF c (Unlink path) = vfs_fat_unlink_jrnl E C FF c path"
| "jrnl_call E L C FF c (Link n1 n2) = vfs_fat_link_jrnl E C FF c n1 n2"
| "jrnl_call E L C FF c (Rename src dst) = vfs_fat_rename_jrnl E C FF c src dst"
| "jrnl_call E L C FF c (Mkdir name mode) = vfs_fat_mkdir_jrnl E C FF c name mode"
| "jrnl_call E L C FF c (Rmdir name) = vfs_fat_rmdir_jrnl E C FF c name"
| "jrnl_call E L C FF c (Truncate path len) = vfs_fat_truncate_jrnl E C FF c path len"
| "jrnl_call E L C FF c (Ftruncate fd len) = vfs_fat_ftruncate_jrnl E C FF c fd len"
| "jrnl_call E L C FF c (Utime path t) = vfs_fat_utime_jrnl E L C FF c path t"
| "jrnl_call E L C FF c (Readdir a) =
     bind (vfs_fat_readdir_jrnl E C FF c (Some a)) (\<lambda>entry. ret (if entry = None then -1 else 0))"
| "jrnl_call E L C FF c (Seekdir a off) = bind (vfs_fat_seekdir_jrnl E FF c (Some a) off) (\<lambda>_. ret 0)"

fun commits :: "vfs_call \<Rightarrow> int \<Rightarrow> bool" where
  "commits (Open _ _) r = (0 \<le> r)"
| "commits (Write _ _ _) r = (0 \<le> r)"
| "commits (Read _ _) r = (0 \<le> r)"
| "commits (Pread _ _ _) r = (0 \<le> r)"
| "commits (Pwrite _ _ _ _) r = (0 \<le> r)"
| "commits (Close _) r = (0 \<le> r)"
| "commits (Lseek _ _ _) r = (0 \<le> r)"
| "commits call r = (r = 0)"

text \<open>
  What the caller takes for success: \<open>seekdir\<close> returns nothing, and its caller can only look at \<open>errno\<close>.
\<close>

fun succeeded :: "vfs_call \<Rightarrow> int \<Rightarrow> 'd vfs_world \<Rightarrow> bool" where
  "succeeded (Seekdir _ _) r s = (errno s \<noteq> EBADF)"
| "succeeded call r s = commits call r"

text \<open>
  What the caller has to see to: descriptors within the table, offsets that do not overflow, streams that are open.
\<close>

fun call_ready :: "nat \<Rightarrow> nat \<Rightarrow> nat set \<Rightarrow> vfs_call \<Rightarrow> 'd vfs_world \<Rightarrow> bool" where
  "call_ready c n D (Write fd _ _) s = (0 \<le> fd \<and> nat fd < n)"
| "call_ready c n D (Read fd _) s = (0 \<le> fd \<and> nat fd < n)"
| "call_ready c n D (Pread fd _ _) s = (0 \<le> fd \<and> nat fd < n)"
| "call_ready c n D (Pwrite fd _ _ _) s = (0 \<le> fd \<and> nat fd < n)"
| "call_ready c n D (Fsync fd) s = (0 \<le> fd \<and> nat fd < n)"
| "call_ready c n D (Close fd) s = (0 \<le> fd \<and> nat fd < n)"
| "call_ready c n D (Ftruncate fd _) s = (0 \<le> fd \<and> nat fd < n)"
| "call_ready c n D (Lseek fd off mode) s = (0 \<le> fd \<and> nat fd < n \<and> seek_defined c fd off mode s)"
| "call_ready c n D (Readdir a) s = (a \<in> D)"
| "call_ready c n D (Seekdir a _) s = (a \<in> D)"
| "call_ready c n D _ s = True"

text \<open>The two operations that can return with the lock of the context taken.\<close>

fun may_keep_lock :: "vfs_call \<Rightarrow> bool" where
  "may_keep_lock (Pwrite _ _ _ _) = True"
| "may_keep_lock (Seekdir _ _) = True"
| "may_keep_lock _ = False"

lemma commits_failed [simp]: "\<not> commits call (-1)"
  by (cases call) simp_all

text \<open>The wrappers with the common text: all but the two on directories.\<close>

fun on_stream :: "vfs_call \<Rightarrow> bool" where
  "on_stream (Readdir _) = True"
| "on_stream (Seekdir _ _) = True"
| "on_stream _ = False"

lemma succeeded_commits: "\<not> on_stream call \<Longrightarrow> succeeded call r s = commits call r"
  by (cases call) simp_all

text \<open>A transaction around a read, seen through its count.\<close>

lemma in_jrnl_count:
  "bind (in_jrnl E c (-1, []) (\<lambda>(_, dst). (-1, dst)) (\<lambda>(rd, _). 0 \<le> rd) p) (\<lambda>(r, _). ret r) =
   in_jrnl E c (-1 :: int) (\<lambda>_. -1) (\<lambda>r. 0 \<le> r) (bind p (\<lambda>(r :: int, _ :: byte list). ret r))"
  unfolding in_jrnl_def ESP_JRNL_CHECK_ERRNO_def
  by (auto simp: bind_def ret_def fun_eq_iff split: prod.splits outcome.splits)

lemma jrnl_call_in_jrnl:
  assumes "\<not> on_stream call"
  shows "jrnl_call E L C FF c call = in_jrnl E c (-1) (\<lambda>_. -1) (commits call) (plain_call L C FF c call)"
  using assms
  by (cases call)
    (simp_all add: vfs_fat_open_jrnl_def vfs_fat_write_jrnl_def vfs_fat_read_jrnl_def vfs_fat_pread_jrnl_def
      vfs_fat_pwrite_jrnl_def vfs_fat_fsync_jrnl_def vfs_fat_close_jrnl_def vfs_fat_lseek_jrnl_def
      vfs_fat_unlink_jrnl_def vfs_fat_link_jrnl_def vfs_fat_rename_jrnl_def vfs_fat_mkdir_jrnl_def
      vfs_fat_rmdir_jrnl_def vfs_fat_truncate_jrnl_def vfs_fat_ftruncate_jrnl_def vfs_fat_utime_jrnl_def
      in_jrnl_count, simp_all add: in_jrnl_def)

text \<open>How the lock can be kept: a positioned write to a full volume, a directory seek that FatFS does not carry out.\<close>

fun lock_kept :: "vfs_call \<Rightarrow> int \<Rightarrow> 'd vfs_world \<Rightarrow> bool" where
  "lock_kept (Pwrite _ _ _ _) r s = (r = -1 \<and> errno s = ENOSPC)"
| "lock_kept (Seekdir _ _) r s = (\<exists>res. res \<noteq> FR_OK \<and> errno s = fresult_to_errno res)"
| "lock_kept _ r s = False"

lemma lock_kept_may: "lock_kept call r s \<Longrightarrow> may_keep_lock call"
  by (cases call) simp_all

context fatfs_frame
begin

text \<open>Every call returns, and only these two keep the lock.\<close>

lemma call_returns:
  "hoare (\<lambda>s. with_ctx I c n pdrv hs D False s \<and> call_ready c n D call s) (plain_call L C FF c call)
    (\<lambda>r s. with_ctx I c n pdrv hs D False s \<or> with_ctx I c n pdrv hs D True s \<and> lock_kept call r s)"
    (is "hoare ?P _ ?Q")
proof -
  let ?A = "with_ctx I c n pdrv hs D"
  have ok: "hoare ?P p ?Q" if "\<And>s. ?P s \<Longrightarrow> moves ?A False p False" for p
    unfolding hoare_def using that moves_run [of ?A False p False] by blast
  have seen: "moves ?A False (bind p (\<lambda>x. ret (g x))) False" if "moves ?A False p False"
    for p :: "('d vfs_world, 'b) prog" and g :: "'b \<Rightarrow> int"
    using that by (rule moves_bind) (rule moves_intros)+
  have count: "moves ?A False (bind p (\<lambda>(r, _). ret r)) False" if "moves ?A False p False"
    for p :: "('d vfs_world, int \<times> byte list) prog"
    using that by (rule moves_bind) (rule moves_intros)+
  show ?thesis
  proof (cases call)
    case (Pwrite fd src sz off)
    then show ?thesis using hoare_pwrite [of fd n c pdrv hs D C src sz off] by (auto simp: hoare_def)
  next
    case (Lseek fd off mode)
    then show ?thesis using hoare_lseek [of fd n c pdrv hs D False off mode] by (auto simp: hoare_def)
  next
    case (Readdir a)
    then show ?thesis using seen [OF moves_readdir [of a D c n pdrv hs False C]] by (intro ok) auto
  next
    case (Seekdir a off)
    then show ?thesis
      using hoare_seekdir [of a D c n pdrv hs off] by (fastforce simp: hoare_def run_bind_Ret prog_simps)
  qed (rule ok; simp add: count moves_open moves_write moves_read moves_pread moves_fsync moves_close moves_names
      moves_link moves_rename moves_truncate moves_ftruncate moves_utime)+
qed

end

section \<open>Atomicity\<close>

lemma more_eq_fields:
  fixes s s' :: "'d vfs_world"
  assumes "jrnl_world.more s' = jrnl_world.more s"
  shows "ff_jrnl_handles s' = ff_jrnl_handles s" "errno s' = errno s" "s_fat_ctxs s' = s_fat_ctxs s"
    "s_jrnl_handles s' = s_jrnl_handles s" "dirs s' = dirs s"
  using assms by (cases s, cases s', simp)+

lemma ctx_of_fields: "s_fat_ctxs s' = s_fat_ctxs s \<Longrightarrow> ctx_of c s = (r, s) \<Longrightarrow> ctx_of c s' = (r, s')"
  by (auto simp: ctx_of_def prog_simps split: if_splits option.splits)

lemma in_transaction_local:
  fixes s :: "'d vfs_world"
  shows
    "in_transaction E io content sec m h pdrv fs (s\<lparr>errno := e\<rparr>) = in_transaction E io content sec m h pdrv fs s"
    "in_transaction E io content sec m h pdrv fs (s\<lparr>s_fat_ctxs := t\<rparr>) = in_transaction E io content sec m h pdrv fs s"
    "in_transaction E io content sec m h pdrv fs (s\<lparr>dirs := ds\<rparr>) = in_transaction E io content sec m h pdrv fs s"
    "in_transaction E io content sec m h pdrv fs (s\<lparr>heap := hp\<rparr>) = in_transaction E io content sec m h pdrv fs s"
  by (simp_all add: in_transaction_def journal_open_def attached_def mounted_def on_drive_def)

lemma fatfs_frame_in_transaction:
  "fatfs_calls FF (in_transaction E io content sec m h pdrv fs) \<Longrightarrow>
   fatfs_frame FF (in_transaction E io content sec m h pdrv fs)"
  by (simp add: fatfs_frame_def fatfs_frame_axioms_def in_transaction_local)

lemma journal_errno [simp]:
  fixes s :: "'d vfs_world"
  shows "journal_ready E io content sec m h fs (s\<lparr>errno := e\<rparr>) = journal_ready E io content sec m h fs s"
  by (simp add: journal_ready_def attached_def mounted_def)

text \<open>The operation, run in a transaction started at \<open>s\<close>, leaves the log \<open>ps\<close>: the sectors FatFS wrote in it.\<close>

definition logs ::
  "esp_env \<Rightarrow> 'd esp_jrnl_diskio_t \<Rightarrow> ('d \<Rightarrow> image) \<Rightarrow> nat \<Rightarrow> esp_jrnl_master_t \<Rightarrow> esp_jrnl_handle_t \<Rightarrow> ('d vfs_world, 'a) prog \<Rightarrow>
   byte list \<Rightarrow> jop list \<Rightarrow> 'd vfs_world \<Rightarrow> bool" where
  "logs E io content sec m h oper fs ps s \<longleftrightarrow>
     (\<exists>s1 r s2. esp_jrnl_start E h s = (Ret ESP_OK, s1) \<and> oper s1 = (Ret r, s2) \<and> journal_open E io content sec m h fs ps s2)"

lemma logs_result:
  "logs E io content sec m h oper fs ps s \<Longrightarrow> logs E io content sec m h (bind oper (\<lambda>x. ret (g x))) fs ps s"
  by (auto simp: logs_def run_bind_Ret run_ret)

text \<open>
  A wrapper around any operation that stays inside the transaction. \<open>K\<close> is what the operation
  leaves behind in the data of the layer.
\<close>

context volume_journal
begin

lemma in_jrnl_around:
  assumes "jrnl_handle_of c s = (Ret h, s)"
  shows "in_jrnl E c bad0 bad commit oper s =
     tx.around h commit (bind (set_errno EBADF) (\<lambda>_. ret bad0)) (\<lambda>r. bind (set_errno EBADF) (\<lambda>_. ret (bad r))) oper s"
  using assms by (simp add: in_jrnl_def ESP_JRNL_CHECK_ERRNO_def tx.around_def run_bind_Ret)

lemma around_cases:
  fixes s :: "'d vfs_world"
  assumes rd: "journal_ready E io content sector m h fs s" and dr: "on_drive pdrv h s" and K0: "K s"
    and op: "\<And>s1. in_transaction E io content sector m h pdrv fs s1 \<Longrightarrow> jrnl_world.more s1 = jrnl_world.more s \<Longrightarrow>
        \<exists>r s2. oper s1 = (Ret r, s2) \<and> in_transaction E io content sector m h pdrv fs s2 \<and> K s2"
    and K: "\<And>s s'. K s \<Longrightarrow> jrnl_world.more s' = jrnl_world.more s \<Longrightarrow> K s'"
  obtains (refused) s1 where "tx.around h commit refused undone oper s = refused s1" and "K s1"
      and "recovers_to E sector m (content (dev s1)) fs"
    | (finished) r ps s3 where "tx.around h commit refused undone oper s = (Ret r, s3)" and "K s3"
      and "logs E io content sector m h oper fs ps s"
      and "journal_ready E io content sector m h (if commit r then write_fs sector ps fs else fs) s3"
    | (broken) r ps s3 where "tx.around h commit refused undone oper s = undone r s3" and "K s3"
      and "logs E io content sector m h oper fs ps s"
      and "if commit r then recovers_to E sector m (content (dev s3)) fs \<or>
             recovers_to E sector m (content (dev s3)) (write_fs sector ps fs)
           else journal_ready E io content sector m h fs s3"
proof (rule tx.around_atomic [where K = K and oper = oper and commit = commit and refused = refused and undone = undone, OF rd])
  fix s1 assume i: "open_towards E io content sector m h fs fs s1" and o: "same_above s s1"
  have "on_drive pdrv h s1" using dr more_eq_fields(1) [OF o [unfolded same_above_def]] by (simp add: on_drive_def)
  then have "in_transaction E io content sector m h pdrv fs s1"
    using i by (auto simp: in_transaction_def open_towards_def)
  from op [OF this] o show "\<exists>r fs' s2. oper s1 = (Ret r, s2) \<and> open_towards E io content sector m h fs fs' s2 \<and> K s2"
    by (fastforce simp: in_transaction_def open_towards_def same_above_def)
next
  show "K s2" if "K s1" and "same_above s1 s2" for s1 s2 using that K by (simp add: same_above_def)
next
  fix s1 assume "tx.around h commit refused undone oper s = refused s1" and o: "same_above s s1"
    and "recovers_to E sector m (content (dev s1)) fs"
  moreover have "K s1" using K0 o K by (simp add: same_above_def)
  ultimately show thesis using refused by blast
next
  fix s1 r fs' s2 err s3
  assume st: "esp_jrnl_start E h s = (Ret ESP_OK, s1)" and o: "oper s1 = (Ret r, s2)"
    and i: "open_towards E io content sector m h fs fs' s2" and K3: "K s3"
    and r: "tx.around h commit refused undone oper s = (if err \<noteq> ESP_OK then undone r s3 else (Ret r, s3))"
    and c: "if commit r then (recovers_to E sector m (content (dev s3)) fs \<or> recovers_to E sector m (content (dev s3)) fs') \<and>
        (err = ESP_OK \<longrightarrow> journal_ready E io content sector m h fs' s3) else journal_ready E io content sector m h fs s3"
  obtain ps where ps: "fs' = write_fs sector ps fs" and "journal_open E io content sector m h fs ps s2"
    using i by (auto simp: open_towards_def)
  then have "logs E io content sector m h oper fs ps s" using st o by (auto simp: logs_def)
  then show thesis
    using finished [of r s3 ps] broken [of r s3 ps] r K3 c ps by (cases "err = ESP_OK"; cases "commit r") auto
qed

text \<open>
  What a call leaves: \<open>ok\<close> says that it is taken for a success, \<open>ps\<close> is the log of the operation, or nothing.
\<close>

definition atomic_end ::
  "('d vfs_world, 'a) prog \<Rightarrow> 'd vfs_world \<Rightarrow> esp_jrnl_handle_t \<Rightarrow> byte list \<Rightarrow> jop list \<Rightarrow> bool \<Rightarrow> 'd vfs_world \<Rightarrow> bool" where
  "atomic_end oper s h fs ps ok s' \<longleftrightarrow> (logs E io content sector m h oper fs ps s \<or> ps = [] \<and> \<not> ok) \<and>
    (ok \<and> journal_ready E io content sector m h (write_fs sector ps fs) s' \<or>
     \<not> ok \<and> (journal_ready E io content sector m h fs s' \<or>
       errno s' = EBADF \<and> (recovers_to E sector m (content (dev s')) fs \<or>
         recovers_to E sector m (content (dev s')) (write_fs sector ps fs))))"

lemma atomic_end_result:
  "atomic_end oper s h fs ps ok s' \<Longrightarrow> atomic_end (bind oper (\<lambda>x. ret (g x))) s h fs ps ok s'"
  by (auto simp: atomic_end_def intro: logs_result)

lemma in_jrnl_atomic:
  fixes s :: "'d vfs_world"
  assumes rd: "journal_ready E io content sector m h fs s"
    and dr: "on_drive pdrv h s" and hd: "jrnl_handle_of c s = (Ret h, s)" and K0: "K s"
    and op: "\<And>s1. in_transaction E io content sector m h pdrv fs s1 \<Longrightarrow> jrnl_world.more s1 = jrnl_world.more s \<Longrightarrow>
        \<exists>r s2. oper s1 = (Ret r, s2) \<and> in_transaction E io content sector m h pdrv fs s2 \<and> K s2"
    and K: "\<And>s s'. K s \<Longrightarrow> jrnl_world.more s' = jrnl_world.more s \<Longrightarrow> K s'"
      "\<And>s. K s \<Longrightarrow> K (s\<lparr>errno := EBADF\<rparr>)"
    and bad: "\<not> commit bad0" "\<And>x. \<not> commit (bad x)"
  shows "\<exists>r s' ps. in_jrnl E c bad0 bad commit oper s = (Ret r, s') \<and> K s' \<and> atomic_end oper s h fs ps (commit r) s'"
  unfolding in_jrnl_around [OF hd]
  by (rule around_cases [where K = K and oper = oper and commit = commit and refused = "bind (set_errno EBADF) (\<lambda>_. ret bad0)"
        and undone = "\<lambda>r. bind (set_errno EBADF) (\<lambda>_. ret (bad r))", OF rd dr K0 op K(1)])
    (use K(2) bad in \<open>auto simp: set_errno_def prog_simps atomic_end_def split: if_splits\<close>)

text \<open>The two wrappers on directory streams.\<close>

lemma readdir_atomic:
  fixes s :: "'d vfs_world"
  assumes rd: "journal_ready E io content sector m h fs s"
    and dr: "on_drive pdrv h s" and hd: "jrnl_handle_of c s = (Ret h, s)" and K0: "K s"
    and op: "\<And>s1. in_transaction E io content sector m h pdrv fs s1 \<Longrightarrow> jrnl_world.more s1 = jrnl_world.more s \<Longrightarrow>
        \<exists>r s2. vfs_fat_readdir C FF c (Some a) s1 = (Ret r, s2) \<and> in_transaction E io content sector m h pdrv fs s2 \<and> K s2"
    and K: "\<And>s s'. K s \<Longrightarrow> jrnl_world.more s' = jrnl_world.more s \<Longrightarrow> K s'"
      "\<And>s. K s \<Longrightarrow> K (s\<lparr>errno := EBADF\<rparr>)"
  shows "(\<exists>r s' ps. vfs_fat_readdir_jrnl E C FF c (Some a) s = (Ret r, s') \<and> K s' \<and>
       atomic_end (vfs_fat_readdir C FF c (Some a)) s h fs ps (r \<noteq> None) s') \<or>
    (\<exists>s' ps. vfs_fat_readdir_jrnl E C FF c (Some a) s = (Undefined, s') \<and>
       logs E io content sector m h (vfs_fat_readdir C FF c (Some a)) fs ps s \<and>
       (recovers_to E sector m (content (dev s')) fs \<or> recovers_to E sector m (content (dev s')) (write_fs sector ps fs)))"
proof -
  let ?bad = "bind (set_errno EBADF) (\<lambda>_. ret None) :: ('d vfs_world, dirent option) prog"
  have run: "vfs_fat_readdir_jrnl E C FF c (Some a) s =
      tx.around h (\<lambda>r. r \<noteq> None) ?bad (\<lambda>r. if r \<noteq> None then undefined_behaviour else ?bad) (vfs_fat_readdir C FF c (Some a)) s"
    using hd by (simp add: vfs_fat_readdir_jrnl_def tx.around_def run_bind_Ret del: not_None_eq)
  show ?thesis
    unfolding run
    by (rule around_cases [where K = K and oper = "vfs_fat_readdir C FF c (Some a)" and commit = "\<lambda>r. r \<noteq> None" and refused = ?bad
          and undone = "\<lambda>r. if r \<noteq> None then undefined_behaviour else ?bad", OF rd dr K0 op K(1)])
      (use K(2) in \<open>auto simp: set_errno_def undefined_behaviour_def prog_simps atomic_end_def split: if_splits\<close>)
qed

lemma seekdir_atomic:
  fixes s :: "'d vfs_world"
  assumes rd: "journal_ready E io content sector m h fs s"
    and dr: "on_drive pdrv h s" and hd: "jrnl_handle_of c s = (Ret h, s)" and K0: "K s"
    and op: "\<And>s1. in_transaction E io content sector m h pdrv fs s1 \<Longrightarrow> jrnl_world.more s1 = jrnl_world.more s \<Longrightarrow>
        \<exists>r s2. vfs_fat_seekdir FF c (Some a) off s1 = (Ret r, s2) \<and> in_transaction E io content sector m h pdrv fs s2 \<and> K s2"
    and K: "\<And>s s'. K s \<Longrightarrow> jrnl_world.more s' = jrnl_world.more s \<Longrightarrow> K s'"
      "\<And>s. K s \<Longrightarrow> K (s\<lparr>errno := EBADF\<rparr>)"
  shows "\<exists>s' ps. vfs_fat_seekdir_jrnl E FF c (Some a) off s = (Ret (), s') \<and> K s' \<and>
    atomic_end (vfs_fat_seekdir FF c (Some a) off) s h fs ps (errno s' \<noteq> EBADF) s'"
proof -
  have run: "vfs_fat_seekdir_jrnl E FF c (Some a) off s =
      tx.around h (\<lambda>_. True) (set_errno EBADF) (\<lambda>_. set_errno EBADF) (vfs_fat_seekdir FF c (Some a) off) s"
    using hd by (simp add: vfs_fat_seekdir_jrnl_def tx.around_def run_bind_Ret cong: if_cong)
  show ?thesis
    unfolding run
    by (rule around_cases [where K = K and oper = "vfs_fat_seekdir FF c (Some a) off" and commit = "\<lambda>_. True"
          and refused = "set_errno EBADF" and undone = "\<lambda>_. set_errno EBADF", OF rd dr K0 op K(1)])
      (use K(2) in \<open>auto simp: set_errno_def prog_simps atomic_end_def journal_ready_def split: if_splits\<close>)
qed

end

lemma ctx_at_handle:
  assumes "ctx_at c n pdrv hs D l s" and "unat pdrv < length hs" and "hs ! unat pdrv = h"
  shows "jrnl_handle_of c s = (Ret h, s)"
  using assms by (auto simp: jrnl_handle_of_def ctx_of_def ctx_at_def ctx_shape_def bind_assoc prog_simps)

lemma ctx_at_fields:
  "s_fat_ctxs s' = s_fat_ctxs s \<Longrightarrow> s_jrnl_handles s' = s_jrnl_handles s \<Longrightarrow> dirs s' = dirs s \<Longrightarrow>
   ctx_at c n pdrv hs D l s' = ctx_at c n pdrv hs D l s"
  by (simp add: ctx_at_def)

lemma call_ready_fields:
  assumes "s_fat_ctxs s' = s_fat_ctxs s"
  shows "call_ready c n D call s' = call_ready c n D call s"
proof -
  have "file_of c fd s' = (Ret f, s') \<longleftrightarrow> file_of c fd s = (Ret f, s)" for fd f
    using assms by (auto simp: file_of_def ctx_of_def bind_assoc prog_simps split: if_splits option.splits)
  then have "seek_defined c fd off mode s' = seek_defined c fd off mode s" for fd off mode
    by (simp add: seek_defined_def)
  then show ?thesis by (cases call) simp_all
qed

text \<open>
  The data of the layer after a call: the drive is still bound, and the context is free, or taken by one of the two
  operations that may keep it.
\<close>

definition ctx_after ::
  "nat \<Rightarrow> nat \<Rightarrow> byte \<Rightarrow> esp_jrnl_handle_t \<Rightarrow> esp_jrnl_handle_t list \<Rightarrow> nat set \<Rightarrow> vfs_call \<Rightarrow> 'd vfs_world \<Rightarrow> bool" where
  "ctx_after c n pdrv h hs D call s \<longleftrightarrow> on_drive pdrv h s \<and>
     (ctx_at c n pdrv hs D False s \<or> may_keep_lock call \<and> ctx_at c n pdrv hs D True s)"

lemma ctx_after_fields:
  fixes s s' :: "'d vfs_world"
  shows
  "ctx_after c n pdrv h hs D call s \<Longrightarrow> jrnl_world.more s' = jrnl_world.more s \<Longrightarrow> ctx_after c n pdrv h hs D call s'"
  "ctx_after c n pdrv h hs D call s \<Longrightarrow> ctx_after c n pdrv h hs D call (s\<lparr>errno := e\<rparr>)"
  using ctx_at_fields [OF more_eq_fields(3-5), of s' s] more_eq_fields(1) [of s' s] ctx_at_fields [of "s\<lparr>errno := e\<rparr>" s]
  by (simp_all add: ctx_after_def on_drive_def)

lemma call_inside:
  fixes s s1 :: "'d vfs_world"
  assumes "fatfs_calls FF (in_transaction E io content sec m h pdrv fs)"
    and "ctx_at c n pdrv hs D False s" and "call_ready c n D call s"
    and "in_transaction E io content sec m h pdrv fs s1" and "jrnl_world.more s1 = jrnl_world.more s"
  shows "\<exists>r s2. plain_call L C FF c call s1 = (Ret r, s2) \<and> in_transaction E io content sec m h pdrv fs s2 \<and>
    ctx_after c n pdrv h hs D call s2"
proof -
  let ?I = "in_transaction E io content sec m h pdrv fs"
  note returns = fatfs_frame.call_returns [OF fatfs_frame_in_transaction [OF assms(1)], of c n pdrv hs D call L C]
  note f = more_eq_fields [OF assms(5)]
  have "with_ctx ?I c n pdrv hs D False s1 \<and> call_ready c n D call s1"
    using assms(2-4) f ctx_at_fields [of s1 s] call_ready_fields [of s1 s] by (simp add: with_ctx_def)
  then obtain r s2 where "plain_call L C FF c call s1 = (Ret r, s2)"
    and "with_ctx ?I c n pdrv hs D False s2 \<or> with_ctx ?I c n pdrv hs D True s2 \<and> lock_kept call r s2"
    using returns unfolding hoare_def by blast
  then show ?thesis using lock_kept_may by (auto simp: with_ctx_def ctx_after_def in_transaction_def)
qed

lemma jrnl_call_atomic:
  fixes s :: "'d vfs_world"
  assumes "block_device io content sec cap er" and "geom sec cap m"
    and "fatfs_calls FF (in_transaction E io content sec m h pdrv fs)"
    and "journal_ready E io content sec m h fs s" and "on_drive pdrv h s"
    and "ctx_at c n pdrv hs D False s" and "unat pdrv < length hs" and "hs ! unat pdrv = h"
    and "call_ready c n D call s"
  shows "\<exists>oc s' ps. jrnl_call E L C FF c call s = (oc, s') \<and>
     (logs E io content sec m h (plain_call L C FF c call) fs ps s \<or> ps = [] \<and> \<not> (\<exists>r. oc = Ret r \<and> succeeded call r s')) \<and>
     ((\<exists>r. oc = Ret r \<and> on_drive pdrv h s' \<and>
        (ctx_at c n pdrv hs D False s' \<or> may_keep_lock call \<and> ctx_at c n pdrv hs D True s') \<and>
        (succeeded call r s' \<and> journal_ready E io content sec m h (write_fs sec ps fs) s' \<or>
         \<not> succeeded call r s' \<and> (journal_ready E io content sec m h fs s' \<or>
           errno s' = EBADF \<and> (recovers_to E sec m (content (dev s')) fs \<or>
             recovers_to E sec m (content (dev s')) (write_fs sec ps fs))))) \<or>
      oc = Undefined \<and> (\<exists>a. call = Readdir a) \<and>
        (recovers_to E sec m (content (dev s')) fs \<or> recovers_to E sec m (content (dev s')) (write_fs sec ps fs)))"
proof -
  have vj: "volume_journal io content sec cap er m"
    using assms(1,2) by (intro volume_journal.intro volume_journal_axioms.intro)
  note hd = ctx_at_handle [OF assms(6-8)]
  let ?K = "ctx_after c n pdrv h hs D call"
  have K0: "?K s" using assms(5,6) by (simp add: ctx_after_def)
  note inside = call_inside [OF assms(3,6,9), of _ L C]
  let ?fin = "volume_journal.atomic_end io content sec E m (plain_call L C FF c call) s h fs"
  have ended: ?thesis if "jrnl_call E L C FF c call s = (Ret r, s')" and "?K s'" and "?fin ps (succeeded call r s') s'" for r s' ps
    by (rule exI [of _ "Ret r"], rule exI [of _ s'], rule exI [of _ ps])
      (use that in \<open>simp add: volume_journal.atomic_end_def [OF vj] ctx_after_def\<close>)
  consider (plain) "\<not> on_stream call" | (readdir) a where "call = Readdir a" | (seekdir) a off where "call = Seekdir a off"
    by (cases call) auto
  then show ?thesis
  proof cases
    case plain
    have "\<exists>r s' ps. jrnl_call E L C FF c call s = (Ret r, s') \<and> ?K s' \<and> ?fin ps (commits call r) s'"
      unfolding jrnl_call_in_jrnl [OF plain]
      by (rule volume_journal.in_jrnl_atomic [OF vj assms(4,5) hd K0 inside ctx_after_fields]) simp_all
    then obtain r s' ps where "jrnl_call E L C FF c call s = (Ret r, s')" and "?K s'" and "?fin ps (commits call r) s'" by blast
    then show ?thesis by (intro ended [of r s' ps]) (simp_all only: succeeded_commits [OF plain])
  next
    case (readdir a)
    let ?p = "vfs_fat_readdir C FF c (Some a)" and ?g = "\<lambda>entry :: dirent option. if entry = None then -1 else 0 :: int"
    have op: "\<exists>r s2. ?p s1 = (Ret r, s2) \<and> in_transaction E io content sec m h pdrv fs s2 \<and> ?K s2"
      if "in_transaction E io content sec m h pdrv fs s1" and "jrnl_world.more s1 = jrnl_world.more s" for s1
      using inside [OF that] readdir by (auto elim!: bind_RetE simp: prog_simps)
    have freed: ?thesis if "vfs_fat_readdir_jrnl E C FF c (Some a) s = (Undefined, s')" and "logs E io content sec m h ?p fs ps s"
      and "recovers_to E sec m (content (dev s')) fs \<or> recovers_to E sec m (content (dev s')) (write_fs sec ps fs)" for s' ps
      using that logs_result [OF that(2), of ?g] readdir
      by (intro exI [of _ Undefined] exI [of _ s'] exI [of _ ps]) (simp add: run_bind_halt)
    have "(\<exists>r s' ps. vfs_fat_readdir_jrnl E C FF c (Some a) s = (Ret r, s') \<and> ?K s' \<and>
         volume_journal.atomic_end io content sec E m ?p s h fs ps (r \<noteq> None) s') \<or>
      (\<exists>s' ps. vfs_fat_readdir_jrnl E C FF c (Some a) s = (Undefined, s') \<and> logs E io content sec m h ?p fs ps s \<and>
         (recovers_to E sec m (content (dev s')) fs \<or> recovers_to E sec m (content (dev s')) (write_fs sec ps fs)))"
      by (rule volume_journal.readdir_atomic [OF vj assms(4,5) hd K0 op ctx_after_fields])
    then show ?thesis
    proof (elim disjE exE conjE, goal_cases)
      case (1 r s' ps)
      show ?case
      proof (rule ended)
        show "jrnl_call E L C FF c call s = (Ret (?g r), s')" using 1(1) readdir by (simp add: run_bind_Ret run_ret)
        show "?fin ps (succeeded call (?g r) s') s'"
          using volume_journal.atomic_end_result [OF vj 1(3), of ?g] readdir by (cases r) simp_all
      qed (rule 1(2))
    qed (rule freed, assumption+, simp)+
  next
    case (seekdir a off)
    let ?p = "vfs_fat_seekdir FF c (Some a) off"
    have op: "\<exists>r s2. ?p s1 = (Ret r, s2) \<and> in_transaction E io content sec m h pdrv fs s2 \<and> ?K s2"
      if "in_transaction E io content sec m h pdrv fs s1" and "jrnl_world.more s1 = jrnl_world.more s" for s1
      using inside [OF that] seekdir by (auto elim!: bind_RetE simp: prog_simps)
    have "\<exists>s' ps. vfs_fat_seekdir_jrnl E FF c (Some a) off s = (Ret (), s') \<and> ?K s' \<and>
        volume_journal.atomic_end io content sec E m ?p s h fs ps (errno s' \<noteq> EBADF) s'"
      by (rule volume_journal.seekdir_atomic [OF vj assms(4,5) hd K0 op ctx_after_fields])
    then show ?thesis
    proof (elim exE conjE, goal_cases)
      case (1 s' ps)
      show ?case
      proof (rule ended)
        show "jrnl_call E L C FF c call s = (Ret 0, s')" using 1(1) seekdir by (simp add: run_bind_Ret run_ret)
        show "?fin ps (succeeded call 0 s') s'"
          using volume_journal.atomic_end_result [OF vj 1(3), of "\<lambda>_. 0"] seekdir by simp
      qed (rule 1(2))
    qed
  qed
qed

text \<open>
  C14. Every journaled operation of the VFS layer, all eighteen wrappers of the table, is atomic. Let \<open>ps\<close> be the
  writes FatFS makes to the volume while it carries out the operation inside the transaction, whichever they are
  (none if the transaction could not be started). Whatever the device does: if the call
  returns a success, the file system on the disk has all of those writes and the volume is ready for the next call; if
  it returns a failure, the file system is unchanged and the volume is ready, or \<open>errno\<close> is \<open>EBADF\<close> and
  the disk stands for the file system either as before the call or with all of the writes. It always returns,
  with one exception: \<open>vfs_fat_readdir_jrnl\<close> frees a pointer into the stream when its commit fails, which is
  undefined, and there too the disk stands for the old or the new file system. Drive, handle and context
  stay bound to each other, and the lock of the context is free afterwards, unless the operation is a positioned write or a seek in a directory. The caller
  sees to descriptors in the table, open streams and relative seeks that do not overflow.
\<close>

theorem vfs_call_atomic:
  fixes s :: "'d vfs_world"
  assumes "block_device io content sec cap er" and "geom sec cap m"
    and "fatfs_calls FF (in_transaction E io content sec m h pdrv fs)"
    and "journal_ready E io content sec m h fs s" and "on_drive pdrv h s"
    and "ctx_at c n pdrv hs D False s" and "unat pdrv < length hs" and "hs ! unat pdrv = h"
    and "call_ready c n D call s"
  shows "\<exists>oc s' ps. jrnl_call E L C FF c call s = (oc, s') \<and>
     (logs E io content sec m h (plain_call L C FF c call) fs ps s \<or> ps = [] \<and> \<not> (\<exists>r. oc = Ret r \<and> succeeded call r s')) \<and>
     ((\<exists>r. oc = Ret r \<and> on_drive pdrv h s' \<and>
        (ctx_at c n pdrv hs D False s' \<or> may_keep_lock call \<and> ctx_at c n pdrv hs D True s') \<and>
        (succeeded call r s' \<and> journal_ready E io content sec m h (write_fs sec ps fs) s' \<or>
         \<not> succeeded call r s' \<and> (journal_ready E io content sec m h fs s' \<or>
           errno s' = EBADF \<and> (recovers_to E sec m (content (dev s')) fs \<or>
             recovers_to E sec m (content (dev s')) (write_fs sec ps fs))))) \<or>
      oc = Undefined \<and> (\<exists>a. call = Readdir a) \<and>
        (recovers_to E sec m (content (dev s')) fs \<or> recovers_to E sec m (content (dev s')) (write_fs sec ps fs)))"
  using assms by (rule jrnl_call_atomic)

theorem vfs_call_atomic_witness:
  "\<exists>r s' ps. jrnl_call sample_env sample_libc sample_cfg sample_fatfs 0 (Mkdir ''/d'' 0)
       (sample_vfs (sample_in ESP_JRNL_STATUS_TRANS_READY)) = (Ret r, s') \<and>
     (r = 0 \<and> journal_ready sample_env sample_io cells 32 sample_master 0 (write_fs 32 ps sample_fs) s' \<or>
      r \<noteq> 0 \<and> (journal_ready sample_env sample_io cells 32 sample_master 0 sample_fs s' \<or>
        errno s' = EBADF \<and> (recovers_to sample_env 32 sample_master (cells (dev s')) sample_fs \<or>
          recovers_to sample_env 32 sample_master (cells (dev s')) (write_fs 32 ps sample_fs))))"
  using vfs_call_atomic [OF sample_device sample_geom sample_fat.fatfs_calls_axioms sample_vfs_ready
      sample_vfs_drive sample_ctx_at, of "Mkdir ''/d'' 0" sample_libc sample_cfg]
  by auto

section \<open>Locks\<close>

text \<open>All operations of the table, as they are inside a transaction or without one, seen through a number.\<close>

datatype vfs_op =
    Call vfs_call | Fstat int | Stat string | Opendir string | Closedir nat | Readdir_r nat dirent | Telldir nat
  | Access string u32

fun plain_op ::
  "libc_time \<Rightarrow> vfs_config \<Rightarrow> 'd vfs_world fatfs_api \<Rightarrow> nat \<Rightarrow> vfs_op \<Rightarrow> ('d vfs_world, int) prog" where
  "plain_op L C FF c (Call call) = plain_call L C FF c call"
| "plain_op L C FF c (Fstat fd) = bind (vfs_fat_fstat C c fd) (\<lambda>(r, _). ret r)"
| "plain_op L C FF c (Stat path) = bind (vfs_fat_stat L C FF c path) (\<lambda>(r, _). ret r)"
| "plain_op L C FF c (Opendir name) = bind (vfs_fat_opendir C FF c name) (\<lambda>a. ret (if a = None then -1 else 0))"
| "plain_op L C FF c (Closedir a) = vfs_fat_closedir FF (Some a)"
| "plain_op L C FF c (Readdir_r a entry) =
     bind (vfs_fat_readdir_r C FF (Some a) entry) (\<lambda>(err, _, _). ret (if err = ENONE then 0 else -1))"
| "plain_op L C FF c (Telldir a) = vfs_fat_telldir (Some a)"
| "plain_op L C FF c (Access path amode) = vfs_fat_access C FF c path amode"

fun op_ready :: "nat \<Rightarrow> nat \<Rightarrow> nat set \<Rightarrow> vfs_op \<Rightarrow> 'd vfs_world \<Rightarrow> bool" where
  "op_ready c n D (Call call) s = call_ready c n D call s"
| "op_ready c n D (Fstat fd) s = (0 \<le> fd \<and> nat fd < n)"
| "op_ready c n D (Closedir a) s = (a \<in> D)"
| "op_ready c n D (Readdir_r a _) s = (a \<in> D)"
| "op_ready c n D (Telldir a) s = (a \<in> D)"
| "op_ready c n D _ s = True"

text \<open>The streams that are open after an operation.\<close>

fun streams_after :: "vfs_op \<Rightarrow> nat set \<Rightarrow> nat set" where
  "streams_after (Closedir a) D = D - {a}"
| "streams_after _ D = D"

context fatfs_frame
begin

lemma op_returns:
  assumes "with_ctx I c n pdrv hs D False s" and "op_ready c n D op s"
  shows "\<exists>r s'. plain_op L C FF c op s = (Ret r, s') \<and>
    (with_ctx I c n pdrv hs (streams_after op D) False s' \<or>
     (\<exists>call. op = Call call \<and> lock_kept call r s' \<and> with_ctx I c n pdrv hs D True s'))"
proof -
  let ?A = "with_ctx I c n pdrv hs D"
  have ok: "\<exists>r s'. p s = (Ret r, s') \<and> ?A False s'" if "moves ?A False p False" for p :: "('d vfs_world, int) prog"
    using that assms(1) by (rule moves_run)
  have seen: "\<exists>r s'. bind p (\<lambda>x. ret (g x)) s = (Ret r, s') \<and> ?A False s'" if "moves ?A False p False"
    for p :: "('d vfs_world, 'b) prog" and g :: "'b \<Rightarrow> int"
    by (rule ok, rule moves_bind [OF that]) (rule moves_intros)+
  show ?thesis
  proof (cases op)
    case (Call call)
    then show ?thesis
      using hoareE [OF call_returns [of c n pdrv hs D call L C], of s] assms by fastforce
  next
    case (Closedir a)
    then show ?thesis using hoare_closedir [of a D c n pdrv hs False] assms by (fastforce simp: hoare_def)
  next
    case (Fstat fd)
    then show ?thesis
      using seen [OF moves_fstat [of fd n c pdrv hs D False C], of fst] assms(2) by (simp add: case_prod_unfold)
  next
    case (Stat path)
    then show ?thesis using seen [OF moves_stat [of c n pdrv hs D L C path], of fst] by (simp add: case_prod_unfold)
  next
    case (Opendir name)
    then show ?thesis using seen [OF moves_opendir [of c n pdrv hs D C name]] by simp
  next
    case (Readdir_r a entry)
    then show ?thesis
      using seen [OF moves_readdir_r [of a D c n pdrv hs False C entry], of "\<lambda>(err, _, _). if err = ENONE then 0 else -1"] assms(2)
      by (simp add: case_prod_unfold)
  next
    case (Telldir a)
    then show ?thesis using ok [OF moves_telldir] assms(2) by simp
  next
    case (Access path amode)
    then show ?thesis using ok [OF moves_access [of c n pdrv hs D C path amode]] by simp
  qed
qed

end

text \<open>
  C21. Every operation of the VFS table that starts on a free context, with a descriptor in the table, an open stream
  and no overflowing relative seek, returns, for every FatFS whose functions return and leave the data of the layer
  alone: no path of it waits for its own lock, indexes beyond the files, or loops for ever, neither in
  the copying of a link, nor in the zero-filling of a truncate, nor in a directory seek. It gives the lock
  back, with two exceptions: a positioned write that returns \<open>-1\<close> with \<open>ENOSPC\<close>, and a directory seek
  that leaves the error number of a failed FatFS call.
\<close>

theorem operations_release_lock:
  fixes s :: "'d vfs_world"
  assumes "fatfs_calls FF (\<lambda>_. True)" and "ctx_at c n pdrv hs D False s" and "op_ready c n D op s"
  shows "\<exists>r s'. plain_op L C FF c op s = (Ret r, s') \<and>
     (ctx_at c n pdrv hs (streams_after op D) False s' \<or>
      ctx_at c n pdrv hs D True s' \<and>
        ((\<exists>fd src sz off. op = Call (Pwrite fd src sz off)) \<and> r = -1 \<and> errno s' = ENOSPC \<or>
         (\<exists>a off. op = Call (Seekdir a off)) \<and> (\<exists>res. res \<noteq> FR_OK \<and> errno s' = fresult_to_errno res)))"
proof -
  have "fatfs_frame FF (\<lambda>_. True)" using assms(1) by (simp add: fatfs_frame_def fatfs_frame_axioms_def)
  from fatfs_frame.op_returns [OF this, of c n pdrv hs D s op L C]
  obtain r s' where r: "plain_op L C FF c op s = (Ret r, s')"
    and e: "ctx_at c n pdrv hs (streams_after op D) False s' \<or>
      (\<exists>call. op = Call call \<and> lock_kept call r s' \<and> ctx_at c n pdrv hs D True s')"
    using assms(2,3) by (auto simp: with_ctx_def)
  have "lock_kept call r s' \<Longrightarrow> (\<exists>fd src sz off. call = Pwrite fd src sz off) \<and> r = -1 \<and> errno s' = ENOSPC \<or>
      (\<exists>a off. call = Seekdir a off) \<and> (\<exists>res. res \<noteq> FR_OK \<and> errno s' = fresult_to_errno res)" for call
    by (cases call) auto
  with r e show ?thesis by fastforce
qed

definition idle_fatfs :: "flash vfs_world fatfs_api" where
  "idle_fatfs = sample_fatfs
     \<lparr>f_write := (\<lambda>src n f. ret ((FR_OK, 0), f)), f_mkdir := (\<lambda>path. ret FR_OK)\<rparr>"

interpretation idle_fat: fatfs_frame idle_fatfs "\<lambda>_. True"
  by unfold_locales (simp_all add: idle_fatfs_def sample_fatfs_def keeps_ret)

theorem operations_release_lock_witness:
  "\<exists>r s'. plain_op sample_libc sample_cfg idle_fatfs 0 (Call (Ftruncate 1 9)) (sample_vfs sample_instance) = (Ret r, s') \<and>
     ctx_at 0 2 0 [0] {} False s'"
  using operations_release_lock [OF idle_fat.fatfs_calls_axioms sample_ctx_at, of "Call (Ftruncate 1 9)" sample_instance
      sample_libc sample_cfg]
  by auto

text \<open>
  The operations that take the lock of the context: not reading, syncing, seeking and examining an open file, nor the
  functions on an open stream other than the seek, nor \<open>stat\<close> of the root or of the cached path, nor what is
  refused before: truncating to a negative length and \<open>utime\<close> with a time before 1980.
\<close>

fun takes_lock :: "libc_time \<Rightarrow> vfs_fat_ctx_t \<Rightarrow> vfs_op \<Rightarrow> bool" where
  "takes_lock L x (Call (Read _ _)) = False"
| "takes_lock L x (Call (Fsync _)) = False"
| "takes_lock L x (Call (Lseek _ _ _)) = False"
| "takes_lock L x (Call (Readdir _)) = False"
| "takes_lock L x (Call (Utime _ t)) =
     (80 \<le> tm_year (localtime_r L (case t of Some modtime \<Rightarrow> modtime | None \<Rightarrow> gettimeofday_sec L)))"
| "takes_lock L x (Call (Truncate _ len)) = (0 \<le> sint len)"
| "takes_lock L x (Call (Ftruncate _ len)) = (0 \<le> sint len)"
| "takes_lock L x (Stat path) = (path \<noteq> ''/'' \<and> path \<noteq> cd_file_path (cached_fileinfo x))"
| "takes_lock L x (Fstat _) = False"
| "takes_lock L x (Closedir _) = False"
| "takes_lock L x (Readdir_r _ _) = False"
| "takes_lock L x (Telldir _) = False"
| "takes_lock L x _ = True"

lemma locked_call_blocks:
  assumes h: "holds c x s" and "fat_lock x" and "takes_lock L x (Call call)"
  shows "fst (plain_call L C FF c call s) = Blocked"
  using assms(2,3)
  by (cases call)
    (simp_all add: run_lock [OF h] vfs_fat_open_def vfs_fat_write_def vfs_fat_pread_def vfs_fat_pwrite_def vfs_fat_close_def
      vfs_fat_unlink_def vfs_fat_mkdir_def vfs_fat_rmdir_def locked_path_call_def vfs_fat_link_def vfs_fat_rename_def
      vfs_fat_truncate_def vfs_fat_ftruncate_def vfs_fat_utime_def vfs_fat_seekdir_def bind_assoc prog_simps Let_def not_less
      split: prod.splits)

lemma locked_op_blocks:
  assumes h: "holds c x s" and "fat_lock x" and "takes_lock L x op"
  shows "fst (plain_op L C FF c op s) = Blocked"
proof (cases op)
  case (Call call)
  then show ?thesis using locked_call_blocks [OF h] assms(2,3) by simp
next
  case (Opendir name)
  then show ?thesis
    using assms(2)
    by (simp add: vfs_fat_opendir_def upd_ctx_def bind_assoc run_ctx(1,2) [OF h] run_ctx(3,4) run_set_ctx(6) [OF holds_in_table [OF h]])
next
  case (Stat path)
  then show ?thesis
    using assms(2,3)
    by (simp add: vfs_fat_stat_def upd_ctx_def bind_assoc run_ctx(1,2) [OF h] run_ctx(3,4) run_set_ctx(6) [OF holds_in_table [OF h]])
next
  case (Access path amode)
  then show ?thesis using assms(2) by (simp add: vfs_fat_access_def run_lock [OF h])
qed (use assms(3) in simp_all)

text \<open>
  C34. The first exception. On a volume that is full, where FatFS moves the position, and then reports success with no
  byte written, \<open>vfs_fat_pwrite\<close> of at least one byte returns \<open>-1\<close> with \<open>ENOSPC\<close> and the lock is still taken, so that
  every later operation that takes the lock of the context waits for ever: opening, closing, writing,
  positioned reading and writing, truncating, every operation on a name, and the directory seek.
  \<open>full\<close> stands for what is true of the machine below the layer when the volume is full.
\<close>

theorem full_pwrite_keeps_lock:
  fixes s :: "'d vfs_world"
  assumes "ctx_at c n pdrv hs D False s" and "0 \<le> fd" and "nat fd < n" and "sz \<noteq> 0"
    and "full s" and "\<And>t u. full (t\<lparr>s_fat_ctxs := u\<rparr>) = full t"
    and "\<And>f t. full t \<Longrightarrow> \<exists>f' t'. f_lseek FF off f t = (Ret (FR_OK, f'), t') \<and> full t' \<and> vfs_view t' = vfs_view t"
    and "\<And>f t. full t \<Longrightarrow> \<exists>f' t'. f_write FF src sz f t = (Ret ((FR_OK, 0), f'), t') \<and> vfs_view t' = vfs_view t"
  shows "\<exists>s' x. vfs_fat_pwrite C FF c fd src sz off s = (Ret (-1), s') \<and> errno s' = ENOSPC \<and> holds c x s' \<and>
     (\<forall>op. takes_lock L x op \<longrightarrow> fst (plain_op L C FF c op s') = Blocked)"
proof -
  obtain x where x: "holds c x s" "ctx_shape False n pdrv x" using assms(1) by (auto simp: ctx_at_holds)
  let ?x1 = "x\<lparr>fat_lock := True\<rparr>"
  let ?s1 = "set_ctx c ?x1 s"
  have v: "nat fd < length (files ?x1)" "\<not> fat_lock x" using x(2) assms(3) by (simp_all add: ctx_shape_def)
  have h1: "holds c ?x1 ?s1" using holds_in_table [OF x(1)] by simp
  have "full ?s1" using assms(5,6) by (simp add: set_ctx_def)
  then obtain f1 t1 where f1: "f_lseek FF off (files ?x1 ! nat fd) ?s1 = (Ret (FR_OK, f1), t1)"
    and t1: "full t1" "vfs_view t1 = vfs_view ?s1" using assms(7) by blast
  obtain y1 where y1: "holds c y1 t1" "hide_fs y1 = hide_fs ?x1"
    and r1: "\<And>k :: FRESULT \<Rightarrow> ('d vfs_world, int) prog. bind (on_file c fd (f_lseek FF off)) k ?s1 =
      k FR_OK (set_ctx c (y1\<lparr>files := (files ?x1)[nat fd := f1]\<rparr>) t1)"
    by (rule run_on_file_view [where p = "f_lseek FF off", OF h1 assms(2) v(1) f1 t1(2)]) (rule that)
  let ?x2 = "y1\<lparr>files := (files ?x1)[nat fd := f1]\<rparr>"
  let ?s2 = "set_ctx c ?x2 t1"
  have h2: "holds c ?x2 ?s2" and v2: "nat fd < length (files ?x2)" using holds_in_table [OF y1(1)] v(1) by simp_all
  have "full ?s2" using t1(1) assms(6) by (simp add: set_ctx_def)
  then obtain f2 t2 where f2: "f_write FF src sz (files ?x2 ! nat fd) ?s2 = (Ret ((FR_OK, 0), f2), t2)"
    and t2: "vfs_view t2 = vfs_view ?s2" using assms(8) by blast
  obtain y2 where y2: "holds c y2 t2" "hide_fs y2 = hide_fs ?x2"
    and r2: "\<And>k :: FRESULT \<times> u32 \<Rightarrow> ('d vfs_world, int) prog. bind (on_file c fd (f_write FF src sz)) k ?s2 =
      k (FR_OK, 0) (set_ctx c (y2\<lparr>files := (files ?x2)[nat fd := f2]\<rparr>) t2)"
    by (rule run_on_file_view [where p = "f_write FF src sz", OF h2 assms(2) v2 f2 t2]) (rule that)
  let ?x3 = "y2\<lparr>files := (files ?x2)[nat fd := f2]\<rparr>"
  let ?s3 = "(set_ctx c ?x3 t2)\<lparr>errno := ENOSPC\<rparr>"
  have h3: "holds c ?x3 ?s3" using holds_in_table [OF y2(1)] by simp
  have lk: "fat_lock ?x3" using hide_fs_fields(2) [OF y2(2)] hide_fs_fields(2) [OF y1(2)] by simp
  have "vfs_fat_pwrite C FF c fd src sz off s = (Ret (-1), ?s3)"
    using v assms(2,4) r1 r2
    by (simp add: vfs_fat_pwrite_def run_lock [OF x(1)] run_file [OF h1] Let_def fail_def set_errno_def prog_simps)
  then show ?thesis using h3 locked_op_blocks [OF h3 lk] by (intro exI [of _ ?s3] exI [of _ ?x3]) simp
qed

theorem full_pwrite_keeps_lock_witness:
  "\<exists>s'. vfs_fat_pwrite sample_cfg idle_fatfs 0 1 (\<lambda>_. 0) 5 0 (sample_vfs sample_instance) = (Ret (-1), s') \<and>
     errno s' = ENOSPC \<and> fst (vfs_fat_mkdir sample_cfg idle_fatfs 0 ''/d'' 0 s') = Blocked"
proof -
  have l: "\<exists>f' t'. f_lseek idle_fatfs 0 f t = (Ret (FR_OK, f'), t') \<and> vfs_view t' = vfs_view t" for f t
    by (simp add: idle_fatfs_def sample_fatfs_def run_ret)
  have w: "\<exists>f' t'. f_write idle_fatfs (\<lambda>_. 0) 5 f t = (Ret ((FR_OK, 0), f'), t') \<and> vfs_view t' = vfs_view t" for f t
    by (simp add: idle_fatfs_def run_ret)
  have "\<exists>s' x. vfs_fat_pwrite sample_cfg idle_fatfs 0 1 (\<lambda>_. 0) 5 0 (sample_vfs sample_instance) = (Ret (-1), s') \<and>
      errno s' = ENOSPC \<and> holds 0 x s' \<and>
      (\<forall>op. takes_lock sample_libc x op \<longrightarrow> fst (plain_op sample_libc sample_cfg idle_fatfs 0 op s') = Blocked)"
    by (rule full_pwrite_keeps_lock [OF sample_ctx_at [of sample_instance], where full = "\<lambda>_. True"]) (use l w in simp_all)
  then obtain s' x where s': "vfs_fat_pwrite sample_cfg idle_fatfs 0 1 (\<lambda>_. 0) 5 0 (sample_vfs sample_instance) = (Ret (-1), s')"
    "errno s' = ENOSPC" and b: "\<forall>op. takes_lock sample_libc x op \<longrightarrow> fst (plain_op sample_libc sample_cfg idle_fatfs 0 op s') = Blocked"
    by blast
  from b [rule_format, of "Call (Mkdir ''/d'' 0)"] s' show ?thesis by simp
qed

end
