(* ===== verification/Vfs_Behaviour.thy ===== *)
theory Vfs_Behaviour
  imports Vfs_Correct
begin

text \<open>
  What single operations of the VFS layer do: time stamps, registration, the cache of the
  directory scan, and the results of operations that fail.
\<close>

section \<open>Directory seeks\<close>

text \<open>
  When FatFS cannot rewind a directory, \<open>vfs_fat_seekdir\<close> sets \<open>errno\<close> and returns with the lock of
  the context still taken: every later operation that takes the lock of the context waits for ever.
\<close>

theorem failed_seekdir_keeps_lock:
  fixes s :: "'d vfs_world"
  assumes "ctx_at c n pdrv hs {a} False s" and "dirs s ! a = Some d" and "offset <s dir_offset d"
    and "\<forall>dir t. f_rewinddir FF dir t = (Ret (FR_DISK_ERR, dir), t)"
  shows "\<exists>s' x. vfs_fat_seekdir FF c (Some a) offset s = (Ret (), s') \<and> errno s' = EIO \<and> holds c x s' \<and>
     (\<forall>op. takes_lock L x op \<longrightarrow> fst (plain_op L C FF c op s') = Blocked)"
proof -
  obtain x where x: "holds c x s" "ctx_shape False n pdrv x" and a: "a < length (dirs s)"
    using assms(1) by (auto simp: ctx_at_holds)
  let ?x1 = "x\<lparr>fat_lock := True\<rparr>"
  let ?s' = "(set_ctx c ?x1 s)\<lparr>dirs := (dirs s)[a := Some d], errno := EIO\<rparr>"
  have d: "bind (dir_of a) f (set_ctx c ?x1 s) = f d (set_ctx c ?x1 s)"
    for f :: "vfs_fat_dir_t \<Rightarrow> ('d vfs_world, unit) prog"
    using assms(2) a by (simp add: dir_of_def set_ctx_def bind_assoc prog_simps)
  have "vfs_fat_seekdir FF c (Some a) offset s = (Ret (), ?s')"
    using x assms(3,4) a
    by (simp add: vfs_fat_seekdir_def prog_simps run_lock ctx_shape_def d run_bind_Ret put_dir_def set_errno_def bind_assoc)
      (simp add: set_ctx_def)
  moreover have h: "holds c ?x1 ?s'" using holds_in_table [OF x(1)] by (simp add: holds_def set_ctx_def)
  moreover have "fat_lock ?x1" by simp
  note locked_op_blocks [OF h this]
  ultimately show ?thesis by (intro exI [of _ ?s'] exI [of _ ?x1]) simp
qed

definition broken_fatfs :: "flash vfs_world fatfs_api" where
  "broken_fatfs = sample_fatfs\<lparr>f_rewinddir := (\<lambda>d. ret (FR_DISK_ERR, d))\<rparr>"

theorem failed_seekdir_keeps_lock_witness:
  "\<exists>s' x. vfs_fat_seekdir broken_fatfs 0 (Some 0) 1
       ((sample_vfs sample_instance)\<lparr>dirs := [Some (zero_dir\<lparr>dir_offset := 3\<rparr>)]\<rparr>) = (Ret (), s') \<and>
     errno s' = EIO \<and> holds 0 x s' \<and>
     (\<forall>op. takes_lock sample_libc x op \<longrightarrow> fst (plain_op sample_libc sample_cfg broken_fatfs 0 op s') = Blocked)"
proof -
  let ?s = "(sample_vfs sample_instance)\<lparr>dirs := [Some (zero_dir\<lparr>dir_offset := 3\<rparr>)]\<rparr>"
  have "ctx_at 0 2 0 [0] {0} False ?s" "dirs ?s ! 0 = Some (zero_dir\<lparr>dir_offset := 3\<rparr>)"
    using sample_ctx_shape by (simp_all add: ctx_at_def)
  moreover have "1 <s dir_offset (zero_dir\<lparr>dir_offset := 3\<rparr>)" by (simp add: word_sless_alt)
  moreover have "\<forall>dir t. f_rewinddir broken_fatfs dir t = (Ret (FR_DISK_ERR, dir), t)"
    by (simp add: broken_fatfs_def run_ret)
  ultimately show ?thesis by (rule failed_seekdir_keeps_lock)
qed

section \<open>Time stamps\<close>

text \<open>A calendar time FAT can hold.\<close>

definition fat_tm :: "tm \<Rightarrow> bool" where
  "fat_tm t \<longleftrightarrow> 0 \<le> tm_sec t \<and> tm_sec t \<le> 60 \<and> 0 \<le> tm_min t \<and> tm_min t < 60 \<and> 0 \<le> tm_hour t \<and> tm_hour t < 24 \<and>
     1 \<le> tm_mday t \<and> tm_mday t \<le> 31 \<and> 0 \<le> tm_mon t \<and> tm_mon t < 12 \<and> 80 \<le> tm_year t \<and> tm_year t < 208"

definition even_seconds :: "tm \<Rightarrow> tm" where
  "even_seconds t = t\<lparr>tm_sec := 2 * (tm_sec t div 2), tm_isdst := -1\<rparr>"

lemma fat_of_tm_roundtrip:
  assumes "fat_tm t" and "fat_of_tm t = (fdate, ftime)"
  shows "tm_of_fat fdate ftime = even_seconds t"
proof -
  have keep: "take_bit n i = i" if "0 \<le> i" "i < 2 ^ n" for n and i :: int
    using that by (simp add: take_bit_int_eq_self)
  have sgn: "sgn i * (\<bar>i\<bar> div 2) = i div 2" if "0 \<le> i" for i :: int using that by (cases "i = 0") auto
  have "tm_sec t div 2 < 32" using assms(1) unfolding fat_tm_def by linarith
  then have "take_bit 5 (tm_sec t div 2) = tm_sec t div 2" "take_bit 6 (tm_min t) = tm_min t"
    "take_bit 5 (tm_hour t) = tm_hour t" "take_bit 5 (tm_mday t) = tm_mday t"
    "take_bit 4 (tm_mon t + 1) = tm_mon t + 1" "take_bit 7 (tm_year t - 80) = tm_year t - 80"
    using assms(1) by (simp_all add: fat_tm_def keep)
  then show ?thesis
    using assms sgn [of "tm_sec t"]
    by (cases t) (auto simp: fat_tm_def fat_of_tm_def tm_of_fat_def even_seconds_def fat_date_fields fat_time_fields)
qed

text \<open>
  C36. The time \<open>vfs_fat_utime\<close> stores is the one \<open>vfs_fat_stat\<close> reads: for every modification time
  from 1980 to 2107 the information handed to FatFS makes \<open>update_stat_struct\<close> report the same
  calendar time, with the seconds rounded down to even ones. A time before 1980 is refused with
  \<open>EINVAL\<close> before the context is touched.
\<close>

theorem utime_stat_roundtrip:
  assumes "fat_tm (localtime_r L modtime)" and "tm_year (localtime_r L early) < 80"
  shows "(\<exists>info. vfs_fat_utime L C FF c path (Some modtime) = locked_path_call C c path (\<lambda>p. f_utime FF p info) \<and>
      st_mtime (update_stat_struct L FF info) = mktime L (even_seconds (localtime_r L modtime))) \<and>
    vfs_fat_utime L C FF c path (Some early) s = (Ret (-1), s\<lparr>errno := EINVAL\<rparr>)"
proof -
  obtain fdate ftime where p: "fat_of_tm (localtime_r L modtime) = (fdate, ftime)" by fastforce
  let ?i = "zero_filinfo\<lparr>fi_fdate := fdate, fi_ftime := ftime\<rparr>"
  have "vfs_fat_utime L C FF c path (Some modtime) = locked_path_call C c path (\<lambda>p. f_utime FF p ?i)"
    using assms(1) p by (simp add: vfs_fat_utime_def locked_path_call_def fat_tm_def)
  moreover have "st_mtime (update_stat_struct L FF ?i) = mktime L (even_seconds (localtime_r L modtime))"
    using fat_of_tm_roundtrip [OF assms(1) p] by (simp add: update_stat_struct_def)
  moreover have "vfs_fat_utime L C FF c path (Some early) s = (Ret (-1), s\<lparr>errno := EINVAL\<rparr>)"
    using assms(2) by (simp add: vfs_fat_utime_def fail_def set_errno_def prog_simps)
  ultimately show ?thesis by blast
qed

theorem utime_stat_roundtrip_witness:
  "\<exists>info. vfs_fat_utime sample_libc sample_cfg sample_fatfs 0 ''/f'' (Some 9) =
       locked_path_call sample_cfg 0 ''/f'' (\<lambda>p. f_utime sample_fatfs p info) \<and>
     st_mtime (update_stat_struct sample_libc sample_fatfs info) = 42"
proof -
  have "fat_tm (localtime_r sample_libc 9)" "tm_year (localtime_r sample_libc (-1)) < 80"
    by (simp_all add: sample_libc_def fat_tm_def)
  from utime_stat_roundtrip [OF this, of sample_cfg sample_fatfs 0 "''/f''" "sample_vfs sample_instance"]
  show ?thesis by (simp add: sample_libc_def even_seconds_def)
qed

section \<open>Registration\<close>

text \<open>Registering a context, when the table has room and the registry accepts.\<close>

lemma register_run:
  assumes len: "length (s_fat_ctxs s) = FF_VOLUMES C" and free: "None \<in> set (s_fat_ctxs s)"
    and new: "\<forall>x. Some x \<in> set (s_fat_ctxs s) \<longrightarrow> base_path x \<noteq> conf_base_path conf" and hp: "heap s = []"
    and reg: "\<forall>v i t. esp_vfs_register V (conf_base_path conf) v i t = (Ret ESP_OK, t)"
  defines "n \<equiv> if conf_max_files conf < 1 then 1 else conf_max_files conf"
  obtains i where "i < FF_VOLUMES C" and "s_fat_ctxs s ! i = None"
    and "vfs_fat_register_cfg_jrnl E L C FF V conf s = (Ret (ESP_OK, Some i),
      s\<lparr>s_fat_ctxs := (s_fat_ctxs s)[i := Some (new_ctx C conf n)], s_fat_ctx := Some i\<rparr>)"
proof -
  obtain i where i: "first_index (\<lambda>p. p = None) (s_fat_ctxs s) = Some i"
    using free by (cases "first_index (\<lambda>p. p = None) (s_fat_ctxs s)") (auto simp: first_index_None)
  then have i': "i < FF_VOLUMES C" "s_fat_ctxs s ! i = None" using len by (simp_all add: first_index_Some)
  have "find_context_index_by_path C (s_fat_ctxs s) (conf_base_path conf) = FF_VOLUMES C"
    using new by (auto simp: find_context_index_by_path_def first_index_Some split: option.splits)
      (metis nth_mem)
  then have "vfs_fat_register_cfg_jrnl E L C FF V conf s = (Ret (ESP_OK, Some i),
      s\<lparr>s_fat_ctxs := (s_fat_ctxs s)[i := Some (new_ctx C conf n)], s_fat_ctx := Some i\<rparr>)"
    using i i' hp reg
    by (simp add: vfs_fat_register_cfg_jrnl_def find_unused_context_index_def prog_simps run_bind_Ret
        memalloc_empty_heap vfs_fat_get_default_api_def n_def Let_def)
  then show thesis using i' that by blast
qed

text \<open>
  C37. Where the registry of the VFS accepts and removes the given path, a context that was registered under
  a path of at most \<open>ESP_VFS_PATH_MAX - 2\<close> characters is refused a second time, is removed by its path, and the table is then what it was. Under a longer
  path, which the registry may well accept, the context keeps only the start of the path, so
  that it can never be removed by the path it was registered with.
\<close>

theorem registration_roundtrip:
  fixes s :: "'d vfs_world"
  assumes "length (s_fat_ctxs s) = FF_VOLUMES C" and "None \<in> set (s_fat_ctxs s)"
    and "\<forall>x. Some x \<in> set (s_fat_ctxs s) \<longrightarrow> base_path x \<noteq> conf_base_path conf" and "heap s = []"
    and "\<forall>v i t. esp_vfs_register V (conf_base_path conf) v i t = (Ret ESP_OK, t)"
    and "\<forall>t. esp_vfs_unregister V (conf_base_path conf) t = (Ret ESP_OK, t)"
  shows "\<exists>i s1. vfs_fat_register_cfg_jrnl E L C FF V conf s = (Ret (ESP_OK, Some i), s1) \<and>
     (if length (conf_base_path conf) \<le> ESP_VFS_PATH_MAX C - 2 then
        vfs_fat_register_cfg_jrnl E L C FF V conf s1 = (Ret (ESP_ERR_INVALID_STATE, None), s1) \<and>
        (\<exists>s2. vfs_fat_unregister_path_jrnl C V (conf_base_path conf) s1 = (Ret ESP_OK, s2) \<and>
           s_fat_ctxs s2 = s_fat_ctxs s)
      else vfs_fat_unregister_path_jrnl C V (conf_base_path conf) s1 = (Ret ESP_ERR_INVALID_STATE, s1))"
proof -
  let ?n = "if conf_max_files conf < 1 then 1 else conf_max_files conf"
  let ?x = "new_ctx C conf ?n" and ?path = "conf_base_path conf" and ?t = "s_fat_ctxs s"
  obtain i where i: "i < FF_VOLUMES C" "?t ! i = None"
    and run: "vfs_fat_register_cfg_jrnl E L C FF V conf s = (Ret (ESP_OK, Some i),
      s\<lparr>s_fat_ctxs := ?t[i := Some ?x], s_fat_ctx := Some i\<rparr>)" (is "_ = (_, ?s1)")
    by (rule register_run [OF assms(1-5)])
  let ?P = "\<lambda>p. case p of None \<Rightarrow> False | Some y \<Rightarrow> base_path y = ?path"
  have none: "\<forall>p \<in> set ?t. \<not> ?P p" using assms(3) by (auto split: option.splits)
  show ?thesis
  proof (cases "length ?path \<le> ESP_VFS_PATH_MAX C - 2")
    case True
    then have b: "base_path ?x = ?path" by (simp add: new_ctx_def strlcpy_def)
    then have "?P (Some ?x)" by simp
    then have "first_index ?P (?t[i := Some ?x]) = Some i"
      using first_index_update [of i ?t ?P "Some ?x"] i(1) assms(1) none by simp
    then have f: "find_context_index_by_path C (?t[i := Some ?x]) ?path = i"
      by (simp add: find_context_index_by_path_def)
    have "?t[i := None] = ?t" using i by (metis list_update_id)
    moreover have "holds i ?x ?s1" using i assms(1) by (simp add: holds_def)
    ultimately have "vfs_fat_unregister_path_jrnl C V ?path ?s1 = (Ret ESP_OK, ?s1\<lparr>s_fat_ctxs := ?t\<rparr>)"
      using f i(1) assms(6) b by (simp add: vfs_fat_unregister_path_jrnl_def prog_simps run_ctx run_bind_Ret Let_def)
    moreover have "vfs_fat_register_cfg_jrnl E L C FF V conf ?s1 = (Ret (ESP_ERR_INVALID_STATE, None), ?s1)"
      using f i(1) by (simp add: vfs_fat_register_cfg_jrnl_def prog_simps)
    ultimately show ?thesis using run True by auto
  next
    case False
    then have "length (base_path ?x) < length ?path" by (auto simp: new_ctx_def strlcpy_def)
    then have "\<not> ?P (Some ?x)" by auto
    then have "first_index ?P (?t[i := Some ?x]) = None"
      using none set_update_subset_insert [of ?t i "Some ?x"] unfolding first_index_None by blast
    then have "vfs_fat_unregister_path_jrnl C V ?path ?s1 = (Ret ESP_ERR_INVALID_STATE, ?s1)"
      by (simp add: vfs_fat_unregister_path_jrnl_def find_context_index_by_path_def prog_simps)
    then show ?thesis using run False by auto
  qed
qed

definition sample_registry :: "flash vfs_registry" where
  "sample_registry =
     \<lparr> esp_vfs_register = (\<lambda>p v i. ret ESP_OK), esp_vfs_unregister = (\<lambda>p. ret ESP_OK) \<rparr>"

theorem registration_roundtrip_witness:
  "let conf = \<lparr> conf_base_path = ''/sdcard'', conf_fat_drive = ''1:'', conf_max_files = 0 \<rparr> in
   \<exists>i s1 s2. vfs_fat_register_cfg_jrnl sample_env sample_libc sample_cfg sample_fatfs sample_registry conf
       (sample_vfs sample_instance) = (Ret (ESP_OK, Some i), s1) \<and>
     vfs_fat_unregister_path_jrnl sample_cfg sample_registry ''/sdcard'' s1 = (Ret ESP_OK, s2) \<and>
     s_fat_ctxs s2 = [Some sample_ctx, None]"
proof -
  let ?conf = "\<lparr> conf_base_path = ''/sdcard'', conf_fat_drive = ''1:'', conf_max_files = 0 \<rparr>"
  let ?s = "sample_vfs sample_instance"
  have "length (s_fat_ctxs ?s) = FF_VOLUMES sample_cfg" "None \<in> set (s_fat_ctxs ?s)"
    "\<forall>x. Some x \<in> set (s_fat_ctxs ?s) \<longrightarrow> base_path x \<noteq> conf_base_path ?conf" "heap ?s = []"
    by (simp_all add: sample_cfg_def sample_ctx_def new_ctx_def strlcpy_def)
  moreover have "\<forall>v i t. esp_vfs_register sample_registry (conf_base_path ?conf) v i t = (Ret ESP_OK, t)"
    "\<forall>t. esp_vfs_unregister sample_registry (conf_base_path ?conf) t = (Ret ESP_OK, t)"
    by (simp_all add: sample_registry_def run_ret)
  ultimately have "\<exists>i s1. vfs_fat_register_cfg_jrnl sample_env sample_libc sample_cfg sample_fatfs sample_registry ?conf ?s =
       (Ret (ESP_OK, Some i), s1) \<and>
     (if length (conf_base_path ?conf) \<le> ESP_VFS_PATH_MAX sample_cfg - 2 then
        vfs_fat_register_cfg_jrnl sample_env sample_libc sample_cfg sample_fatfs sample_registry ?conf s1 =
          (Ret (ESP_ERR_INVALID_STATE, None), s1) \<and>
        (\<exists>s2. vfs_fat_unregister_path_jrnl sample_cfg sample_registry (conf_base_path ?conf) s1 = (Ret ESP_OK, s2) \<and>
           s_fat_ctxs s2 = s_fat_ctxs ?s)
      else vfs_fat_unregister_path_jrnl sample_cfg sample_registry (conf_base_path ?conf) s1 =
        (Ret ESP_ERR_INVALID_STATE, s1))"
    by (rule registration_roundtrip)
  then show ?thesis by (auto simp: Let_def sample_cfg_def)
qed

text \<open>
  Binding a journal handle to a drive: a free drive takes it, a drive that has one refuses with
  \<open>ESP_ERR_INVALID_STATE\<close>, removing the handle frees the drive and leaves the others, and a
  handle that is bound nowhere is reported as not found.
\<close>

theorem handle_binding_roundtrip:
  fixes s :: "'d vfs_world"
  assumes "length (s_jrnl_handles s) = JRNL_MAX_HANDLES" and "unat pdrv < JRNL_MAX_HANDLES"
    and "s_jrnl_handles s ! unat pdrv = JRNL_INVALID_HANDLE"
    and "h \<noteq> JRNL_INVALID_HANDLE" and "h \<notin> set (s_jrnl_handles s)"
  shows "\<exists>s1 s2. vfs_fat_register_pdrv_jrnl_handle pdrv h s = (Ret ESP_OK, s1) \<and>
     vfs_fat_register_pdrv_jrnl_handle pdrv h' s1 = (Ret ESP_ERR_INVALID_STATE, s1) \<and>
     vfs_fat_unregister_pdrv_jrnl_handle h s1 = (Ret ESP_OK, s2) \<and> s_jrnl_handles s2 = s_jrnl_handles s \<and>
     vfs_fat_unregister_pdrv_jrnl_handle h s2 = (Ret ESP_ERR_NOT_FOUND, s2)"
proof -
  let ?t = "s_jrnl_handles s" and ?p = "unat pdrv"
  let ?s1 = "s\<lparr>s_jrnl_handles := ?t[?p := h]\<rparr>"
  have p: "?p < length ?t" using assms(1,2) by simp
  have f: "first_index (\<lambda>x. h = x) (?t[?p := h]) = Some ?p"
    by (rule first_index_update) (use p assms(5) in auto)
  have n: "first_index (\<lambda>x. h = x) ?t = None" using assms(5) by (auto simp: first_index_None)
  have "?t[?p := JRNL_INVALID_HANDLE] = ?t" using assms(3) by (metis list_update_id)
  then show ?thesis
    using assms(2-4) p f n
    by (intro exI [of _ ?s1] exI [of _ "?s1\<lparr>s_jrnl_handles := ?t\<rparr>"])
      (simp add: vfs_fat_register_pdrv_jrnl_handle_def vfs_fat_unregister_pdrv_jrnl_handle_def prog_simps)
qed

theorem handle_binding_roundtrip_witness:
  "\<exists>s1 s2. vfs_fat_register_pdrv_jrnl_handle 3 5 ((sample_vfs sample_instance)\<lparr>s_jrnl_handles := init_jrnl_handles\<rparr>)
       = (Ret ESP_OK, s1) \<and>
     vfs_fat_unregister_pdrv_jrnl_handle 5 s1 = (Ret ESP_OK, s2) \<and> s_jrnl_handles s2 = init_jrnl_handles"
proof -
  let ?s = "(sample_vfs sample_instance)\<lparr>s_jrnl_handles := init_jrnl_handles\<rparr>"
  have "length (s_jrnl_handles ?s) = JRNL_MAX_HANDLES" "unat (3 :: byte) < JRNL_MAX_HANDLES"
    "s_jrnl_handles ?s ! unat (3 :: byte) = JRNL_INVALID_HANDLE" "5 \<noteq> JRNL_INVALID_HANDLE"
    "5 \<notin> set (s_jrnl_handles ?s)"
    by (simp_all add: init_jrnl_handles_def JRNL_MAX_HANDLES_def JRNL_INVALID_HANDLE_def)
  from handle_binding_roundtrip [OF this, of 0] show ?thesis by auto
qed

section \<open>Answers that mislead\<close>

text \<open>
  A scan of a directory caches the information of the last entry, and a status request for that path is
  answered from the cache alone, whatever FatFS would say of the file by then: a size that was
  changed since the scan is not seen. The request uses the cache up: the next one
  asks FatFS.
\<close>

theorem stat_served_from_cache:
  fixes s :: "'d vfs_world"
  assumes "holds c x s" and "\<not> fat_lock x" and "path = cd_file_path (cached_fileinfo x)"
    and "path \<noteq> ''/''" and "path \<noteq> []"
    and "\<forall>p t. f_stat FF p t = (Ret (FR_OK, info), t)"
  shows "\<exists>s1 s2. vfs_fat_stat L C FF c path s =
       (Ret (0, Some (update_stat_struct L FF (cd_fileinfo (cached_fileinfo x)))), s1) \<and>
     vfs_fat_stat L C FF c path s1 = (Ret (0, Some (update_stat_struct L FF info)), s2)"
proof -
  have c: "c < length (s_fat_ctxs s)" using assms(1) by (rule holds_in_table)
  have f: "bind (f_stat FF q) k u = k (FR_OK, info) u" for q u
    and k :: "FRESULT \<times> FILINFO \<Rightarrow> ('d vfs_world, int \<times> stat option) prog"
    using assms(6) by (simp add: run_bind_Ret)
  let ?x1 = "x\<lparr>cached_fileinfo := (cached_fileinfo x)\<lparr>cd_file_path := []\<rparr>\<rparr>"
  have "vfs_fat_stat L C FF c path (set_ctx c x s) =
      (Ret (0, Some (update_stat_struct L FF (cd_fileinfo (cached_fileinfo x)))), set_ctx c ?x1 s)"
    using assms(3,4) by (simp add: vfs_fat_stat_def vfs_run c prog_simps)
  moreover have "\<exists>s2. vfs_fat_stat L C FF c path (set_ctx c ?x1 s) = (Ret (0, Some (update_stat_struct L FF info)), s2)"
    using assms(2,4,5) by (simp add: vfs_fat_stat_def vfs_run c Let_def f prog_simps)
  ultimately show ?thesis using set_ctx_id [OF assms(1)] by auto
qed

definition growing_fatfs :: "flash vfs_world fatfs_api" where
  "growing_fatfs = sample_fatfs\<lparr>f_stat := (\<lambda>path. ret (FR_OK, zero_filinfo\<lparr>fi_fsize := 9\<rparr>))\<rparr>"

theorem stat_served_from_cache_witness:
  "\<exists>s1 s2 st1 st2. vfs_fat_stat sample_libc sample_cfg growing_fatfs 0 ''/a''
       (set_ctx 0 (sample_ctx\<lparr>cached_fileinfo := \<lparr> cd_file_path = ''/a'',
          cd_fileinfo = zero_filinfo\<lparr>fi_fsize := 7\<rparr> \<rparr>\<rparr>) (sample_vfs sample_instance)) = (Ret (0, Some st1), s1) \<and>
     vfs_fat_stat sample_libc sample_cfg growing_fatfs 0 ''/a'' s1 = (Ret (0, Some st2), s2) \<and>
     st_size st1 = 7 \<and> st_size st2 = 9"
proof -
  let ?x = "sample_ctx\<lparr>cached_fileinfo := \<lparr> cd_file_path = ''/a'', cd_fileinfo = zero_filinfo\<lparr>fi_fsize := 7\<rparr> \<rparr>\<rparr>"
  let ?s = "set_ctx 0 ?x (sample_vfs sample_instance)"
  have "holds 0 ?x ?s" by simp
  moreover have "\<not> fat_lock ?x" by (simp add: sample_ctx_def new_ctx_def)
  moreover have "\<forall>p t. f_stat growing_fatfs p t = (Ret (FR_OK, zero_filinfo\<lparr>fi_fsize := 9\<rparr>), t)"
    by (simp add: growing_fatfs_def run_ret)
  ultimately have "\<exists>s1 s2. vfs_fat_stat sample_libc sample_cfg growing_fatfs 0 ''/a'' ?s =
       (Ret (0, Some (update_stat_struct sample_libc growing_fatfs (cd_fileinfo (cached_fileinfo ?x)))), s1) \<and>
     vfs_fat_stat sample_libc sample_cfg growing_fatfs 0 ''/a'' s1 =
       (Ret (0, Some (update_stat_struct sample_libc growing_fatfs (zero_filinfo\<lparr>fi_fsize := 9\<rparr>))), s2)"
    by (intro stat_served_from_cache) simp_all
  then show ?thesis by (fastforce simp: update_stat_struct_def)
qed

text \<open>
  When FatFS seeks without an error but does not reach the length asked for, as it does on a full volume,
  \<open>vfs_fat_truncate\<close> fails with \<open>errno\<close> set to the number of \<open>FR_OK\<close>, that is, cleared: the caller
  sees \<open>-1\<close> and no error. The lock is given back.
\<close>

theorem short_truncate_clears_errno:
  fixes s :: "'d vfs_world"
  assumes "holds c x s" and "\<not> fat_lock x" and "0 \<le> sint len" and "heap s = []"
    and "\<forall>p m t. f_open FF p m zero_fil t = (Ret (FR_OK, f0), t)"
    and "\<forall>t. f_lseek FF len f0 t = (Ret (FR_OK, f1), t)" and "fptr f1 \<noteq> len"
    and "\<forall>t. f_close FF f1 t = (Ret (FR_OK, f2), t)"
  shows "\<exists>x' s'. vfs_fat_truncate C FF c path len s = (Ret (-1), s') \<and> errno s' = ENONE \<and>
     holds c x' s' \<and> \<not> fat_lock x'"
proof -
  have c: "c < length (s_fat_ctxs s)" using assms(1) by (rule holds_in_table)
  have "\<exists>x' s'. vfs_fat_truncate C FF c path len (set_ctx c x s) = (Ret (-1), s') \<and> errno s' = ENONE \<and>
      holds c x' s' \<and> \<not> fat_lock x'"
    using assms(2-8) c
    by (simp add: vfs_fat_truncate_def resize_file_def close_truncated_def vfs_run Let_def run_bind_Ret prog_simps)
      (rule exI, rule conjI [OF holds_set_ctx(1) [THEN iffD2]], simp_all)
  then show ?thesis by (simp add: set_ctx_id [OF assms(1)])
qed

definition full_fatfs :: "flash vfs_world fatfs_api" where
  "full_fatfs = sample_fatfs\<lparr>f_lseek := (\<lambda>n f. ret (FR_OK, f\<lparr>fptr := 4\<rparr>))\<rparr>"

theorem short_truncate_clears_errno_witness:
  "\<exists>s'. vfs_fat_truncate sample_cfg full_fatfs 0 ''/a'' 9 (sample_vfs sample_instance) = (Ret (-1), s') \<and> errno s' = ENONE"
proof -
  have "holds 0 sample_ctx (sample_vfs sample_instance)" by (simp add: holds_def)
  moreover have "\<not> fat_lock sample_ctx" by (simp add: sample_ctx_def new_ctx_def)
  moreover have "\<forall>p m t. f_open full_fatfs p m zero_fil t = (Ret (FR_OK, zero_fil\<lparr>obj_fs := True\<rparr>), t)"
    "\<forall>t. f_lseek full_fatfs 9 (zero_fil\<lparr>obj_fs := True\<rparr>) t = (Ret (FR_OK, zero_fil\<lparr>obj_fs := True, fptr := 4\<rparr>), t)"
    "\<forall>t. f_close full_fatfs (zero_fil\<lparr>obj_fs := True, fptr := 4\<rparr>) t = (Ret (FR_OK, zero_fil\<lparr>fptr := 4\<rparr>), t)"
    by (simp_all add: full_fatfs_def sample_fatfs_def run_ret zero_fil_def)
  ultimately have "\<exists>x' s'. vfs_fat_truncate sample_cfg full_fatfs 0 ''/a'' 9 (sample_vfs sample_instance) = (Ret (-1), s') \<and>
      errno s' = ENONE \<and> holds 0 x' s' \<and> \<not> fat_lock x'"
    by (intro short_truncate_clears_errno) simp_all
  then show ?thesis by blast
qed

text \<open>
  A seek to a negative offset is not refused: FatFS is asked for the offset as an unsigned position of
  two to four gigabytes, and when it accepts, the negative offset is returned, which callers
  and the journaled wrapper take for a failure, with \<open>errno\<close> as it was.
\<close>

theorem negative_seek_accepted:
  fixes s :: "'d vfs_world"
  assumes "holds c x s" and "0 \<le> fd" and "nat fd < length (files x)" and "sint off < 0"
    and "\<forall>f t. \<exists>f'. f_lseek FF off f t = (Ret (FR_OK, f'), t)"
  shows "\<exists>s'. vfs_fat_lseek FF c fd off SEEK_SET s = (Ret (sint off), s') \<and> errno s' = errno s \<and> 2 ^ 31 \<le> unat off"
proof -
  obtain f' where "f_lseek FF off (files x ! nat fd) s = (Ret (FR_OK, f'), s)" using assms(5) by blast
  note lseek = run_on_file [where p = "f_lseek FF off", OF assms(1-3) this]
  have "vfs_fat_lseek FF c fd off SEEK_SET s =
      (Ret (sint off), set_ctx c (x\<lparr>files := (files x)[nat fd := f']\<rparr>) s)"
    unfolding vfs_fat_lseek_def run_file [OF assms(1-3)] by (simp add: run_bind_simple lseek run_ret)
  then have "\<exists>s'. vfs_fat_lseek FF c fd off SEEK_SET s = (Ret (sint off), s') \<and> errno s' = errno s"
    by (simp add: set_ctx_def)
  then show ?thesis using negative_word_large [OF assms(4)] by blast
qed

theorem negative_seek_accepted_witness:
  "\<exists>s'. vfs_fat_lseek sample_fatfs 0 1 (-5) SEEK_SET (sample_vfs sample_instance) = (Ret (-5), s') \<and> errno s' = ENONE"
proof -
  have "holds 0 sample_ctx (sample_vfs sample_instance)" by (simp add: holds_def)
  moreover have "nat 1 < length (files sample_ctx)" by (simp add: sample_ctx_def new_ctx_def)
  moreover have "\<forall>f t. \<exists>f'. f_lseek sample_fatfs (-5) f t = (Ret (FR_OK, f'), t)" by (simp add: sample_fatfs_def run_ret)
  ultimately show ?thesis
    using negative_seek_accepted [of 0 sample_ctx "sample_vfs sample_instance" 1 "-5" sample_fatfs] by auto
qed

end
