(* ===== verification/Vfs_Files.thy ===== *)
theory Vfs_Files
  imports Vfs_Behaviour Jrnl_Recovery
begin

text \<open>
  What an open file is to the callers of the VFS layer: a list of bytes and a position. \<open>fatfs_files\<close>
  states what FatFS promises for a file object that is open for reading and writing on a volume that
  works; the operations on descriptors are then shown to be steps of the abstract file \<open>file_step\<close>,
  for every sequence of them. The steps are those of the operations before the
  journaled wrappers, and they say where a descriptor of this layer is not one of POSIX: a position
  behind the end extends the file, and cutting a file moves the position.
\<close>

section \<open>Lists of bytes\<close>

lemma length_overwrite [simp]:
  "p \<le> length B \<Longrightarrow> length (overwrite B p w) = max (length B) (p + length w)"
  by (simp add: overwrite_def)

lemma overwrite_nil [simp]: "overwrite B p [] = B"
  by (simp add: overwrite_def)

lemma overwrite_append:
  assumes "p \<le> length B"
  shows "overwrite (overwrite B p v) (p + length v) w = overwrite B p (v @ w)"
  using assms by (simp add: overwrite_def ac_simps)

lemma overwrite_tail: "p + length w = length A \<Longrightarrow> overwrite A p w = take p A @ w"
  by (simp add: overwrite_def)

lemma take_drop_overwrite: "p \<le> length B \<Longrightarrow> take (length w) (drop p (overwrite B p w)) = w"
  by (simp add: overwrite_def)

section \<open>The abstract file\<close>

text \<open>
  Where a seek ends. Inside the file it is the position asked for; behind its end the file
  grows up to the position, by bytes nothing is known of, or up to \<open>room\<close>, the size to which the
  volume lets the file grow.
\<close>

definition sought :: "nat \<Rightarrow> nat \<Rightarrow> byte list \<Rightarrow> byte list \<Rightarrow> nat \<Rightarrow> bool" where
  "sought room n B B' q \<longleftrightarrow>
     (if n \<le> length B then B' = B \<and> q = n
      else q = min n room \<and> length B' = q \<and> take (length B) B' = B)"

datatype fd_call =
    Read_fd u32
  | Write_fd cbuf u32
  | Pread_fd u32 u32
  | Pwrite_fd cbuf u32 u32
  | Lseek_fd u32 whence
  | Fsync_fd
  | Ftruncate_fd u32

fun seek_target :: "u32 \<Rightarrow> whence \<Rightarrow> byte list \<times> nat \<Rightarrow> u32 option" where
  "seek_target off SEEK_SET (B, p) = Some off"
| "seek_target off SEEK_CUR (B, p) = Some (of_nat p + off)"
| "seek_target off SEEK_END (B, p) = Some (of_nat (length B) + off)"
| "seek_target off (SEEK_OTHER n) (B, p) = None"

inductive file_step ::
  "nat \<Rightarrow> bool \<Rightarrow> fd_call \<Rightarrow> byte list \<times> nat \<Rightarrow> int \<times> byte list \<Rightarrow> byte list \<times> nat \<Rightarrow> bool"
  for room app where
  step_read: "d = take (unat n) (drop p B) \<Longrightarrow>
    file_step room app (Read_fd n) (B, p) (int (length d), d) (B, p + length d)"
| step_write: "q = (if app then length B else p) \<Longrightarrow> w = take (room - q) (buf_bytes src (unat n)) \<Longrightarrow>
    w \<noteq> [] \<or> n = 0 \<Longrightarrow>
    file_step room app (Write_fd src n) (B, p) (int (length w), []) (overwrite B q w, q + length w)"
| step_write_full: "q = (if app then length B else p) \<Longrightarrow> room \<le> q \<Longrightarrow> n \<noteq> 0 \<Longrightarrow>
    file_step room app (Write_fd src n) (B, p) (-1, []) (B, q)"
| step_pread: "sought room (unat off) B B' q \<Longrightarrow> d = take (unat n) (drop q B') \<Longrightarrow>
    file_step room app (Pread_fd n off) (B, p) (int (length d), d) (B', p)"
| step_pwrite: "sought room (unat off) B B' q \<Longrightarrow> w = take (room - q) (buf_bytes src (unat n)) \<Longrightarrow>
    w \<noteq> [] \<or> n = 0 \<Longrightarrow>
    file_step room app (Pwrite_fd src n off) (B, p) (int (length w), []) (overwrite B' q w, p)"
| step_lseek: "seek_target off whence (B, p) = Some t \<Longrightarrow> sought room (unat t) B B' q \<Longrightarrow>
    file_step room app (Lseek_fd off whence) (B, p) (sint t, []) (B', q)"
| step_lseek_other: "seek_target off whence (B, p) = None \<Longrightarrow>
    file_step room app (Lseek_fd off whence) (B, p) (-1, []) (B, p)"
| step_fsync: "file_step room app Fsync_fd (B, p) (0, []) (B, p)"
| step_cut: "0 \<le> sint len \<Longrightarrow> unat len \<le> length B \<Longrightarrow>
    file_step room app (Ftruncate_fd len) (B, p) (0, []) (take (unat len) B, unat len)"
| step_grow: "0 \<le> sint len \<Longrightarrow> length B < unat len \<Longrightarrow> unat len \<le> room \<Longrightarrow>
    file_step room app (Ftruncate_fd len) (B, p) (0, []) (B @ replicate (unat len - length B) 0, p)"
| step_grow_full: "0 \<le> sint len \<Longrightarrow> room < unat len \<Longrightarrow> sought room (unat len) B B' q \<Longrightarrow>
    file_step room app (Ftruncate_fd len) (B, p) (-1, []) (B', q)"
| step_negative: "sint len < 0 \<Longrightarrow> file_step room app (Ftruncate_fd len) (B, p) (-1, []) (B, p)"

inductive_simps file_step_simps:
  "file_step room app (Read_fd n) st r st'"
  "file_step room app (Write_fd src n) st r st'"
  "file_step room app (Pread_fd n off) st r st'"
  "file_step room app (Pwrite_fd src n off) st r st'"
  "file_step room app (Lseek_fd off whence) st r st'"
  "file_step room app (Ftruncate_fd len) st r st'"

fun file_steps ::
  "nat \<Rightarrow> bool \<Rightarrow> fd_call list \<Rightarrow> byte list \<times> nat \<Rightarrow> (int \<times> byte list) list \<Rightarrow> byte list \<times> nat \<Rightarrow> bool" where
  "file_steps room app [] st rs st' \<longleftrightarrow> rs = [] \<and> st' = st"
| "file_steps room app (q # qs) st rs st' \<longleftrightarrow>
     (\<exists>r rs' st1. rs = r # rs' \<and> file_step room app q st r st1 \<and> file_steps room app qs st1 rs' st')"

section \<open>The calls of the layer\<close>

fun fd_run ::
  "vfs_config \<Rightarrow> 'd vfs_world fatfs_api \<Rightarrow> nat \<Rightarrow> int \<Rightarrow> fd_call \<Rightarrow> ('d vfs_world, int \<times> byte list) prog" where
  "fd_run C FF c fd (Read_fd n) = vfs_fat_read FF c fd n"
| "fd_run C FF c fd (Write_fd src n) = bind (vfs_fat_write C FF c fd src n) (\<lambda>r. ret (r, []))"
| "fd_run C FF c fd (Pread_fd n off) = vfs_fat_pread FF c fd n off"
| "fd_run C FF c fd (Pwrite_fd src n off) = bind (vfs_fat_pwrite C FF c fd src n off) (\<lambda>r. ret (r, []))"
| "fd_run C FF c fd (Lseek_fd off whence) = bind (vfs_fat_lseek FF c fd off whence) (\<lambda>r. ret (r, []))"
| "fd_run C FF c fd Fsync_fd = bind (vfs_fat_fsync FF c fd) (\<lambda>r. ret (r, []))"
| "fd_run C FF c fd (Ftruncate_fd len) = bind (vfs_fat_ftruncate C FF c fd len) (\<lambda>r. ret (r, []))"

fun fd_runs ::
  "vfs_config \<Rightarrow> 'd vfs_world fatfs_api \<Rightarrow> nat \<Rightarrow> int \<Rightarrow> fd_call list \<Rightarrow> ('d vfs_world, (int \<times> byte list) list) prog" where
  "fd_runs C FF c fd [] = ret []"
| "fd_runs C FF c fd (q # qs) =
     bind (fd_run C FF c fd q) (\<lambda>r. bind (fd_runs C FF c fd qs) (\<lambda>rs. ret (r # rs)))"

text \<open>
  A positioned write has to start below the room (the return for a full volume keeps the lock), and a
  relative seek must not overflow an \<open>off_t\<close>.
\<close>

fun fd_ready :: "nat \<Rightarrow> fd_call \<Rightarrow> bool" where
  "fd_ready room (Pwrite_fd src n off) \<longleftrightarrow> n = 0 \<or> unat off < room"
| "fd_ready room (Lseek_fd off SEEK_CUR) \<longleftrightarrow> int room + sint off < 2 ^ 31"
| "fd_ready room (Lseek_fd off SEEK_END) \<longleftrightarrow> int room + sint off < 2 ^ 31"
| "fd_ready room _ \<longleftrightarrow> True"

section \<open>What FatFS promises\<close>

text \<open>
  A function of FatFS on a file object returns, leaves the data of the layer alone, and the object
  it gives back stands for a file again.
\<close>

definition answers ::
  "(FIL \<Rightarrow> byte list \<Rightarrow> 'd vfs_world \<Rightarrow> bool) \<Rightarrow> ('d vfs_world, 'a \<times> FIL) prog \<Rightarrow> 'd vfs_world \<Rightarrow>
   ('a \<Rightarrow> byte list \<Rightarrow> nat \<Rightarrow> bool) \<Rightarrow> bool" where
  "answers opened p s Q \<longleftrightarrow>
     (\<exists>r f s' B. p s = (Ret (r, f), s') \<and> vfs_view s' = vfs_view s \<and> opened f B s' \<and> Q r B (unat (fptr f)))"

lemma answersI:
  "p s = (Ret (r, f), s') \<Longrightarrow> vfs_view s' = vfs_view s \<Longrightarrow> opened f B s' \<Longrightarrow> Q r B (unat (fptr f)) \<Longrightarrow>
   answers opened p s Q"
  by (auto simp: answers_def)

lemma answersE:
  assumes "answers opened p s Q"
  obtains r f s' B where "p s = (Ret (r, f), s')" and "vfs_view s' = vfs_view s" and "opened f B s'"
    and "Q r B (unat (fptr f))"
  using assms by (auto simp: answers_def)

text \<open>The bytes of a write that fit.\<close>

definition fitting :: "nat \<Rightarrow> nat \<Rightarrow> cbuf \<Rightarrow> u32 \<Rightarrow> byte list" where
  "fitting room p src n = take (room - p) (buf_bytes src (unat n))"

text \<open>The outcome of resizing.\<close>

definition resized :: "nat \<Rightarrow> u32 \<Rightarrow> byte list \<Rightarrow> nat \<Rightarrow> FRESULT + unit \<Rightarrow> byte list \<Rightarrow> nat \<Rightarrow> bool" where
  "resized room len B p r B' q \<longleftrightarrow>
     (if unat len \<le> length B then r = Inr () \<and> B' = take (unat len) B \<and> q = unat len
      else if unat len \<le> room then r = Inr () \<and> B' = B @ replicate (unat len - length B) 0 \<and> q = p
      else r = Inl FR_OK \<and> sought room (unat len) B B' q)"

text \<open>A descriptor of a context, its lock, its append flag and the file it stands for.\<close>

definition descriptor ::
  "(FIL \<Rightarrow> byte list \<Rightarrow> 'd vfs_world \<Rightarrow> bool) \<Rightarrow> nat \<Rightarrow> int \<Rightarrow> bool \<Rightarrow> bool \<Rightarrow> byte list \<times> nat \<Rightarrow> 'd vfs_world \<Rightarrow> bool" where
  "descriptor opened c fd app l st s \<longleftrightarrow>
     (\<exists>x. holds c x s \<and> 0 \<le> fd \<and> nat fd < length (files x) \<and> fat_lock x = l \<and> o_append x ! nat fd = app \<and>
        opened (files x ! nat fd) (fst st) s \<and> unat (fptr (files x ! nat fd)) = snd st)"

text \<open>
  \<open>opened f B s\<close>: the object is open for reading and writing and the file has the bytes \<open>B\<close>, on a
  volume that works and with memory to allocate. The view of it does not depend on \<open>errno\<close> or on
  the part of a context that belongs to the VFS layer.
\<close>

locale fatfs_files =
  fixes FF :: "'d vfs_world fatfs_api"
    and opened :: "FIL \<Rightarrow> byte list \<Rightarrow> 'd vfs_world \<Rightarrow> bool"
    and room :: nat
  assumes room_off_t: "room < 2 ^ 31"
    and opened_bounds: "opened f B s \<Longrightarrow> length B = unat (objsize f) \<and> unat (fptr f) \<le> length B \<and> length B \<le> room"
    and opened_memory: "opened f B s \<Longrightarrow> heap s = []"
    and opened_errno: "opened f B (s\<lparr>errno := e\<rparr>) = opened f B s"
    and opened_ctx: "holds c x s \<Longrightarrow> fat_fs y = fat_fs x \<Longrightarrow> opened f B (set_ctx c y s) = opened f B s"
    and f_lseek_file: "opened f B s \<Longrightarrow>
      answers opened (f_lseek FF n f) s (\<lambda>r B' q. r = FR_OK \<and> sought room (unat n) B B' q)"
    and f_read_file: "opened f B s \<Longrightarrow>
      answers opened (f_read FF n f) s (\<lambda>r B' q. fst r = FR_OK \<and> B' = B \<and>
        snd (snd r) = take (unat n) (drop (unat (fptr f)) B) \<and> unat (fst (snd r)) = length (snd (snd r)) \<and>
        q = unat (fptr f) + unat (fst (snd r)))"
    and f_write_file: "opened f B s \<Longrightarrow>
      answers opened (f_write FF src n f) s (\<lambda>r B' q. fst r = FR_OK \<and>
        unat (snd r) = length (fitting room (unat (fptr f)) src n) \<and>
        B' = overwrite B (unat (fptr f)) (fitting room (unat (fptr f)) src n) \<and> q = unat (fptr f) + unat (snd r))"
    and f_sync_file: "opened f B s \<Longrightarrow>
      answers opened (f_sync FF f) s (\<lambda>r B' q. r = FR_OK \<and> B' = B \<and> q = unat (fptr f))"
    and f_truncate_file: "opened f B s \<Longrightarrow>
      answers opened (f_truncate FF f) s (\<lambda>r B' q. r = FR_OK \<and> B' = take (unat (fptr f)) B \<and> q = unat (fptr f))"
begin

section \<open>Steps on a descriptor\<close>

text \<open>Programs between two descriptor states.\<close>

lemma run_file_call:
  assumes s: "descriptor opened c fd app l (B, p) s"
    and q: "\<And>f. opened f B s \<Longrightarrow> unat (fptr f) = p \<Longrightarrow> answers opened (q f) s Q"
  obtains r s' B' p' where "on_file c fd q s = (Ret r, s')" and "descriptor opened c fd app l (B', p') s'"
    and "Q r B' p'"
proof -
  obtain x where x: "holds c x s" "0 \<le> fd" "nat fd < length (files x)" "fat_lock x = l" "o_append x ! nat fd = app"
    "opened (files x ! nat fd) B s" "unat (fptr (files x ! nat fd)) = p"
    using s by (auto simp: descriptor_def)
  obtain r f s1 B' where run: "q (files x ! nat fd) s = (Ret (r, f), s1)" and v: "vfs_view s1 = vfs_view s"
    and o: "opened f B' s1" and Q: "Q r B' (unat (fptr f))"
    using q [OF x(6,7)] by (rule answersE)
  obtain y where y: "holds c y s1" "hide_fs y = hide_fs x" using v x(1) by (rule view_holds)
  let ?y = "y\<lparr>files := (files y)[nat fd := f]\<rparr>"
  note same = hide_fs_fields [OF y(2)]
  have "on_file c fd q s = (Ret r, set_ctx c ?y s1)"
    using x(1-3) y(1) run same
    by (simp add: on_file_def upd_file_def upd_ctx_def bind_assoc run_bind_Ret prog_simps run_ctx run_file)
  moreover have "descriptor opened c fd app l (B', unat (fptr f)) (set_ctx c ?y s1)"
    unfolding descriptor_def using x(2-5) y(1) same o holds_in_table [OF y(1)]
    by (intro exI [of _ ?y]) (simp add: opened_ctx [OF y(1)])
  ultimately show thesis using Q that by blast
qed

text \<open>Reading the file object, taking and giving back the lock, and setting \<open>errno\<close>.\<close>

lemma descriptor_file:
  assumes "descriptor opened c fd app l (B, p) s"
  obtains f where "file_of c fd s = (Ret f, s)" and "opened f B s" and "unat (fptr f) = p"
  using assms run_file(1) unfolding descriptor_def by fastforce

lemma descriptor_lock:
  assumes "descriptor opened c fd app False st s"
  obtains s' where "lock_ctx c s = (Ret (), s')" and "descriptor opened c fd app True st s'"
proof -
  obtain x where x: "holds c x s" "0 \<le> fd" "nat fd < length (files x)" "\<not> fat_lock x" "o_append x ! nat fd = app"
    "opened (files x ! nat fd) (fst st) s" "unat (fptr (files x ! nat fd)) = snd st"
    using assms by (auto simp: descriptor_def)
  let ?x = "x\<lparr>fat_lock := True\<rparr>"
  have "lock_ctx c s = (Ret (), set_ctx c ?x s)"
    using x(1,4) by (simp add: lock_ctx_def prog_simps run_ctx lock_acquire_def run_bind_Ret)
  moreover have "descriptor opened c fd app True st (set_ctx c ?x s)"
    unfolding descriptor_def using x holds_in_table [OF x(1)]
    by (intro exI [of _ ?x]) (simp add: opened_ctx [OF x(1)])
  ultimately show thesis by (rule that)
qed

lemma descriptor_unlock:
  assumes "descriptor opened c fd app l st s"
  obtains s' where "unlock_ctx c s = (Ret (), s')" and "descriptor opened c fd app False st s'"
proof -
  obtain x where x: "holds c x s" "0 \<le> fd" "nat fd < length (files x)" "o_append x ! nat fd = app"
    "opened (files x ! nat fd) (fst st) s" "unat (fptr (files x ! nat fd)) = snd st"
    using assms by (auto simp: descriptor_def)
  let ?x = "x\<lparr>fat_lock := False\<rparr>"
  have "unlock_ctx c s = (Ret (), set_ctx c ?x s)"
    using x(1) by (simp add: unlock_ctx_def upd_ctx_def prog_simps run_ctx)
  moreover have "descriptor opened c fd app False st (set_ctx c ?x s)"
    unfolding descriptor_def using x holds_in_table [OF x(1)]
    by (intro exI [of _ ?x]) (simp add: opened_ctx [OF x(1)])
  ultimately show thesis by (rule that)
qed

lemma descriptor_errno: "descriptor opened c fd app l st (s\<lparr>errno := e\<rparr>) = descriptor opened c fd app l st s"
  by (simp add: descriptor_def opened_errno)

text \<open>The state of an operation is inside the room, and no count has the sign bit.\<close>

lemma descriptor_bounds:
  assumes "descriptor opened c fd app l (B, p) s"
  shows "p \<le> length B" and "length B \<le> room"
  using assms opened_bounds by (auto simp: descriptor_def)

lemma sint_count: "unat (w :: u32) \<le> room \<Longrightarrow> sint w = int (unat w)"
  using room_off_t by (simp add: sint_small)

lemma sought_bounds:
  "sought room n B B' q \<Longrightarrow> length B \<le> room \<Longrightarrow> q \<le> length B' \<and> length B' \<le> room \<and> length B \<le> length B'"
  by (auto simp: sought_def split: if_splits)

section \<open>Filling with zeros and resizing\<close>

lemma write_zeros_once:
  assumes "opened f B s" and "unat (fptr f) + unat n \<le> room"
  obtains f' s' where "f_write FF (\<lambda>_. 0) n f s = (Ret ((FR_OK, n), f'), s')" and "vfs_view s' = vfs_view s"
    and "opened f' (overwrite B (unat (fptr f)) (replicate (unat n) 0)) s'"
    and "unat (fptr f') = unat (fptr f) + unat n"
proof -
  have fit: "fitting room (unat (fptr f)) (\<lambda>_. 0) n = replicate (unat n) 0"
    using assms(2) by (simp add: fitting_def)
  obtain r f' s' B' where w: "f_write FF (\<lambda>_. 0) n f s = (Ret (r, f'), s')" "vfs_view s' = vfs_view s" "opened f' B' s'"
    and post: "fst r = FR_OK \<and> unat (snd r) = unat n \<and>
      B' = overwrite B (unat (fptr f)) (replicate (unat n) 0) \<and> unat (fptr f') = unat (fptr f) + unat (snd r)"
    using f_write_file [OF assms(1), of "\<lambda>_. 0" n] unfolding fit length_replicate by (rule answersE)
  from post have "r = (FR_OK, n)" by (cases r) (auto intro: unsigned_word_eqI)
  with w post show thesis using that by auto
qed

text \<open>The loop over whole buffers has written \<open>i\<close> zeros when its counter is at \<open>i\<close>.\<close>

lemma zero_chunks_file:
  assumes o: "opened f B s" and "unat (fptr f) + unat data_size \<le> room"
    and "0 < data_size" and "0 < buf_size" and "buf_size < data_size"
  obtains i fp s' where "zero_chunks FF data_size buf_size (0, Some 0, f) s = (Ret (FR_OK, i, Some i, fp), s')"
    and "i < data_size" and "vfs_view s' = vfs_view s"
    and "opened fp (overwrite B (unat (fptr f)) (replicate (unat i) 0)) s'" and "unat (fptr fp) = unat (fptr f) + unat i"
proof -
  let ?p = "unat (fptr f)"
  let ?at = "\<lambda>i fp t. i < data_size \<and> vfs_view t = vfs_view s \<and> opened fp (overwrite B ?p (replicate (unat i) 0)) t \<and>
     unat (fptr fp) = ?p + unat i"
  let ?inv = "\<lambda>(i, bw, fp) t. bw = Some i \<and> ?at i fp t"
  let ?left = "\<lambda>(res, i, bw, fp) t. res = FR_OK \<and> bw = Some i \<and> ?at i fp t"
  have p: "?p \<le> length B" using opened_bounds [OF o] by simp
  have "hoare (?inv (0, Some 0, f)) (zero_chunks FF data_size buf_size (0, Some 0, f)) ?left"
    unfolding zero_chunks_def
  proof (rule hoare_loop_state [where \<mu> = "\<lambda>x _. unat data_size - unat (fst x)"])
    fix x t assume inv: "?inv x t"
    then obtain i fp where x: "x = (i, Some i, fp)" and i: "?at i fp t" by (cases x) auto
    show "\<exists>y s'. (case x of (i, bytes_written, fp) \<Rightarrow>
         if i < data_size - buf_size then
           bind (f_write FF (\<lambda>_. 0) buf_size fp) (\<lambda>((res, bw), fp').
           if res \<noteq> FR_OK then ret (Inl (res, i, bytes_written, fp'))
           else ret (Inr (i + buf_size, map_option (\<lambda>n. n + bw) bytes_written, fp')))
         else ret (Inl (FR_OK, i, bytes_written, fp))) t = (Ret y, s') \<and>
       (case y of Inl r \<Rightarrow> ?left r s'
        | Inr x' \<Rightarrow> ?inv x' s' \<and> unat data_size - unat (fst x') < unat data_size - unat (fst x))"
    proof (cases "i < data_size - buf_size")
      case True
      note cs = chunk_step [OF True assms(4,5)]
      have "opened fp (overwrite B ?p (replicate (unat i) 0)) t" "unat (fptr fp) + unat buf_size \<le> room"
        using i cs assms(2) by simp_all
      then obtain f' t' where w: "f_write FF (\<lambda>_. 0) buf_size fp t = (Ret ((FR_OK, buf_size), f'), t')"
        and v: "vfs_view t' = vfs_view t"
        and o': "opened f' (overwrite (overwrite B ?p (replicate (unat i) 0)) (unat (fptr fp)) (replicate (unat buf_size) 0)) t'"
        and pos: "unat (fptr f') = unat (fptr fp) + unat buf_size"
        by (rule write_zeros_once)
      have "opened f' (overwrite B ?p (replicate (unat (i + buf_size)) 0)) t'"
        using o' i overwrite_append [OF p, of "replicate (unat i) 0" "replicate (unat buf_size) 0"] cs(1)
        by (simp add: replicate_add)
      then show ?thesis using True w v pos cs x i assms(4)
        by (simp add: run_bind_Ret prog_simps word_less_nat_alt)
    qed (use x i in \<open>simp add: prog_simps\<close>)
  qed
  then show thesis using that assms(1,3) by (fastforce simp: hoare_def)
qed

lemma write_zeros_file:
  assumes o: "opened f B s" and fits: "unat (fptr f) + unat data_size \<le> room" and "0 < data_size" and "0 < buf_size"
  shows "answers opened (f_write_zero_mem FF data_size buf_size (Some w) f) s (\<lambda>r B' q. r = (FR_OK, Some data_size) \<and>
     B' = overwrite B (unat (fptr f)) (replicate (unat data_size) 0) \<and>
     q = unat (fptr f) + unat data_size)"
proof -
  let ?p = "unat (fptr f)"
  obtain i fp t where body: "(if buf_size < data_size then zero_chunks FF data_size buf_size (0, Some 0, f)
        else ret (FR_OK, 0, Some 0, f)) s = (Ret (FR_OK, i, Some i, fp), t)"
    and i: "i < data_size" "vfs_view t = vfs_view s" "unat (fptr fp) = ?p + unat i"
    and B1: "opened fp (overwrite B ?p (replicate (unat i) 0)) t"
  proof (cases "buf_size < data_size")
    case True
    then show thesis using zero_chunks_file [OF assms True] that by auto
  qed (use that [of 0 f s] assms(3) o in \<open>simp add: prog_simps\<close>)
  have rest: "unat i + unat (data_size - i) = unat data_size"
    using i(1) by (simp add: unat_diff_no_wrap word_less_nat_alt)
  have "unat (fptr fp) + unat (data_size - i) \<le> room" using i(3) rest fits by simp
  with B1 obtain f' t' where w: "f_write FF (\<lambda>_. 0) (data_size - i) fp t = (Ret ((FR_OK, data_size - i), f'), t')"
    and v: "vfs_view t' = vfs_view t"
    and o': "opened f' (overwrite (overwrite B ?p (replicate (unat i) 0)) (unat (fptr fp)) (replicate (unat (data_size - i)) 0)) t'"
    and pos: "unat (fptr f') = unat (fptr fp) + unat (data_size - i)"
    by (rule write_zeros_once)
  have "opened f' (overwrite B ?p (replicate (unat data_size) 0)) t'"
    using o' i(3) opened_bounds [OF o] rest
      overwrite_append [of ?p B "replicate (unat i) 0" "replicate (unat (data_size - i)) 0"]
    by (simp flip: replicate_add)
  moreover have "ff_memalloc buf_size s = (Ret True, s)" using opened_memory [OF o] by (rule memalloc_empty_heap)
  moreover have "data_size \<noteq> 0" "buf_size \<noteq> 0" using assms(3,4) by auto
  ultimately show ?thesis
    using body i v w pos rest
    by (intro answersI [where s' = t' and f = f']) (simp_all add: f_write_zero_mem_def run_bind_Ret prog_simps Let_def)
qed

lemma seek_run:
  assumes "opened f B s"
  obtains f' s' B' where "f_lseek FF n f s = (Ret (FR_OK, f'), s')" and "vfs_view s' = vfs_view s" and "opened f' B' s'"
    and "sought room (unat n) B B' (unat (fptr f'))"
  using f_lseek_file [OF assms, of n] by (auto elim: answersE)

lemma seek_inside_run:
  assumes "opened f B s" and "unat n \<le> length B"
  obtains f' s' where "f_lseek FF n f s = (Ret (FR_OK, f'), s')" and "vfs_view s' = vfs_view s" and "opened f' B s'"
    and "fptr f' = n"
  using seek_run [OF assms(1), of n] assms(2) unfolding sought_def by (metis unsigned_word_eqI)

lemma resize_file_cut:
  assumes o: "opened f B s" and len: "unat len \<le> length B"
  shows "answers opened (resize_file FF len f) s (resized room len B p)"
proof -
  obtain f1 s1 where l: "f_lseek FF len f s = (Ret (FR_OK, f1), s1)" "vfs_view s1 = vfs_view s" "opened f1 B s1" "fptr f1 = len"
    using o len by (rule seek_inside_run)
  obtain r f2 s2 B2 where u: "f_truncate FF f1 s1 = (Ret (r, f2), s2)" "vfs_view s2 = vfs_view s1" "opened f2 B2 s2"
    and post: "r = FR_OK \<and> B2 = take (unat (fptr f1)) B \<and> unat (fptr f2) = unat (fptr f1)"
    using f_truncate_file [OF l(3)] by (rule answersE)
  have "\<not> objsize f < len" using len opened_bounds [OF o] by (simp add: word_less_nat_alt)
  then show ?thesis using l u post len
    by (intro answersI [where s' = s2 and f = f2 and B = B2])
      (simp_all add: resize_file_def run_bind_Ret prog_simps Let_def resized_def)
qed

lemma resize_file_full:
  assumes o: "opened f B s" and len: "length B < unat len" "room < unat len"
  shows "answers opened (resize_file FF len f) s (resized room len B p)"
proof -
  obtain f1 s1 B1 where l: "f_lseek FF len f s = (Ret (FR_OK, f1), s1)" "vfs_view s1 = vfs_view s" "opened f1 B1 s1"
    "sought room (unat len) B B1 (unat (fptr f1))"
    using o by (rule seek_run)
  have "fptr f1 \<noteq> len" using l(4) len by (auto simp: sought_def)
  then show ?thesis using l len
    by (intro answersI [where s' = s1 and f = f1 and B = B1])
      (simp_all add: resize_file_def run_bind_Ret prog_simps Let_def resized_def)
qed

lemma resize_file_grow:
  assumes o: "opened f B s" and len: "length B < unat len" "unat len \<le> room"
  shows "answers opened (resize_file FF len f) s (resized room len B (unat (fptr f)))"
proof -
  note ob = opened_bounds [OF o]
  let ?n = "len - objsize f"
  define b where "b = (if ?n < F_WRITE_MALLOC_ZEROING_BUF_SIZE_LIMIT then ?n else F_WRITE_MALLOC_ZEROING_BUF_SIZE_LIMIT)"
  obtain f1 s1 B1 where l1: "f_lseek FF len f s = (Ret (FR_OK, f1), s1)" "vfs_view s1 = vfs_view s" "opened f1 B1 s1"
    "sought room (unat len) B B1 (unat (fptr f1))"
    using o by (rule seek_run)
  then have B1: "length B1 = unat len" "take (length B) B1 = B" "fptr f1 = len"
    using len by (auto simp: sought_def intro: unsigned_word_eqI)
  have "unat (objsize f) \<le> length B1" using B1(1) ob len by simp
  with l1(3) obtain f2 s2 where l2: "f_lseek FF (objsize f) f1 s1 = (Ret (FR_OK, f2), s2)" "vfs_view s2 = vfs_view s1"
    "opened f2 B1 s2" "fptr f2 = objsize f"
    by (rule seek_inside_run)
  have lt: "objsize f < len" using len(1) ob by (simp add: word_less_nat_alt)
  have n: "unat ?n = unat len - length B" using lt ob by (simp add: unat_diff_no_wrap word_less_nat_alt)
  then have pos: "0 < ?n" using len(1) by (simp add: word_less_nat_alt)
  have "unat (fptr f2) + unat ?n \<le> room" "0 < b"
    using l2(4) n ob len pos by (simp_all add: b_def F_WRITE_MALLOC_ZEROING_BUF_SIZE_LIMIT_def)
  note zeros = write_zeros_file [OF l2(3) this(1) pos this(2), of 0]
  have tail: "overwrite B1 (unat (fptr f2)) (replicate (unat ?n) 0) = B @ replicate (unat len - length B) 0"
    using overwrite_tail [of "length B" "replicate (unat ?n) 0" B1] l2(4) ob B1 n len(1) by simp
  obtain r f3 s3 B3 where z: "f_write_zero_mem FF ?n b (Some 0) f2 s2 = (Ret (r, f3), s3)"
    "vfs_view s3 = vfs_view s2" "opened f3 B3 s3"
    and post: "r = (FR_OK, Some ?n) \<and> B3 = overwrite B1 (unat (fptr f2)) (replicate (unat ?n) 0) \<and>
      unat (fptr f3) = unat (fptr f2) + unat ?n"
    using zeros by (rule answersE)
  then have B3: "opened f3 (B @ replicate (unat len - length B) 0) s3" using tail by simp
  moreover have "unat (fptr f) \<le> length (B @ replicate (unat len - length B) 0)" using ob by simp
  ultimately obtain f4 s4 where l4: "f_lseek FF (fptr f) f3 s3 = (Ret (FR_OK, f4), s4)" "vfs_view s4 = vfs_view s3"
    "opened f4 (B @ replicate (unat len - length B) 0) s4" "fptr f4 = fptr f"
    by (rule seek_inside_run)
  show ?thesis using l1 l2 z post l4 B1(3) lt len
    by (intro answersI [where s' = s4 and f = f4 and B = "B @ replicate (unat len - length B) 0"])
      (simp_all add: resize_file_def run_bind_Ret prog_simps Let_def resized_def flip: b_def)
qed

lemma resize_file_answers:
  "opened f B s \<Longrightarrow> answers opened (resize_file FF len f) s (resized room len B (unat (fptr f)))"
  using resize_file_cut resize_file_grow resize_file_full by (meson not_le)

section \<open>Each operation is a step of the file\<close>

lemma descriptor_ctx:
  assumes "descriptor opened c fd app l st s"
  obtains x where "ctx_of c s = (Ret x, s)" and "o_append x ! nat fd = app"
  using assms run_ctx(1) unfolding descriptor_def by blast

text \<open>The functions of FatFS on the file of a descriptor.\<close>

lemma fd_seek:
  assumes "descriptor opened c fd app l (B, p) s"
  obtains s' B' q where "on_file c fd (f_lseek FF n) s = (Ret FR_OK, s')"
    and "descriptor opened c fd app l (B', q) s'" and "sought room (unat n) B B' q"
  using run_file_call [OF assms, of "f_lseek FF n", OF f_lseek_file] by metis

lemma fd_seek_inside:
  assumes "descriptor opened c fd app l (B, p) s" and "unat n \<le> length B"
  obtains s' where "on_file c fd (f_lseek FF n) s = (Ret FR_OK, s')" and "descriptor opened c fd app l (B, unat n) s'"
  using fd_seek [OF assms(1), of n] assms(2) unfolding sought_def by metis

lemma fd_sync:
  assumes "descriptor opened c fd app l (B, p) s"
  obtains s' where "on_file c fd (f_sync FF) s = (Ret FR_OK, s')" and "descriptor opened c fd app l (B, p) s'"
proof (rule run_file_call [OF assms, of "f_sync FF"])
  show "opened f B s \<Longrightarrow> unat (fptr f) = p \<Longrightarrow>
      answers opened (f_sync FF f) s (\<lambda>r B' q. r = FR_OK \<and> B' = B \<and> q = p)" for f
    using f_sync_file [of f B s] by (auto simp: answers_def)
qed (use that in blast)

lemma fd_read:
  assumes "descriptor opened c fd app l (B, p) s"
  obtains rd s' where "on_file c fd (f_read FF n) s = (Ret (FR_OK, rd, take (unat n) (drop p B)), s')"
    and "sint rd = int (length (take (unat n) (drop p B)))"
    and "descriptor opened c fd app l (B, p + length (take (unat n) (drop p B))) s'"
proof -
  let ?d = "take (unat n) (drop p B)"
  obtain r s' B' q where r: "on_file c fd (f_read FF n) s = (Ret r, s')" and D: "descriptor opened c fd app l (B', q) s'"
    and Q: "fst r = FR_OK \<and> B' = B \<and> snd (snd r) = ?d \<and> unat (fst (snd r)) = length ?d \<and> q = p + length ?d"
  proof (rule run_file_call [OF assms, of "f_read FF n"])
    show "opened f B s \<Longrightarrow> unat (fptr f) = p \<Longrightarrow> answers opened (f_read FF n f) s (\<lambda>r B' q. fst r = FR_OK \<and> B' = B \<and>
        snd (snd r) = ?d \<and> unat (fst (snd r)) = length ?d \<and> q = p + length ?d)" for f
      using f_read_file [of f B s n] by (auto simp: answers_def)
  qed (use that in blast)
  have "length ?d \<le> room" using descriptor_bounds [OF assms] by simp
  then have "sint (fst (snd r)) = int (length ?d)" using Q sint_count by metis
  moreover have "r = (FR_OK, fst (snd r), ?d)" using Q by (metis prod.collapse)
  ultimately show thesis using that [of "fst (snd r)" s'] r D Q by metis
qed

lemma fd_write:
  assumes "descriptor opened c fd app l (B, p) s"
  obtains wr s' where "on_file c fd (f_write FF src n) s = (Ret (FR_OK, wr), s')"
    and "unat wr = length (fitting room p src n)" and "sint wr = int (length (fitting room p src n))"
    and "descriptor opened c fd app l (overwrite B p (fitting room p src n), p + length (fitting room p src n)) s'"
proof -
  let ?w = "fitting room p src n"
  obtain r s' B' q where r: "on_file c fd (f_write FF src n) s = (Ret r, s')" and D: "descriptor opened c fd app l (B', q) s'"
    and Q: "fst r = FR_OK \<and> unat (snd r) = length ?w \<and> B' = overwrite B p ?w \<and> q = p + length ?w"
  proof (rule run_file_call [OF assms, of "f_write FF src n"])
    show "opened f B s \<Longrightarrow> unat (fptr f) = p \<Longrightarrow> answers opened (f_write FF src n f) s (\<lambda>r B' q. fst r = FR_OK \<and>
        unat (snd r) = length ?w \<and> B' = overwrite B p ?w \<and> q = p + length ?w)" for f
      using f_write_file [of f B s src n] by (auto simp: answers_def)
  qed (use that in blast)
  have "length ?w \<le> room" by (simp add: fitting_def)
  then have "sint (snd r) = int (length ?w)" using Q sint_count by metis
  moreover have "r = (FR_OK, snd r)" using Q by (metis prod.collapse)
  ultimately show thesis using that [of "snd r" s'] r D Q by metis
qed

definition steps :: "nat \<Rightarrow> int \<Rightarrow> bool \<Rightarrow> vfs_config \<Rightarrow> fd_call \<Rightarrow> bool" where
  "steps c fd app C q \<longleftrightarrow> (\<forall>B p s. descriptor opened c fd app False (B, p) s \<longrightarrow>
     (\<exists>r s' st'. fd_run C FF c fd q s = (Ret r, s') \<and> file_step room app q (B, p) r st' \<and>
        descriptor opened c fd app False st' s'))"

lemma stepsI:
  "(\<And>B p s. descriptor opened c fd app False (B, p) s \<Longrightarrow>
     \<exists>r s' st'. fd_run C FF c fd q s = (Ret r, s') \<and> file_step room app q (B, p) r st' \<and>
        descriptor opened c fd app False st' s') \<Longrightarrow> steps c fd app C q"
  by (simp add: steps_def)

lemma read_steps: "steps c fd app C (Read_fd n)"
proof (rule stepsI)
  fix B p s assume "descriptor opened c fd app False (B, p) s"
  then obtain rd s' where r: "on_file c fd (f_read FF n) s = (Ret (FR_OK, rd, take (unat n) (drop p B)), s')"
    "sint rd = int (length (take (unat n) (drop p B)))"
    and D: "descriptor opened c fd app False (B, p + length (take (unat n) (drop p B))) s'"
    by (rule fd_read)
  then have "fd_run C FF c fd (Read_fd n) s = (Ret (int (length (take (unat n) (drop p B))), take (unat n) (drop p B)), s')"
    by (simp add: vfs_fat_read_def run_bind_Ret prog_simps)
  then show "\<exists>r s' st'. fd_run C FF c fd (Read_fd n) s = (Ret r, s') \<and> file_step room app (Read_fd n) (B, p) r st' \<and>
      descriptor opened c fd app False st' s'"
    using D step_read [OF refl] by blast
qed

lemma fsync_steps: "steps c fd app C Fsync_fd"
proof (rule stepsI)
  fix B p s assume "descriptor opened c fd app False (B, p) s"
  then obtain s' where "on_file c fd (f_sync FF) s = (Ret FR_OK, s')" and D: "descriptor opened c fd app False (B, p) s'"
    by (rule fd_sync)
  then have "fd_run C FF c fd Fsync_fd s = (Ret (0, []), s')"
    by (simp add: vfs_fat_fsync_def return_fresult_def run_bind_Ret prog_simps)
  then show "\<exists>r s' st'. fd_run C FF c fd Fsync_fd s = (Ret r, s') \<and> file_step room app Fsync_fd (B, p) r st' \<and>
      descriptor opened c fd app False st' s'"
    using D step_fsync by blast
qed

lemma pread_steps: "steps c fd app C (Pread_fd n off)"
proof (rule stepsI)
  fix B p s assume D: "descriptor opened c fd app False (B, p) s"
  obtain s1 where s1: "lock_ctx c s = (Ret (), s1)" and D1: "descriptor opened c fd app True (B, p) s1"
    using D by (rule descriptor_lock)
  obtain f where f: "file_of c fd s1 = (Ret f, s1)" "opened f B s1" "unat (fptr f) = p"
    using D1 by (rule descriptor_file)
  obtain s2 B' q where s2: "on_file c fd (f_lseek FF off) s1 = (Ret FR_OK, s2)"
    and D2: "descriptor opened c fd app True (B', q) s2" and q: "sought room (unat off) B B' q"
    using D1 by (rule fd_seek)
  let ?d = "take (unat n) (drop q B')"
  obtain rd s3 where s3: "on_file c fd (f_read FF n) s2 = (Ret (FR_OK, rd, ?d), s3)" "sint rd = int (length ?d)"
    and D3: "descriptor opened c fd app True (B', q + length ?d) s3"
    using D2 by (rule fd_read)
  have "unat (fptr f) \<le> length B'"
    using f(3) descriptor_bounds [OF D] sought_bounds [OF q] by simp
  with D3 obtain s4 where s4: "on_file c fd (f_lseek FF (fptr f)) s3 = (Ret FR_OK, s4)"
    and D4: "descriptor opened c fd app True (B', unat (fptr f)) s4"
    by (rule fd_seek_inside)
  obtain s5 where s5: "unlock_ctx c s4 = (Ret (), s5)" and D5: "descriptor opened c fd app False (B', unat (fptr f)) s5"
    using D4 by (rule descriptor_unlock)
  have "fd_run C FF c fd (Pread_fd n off) s = (Ret (int (length ?d), ?d), s5)"
    using s1 f s2 s3 s4 s5 by (simp add: vfs_fat_pread_def restore_position_def run_bind_Ret prog_simps Let_def)
  then show "\<exists>r s' st'. fd_run C FF c fd (Pread_fd n off) s = (Ret r, s') \<and>
      file_step room app (Pread_fd n off) (B, p) r st' \<and> descriptor opened c fd app False st' s'"
    using D5 f(3) step_pread [OF q refl] by blast
qed

lemma fitting_empty:
  assumes "fitting room q src n = []" and "n \<noteq> 0"
  shows "room \<le> q"
  using assms by (auto simp: fitting_def buf_bytes_def unat_eq_0)

text \<open>The synchronisation after a write, when it is configured.\<close>

lemma fd_sync_after:
  assumes "descriptor opened c fd app l st s"
  obtains s' where "(if b then on_file c fd (f_sync FF) else ret FR_OK) s = (Ret FR_OK, s')"
    and "descriptor opened c fd app l st s'"
proof (cases b)
  case True
  have "descriptor opened c fd app l (fst st, snd st) s" using assms by simp
  then obtain s' where "on_file c fd (f_sync FF) s = (Ret FR_OK, s')" "descriptor opened c fd app l (fst st, snd st) s'"
    by (rule fd_sync)
  then show thesis using that True by simp
qed (use that assms in \<open>simp add: prog_simps\<close>)

text \<open>A write starts at the position, or at the end of a file opened for appending.\<close>

lemma write_start:
  assumes D: "descriptor opened c fd app l (B, p) s" and f: "opened f B s"
  obtains s' where "(if app then on_file c fd (f_lseek FF (f_size f)) else ret FR_OK) s = (Ret FR_OK, s')"
    and "descriptor opened c fd app l (B, if app then length B else p) s'"
proof (cases app)
  case True
  have n: "unat (f_size f) = length B" using opened_bounds [OF f] by simp
  then obtain s' where "on_file c fd (f_lseek FF (f_size f)) s = (Ret FR_OK, s')"
    "descriptor opened c fd app l (B, unat (f_size f)) s'"
    using fd_seek_inside [OF D, of "f_size f"] by auto
  then show thesis using that True n by simp
qed (use that D in \<open>simp add: prog_simps\<close>)

lemma write_steps: "steps c fd app C (Write_fd src n)"
proof (rule stepsI)
  fix B p s assume D: "descriptor opened c fd app False (B, p) s"
  let ?q = "if app then length B else p"
  let ?w = "fitting room ?q src n"
  obtain s1 where s1: "lock_ctx c s = (Ret (), s1)" and D1: "descriptor opened c fd app True (B, p) s1"
    using D by (rule descriptor_lock)
  obtain x where x: "ctx_of c s1 = (Ret x, s1)" "o_append x ! nat fd = app" using D1 by (rule descriptor_ctx)
  obtain f where f: "file_of c fd s1 = (Ret f, s1)" "opened f B s1" "unat (fptr f) = p"
    using D1 by (rule descriptor_file)
  obtain s2 where s2: "(if app then on_file c fd (f_lseek FF (f_size f)) else ret FR_OK) s1 = (Ret FR_OK, s2)"
    and D2: "descriptor opened c fd app True (B, ?q) s2"
    using D1 f(2) by (rule write_start)
  obtain wr s3 where s3: "on_file c fd (f_write FF src n) s2 = (Ret (FR_OK, wr), s3)"
    and wr: "unat wr = length ?w" "sint wr = int (length ?w)"
    and D3: "descriptor opened c fd app True (overwrite B ?q ?w, ?q + length ?w) s3"
    using D2 by (rule fd_write)
  note run = s1 x f(1) s2 s3
  show "\<exists>r s' st'. fd_run C FF c fd (Write_fd src n) s = (Ret r, s') \<and>
      file_step room app (Write_fd src n) (B, p) r st' \<and> descriptor opened c fd app False st' s'"
  proof (cases "wr = 0 \<and> n \<noteq> 0")
    case True
    then have none: "?w = []" using wr(1) by simp
    obtain s4 where s4: "unlock_ctx c (s3\<lparr>errno := ENOSPC\<rparr>) = (Ret (), s4)"
      and D4: "descriptor opened c fd app False (B, ?q) s4"
      using descriptor_unlock [of c fd app True "(B, ?q)" "s3\<lparr>errno := ENOSPC\<rparr>"] D3 none
      by (auto simp: descriptor_errno)
    have "fd_run C FF c fd (Write_fd src n) s = (Ret (-1, []), s4)"
      using run s4 True by (simp add: vfs_fat_write_def set_errno_def run_bind_Ret prog_simps bind_assoc)
    moreover have "room \<le> ?q" using none True by (intro fitting_empty) auto
    ultimately show ?thesis using D4 True step_write_full [OF refl] by blast
  next
    case False
    obtain s4 where s4: "(if FATFS_IMMEDIATE_FSYNC C \<and> 0 < wr then on_file c fd (f_sync FF) else ret FR_OK) s3 = (Ret FR_OK, s4)"
      and D4: "descriptor opened c fd app True (overwrite B ?q ?w, ?q + length ?w) s4"
      using D3 by (rule fd_sync_after)
    obtain s5 where s5: "unlock_ctx c s4 = (Ret (), s5)"
      and D5: "descriptor opened c fd app False (overwrite B ?q ?w, ?q + length ?w) s5"
      using D4 by (rule descriptor_unlock)
    have "fd_run C FF c fd (Write_fd src n) s = (Ret (int (length ?w), []), s5)"
      using run s4 s5 wr(2) by (simp add: vfs_fat_write_def run_bind_Ret prog_simps bind_assoc if_not_P [OF False])
    moreover have "?w \<noteq> [] \<or> n = 0" using False wr(1) by (auto simp: unat_eq_0)
    ultimately show ?thesis using D5 step_write [OF refl fitting_def] by blast
  qed
qed

lemma pwrite_steps:
  assumes "n = 0 \<or> unat off < room"
  shows "steps c fd app C (Pwrite_fd src n off)"
proof (rule stepsI)
  fix B p s assume D: "descriptor opened c fd app False (B, p) s"
  obtain s1 where s1: "lock_ctx c s = (Ret (), s1)" and D1: "descriptor opened c fd app True (B, p) s1"
    using D by (rule descriptor_lock)
  obtain f where f: "file_of c fd s1 = (Ret f, s1)" "opened f B s1" "unat (fptr f) = p"
    using D1 by (rule descriptor_file)
  obtain s2 B' q where s2: "on_file c fd (f_lseek FF off) s1 = (Ret FR_OK, s2)"
    and D2: "descriptor opened c fd app True (B', q) s2" and q: "sought room (unat off) B B' q"
    using D1 by (rule fd_seek)
  let ?w = "fitting room q src n"
  obtain wr s3 where s3: "on_file c fd (f_write FF src n) s2 = (Ret (FR_OK, wr), s3)"
    and wr: "unat wr = length ?w" "sint wr = int (length ?w)"
    and D3: "descriptor opened c fd app True (overwrite B' q ?w, q + length ?w) s3"
    using D2 by (rule fd_write)
  have room: "?w \<noteq> [] \<or> n = 0"
    using assms q fitting_empty [of q src n] by (fastforce simp: sought_def split: if_splits)
  then have full: "\<not> (wr = 0 \<and> n \<noteq> 0)" using wr(1) by auto
  have "unat (fptr f) \<le> length (overwrite B' q ?w)"
    using f(3) descriptor_bounds [OF D] sought_bounds [OF q] by (simp add: le_max_iff_disj)
  with D3 obtain s4 where s4: "on_file c fd (f_lseek FF (fptr f)) s3 = (Ret FR_OK, s4)"
    and D4: "descriptor opened c fd app True (overwrite B' q ?w, unat (fptr f)) s4"
    by (rule fd_seek_inside)
  obtain s5 where s5: "(if FATFS_IMMEDIATE_FSYNC C \<and> 0 < wr then on_file c fd (f_sync FF) else ret FR_OK) s4 = (Ret FR_OK, s5)"
    and D5: "descriptor opened c fd app True (overwrite B' q ?w, unat (fptr f)) s5"
    using D4 by (rule fd_sync_after)
  obtain s6 where s6: "unlock_ctx c s5 = (Ret (), s6)"
    and D6: "descriptor opened c fd app False (overwrite B' q ?w, unat (fptr f)) s6"
    using D5 by (rule descriptor_unlock)
  have "fd_run C FF c fd (Pwrite_fd src n off) s = (Ret (int (length ?w), []), s6)"
  proof (cases "FATFS_IMMEDIATE_FSYNC C \<and> 0 < wr")
    case True
    then show ?thesis using s1 f(1) s2 s3 s4 s5 s6 wr(2)
      by (simp add: vfs_fat_pwrite_def restore_position_def run_bind_Ret prog_simps bind_assoc Let_def if_not_P [OF full])
  next
    case False
    have "s5 = s4" using s5 unfolding if_not_P [OF False] by (simp add: prog_simps)
    then show ?thesis using s1 f(1) s2 s3 s4 s6 wr(2)
      by (simp add: vfs_fat_pwrite_def restore_position_def run_bind_Ret prog_simps bind_assoc Let_def
          if_not_P [OF full] if_not_P [OF False])
  qed
  then show "\<exists>r s' st'. fd_run C FF c fd (Pwrite_fd src n off) s = (Ret r, s') \<and>
      file_step room app (Pwrite_fd src n off) (B, p) r st' \<and> descriptor opened c fd app False st' s'"
    using D6 f(3) step_pwrite [OF q fitting_def room] by blast
qed

text \<open>Seeking: the target of the call is the word FatFS is given.\<close>

lemma off_add_in_room:
  assumes "unat a \<le> room" and "int room + sint b < 2 ^ 31"
  shows "off_add a b s = (Ret (a + b), s)"
proof -
  have "sint a = int (unat a)" "int (unat a) \<le> int room" using assms(1) sint_count by (simp_all only: of_nat_le_iff)
  then have "0 \<le> sint a" "sint a \<le> int room" by simp_all
  then show ?thesis using assms(2) sint_ge [of b] by (simp add: off_add_def prog_simps)
qed

lemma target_run:
  assumes "opened f B s" and "fd_ready room (Lseek_fd off whence)"
  shows "(case whence of
       SEEK_SET \<Rightarrow> ret (Some off)
     | SEEK_CUR \<Rightarrow> bind (off_add (f_tell f) off) (\<lambda>p. ret (Some p))
     | SEEK_END \<Rightarrow> bind (off_add (f_size f) off) (\<lambda>p. ret (Some p))
     | SEEK_OTHER n \<Rightarrow> ret None) s = (Ret (seek_target off whence (B, unat (fptr f))), s)"
proof -
  have b: "unat (fptr f) \<le> room" "unat (objsize f) \<le> room" "length B = unat (objsize f)"
    using opened_bounds [OF assms(1)] by auto
  then show ?thesis using assms(2) off_add_in_room [of _ off s]
    by (cases whence) (simp_all add: prog_simps run_bind_Ret)
qed

lemma lseek_steps:
  assumes "fd_ready room (Lseek_fd off whence)"
  shows "steps c fd app C (Lseek_fd off whence)"
proof (rule stepsI)
  fix B p s assume D: "descriptor opened c fd app False (B, p) s"
  obtain f where f: "file_of c fd s = (Ret f, s)" "opened f B s" "unat (fptr f) = p"
    using D by (rule descriptor_file)
  note target = target_run [OF f(2) assms, unfolded f(3)]
  show "\<exists>r s' st'. fd_run C FF c fd (Lseek_fd off whence) s = (Ret r, s') \<and>
      file_step room app (Lseek_fd off whence) (B, p) r st' \<and> descriptor opened c fd app False st' s'"
  proof (cases "seek_target off whence (B, p)")
    case None
    then have "fd_run C FF c fd (Lseek_fd off whence) s = (Ret (-1, []), s\<lparr>errno := EINVAL\<rparr>)"
      using f(1) target by (simp add: vfs_fat_lseek_def run_bind_Ret bind_assoc vfs_run prog_simps)
    then show ?thesis using D step_lseek_other [OF None] descriptor_errno by blast
  next
    case (Some t)
    obtain s1 B' q where s1: "on_file c fd (f_lseek FF t) s = (Ret FR_OK, s1)"
      and D1: "descriptor opened c fd app False (B', q) s1" and q: "sought room (unat t) B B' q"
      using D by (rule fd_seek)
    have "fd_run C FF c fd (Lseek_fd off whence) s = (Ret (sint t, []), s1)"
      using f(1) target Some s1 by (simp add: vfs_fat_lseek_def run_bind_Ret bind_assoc prog_simps)
    then show ?thesis using D1 step_lseek [OF Some q] by blast
  qed
qed

text \<open>Resizing an open file, with the synchronisation at its end.\<close>

lemma sync_resized_file:
  "opened f B s \<Longrightarrow> answers opened (sync_resized C FF f) s (\<lambda>r B' q. r = 0 \<and> B' = B \<and> q = unat (fptr f))"
  using f_sync_file [of f B s]
  by (auto simp: sync_resized_def answers_def run_bind_Ret prog_simps)

lemma ftruncate_steps: "steps c fd app C (Ftruncate_fd len)"
proof (rule stepsI)
  fix B p s assume D: "descriptor opened c fd app False (B, p) s"
  show "\<exists>r s' st'. fd_run C FF c fd (Ftruncate_fd len) s = (Ret r, s') \<and>
      file_step room app (Ftruncate_fd len) (B, p) r st' \<and> descriptor opened c fd app False st' s'"
  proof (cases "sint len < 0")
    case True
    then have "fd_run C FF c fd (Ftruncate_fd len) s = (Ret (-1, []), s\<lparr>errno := EINVAL\<rparr>)"
      by (simp add: vfs_fat_ftruncate_def vfs_run prog_simps)
    then show ?thesis using D step_negative [OF True] descriptor_errno by blast
  next
    case False
    obtain s1 where s1: "lock_ctx c s = (Ret (), s1)" and D1: "descriptor opened c fd app True (B, p) s1"
      using D by (rule descriptor_lock)
    obtain r s2 B' q where s2: "on_file c fd (resize_file FF len) s1 = (Ret r, s2)"
      and D2: "descriptor opened c fd app True (B', q) s2" and R: "resized room len B p r B' q"
      using run_file_call [OF D1, of "resize_file FF len" "resized room len B p"] resize_file_answers by metis
    obtain v s3 where s3: "(case r of Inl res \<Rightarrow> fail (fresult_to_errno res)
          | Inr _ \<Rightarrow> on_file c fd (sync_resized C FF)) s2 = (Ret v, s3)"
      and D3: "descriptor opened c fd app True (B', q) s3" and v: "v = (case r of Inl _ \<Rightarrow> -1 | Inr _ \<Rightarrow> 0)"
    proof (cases r)
      case (Inl res)
      then show thesis using that D2 descriptor_errno by (simp add: vfs_run)
    next
      case (Inr u)
      obtain v s3 B3 q3 where "on_file c fd (sync_resized C FF) s2 = (Ret v, s3)"
        "descriptor opened c fd app True (B3, q3) s3" "v = 0 \<and> B3 = B' \<and> q3 = q"
        using run_file_call [OF D2, of "sync_resized C FF" "\<lambda>r B3 q3. r = 0 \<and> B3 = B' \<and> q3 = q"] sync_resized_file
        by metis
      then show thesis using that Inr by simp
    qed
    obtain s4 where s4: "unlock_ctx c s3 = (Ret (), s4)" and D4: "descriptor opened c fd app False (B', q) s4"
      using D3 by (rule descriptor_unlock)
    have "fd_run C FF c fd (Ftruncate_fd len) s = (Ret (v, []), s4)"
      using False s1 s2 s3 s4 by (simp add: vfs_fat_ftruncate_def run_bind_Ret bind_assoc prog_simps)
    moreover have "file_step room app (Ftruncate_fd len) (B, p) (v, []) (B', q)"
      using R False v descriptor_bounds [OF D]
      by (auto simp: resized_def split: if_splits intro: file_step.intros)
    ultimately show ?thesis using D4 by blast
  qed
qed

lemma fd_steps: "fd_ready room q \<Longrightarrow> steps c fd app C q"
  by (cases q) (simp_all add: read_steps write_steps pread_steps pwrite_steps lseek_steps fsync_steps ftruncate_steps)

lemma fd_step:
  assumes "fd_ready room q" and "descriptor opened c fd app False st s"
  obtains r s' st' where "fd_run C FF c fd q s = (Ret r, s')" and "file_step room app q st r st'"
    and "descriptor opened c fd app False st' s'"
proof -
  have "descriptor opened c fd app False (fst st, snd st) s" using assms(2) by simp
  from fd_steps [OF assms(1), of c fd app C, unfolded steps_def, rule_format, OF this] that show thesis by auto
qed

lemma fd_runs_steps:
  "list_all (fd_ready room) qs \<Longrightarrow> descriptor opened c fd app False st s \<Longrightarrow>
   \<exists>rs s' st'. fd_runs C FF c fd qs s = (Ret rs, s') \<and> file_steps room app qs st rs st' \<and>
     descriptor opened c fd app False st' s'"
proof (induction qs arbitrary: st s)
  case (Cons q qs)
  have "fd_ready room q" using Cons.prems(1) by simp
  from this Cons.prems(2) obtain r s1 st1 where 1: "fd_run C FF c fd q s = (Ret r, s1)" "file_step room app q st r st1"
    "descriptor opened c fd app False st1 s1"
    by (rule fd_step)
  obtain rs s2 st2 where 2: "fd_runs C FF c fd qs s1 = (Ret rs, s2)" "file_steps room app qs st1 rs st2"
    "descriptor opened c fd app False st2 s2"
    using Cons.IH [OF _ 1(3)] Cons.prems(1) by auto
  have "fd_runs C FF c fd (q # qs) s = (Ret (r # rs), s2)" using 1(1) 2(1) by (simp add: run_bind_Ret prog_simps)
  then show ?case using 1(2) 2(2,3) unfolding file_steps.simps by blast
qed (simp add: prog_simps)

end

section \<open>A file in memory\<close>

text \<open>
  One file of at most 64 bytes in the private memory of FatFS, in the place of FatFS: a file object
  has its size and its position, a seek behind the end extends the file and stops at 64.
\<close>

definition mem_opened :: "FIL \<Rightarrow> byte list \<Rightarrow> flash vfs_world \<Rightarrow> bool" where
  "mem_opened f B s \<longleftrightarrow>
     heap s = [] \<and> objsize f \<le> 64 \<and> fptr f \<le> objsize f \<and> B = buf_bytes (ff_static s) (unat (objsize f))"

definition mem_fatfs :: "flash vfs_world fatfs_api" where
  "mem_fatfs = sample_fatfs
     \<lparr>f_lseek := (\<lambda>n f. ret (FR_OK, if n \<le> objsize f then f\<lparr>fptr := n\<rparr> else f\<lparr>fptr := min n 64, objsize := min n 64\<rparr>)),
      f_read := (\<lambda>n f. bind (gets ff_static) (\<lambda>m.
        let k = min n (objsize f - fptr f) in
        ret ((FR_OK, k, buf_bytes (\<lambda>i. m (unat (fptr f) + i)) (unat k)), f\<lparr>fptr := fptr f + k\<rparr>))),
      f_write := (\<lambda>src n f.
        let k = min n (64 - fptr f) in
        bind (modify (\<lambda>s. s\<lparr>ff_static := (\<lambda>i. if unat (fptr f) \<le> i \<and> i < unat (fptr f) + unat k then src (i - unat (fptr f))
           else ff_static s i)\<rparr>)) (\<lambda>_.
        ret ((FR_OK, k), f\<lparr>fptr := fptr f + k, objsize := max (objsize f) (fptr f + k)\<rparr>)))\<rparr>"

lemma mem_answersI:
  assumes "p s = (Ret (r, f'), s')" and "vfs_view s' = vfs_view s" and "heap s' = []" and "objsize f' \<le> 64"
    and "fptr f' \<le> objsize f'" and "Q r (buf_bytes (ff_static s') (unat (objsize f'))) (unat (fptr f'))"
  shows "answers mem_opened p s Q"
  using assms by (auto simp: answers_def mem_opened_def)

lemma mem_lseek:
  assumes "mem_opened f B s"
  shows "answers mem_opened (f_lseek mem_fatfs n f) s (\<lambda>r B' q. r = FR_OK \<and> sought 64 (unat n) B B' q)"
  by (rule mem_answersI, simp add: mem_fatfs_def run_ret, rule refl)
    (use assms in \<open>auto simp: mem_opened_def sought_def word_le_nat_alt min_def buf_bytes_def take_map\<close>)

lemma mem_read:
  assumes "mem_opened f B s"
  shows "answers mem_opened (f_read mem_fatfs n f) s (\<lambda>r B' q. fst r = FR_OK \<and> B' = B \<and>
     snd (snd r) = take (unat n) (drop (unat (fptr f)) B) \<and> unat (fst (snd r)) = length (snd (snd r)) \<and>
     q = unat (fptr f) + unat (fst (snd r)))"
proof -
  let ?k = "min n (objsize f - fptr f)"
  have f: "heap s = []" "unat (objsize f) \<le> 64" "unat (fptr f) \<le> unat (objsize f)"
    "B = buf_bytes (ff_static s) (unat (objsize f))"
    using assms by (auto simp: mem_opened_def word_le_nat_alt)
  have k: "unat ?k = min (unat (objsize f) - unat (fptr f)) (unat n)"
    using f by (simp add: min_def word_le_nat_alt unat_diff_no_wrap)
  have p: "unat (fptr f + ?k) = unat (fptr f) + unat ?k" using f k by (intro unat_add_no_wrap) simp
  show ?thesis
    by (rule mem_answersI, simp add: mem_fatfs_def prog_simps Let_def, rule refl)
      (use f k p in \<open>auto simp: word_le_nat_alt intro!: nth_equalityI\<close>)
qed

lemma mem_write:
  assumes "mem_opened f B s"
  shows "answers mem_opened (f_write mem_fatfs src n f) s (\<lambda>r B' q. fst r = FR_OK \<and>
     unat (snd r) = length (fitting 64 (unat (fptr f)) src n) \<and>
     B' = overwrite B (unat (fptr f)) (fitting 64 (unat (fptr f)) src n) \<and> q = unat (fptr f) + unat (snd r))"
proof -
  let ?k = "min n (64 - fptr f)"
  have f: "heap s = []" "unat (objsize f) \<le> 64" "unat (fptr f) \<le> unat (objsize f)"
    "B = buf_bytes (ff_static s) (unat (objsize f))"
    using assms by (auto simp: mem_opened_def word_le_nat_alt)
  then have "unat (64 - fptr f) = 64 - unat (fptr f)" by (subst unat_diff_no_wrap) (simp_all add: word_le_nat_alt)
  then have k: "unat ?k = min (unat n) (64 - unat (fptr f))" by (simp add: min_def word_le_nat_alt)
  have p: "unat (fptr f + ?k) = unat (fptr f) + unat ?k" using f k by (intro unat_add_no_wrap) simp
  have m: "unat (max (objsize f) (fptr f + ?k)) = max (unat (objsize f)) (unat (fptr f) + unat ?k)"
    using p by (simp add: max_def word_le_nat_alt)
  have w: "fitting 64 (unat (fptr f)) src n = buf_bytes src (unat ?k)"
    using k by (auto simp: fitting_def intro!: nth_equalityI)
  have le: "unat (fptr f) + unat ?k \<le> 64" using f k by linarith
  have e: "buf_bytes (\<lambda>i. if unat (fptr f) \<le> i \<and> i < unat (fptr f) + unat ?k then src (i - unat (fptr f)) else ff_static s i)
      (max (unat (objsize f)) (unat (fptr f) + unat ?k)) = overwrite B (unat (fptr f)) (buf_bytes src (unat ?k))"
    by (rule nth_equalityI) (use f(3,4) in \<open>auto simp: overwrite_def nth_append\<close>)
  show ?thesis
    by (rule mem_answersI, simp add: mem_fatfs_def prog_simps Let_def, simp_all add: vfs_view_def)
      (use f(1-3) le k p m w e in \<open>simp_all add: word_le_nat_alt\<close>)
qed

interpretation mem_files: fatfs_files mem_fatfs mem_opened 64
proof unfold_locales
  show "mem_opened f B s \<Longrightarrow> answers mem_opened (f_sync mem_fatfs f) s (\<lambda>r B' q. r = FR_OK \<and> B' = B \<and> q = unat (fptr f))"
    for f B s
    by (rule mem_answersI, simp add: mem_fatfs_def sample_fatfs_def run_ret, rule refl) (simp_all add: mem_opened_def)
  show "mem_opened f B s \<Longrightarrow> answers mem_opened (f_truncate mem_fatfs f) s
      (\<lambda>r B' q. r = FR_OK \<and> B' = take (unat (fptr f)) B \<and> q = unat (fptr f))" for f B s
    by (rule mem_answersI, simp add: mem_fatfs_def sample_fatfs_def run_ret, rule refl)
      (auto simp: mem_opened_def word_le_nat_alt buf_bytes_def take_map)
qed (auto simp: mem_opened_def word_le_nat_alt set_ctx_def intro: mem_lseek mem_read mem_write)

lemma sample_descriptor: "descriptor mem_opened 0 0 False False ([], 0) (sample_vfs inst)"
  by (simp add: descriptor_def holds_def sample_ctx_def new_ctx_def mem_opened_def zero_fil_def)

section \<open>What callers see\<close>

lemma run_result: "bind m (\<lambda>r. ret (r, d)) s = (Ret (v, d'), s') \<longleftrightarrow> m s = (Ret v, s') \<and> d' = d"
  by (auto simp: run_bind_Ret run_ret elim!: bind_RetE)

text \<open>A seek inside the room ends where it was sent.\<close>

lemma sought_inside:
  "sought room n B B' q \<Longrightarrow> n \<le> room \<Longrightarrow> q = n \<and> n \<le> length B' \<and> (n \<le> length B \<longrightarrow> B' = B)"
  by (auto simp: sought_def split: if_splits)

text \<open>
  C15. The operations on a descriptor are those of a file that is a list of bytes with a position:
  for every FatFS that keeps its promises, every sequence of reads, writes, positioned reads and
  writes, seeks, synchronisations and resizings that observes \<open>fd_ready\<close> returns the results of a run of the
  abstract file, and the descriptor stands for the file of that run, with the lock free. \<open>fd_ready\<close> is two
  conditions on the arguments: a positioned write of at least one byte starts before the end of the
  room of the volume (at the end it would keep the lock), and a relative seek cannot overflow an \<open>off_t\<close> from any
  position within the room (an overflow is undefined).
\<close>

theorem descriptor_refines_file:
  fixes s :: "'d vfs_world"
  assumes "fatfs_files FF opened room" and "list_all (fd_ready room) qs"
    and "descriptor opened c fd app False st s"
  shows "\<exists>rs s' st'. fd_runs C FF c fd qs s = (Ret rs, s') \<and> file_steps room app qs st rs st' \<and>
     descriptor opened c fd app False st' s'"
  by (rule fatfs_files.fd_runs_steps [OF assms])

theorem descriptor_refines_file_witness:
  "\<exists>s'. fd_runs sample_cfg mem_fatfs 0 0 [Write_fd (\<lambda>_. 7) 3, Lseek_fd 1 SEEK_SET, Read_fd 5] (sample_vfs sample_instance) =
     (Ret [(3, []), (1, []), (2, [7, 7])], s')"
proof -
  let ?qs = "[Write_fd (\<lambda>_. 7) 3, Lseek_fd 1 SEEK_SET, Read_fd 5]"
  have "list_all (fd_ready 64) ?qs" by simp
  from descriptor_refines_file [OF mem_files.fatfs_files_axioms this sample_descriptor, of sample_cfg sample_instance]
  obtain rs s' st' where run: "fd_runs sample_cfg mem_fatfs 0 0 ?qs (sample_vfs sample_instance) = (Ret rs, s')"
    and steps: "file_steps 64 False ?qs ([], 0) rs st'"
    by blast
  have "replicate 2 (7 :: byte) = [7, 7]" by (simp add: numeral_2_eq_2)
  with steps have "rs = [(3, []), (1, []), (2, [7, 7])]"
    by (auto simp: file_step_simps sought_def overwrite_def)
  with run show ?thesis by blast
qed

text \<open>
  C29. What a positioned write stores, a positioned read at the same offset returns: all \<open>n\<close> bytes
  are written if they fit in the room, the read yields them, neither moves the position, and inside
  the old file nothing else changes.
\<close>

theorem pwrite_pread_roundtrip:
  fixes s :: "'d vfs_world"
  assumes "fatfs_files FF opened room" and "descriptor opened c fd app False (B, p) s"
    and "unat off + unat n \<le> room"
  shows "\<exists>s1 s2 B'. vfs_fat_pwrite C FF c fd src n off s = (Ret (int (unat n)), s1) \<and>
     vfs_fat_pread FF c fd n off s1 = (Ret (int (unat n), buf_bytes src (unat n)), s2) \<and>
     descriptor opened c fd app False (B', p) s2 \<and>
     (unat off \<le> length B \<longrightarrow> B' = overwrite B (unat off) (buf_bytes src (unat n)))"
proof -
  let ?w = "buf_bytes src (unat n)"
  have off: "unat off \<le> room" and ready: "fd_ready room (Pwrite_fd src n off)" "fd_ready room (Pread_fd n off)"
    using assms(3) by (auto simp: word_less_nat_alt unat_eq_0 [symmetric])
  obtain r1 s1 st1 where run1: "fd_run C FF c fd (Pwrite_fd src n off) s = (Ret r1, s1)"
    and step1: "file_step room app (Pwrite_fd src n off) (B, p) r1 st1" and D1: "descriptor opened c fd app False st1 s1"
    by (rule fatfs_files.fd_step [OF assms(1) ready(1) assms(2)])
  then obtain B1 where B1: "unat off \<le> length B1" "unat off \<le> length B \<longrightarrow> B1 = B"
    and r1: "r1 = (int (unat n), [])" "st1 = (overwrite B1 (unat off) ?w, p)"
    using sought_inside [OF _ off] assms(3) by (fastforce simp: file_step_simps)
  obtain r2 s2 st2 where run2: "fd_run C FF c fd (Pread_fd n off) s1 = (Ret r2, s2)"
    and step2: "file_step room app (Pread_fd n off) st1 r2 st2" and D2: "descriptor opened c fd app False st2 s2"
    by (rule fatfs_files.fd_step [OF assms(1) ready(2) D1])
  have "r2 = (int (unat n), ?w) \<and> st2 = st1"
    using step2 r1(2) B1(1) take_drop_overwrite [OF B1(1), of ?w] by (auto simp: file_step_simps sought_def)
  then show ?thesis using run1 run2 r1 D2 B1(2) by (auto simp: run_result)
qed

theorem pwrite_pread_roundtrip_witness:
  "\<exists>s1 s2. vfs_fat_pwrite sample_cfg mem_fatfs 0 0 (\<lambda>i. of_nat i) 4 2 (sample_vfs sample_instance) = (Ret 4, s1) \<and>
     vfs_fat_pread mem_fatfs 0 0 4 2 s1 = (Ret (4, buf_bytes (\<lambda>i. of_nat i) 4), s2)"
proof -
  have "unat (2 :: u32) + unat (4 :: u32) \<le> 64" by simp
  from pwrite_pread_roundtrip [OF mem_files.fatfs_files_axioms sample_descriptor this,
      of sample_cfg "\<lambda>i. of_nat i" sample_instance]
  show ?thesis by auto
qed

text \<open>
  A positioned read behind the end of a file returns no bytes, as it should, but it leaves the
  file longer: the seek of FatFS extends it up to the offset, by bytes nothing is known of.
\<close>

theorem pread_past_end_extends:
  fixes s :: "'d vfs_world"
  assumes "fatfs_files FF opened room" and "descriptor opened c fd app False (B, p) s"
    and "length B < unat off" and "unat off \<le> room"
  shows "\<exists>s' B'. vfs_fat_pread FF c fd n off s = (Ret (0, []), s') \<and> descriptor opened c fd app False (B', p) s' \<and>
     length B' = unat off \<and> take (length B) B' = B"
proof -
  obtain r s' st' where "fd_run undefined FF c fd (Pread_fd n off) s = (Ret r, s')"
    "file_step room app (Pread_fd n off) (B, p) r st'" "descriptor opened c fd app False st' s'"
    by (rule fatfs_files.fd_step [OF assms(1) _ assms(2), of "Pread_fd n off" undefined]) simp_all
  then show ?thesis using assms(3,4) by (auto simp: file_step_simps sought_def)
qed

theorem pread_past_end_extends_witness:
  "\<exists>s' B'. vfs_fat_pread mem_fatfs 0 0 4 9 (sample_vfs sample_instance) = (Ret (0, []), s') \<and>
     descriptor mem_opened 0 0 False False (B', 0) s' \<and> length B' = 9"
proof -
  have "length ([] :: byte list) < unat (9 :: u32)" "unat (9 :: u32) \<le> 64" by simp_all
  from pread_past_end_extends [OF mem_files.fatfs_files_axioms sample_descriptor this] show ?thesis by auto
qed

text \<open>
  C25. \<open>vfs_fat_ftruncate\<close> gives the file the length asked for, if it fits in the room: the
  beginning of the file is kept and a longer file is filled with zeros. Growing keeps the position;
  cutting moves it to the new end, wherever it was.
\<close>

theorem ftruncate_resizes:
  fixes s :: "'d vfs_world"
  assumes "fatfs_files FF opened room" and "descriptor opened c fd app False (B, p) s"
    and "0 \<le> sint len" and "unat len \<le> room"
  shows "\<exists>s'. vfs_fat_ftruncate C FF c fd len s = (Ret 0, s') \<and>
     descriptor opened c fd app False
       (if unat len \<le> length B then (take (unat len) B, unat len)
        else (B @ replicate (unat len - length B) 0, p)) s'"
proof -
  obtain r s' st' where run: "fd_run C FF c fd (Ftruncate_fd len) s = (Ret r, s')"
    and "file_step room app (Ftruncate_fd len) (B, p) r st'" "descriptor opened c fd app False st' s'"
    by (rule fatfs_files.fd_step [OF assms(1) _ assms(2), of "Ftruncate_fd len" C]) simp_all
  then show ?thesis using assms(3,4) by (auto simp: file_step_simps run_result)
qed

theorem ftruncate_resizes_witness:
  "\<exists>s'. vfs_fat_ftruncate sample_cfg mem_fatfs 0 0 5 (sample_vfs sample_instance) = (Ret 0, s') \<and>
     descriptor mem_opened 0 0 False False (replicate 5 0, 0) s'"
proof -
  have "0 \<le> sint (5 :: u32)" "unat (5 :: u32) \<le> 64" by simp_all
  from ftruncate_resizes [OF mem_files.fatfs_files_axioms sample_descriptor this, of sample_cfg sample_instance]
  show ?thesis by simp
qed

end
