(* ===== verification/Vfs_Streams.thy ===== *)
theory Vfs_Streams
  imports Vfs_Behaviour
begin

text \<open>
  What a directory stream is to the callers of the VFS layer: the list of the entries of the directory and
  a position in it. \<open>fatfs_dirs\<close> states what FatFS promises for a directory object that is open on a
  directory nobody changes meanwhile; reading, telling and seeking are then functions of the list
  and the position.
\<close>

section \<open>The abstract stream\<close>

datatype dir_call = Readdir_d | Telldir_d | Seekdir_d u32

datatype dir_answer = Entry "dirent option" | Position int | Done

definition dirent_of :: "vfs_config \<Rightarrow> 'w fatfs_api \<Rightarrow> FILINFO \<Rightarrow> dirent" where
  "dirent_of C FF info =
     \<lparr> d_ino = 0, d_type = (if fi_fattrib info AND AM_DIR FF \<noteq> 0 then DT_DIR else DT_REG),
       d_name = strlcpy (fi_fname info) (sizeof_d_name C) \<rparr>"

text \<open>
  A seek goes where it is told, also behind the end, where nothing is read; a negative position is
  the beginning.
\<close>

fun stream_step :: "vfs_config \<Rightarrow> 'w fatfs_api \<Rightarrow> FILINFO list \<Rightarrow> dir_call \<Rightarrow> nat \<Rightarrow> dir_answer \<times> nat" where
  "stream_step C FF es Readdir_d p =
     (if p < length es then (Entry (Some (dirent_of C FF (es ! p))), p + 1) else (Entry None, p))"
| "stream_step C FF es Telldir_d p = (Position (int p), p)"
| "stream_step C FF es (Seekdir_d off) p = (Done, nat (sint off))"

fun stream_steps :: "vfs_config \<Rightarrow> 'w fatfs_api \<Rightarrow> FILINFO list \<Rightarrow> dir_call list \<Rightarrow> nat \<Rightarrow> dir_answer list \<times> nat" where
  "stream_steps C FF es [] p = ([], p)"
| "stream_steps C FF es (q # qs) p =
     (let (r, p1) = stream_step C FF es q p; (rs, p2) = stream_steps C FF es qs p1 in (r # rs, p2))"

section \<open>The calls of the layer\<close>

fun dir_run :: "vfs_config \<Rightarrow> 'd vfs_world fatfs_api \<Rightarrow> nat \<Rightarrow> nat \<Rightarrow> dir_call \<Rightarrow> ('d vfs_world, dir_answer) prog" where
  "dir_run C FF c a Readdir_d = bind (vfs_fat_readdir C FF c (Some a)) (\<lambda>e. ret (Entry e))"
| "dir_run C FF c a Telldir_d = bind (vfs_fat_telldir (Some a)) (\<lambda>n. ret (Position n))"
| "dir_run C FF c a (Seekdir_d off) = bind (vfs_fat_seekdir FF c (Some a) off) (\<lambda>_. ret Done)"

fun dir_runs ::
  "vfs_config \<Rightarrow> 'd vfs_world fatfs_api \<Rightarrow> nat \<Rightarrow> nat \<Rightarrow> dir_call list \<Rightarrow> ('d vfs_world, dir_answer list) prog" where
  "dir_runs C FF c a [] = ret []"
| "dir_runs C FF c a (q # qs) =
     bind (dir_run C FF c a q) (\<lambda>r. bind (dir_runs C FF c a qs) (\<lambda>rs. ret (r # rs)))"

section \<open>What FatFS promises\<close>

text \<open>The stream at an address: the lock of its context and its position.\<close>

definition stream ::
  "(FF_DIR \<Rightarrow> FILINFO list \<Rightarrow> nat \<Rightarrow> 'd vfs_world \<Rightarrow> bool) \<Rightarrow> nat \<Rightarrow> nat \<Rightarrow> FILINFO list \<Rightarrow> bool \<Rightarrow> nat \<Rightarrow>
   'd vfs_world \<Rightarrow> bool" where
  "stream listing c a es l p s \<longleftrightarrow>
     (\<exists>x. holds c x s \<and> fat_lock x = l) \<and> a < length (dirs s) \<and> p < 2 ^ 31 \<and> length es < 2 ^ 31 \<and>
     (\<exists>d. dirs s ! a = Some d \<and> unat (dir_offset d) = p \<and> listing (ffdir d) es (min p (length es)) s)"

lemma run_dir_of: "a < length (dirs s) \<Longrightarrow> dirs s ! a = Some d \<Longrightarrow> dir_of a s = (Ret d, s)"
  by (simp add: dir_of_def prog_simps)

lemma run_bind_dir_of: "a < length (dirs s) \<Longrightarrow> dirs s ! a = Some d \<Longrightarrow> bind (dir_of a) f s = f d s"
  by (rule run_bind_Ret, rule run_dir_of)

lemma run_put_dir: "put_dir a e s = (Ret (), s\<lparr>dirs := (dirs s)[a := e]\<rparr>)"
  by (simp add: put_dir_def prog_simps)

lemma run_bind_put_dir: "bind (put_dir a e) k s = k () (s\<lparr>dirs := (dirs s)[a := e]\<rparr>)"
  by (rule run_bind_Ret [OF run_put_dir])

lemma dirent_eq: "(e :: dirent)\<lparr>d_ino := i, d_type := t, d_name := n\<rparr> = \<lparr> d_ino = i, d_type = t, d_name = n \<rparr>"
  by (cases e) simp

lemma holds_dirs [simp]: "holds c x (s\<lparr>dirs := ds\<rparr>) = holds c x s"
  by (simp add: holds_def)

lemma dirs_set_ctx [simp]: "dirs (set_ctx c x s) = dirs s"
  by (simp add: set_ctx_def)

text \<open>
  \<open>listing dir es k s\<close>: the object is open on a directory with the entries \<open>es\<close>, of which \<open>k\<close> have been
  read. The end of a directory is reported as an entry without a name, again and again.
\<close>

locale fatfs_dirs =
  fixes FF :: "'d vfs_world fatfs_api"
    and listing :: "FF_DIR \<Rightarrow> FILINFO list \<Rightarrow> nat \<Rightarrow> 'd vfs_world \<Rightarrow> bool"
  assumes listing_names: "listing dir es k s \<Longrightarrow> e \<in> set es \<Longrightarrow> fi_fname e \<noteq> []"
    and listing_errno: "listing dir es k (s\<lparr>errno := n\<rparr>) = listing dir es k s"
    and listing_dirs: "listing dir es k (s\<lparr>dirs := ds\<rparr>) = listing dir es k s"
    and listing_ctx: "holds c x s \<Longrightarrow> fat_fs y = fat_fs x \<Longrightarrow> listing dir es k (set_ctx c y s) = listing dir es k s"
    and f_readdir_lists: "listing dir es k s \<Longrightarrow>
      \<exists>info dir' s'. f_readdir FF dir i s = (Ret ((FR_OK, info), dir'), s') \<and> vfs_view s' = vfs_view s \<and>
        (if k < length es then info = es ! k \<and> listing dir' es (k + 1) s'
         else fi_fname info = [] \<and> listing dir' es k s')"
    and f_rewinddir_lists: "listing dir es k s \<Longrightarrow>
      \<exists>dir' s'. f_rewinddir FF dir s = (Ret (FR_OK, dir'), s') \<and> vfs_view s' = vfs_view s \<and> listing dir' es 0 s'"
begin

lemma streamE:
  assumes "stream listing c a es l p s"
  obtains x d where "holds c x s" and "fat_lock x = l" and "a < length (dirs s)" and "p < 2 ^ 31" and "dirs s ! a = Some d"
    and "unat (dir_offset d) = p" and "listing (ffdir d) es (min p (length es)) s" and "length es < 2 ^ 31"
  using assms by (auto simp: stream_def)

text \<open>FatFS at work on the stream: the context and the table of streams are those of before.\<close>

lemma view_stream:
  assumes "vfs_view s' = vfs_view s" and "stream listing c a es l p s"
    and "dirs s ! a = Some d" and "unat (dir_offset d') = p'" and "p' < 2 ^ 31" and "listing (ffdir d') es (min p' (length es)) s'"
  shows "stream listing c a es l p' (s'\<lparr>dirs := (dirs s')[a := Some d']\<rparr>)"
proof -
  obtain x where x: "holds c x s" "fat_lock x = l" "a < length (dirs s)" "length es < 2 ^ 31" using assms(2) by (rule streamE)
  obtain y where y: "holds c y s'" "hide_fs y = hide_fs x" using assms(1) x(1) by (rule view_holds)
  have "dirs s' = dirs s" using assms(1) by (simp add: vfs_view_def)
  then show ?thesis using x y hide_fs_fields [OF y(2)] assms(4-6) by (auto simp: stream_def listing_dirs)
qed

lemma next_entry:
  assumes st: "stream listing c a es l p s" and d: "dirs s ! a = Some d"
  obtains info dir s1 where "f_readdir FF (ffdir d) i s = (Ret ((FR_OK, info), dir), s1)" and "dirs s1 = dirs s"
    and "if p < length es then info = es ! p else fi_fname info = []"
    and "\<forall>d'. ffdir d' = dir \<and> unat (dir_offset d') < 2 ^ 31 \<and>
      (unat (dir_offset d') = p + 1 \<or> unat (dir_offset d') = p \<and> length es \<le> p) \<longrightarrow>
      stream listing c a es l (unat (dir_offset d')) (s1\<lparr>dirs := (dirs s1)[a := Some d']\<rparr>)"
proof -
  have li: "listing (ffdir d) es (min p (length es)) s" using st d by (auto elim: streamE)
  from f_readdir_lists [OF this, of i]
  obtain info dir s1 where r: "f_readdir FF (ffdir d) i s = (Ret ((FR_OK, info), dir), s1)" "vfs_view s1 = vfs_view s"
    and post: "if min p (length es) < length es then info = es ! min p (length es) \<and> listing dir es (min p (length es) + 1) s1
         else fi_fname info = [] \<and> listing dir es (min p (length es)) s1"
    by blast
  have "dirs s1 = dirs s" using r(2) by (simp add: vfs_view_def)
  moreover have "stream listing c a es l (unat (dir_offset d')) (s1\<lparr>dirs := (dirs s1)[a := Some d']\<rparr>)"
    if "ffdir d' = dir" "unat (dir_offset d') < 2 ^ 31"
      "unat (dir_offset d') = p + 1 \<or> unat (dir_offset d') = p \<and> length es \<le> p" for d'
    by (rule view_stream [OF r(2) st d refl that(2)]) (use that post in \<open>auto simp: min_def split: if_splits\<close>)
  moreover have "if p < length es then info = es ! p else fi_fname info = []"
    using post by (auto simp: min_def split: if_splits)
  ultimately show thesis using r(1) that by blast
qed

text \<open>Storing in the context what is not part of the file system keeps the stream.\<close>

lemma stream_upd_ctx:
  assumes "stream listing c a es l p s" and "\<And>x. fat_fs (g x) = fat_fs x" and "\<And>x. fat_lock x = l \<Longrightarrow> fat_lock (g x) = l'"
  obtains s' where "upd_ctx c g s = (Ret (), s')" and "stream listing c a es l' p s'"
proof -
  obtain x where x: "holds c x s" "fat_lock x = l" using assms(1) by (rule streamE)
  have "upd_ctx c g s = (Ret (), set_ctx c (g x) s)" using x(1) by (simp add: upd_ctx_def prog_simps run_ctx)
  moreover have "stream listing c a es l' p (set_ctx c (g x) s)"
    using assms(1,3) x holds_in_table [OF x(1)] listing_ctx [OF x(1) assms(2)]
    by (auto simp: stream_def intro!: exI [of _ "g x"])
  ultimately show thesis by (rule that)
qed

lemma stream_lock:
  assumes "stream listing c a es False p s"
  obtains s' where "lock_ctx c s = (Ret (), s')" and "stream listing c a es True p s'"
proof -
  obtain x where x: "holds c x s" "\<not> fat_lock x" using assms by (auto elim: streamE)
  obtain s' where s': "upd_ctx c (\<lambda>x. x\<lparr>fat_lock := True\<rparr>) s = (Ret (), s')" "stream listing c a es True p s'"
    by (rule stream_upd_ctx [OF assms, where g = "\<lambda>x. x\<lparr>fat_lock := True\<rparr>" and l' = True]) simp_all
  moreover have "lock_ctx c s = upd_ctx c (\<lambda>x. x\<lparr>fat_lock := True\<rparr>) s"
    using x by (simp add: lock_ctx_def upd_ctx_def prog_simps run_ctx lock_acquire_def run_bind_Ret)
  ultimately show thesis using that by simp
qed

lemma readdir_r_run:
  assumes st: "stream listing c a es l p s" and d: "dirs s ! a = Some d"
  obtains d' s' where "vfs_fat_readdir_r C FF (Some a) (cur_dirent d) s =
      (Ret (ENONE, if p < length es then dirent_of C FF (es ! p) else cur_dirent d, p < length es), s')"
    and "a < length (dirs s')" and "dirs s' ! a = Some d'"
    and "stream listing c a es l (if p < length es then p + 1 else p) s'"
proof -
  have a: "a < length (dirs s)" "length es < 2 ^ 31" and p: "unat (dir_offset d) = p" "p < 2 ^ 31"
    using st d by (auto elim: streamE)
  obtain info dir s1 where r: "f_readdir FF (ffdir d) (dir_filinfo d) s = (Ret ((FR_OK, info), dir), s1)" "dirs s1 = dirs s"
    and info: "if p < length es then info = es ! p else fi_fname info = []"
    and next_st: "\<forall>d'. ffdir d' = dir \<and> unat (dir_offset d') < 2 ^ 31 \<and>
      (unat (dir_offset d') = p + 1 \<or> unat (dir_offset d') = p \<and> length es \<le> p) \<longrightarrow>
      stream listing c a es l (unat (dir_offset d')) (s1\<lparr>dirs := (dirs s1)[a := Some d']\<rparr>)"
    using st d by (rule next_entry)
  note run = run_dir_of [OF a(1) d] r
  show thesis
  proof (cases "p < length es")
    case True
    let ?d = "d\<lparr>ffdir := dir, dir_filinfo := info, dir_offset := dir_offset d + 1\<rparr>"
    have "fi_fname info \<noteq> []"
      using True info st d listing_names [of "ffdir d" es "min p (length es)" s info] by (auto elim!: streamE)
    moreover have "unat (dir_offset d + 1) = p + 1"
      using p True a(2) unat_add_no_wrap [of "dir_offset d" 1] by simp
    ultimately show thesis using True info run next_st [rule_format, of ?d] a p
      by (intro that [of "s1\<lparr>dirs := (dirs s1)[a := Some ?d]\<rparr>" ?d])
        (simp_all add: vfs_fat_readdir_r_def run_bind_Ret run_bind_put_dir prog_simps Let_def dirent_of_def dirent_eq)
  next
    case False
    let ?d = "d\<lparr>ffdir := dir, dir_filinfo := info\<rparr>"
    show thesis using False info run next_st [rule_format, of ?d] a p
      by (intro that [of "s1\<lparr>dirs := (dirs s1)[a := Some ?d]\<rparr>" ?d])
        (simp_all add: vfs_fat_readdir_r_def run_bind_Ret run_bind_put_dir prog_simps Let_def)
  qed
qed

lemma stream_put_dir:
  assumes "stream listing c a es l p s" and "dirs s ! a = Some d" and "dir_offset d' = dir_offset d" and "ffdir d' = ffdir d"
  shows "stream listing c a es l p (s\<lparr>dirs := (dirs s)[a := Some d']\<rparr>)"
  using assms by (auto simp: stream_def listing_dirs)

lemma readdir_steps:
  assumes st: "stream listing c a es False p s"
  obtains s' where "vfs_fat_readdir C FF c (Some a) s =
      (Ret (if p < length es then Some (dirent_of C FF (es ! p)) else None), s')"
    and "stream listing c a es False (if p < length es then p + 1 else p) s'"
proof -
  obtain d where d: "a < length (dirs s)" "dirs s ! a = Some d" using st by (rule streamE)
  obtain d1 s1 where r: "vfs_fat_readdir_r C FF (Some a) (cur_dirent d) s =
      (Ret (ENONE, if p < length es then dirent_of C FF (es ! p) else cur_dirent d, p < length es), s1)"
    and d1: "a < length (dirs s1)" "dirs s1 ! a = Some d1"
    and st1: "stream listing c a es False (if p < length es then p + 1 else p) s1"
    using st d(2) by (rule readdir_r_run)
  let ?e = "if p < length es then dirent_of C FF (es ! p) else cur_dirent d"
  let ?s2 = "s1\<lparr>dirs := (dirs s1)[a := Some (d1\<lparr>cur_dirent := ?e\<rparr>)]\<rparr>"
  have st2: "stream listing c a es False (if p < length es then p + 1 else p) ?s2"
    by (rule stream_put_dir [OF st1 d1(2)]) simp_all
  let ?g = "\<lambda>x. x\<lparr>cached_fileinfo :=
     \<lparr> cd_file_path = cached_path C (dir_path x) (fi_fname (dir_filinfo d1)), cd_fileinfo = dir_filinfo d1 \<rparr>\<rparr>"
  obtain s3 where u: "upd_ctx c ?g ?s2 = (Ret (), s3)" and "stream listing c a es False (if p < length es then p + 1 else p) s3"
    by (rule stream_upd_ctx [OF st2, where g = ?g and l' = False]) simp_all
  moreover have "vfs_fat_readdir C FF c (Some a) s =
      (Ret (if p < length es then Some (dirent_of C FF (es ! p)) else None), s3)"
    using r u run_dir_of [OF d] run_dir_of [OF d1]
    by (simp add: vfs_fat_readdir_def run_bind_Ret run_bind_put_dir prog_simps Let_def)
  ultimately show thesis using that by blast
qed

lemma telldir_steps:
  assumes "stream listing c a es l p s"
  shows "vfs_fat_telldir (Some a) s = (Ret (int p), s)"
proof -
  obtain d where d: "a < length (dirs s)" "p < 2 ^ 31" "dirs s ! a = Some d" "unat (dir_offset d) = p"
    using assms by (rule streamE)
  have "sint (dir_offset d) = int p" using sint_small [of "dir_offset d"] d(2,4) by simp
  then show ?thesis using run_dir_of [OF d(1,3)] by (simp add: vfs_fat_telldir_def run_bind_Ret prog_simps)
qed

text \<open>The loop of the seek, from a position before the target or from the beginning.\<close>

lemma seek_entries_steps:
  assumes "stream listing c a es l p s" and "int p \<le> sint off \<or> p = 0"
  shows "\<exists>s'. seek_entries FF a off s = (Ret FR_OK, s') \<and> stream listing c a es l (nat (sint off)) s'"
  using assms
proof (induction "nat (sint off) - p" arbitrary: p s)
  case 0
  then have p: "sint off \<le> int p" "nat (sint off) = p" by auto
  obtain d where d: "a < length (dirs s)" "p < 2 ^ 31" "dirs s ! a = Some d" "unat (dir_offset d) = p"
    using "0.prems"(1) by (rule streamE)
  have "sint (dir_offset d) = int p" using sint_small [of "dir_offset d"] d(2,4) by simp
  then have "\<not> dir_offset d <s off" using p by (simp add: word_sless_alt)
  then have "seek_entries FF a off s = (Ret FR_OK, s)"
    unfolding seek_entries_def
    by (intro loop_leave) (simp add: run_bind_dir_of [OF d(1,3)] prog_simps)
  then show ?case using "0.prems"(1) p by auto
next
  case (Suc k)
  then have p: "int p < sint off" by auto
  obtain d where d: "a < length (dirs s)" "p < 2 ^ 31" "dirs s ! a = Some d" "unat (dir_offset d) = p"
    using Suc.prems(1) by (rule streamE)
  have "sint (dir_offset d) = int p" using sint_small [of "dir_offset d"] d(2,4) by simp
  then have lt: "dir_offset d <s off" using p by (simp add: word_sless_alt)
  have b: "p + 1 < 2 ^ 31" using p sint_lt [of off] by simp
  have o: "unat (dir_offset d + 1) = p + 1" using unat_add_no_wrap [of "dir_offset d" 1] d(4) b by simp
  obtain info dir s1 where r: "f_readdir FF (ffdir d) (dir_filinfo d) s = (Ret ((FR_OK, info), dir), s1)"
    and n: "\<forall>d'. ffdir d' = dir \<and> unat (dir_offset d') < 2 ^ 31 \<and>
      (unat (dir_offset d') = p + 1 \<or> unat (dir_offset d') = p \<and> length es \<le> p) \<longrightarrow>
      stream listing c a es l (unat (dir_offset d')) (s1\<lparr>dirs := (dirs s1)[a := Some d']\<rparr>)"
    using Suc.prems(1) d(3) by (rule next_entry)
  let ?d = "d\<lparr>ffdir := dir, dir_filinfo := info, dir_offset := dir_offset d + 1\<rparr>"
  let ?s = "s1\<lparr>dirs := (dirs s1)[a := Some ?d]\<rparr>"
  have st: "stream listing c a es l (p + 1) ?s" using n [rule_format, of ?d] o b by simp
  have k: "k = nat (sint off) - (p + 1)" "int (p + 1) \<le> sint off \<or> p + 1 = 0" using Suc.hyps(2) p by linarith+
  from Suc.hyps(1) [OF k(1) st k(2)] obtain s' where s': "seek_entries FF a off ?s = (Ret FR_OK, s')" "stream listing c a es l (nat (sint off)) s'"
    by blast
  have "seek_entries FF a off s = (Ret FR_OK, s')"
    unfolding seek_entries_def
    by (rule loop_next [OF _ s'(1) [unfolded seek_entries_def]])
      (use lt r in \<open>simp add: run_bind_dir_of [OF d(1,3)] run_bind_Ret run_bind_put_dir prog_simps Let_def\<close>)
  then show ?case using s'(2) by blast
qed

text \<open>A target before the position is reached from the beginning.\<close>

lemma seek_back_steps:
  assumes st: "stream listing c a es l p s" and d: "dirs s ! a = Some d"
  obtains s' q where "(if off <s dir_offset d then
        bind (f_rewinddir FF (ffdir d)) (\<lambda>(res, dir).
        if res \<noteq> FR_OK then bind (put_dir a (Some (d\<lparr>ffdir := dir\<rparr>))) (\<lambda>_. ret res)
        else bind (put_dir a (Some (d\<lparr>ffdir := dir, dir_offset := 0\<rparr>))) (\<lambda>_. ret FR_OK))
      else ret FR_OK) s = (Ret FR_OK, s')"
    and "stream listing c a es l q s'" and "int q \<le> sint off \<or> q = 0"
proof (cases "off <s dir_offset d")
  case True
  have "listing (ffdir d) es (min p (length es)) s" using st d by (auto elim: streamE)
  then obtain dir u where r: "f_rewinddir FF (ffdir d) s = (Ret (FR_OK, dir), u)" "vfs_view u = vfs_view s" "listing dir es 0 u"
    using f_rewinddir_lists by blast
  let ?s = "u\<lparr>dirs := (dirs u)[a := Some (d\<lparr>ffdir := dir, dir_offset := 0\<rparr>)]\<rparr>"
  have "stream listing c a es l 0 ?s"
    by (rule view_stream [OF r(2) st d]) (use r(3) in simp_all)
  then show thesis using True r(1) that [of ?s 0] by (simp add: run_bind_Ret run_bind_put_dir prog_simps)
next
  case False
  have "unat (dir_offset d) = p" "p < 2 ^ 31" using st d by (auto elim: streamE)
  then show thesis using False that [of s p] st sint_small [of "dir_offset d"] by (simp add: prog_simps word_sless_alt)
qed

lemma seekdir_steps:
  assumes st: "stream listing c a es False p s"
  obtains s' where "vfs_fat_seekdir FF c (Some a) off s = (Ret (), s')" and "stream listing c a es False (nat (sint off)) s'"
proof -
  obtain s1 where s1: "lock_ctx c s = (Ret (), s1)" and st1: "stream listing c a es True p s1"
    using st by (rule stream_lock)
  obtain d where d: "a < length (dirs s1)" "dirs s1 ! a = Some d" using st1 by (rule streamE)
  obtain s2 q where s2: "(if off <s dir_offset d then
        bind (f_rewinddir FF (ffdir d)) (\<lambda>(res, dir).
        if res \<noteq> FR_OK then bind (put_dir a (Some (d\<lparr>ffdir := dir\<rparr>))) (\<lambda>_. ret res)
        else bind (put_dir a (Some (d\<lparr>ffdir := dir, dir_offset := 0\<rparr>))) (\<lambda>_. ret FR_OK))
      else ret FR_OK) s1 = (Ret FR_OK, s2)"
    and st2: "stream listing c a es True q s2" and q: "int q \<le> sint off \<or> q = 0"
    using st1 d(2) by (rule seek_back_steps)
  obtain s3 where s3: "seek_entries FF a off s2 = (Ret FR_OK, s3)" and st3: "stream listing c a es True (nat (sint off)) s3"
    using seek_entries_steps [OF st2 q] by blast
  obtain s4 where "upd_ctx c (\<lambda>x. x\<lparr>fat_lock := False\<rparr>) s3 = (Ret (), s4)" and st4: "stream listing c a es False (nat (sint off)) s4"
    by (rule stream_upd_ctx [OF st3, where g = "\<lambda>x. x\<lparr>fat_lock := False\<rparr>" and l' = False]) simp_all
  then have "vfs_fat_seekdir FF c (Some a) off s = (Ret (), s4)"
    using s1 run_dir_of [OF d] s2 s3 by (simp add: vfs_fat_seekdir_def unlock_ctx_def run_bind_Ret prog_simps Let_def)
  then show thesis using st4 that by blast
qed

lemma dir_steps:
  assumes "stream listing c a es False p s"
  obtains s' where "dir_run C FF c a q s = (Ret (fst (stream_step C FF es q p)), s')"
    and "stream listing c a es False (snd (stream_step C FF es q p)) s'"
proof (cases q)
  case Readdir_d
  obtain s' where "vfs_fat_readdir C FF c (Some a) s =
      (Ret (if p < length es then Some (dirent_of C FF (es ! p)) else None), s')"
    "stream listing c a es False (if p < length es then p + 1 else p) s'"
    using assms by (rule readdir_steps)
  then show thesis using Readdir_d that [of s'] by (cases "p < length es") (simp_all add: run_bind_Ret prog_simps)
next
  case Telldir_d
  then show thesis using telldir_steps [OF assms] assms that [of s] by (simp add: run_bind_Ret prog_simps)
next
  case (Seekdir_d off)
  obtain s' where "vfs_fat_seekdir FF c (Some a) off s = (Ret (), s')" "stream listing c a es False (nat (sint off)) s'"
    using assms by (rule seekdir_steps)
  then show thesis using Seekdir_d that [of s'] by (simp add: run_bind_Ret prog_simps)
qed

lemma dir_runs_steps:
  "stream listing c a es False p s \<Longrightarrow>
   \<exists>s'. dir_runs C FF c a qs s = (Ret (fst (stream_steps C FF es qs p)), s') \<and>
     stream listing c a es False (snd (stream_steps C FF es qs p)) s'"
proof (induction qs arbitrary: p s)
  case (Cons q qs)
  obtain s1 where 1: "dir_run C FF c a q s = (Ret (fst (stream_step C FF es q p)), s1)"
    "stream listing c a es False (snd (stream_step C FF es q p)) s1"
    using Cons.prems by (rule dir_steps)
  obtain s2 where 2: "dir_runs C FF c a qs s1 = (Ret (fst (stream_steps C FF es qs (snd (stream_step C FF es q p)))), s2)"
    "stream listing c a es False (snd (stream_steps C FF es qs (snd (stream_step C FF es q p)))) s2"
    using Cons.IH [OF 1(2)] by blast
  from 1(1) 2 show ?case by (auto simp: run_bind_Ret prog_simps split_def Let_def)
qed (simp add: prog_simps)

text \<open>Reading to the end.\<close>

lemma scan_steps:
  "p \<le> length es \<Longrightarrow> stream_steps C FF es (replicate (length es - p + 1) Readdir_d) p =
     (map (\<lambda>e. Entry (Some (dirent_of C FF e))) (drop p es) @ [Entry None], length es)"
proof (induction "length es - p" arbitrary: p)
  case (Suc k)
  then have p: "p < length es" "length es - p = Suc (length es - (p + 1))" by simp_all
  then show ?case using Suc.hyps(1) [of "p + 1"] Suc.hyps(2) by (simp add: Cons_nth_drop_Suc [symmetric])
qed simp

lemma opendir_run:
  assumes x: "holds c x s" "\<not> fat_lock x" and hp: "heap s = []" and n: "length es < 2 ^ 31"
    and op: "\<And>y. \<exists>dir t'. f_opendir FF (strlcpy (fat_drive x @ name) (FILENAME_MAX C + 3)) (ffdir zero_dir) (set_ctx c y s) =
      (Ret (FR_OK, dir), t') \<and> vfs_view t' = vfs_view (set_ctx c y s) \<and> listing dir es 0 t'"
  obtains a s' where "vfs_fat_opendir C FF c name s = (Ret (Some a), s')" and "stream listing c a es False 0 s'"
proof -
  let ?p = "strlcpy (fat_drive x @ name) (FILENAME_MAX C + 3)"
  let ?x = "x\<lparr>dir_path := strlcpy name (FILENAME_MAX C), fat_lock := True, tmp_path_buf := ?p\<rparr>"
  have c: "c < length (s_fat_ctxs s)" using x(1) by (rule holds_in_table)
  obtain dir u where r: "f_opendir FF ?p (ffdir zero_dir) (set_ctx c ?x s) = (Ret (FR_OK, dir), u)"
    "vfs_view u = vfs_view (set_ctx c ?x s)" "listing dir es 0 u"
    using op by blast
  have "holds c ?x (set_ctx c ?x s)" using c by simp
  with r(2) obtain y where y: "holds c y u" "hide_fs y = hide_fs ?x" by (rule view_holds)
  have cu: "c < length (s_fat_ctxs u)" using y(1) by (rule holds_in_table)
  let ?u = "set_ctx c (y\<lparr>fat_lock := False\<rparr>) u"
  let ?s' = "?u\<lparr>dirs := dirs ?u @ [Some (zero_dir\<lparr>ffdir := dir\<rparr>)]\<rparr>"
  have "bind (unlock_ctx c) k u = k () ?u" for k :: "unit \<Rightarrow> ('d vfs_world, nat option) prog"
    using run_set_ctx(5) [OF cu, of k y] set_ctx_id [OF y(1)] by simp
  then have "vfs_fat_opendir C FF c name (set_ctx c x s) = (Ret (Some (length (dirs ?u))), ?s')"
    using x(2) c hp r(1) by (simp add: vfs_fat_opendir_def vfs_run Let_def run_bind_Ret prog_simps new_dir_def)
  moreover have "listing dir es 0 ?s'"
    using r(3) listing_ctx [OF y(1), of "y\<lparr>fat_lock := False\<rparr>"] by (simp add: listing_dirs)
  then have "stream listing c (length (dirs ?u)) es False 0 ?s'"
    using cu n by (auto simp: stream_def zero_dir_def intro!: exI [of _ "y\<lparr>fat_lock := False\<rparr>"])
  ultimately show thesis using that set_ctx_id [OF x(1)] by simp
qed

end

section \<open>A directory in memory\<close>

text \<open>Two entries; the directory object counts those that were read.\<close>

definition sample_entries :: "FILINFO list" where
  "sample_entries = [zero_filinfo\<lparr>fi_fname := ''a''\<rparr>, zero_filinfo\<lparr>fi_fname := ''b'', fi_fattrib := 0x10\<rparr>]"

definition mem_listing :: "FF_DIR \<Rightarrow> FILINFO list \<Rightarrow> nat \<Rightarrow> flash vfs_world \<Rightarrow> bool" where
  "mem_listing dir es k s \<longleftrightarrow> es = sample_entries \<and> k \<le> 2 \<and> unat (dir 0) = k"

definition dir_fatfs :: "flash vfs_world fatfs_api" where
  "dir_fatfs = sample_fatfs
     \<lparr>f_opendir := (\<lambda>path dir. ret (FR_OK, dir(0 := 0))),
      f_rewinddir := (\<lambda>dir. ret (FR_OK, dir(0 := 0))),
      f_readdir := (\<lambda>dir info.
        if unat (dir 0) < 2 then ret ((FR_OK, sample_entries ! unat (dir 0)), dir(0 := dir 0 + 1))
        else ret ((FR_OK, zero_filinfo), dir))\<rparr>"

lemma length_sample_entries [simp]: "length sample_entries = 2"
  by (simp add: sample_entries_def)

interpretation mem_dirs: fatfs_dirs dir_fatfs mem_listing
proof unfold_locales
  fix dir es k i and s :: "flash vfs_world"
  assume l: "mem_listing dir es k s"
  have "unat (dir 0 + 1) = unat (dir 0) + 1" if "unat (dir 0) < 2"
    using that unat_word_ariths(1) [of "dir 0" 1] by simp
  then show "\<exists>info dir' s'. f_readdir dir_fatfs dir i s = (Ret ((FR_OK, info), dir'), s') \<and> vfs_view s' = vfs_view s \<and>
      (if k < length es then info = es ! k \<and> mem_listing dir' es (k + 1) s'
       else fi_fname info = [] \<and> mem_listing dir' es k s')"
    using l by (auto simp: dir_fatfs_def mem_listing_def run_ret zero_filinfo_def)
qed (auto simp: mem_listing_def sample_entries_def zero_filinfo_def dir_fatfs_def run_ret)

lemma sample_stream:
  "stream mem_listing 0 0 sample_entries False 0 ((sample_vfs inst)\<lparr>dirs := [Some zero_dir]\<rparr>)"
  by (simp add: stream_def holds_def sample_ctx_def new_ctx_def zero_dir_def mem_listing_def)

section \<open>What callers see\<close>

text \<open>
  C16. The operations on a directory stream are those of the list of its entries with a position: for
  every FatFS that lists a directory, every sequence of reads, tells and seeks returns what the list
  returns and leaves the stream at its position, with the lock free. In particular a position told is
  one that can be returned to.
\<close>

theorem stream_refines_listing:
  fixes s :: "'d vfs_world"
  assumes "fatfs_dirs FF listing" and "stream listing c a es False p s"
  shows "\<exists>s'. dir_runs C FF c a qs s = (Ret (fst (stream_steps C FF es qs p)), s') \<and>
     stream listing c a es False (snd (stream_steps C FF es qs p)) s'"
  using assms by (rule fatfs_dirs.dir_runs_steps)

theorem stream_refines_listing_witness:
  "\<exists>s'. dir_runs sample_cfg dir_fatfs 0 0 [Readdir_d, Telldir_d, Readdir_d, Seekdir_d 1, Readdir_d, Readdir_d]
       ((sample_vfs sample_instance)\<lparr>dirs := [Some zero_dir]\<rparr>) =
     (Ret [Entry (Some \<lparr> d_ino = 0, d_type = DT_REG, d_name = ''a'' \<rparr>), Position 1,
           Entry (Some \<lparr> d_ino = 0, d_type = DT_DIR, d_name = ''b'' \<rparr>), Done,
           Entry (Some \<lparr> d_ino = 0, d_type = DT_DIR, d_name = ''b'' \<rparr>), Entry None], s')"
proof -
  let ?qs = "[Readdir_d, Telldir_d, Readdir_d, Seekdir_d 1, Readdir_d, Readdir_d]"
  have e: "dirent_of sample_cfg dir_fatfs (sample_entries ! 0) = \<lparr> d_ino = 0, d_type = DT_REG, d_name = ''a'' \<rparr>"
    "dirent_of sample_cfg dir_fatfs (sample_entries ! 1) = \<lparr> d_ino = 0, d_type = DT_DIR, d_name = ''b'' \<rparr>"
    by (simp_all add: dirent_of_def sample_entries_def zero_filinfo_def dir_fatfs_def sample_fatfs_def sample_cfg_def strlcpy_def)
  have "\<exists>s'. dir_runs sample_cfg dir_fatfs 0 0 ?qs ((sample_vfs sample_instance)\<lparr>dirs := [Some zero_dir]\<rparr>) =
      (Ret (fst (stream_steps sample_cfg dir_fatfs sample_entries ?qs 0)), s') \<and>
      stream mem_listing 0 0 sample_entries False (snd (stream_steps sample_cfg dir_fatfs sample_entries ?qs 0)) s'"
    by (rule stream_refines_listing [OF mem_dirs.fatfs_dirs_axioms sample_stream])
  then show ?thesis using e by auto
qed

text \<open>
  C24. Scanning a directory from opening to the end returns every entry once, in the order of the
  directory, and then none; closing releases the stream. FatFS opens the directory under this path on the
  machine of the call, and closes an open listing of it without error.
\<close>

theorem scan_lists_directory:
  fixes s :: "'d vfs_world"
  assumes "fatfs_dirs FF listing" and "holds c x s" and "\<not> fat_lock x" and "heap s = []" and "length es < 2 ^ 31"
    and "\<forall>y. \<exists>dir t'. f_opendir FF (strlcpy (fat_drive x @ name) (FILENAME_MAX C + 3)) (ffdir zero_dir) (set_ctx c y s) =
      (Ret (FR_OK, dir), t') \<and> vfs_view t' = vfs_view (set_ctx c y s) \<and> listing dir es 0 t'"
    and "\<forall>dir k t. listing dir es k t \<longrightarrow>
      (\<exists>dir' t'. f_closedir FF dir t = (Ret (FR_OK, dir'), t') \<and> vfs_view t' = vfs_view t)"
  shows "\<exists>a s1 s2 s3. vfs_fat_opendir C FF c name s = (Ret (Some a), s1) \<and>
     dir_runs C FF c a (replicate (length es + 1) Readdir_d) s1 =
       (Ret (map (\<lambda>e. Entry (Some (dirent_of C FF e))) es @ [Entry None]), s2) \<and>
     vfs_fat_closedir FF (Some a) s2 = (Ret 0, s3) \<and> dirs s3 ! a = None"
proof -
  obtain a s1 where s1: "vfs_fat_opendir C FF c name s = (Ret (Some a), s1)" "stream listing c a es False 0 s1"
    by (rule fatfs_dirs.opendir_run [OF assms(1-5)]) (use assms(6) in blast)
  obtain s2 where s2: "dir_runs C FF c a (replicate (length es + 1) Readdir_d) s1 =
      (Ret (map (\<lambda>e. Entry (Some (dirent_of C FF e))) es @ [Entry None]), s2)" "stream listing c a es False (length es) s2"
    using fatfs_dirs.dir_runs_steps [OF assms(1) s1(2), of C "replicate (length es + 1) Readdir_d"]
      fatfs_dirs.scan_steps [OF assms(1), of 0 es C] by auto
  obtain d where d: "a < length (dirs s2)" "dirs s2 ! a = Some d" and l: "listing (ffdir d) es (length es) s2"
    using s2(2) by (auto simp: stream_def)
  obtain dir u where u: "f_closedir FF (ffdir d) s2 = (Ret (FR_OK, dir), u)" "vfs_view u = vfs_view s2" using assms(7) l by blast
  let ?s3 = "u\<lparr>dirs := (dirs u)[a := None]\<rparr>"
  have "vfs_fat_closedir FF (Some a) s2 = (Ret 0, ?s3)"
    using u(1) run_dir_of [OF d]
    by (simp add: vfs_fat_closedir_def return_fresult_def run_bind_Ret run_bind_put_dir prog_simps Let_def)
  moreover have "dirs ?s3 ! a = None" using d(1) u(2) by (simp add: vfs_view_def)
  ultimately show ?thesis using s1(1) s2(1) by blast
qed

theorem scan_lists_directory_witness:
  "\<exists>a s1 s2 s3. vfs_fat_opendir sample_cfg dir_fatfs 0 ''/d'' (sample_vfs sample_instance) = (Ret (Some a), s1) \<and>
     dir_runs sample_cfg dir_fatfs 0 a (replicate (length sample_entries + 1) Readdir_d) s1 =
       (Ret (map (\<lambda>e. Entry (Some (dirent_of sample_cfg dir_fatfs e))) sample_entries @ [Entry None]), s2) \<and>
     vfs_fat_closedir dir_fatfs (Some a) s2 = (Ret 0, s3) \<and> dirs s3 ! a = None"
proof (rule scan_lists_directory [OF mem_dirs.fatfs_dirs_axioms])
  show "holds 0 sample_ctx (sample_vfs sample_instance)" by (simp add: holds_def)
  show "\<not> fat_lock sample_ctx" by (simp add: sample_ctx_def new_ctx_def)
qed (simp_all add: dir_fatfs_def sample_fatfs_def run_ret mem_listing_def)

end
