(* ===== verification/Sdmmc_Diskio.thy ===== *)
theory Sdmmc_Diskio
  imports Jrnl_Sample
begin

text \<open>
  The disk routines of \<open>srcs/fatfs/vfs/vfs_jrnl_fat_sdmmc.c\<close>: the byte addresses of the journal
  become sector numbers of a card. The card driver is not part of the repository: its functions
  are the fields of \<open>sdmmc_driver\<close>, on a state \<open>'c\<close> of the controllers and the cards behind
  them. The locale \<open>sector_card\<close> states what a card promises per sector; from it the lemmas derive
  what the journal relies on of its disk.
\<close>

section \<open>Model\<close>

text \<open>
  \<open>sdmmc_host_t\<close> and \<open>sdmmc_card_t\<close> have the members the code uses. A function pointer of the host
  that is \<open>NULL\<close> is \<open>None\<close>.
\<close>

record 'c sdmmc_host_t =
  host_flags :: u32
  host_slot :: int
  host_init :: "('c \<Rightarrow> esp_err_t \<times> 'c) option"
  host_deinit :: "('c \<Rightarrow> esp_err_t \<times> 'c) option"

record 'c sdmmc_card_t =
  card_host :: "'c sdmmc_host_t"
  csd_capacity :: int
  csd_sector_size :: int

text \<open>
  The device state: the controllers, and the card structures on the heap by address; one that was
  freed is \<open>None\<close>. The core calls a disk routine through a function pointer and gets a result;
  \<open>sd_undefined\<close> records that a routine was entered with no meaning (a dangling card, a division by
  zero), for the code above to stop on.
\<close>

record 'c sd_dev =
  sd_bus :: 'c
  sd_cards :: "'c sdmmc_card_t option list"
  sd_undefined :: bool

record 'c sdmmc_driver =
  SDMMC_HOST_FLAG_SPI :: u32
  SOC_SDMMC_HOST_SUPPORTED :: bool
  sizeof_card :: u32
  sdmmc_read_sectors :: "'c sdmmc_card_t \<Rightarrow> u32 \<Rightarrow> u32 \<Rightarrow> 'c \<Rightarrow> (esp_err_t \<times> byte list) \<times> 'c"
  sdmmc_write_sectors :: "'c sdmmc_card_t \<Rightarrow> cbuf \<Rightarrow> u32 \<Rightarrow> u32 \<Rightarrow> 'c \<Rightarrow> esp_err_t \<times> 'c"
  sdmmc_erase_sectors :: "'c sdmmc_card_t \<Rightarrow> u32 \<Rightarrow> u32 \<Rightarrow> 'c \<Rightarrow> esp_err_t \<times> 'c"
  sdspi_host_init_device :: "nat option \<Rightarrow> 'c \<Rightarrow> (esp_err_t \<times> int) \<times> 'c"
  sdmmc_host_init_slot :: "int \<Rightarrow> nat option \<Rightarrow> 'c \<Rightarrow> esp_err_t \<times> 'c"
  sdmmc_card_init :: "'c sdmmc_card_t \<Rightarrow> 'c \<Rightarrow> (esp_err_t \<times> 'c sdmmc_card_t) \<times> 'c"
  sdspi_host_remove_device :: "int \<Rightarrow> 'c \<Rightarrow> esp_err_t \<times> 'c"

definition on_bus :: "('c \<Rightarrow> 'a \<times> 'c) \<Rightarrow> ('c sd_dev, 'a) prog" where
  "on_bus f = (\<lambda>d. case f (sd_bus d) of (x, c) \<Rightarrow> (Ret x, d\<lparr>sd_bus := c\<rparr>))"

text \<open>\<open>(sdmmc_card_t*)handle\<close>, followed.\<close>

definition card_of :: "int \<Rightarrow> ('c sd_dev, 'c sdmmc_card_t) prog" where
  "card_of handle =
     bind (gets sd_cards) (\<lambda>t.
     if 0 \<le> handle \<and> nat handle < length t then
       (case t ! nat handle of None \<Rightarrow> undefined_behaviour | Some sdcard \<Rightarrow> ret sdcard)
     else undefined_behaviour)"

text \<open>\<open>size_t sector_size = card->csd.sector_size\<close>; the remainder by zero has no meaning.\<close>

definition sector_size_of :: "'c sdmmc_card_t \<Rightarrow> u32" where
  "sector_size_of sdcard = word_of_int (csd_sector_size sdcard)"

definition jrnl_sdmmc_read ::
  "'c sdmmc_driver \<Rightarrow> int \<Rightarrow> u32 \<Rightarrow> u32 \<Rightarrow> ('c sd_dev, esp_err_t \<times> byte list) prog" where
  "jrnl_sdmmc_read S handle src_addr sz =
     bind (card_of handle) (\<lambda>sdcard.
     let sector_size = sector_size_of sdcard in
     if sector_size = 0 then undefined_behaviour
     else if src_addr mod sector_size \<noteq> 0 \<or> sz mod sector_size \<noteq> 0 then ret (ESP_ERR_INVALID_ARG, [])
     else on_bus (sdmmc_read_sectors S sdcard (src_addr div sector_size) (sz div sector_size)))"

definition jrnl_sdmmc_write ::
  "'c sdmmc_driver \<Rightarrow> int \<Rightarrow> u32 \<Rightarrow> cbuf \<Rightarrow> u32 \<Rightarrow> ('c sd_dev, esp_err_t) prog" where
  "jrnl_sdmmc_write S handle dest_addr src sz =
     bind (card_of handle) (\<lambda>sdcard.
     let sector_size = sector_size_of sdcard in
     if sector_size = 0 then undefined_behaviour
     else if dest_addr mod sector_size \<noteq> 0 \<or> sz mod sector_size \<noteq> 0 then ret ESP_ERR_INVALID_ARG
     else on_bus (sdmmc_write_sectors S sdcard src (dest_addr div sector_size) (sz div sector_size)))"

definition jrnl_sdmmc_erase ::
  "'c sdmmc_driver \<Rightarrow> int \<Rightarrow> u32 \<Rightarrow> u32 \<Rightarrow> ('c sd_dev, esp_err_t) prog" where
  "jrnl_sdmmc_erase S handle start_addr sz =
     bind (card_of handle) (\<lambda>sdcard.
     let sector_size = sector_size_of sdcard in
     if sector_size = 0 then undefined_behaviour
     else if start_addr mod sector_size \<noteq> 0 \<or> sz mod sector_size \<noteq> 0 then ret ESP_ERR_INVALID_ARG
     else on_bus (sdmmc_erase_sectors S sdcard (start_addr div sector_size) (sz div sector_size)))"

text \<open>A routine as the core calls it.\<close>

definition as_routine :: "'a \<Rightarrow> ('c sd_dev, 'a) prog \<Rightarrow> 'c sd_dev \<Rightarrow> 'a \<times> 'c sd_dev" where
  "as_routine dummy p d =
     (case p d of (Ret x, d') \<Rightarrow> (x, d') | (_, d') \<Rightarrow> (dummy, d'\<lparr>sd_undefined := True\<rparr>))"

text \<open>\<open>diskio_cfg\<close> and \<open>volume_cfg\<close> of \<open>esp_vfs_fat_sdmmc_mount_jrnl\<close>; the product has 32 bits.\<close>

definition sdmmc_diskio_cfg :: "'c sdmmc_driver \<Rightarrow> int \<Rightarrow> 'c sd_dev esp_jrnl_diskio_t" where
  "sdmmc_diskio_cfg S sdcard =
     \<lparr> diskio_ctrl_handle = sdcard,
       disk_read = (\<lambda>h a n. as_routine (ESP_FAIL, []) (jrnl_sdmmc_read S h a n)),
       disk_write = (\<lambda>h a src n. as_routine ESP_FAIL (jrnl_sdmmc_write S h a src n)),
       disk_erase_range = (\<lambda>h a n. as_routine ESP_FAIL (jrnl_sdmmc_erase S h a n)) \<rparr>"

definition sdmmc_volume_cfg :: "'c sdmmc_card_t \<Rightarrow> esp_jrnl_volume_t" where
  "sdmmc_volume_cfg sdcard =
     \<lparr> volume_size = word_of_int (csd_capacity sdcard) * sector_size_of sdcard,
       disk_sector_size = sector_size_of sdcard \<rparr>"

section \<open>The routines on a card that is there\<close>

definition card_at :: "int \<Rightarrow> 'c sdmmc_card_t \<Rightarrow> 'c sd_dev \<Rightarrow> bool" where
  "card_at h sdcard d \<longleftrightarrow> 0 \<le> h \<and> nat h < length (sd_cards d) \<and> sd_cards d ! nat h = Some sdcard"

lemma card_of_run: "card_at h sdcard d \<Longrightarrow> bind (card_of h) f d = f sdcard d"
  by (auto simp: card_at_def card_of_def bind_assoc prog_simps)

lemma card_at_bus [simp]: "card_at h sdcard (d\<lparr>sd_bus := c\<rparr>) = card_at h sdcard d"
  by (simp add: card_at_def)

definition aligned :: "u32 \<Rightarrow> u32 \<Rightarrow> u32 \<Rightarrow> bool" where
  "aligned ss a n \<longleftrightarrow> a mod ss = 0 \<and> n mod ss = 0"

lemma mod_zero_dvd: "(a :: u32) mod b = 0 \<longleftrightarrow> unat b dvd unat a"
  by (metis dvd_eq_mod_eq_0 unat_eq_zero unat_mod)

lemma aligned_iff: "aligned ss a n \<longleftrightarrow> unat ss dvd unat a \<and> unat ss dvd unat n"
  by (simp add: aligned_def mod_zero_dvd)

lemma aligned_sectors:
  assumes "aligned ss a n"
  shows "unat (a div ss) * unat ss = unat a" and "unat (n div ss) * unat ss = unat n"
  using assms by (simp_all add: aligned_iff unat_div_u32)

lemma sdmmc_routines_run:
  assumes "card_at h sdcard d" and "sector_size_of sdcard = ss" and "ss \<noteq> 0"
  shows "disk_read (sdmmc_diskio_cfg S k) h a n d =
      (if aligned ss a n then
         map_prod id (\<lambda>c. d\<lparr>sd_bus := c\<rparr>) (sdmmc_read_sectors S sdcard (a div ss) (n div ss) (sd_bus d))
       else ((ESP_ERR_INVALID_ARG, []), d))"
    and "disk_write (sdmmc_diskio_cfg S k) h a src n d =
      (if aligned ss a n then
         map_prod id (\<lambda>c. d\<lparr>sd_bus := c\<rparr>) (sdmmc_write_sectors S sdcard src (a div ss) (n div ss) (sd_bus d))
       else (ESP_ERR_INVALID_ARG, d))"
    and "disk_erase_range (sdmmc_diskio_cfg S k) h a n d =
      (if aligned ss a n then
         map_prod id (\<lambda>c. d\<lparr>sd_bus := c\<rparr>) (sdmmc_erase_sectors S sdcard (a div ss) (n div ss) (sd_bus d))
       else (ESP_ERR_INVALID_ARG, d))"
  using assms
  by (simp_all add: sdmmc_diskio_cfg_def as_routine_def jrnl_sdmmc_read_def jrnl_sdmmc_write_def
      jrnl_sdmmc_erase_def card_of_run aligned_def Let_def on_bus_def run_ret split: prod.splits)


section \<open>The contract of a card\<close>

text \<open>
  What a card promises per sector: a routine that reports \<open>ESP_OK\<close> has done its work, one that fails has
  left the other sectors alone, and a single sector is written or erased wholly or not at
  all, which is an assumption on the card as it is in \<open>block_device\<close>. \<open>content\<close> is what the card holds by byte address, \<open>sectors\<close> how many sectors it has.
\<close>

locale sector_card =
  fixes S :: "'c sdmmc_driver"
    and sdcard :: "'c sdmmc_card_t"
    and content :: "'c \<Rightarrow> image"
    and sectors :: nat
    and erased :: byte
  assumes has_sector_size: "sector_size_of sdcard \<noteq> 0"
    and card_read_frame: "sdmmc_read_sectors S sdcard a n c = (r, c') \<Longrightarrow> content c' = content c"
    and card_read_ok:
      "sdmmc_read_sectors S sdcard a n c = ((ESP_OK, bs), c') \<Longrightarrow> unat a + unat n \<le> sectors \<Longrightarrow>
       bs = get_bytes (content c) (unat a * unat (sector_size_of sdcard)) (unat n * unat (sector_size_of sdcard))"
    and card_erase_ok:
      "sdmmc_erase_sectors S sdcard a n c = (ESP_OK, c') \<Longrightarrow> unat a + unat n \<le> sectors \<Longrightarrow>
       content c' = fill_bytes (content c) (unat a * unat (sector_size_of sdcard))
         (unat n * unat (sector_size_of sdcard)) erased"
    and card_erase_frame:
      "sdmmc_erase_sectors S sdcard a n c = (e, c') \<Longrightarrow> unat a + unat n \<le> sectors \<Longrightarrow>
       same_outside (content c) (content c') (unat a * unat (sector_size_of sdcard))
         (unat n * unat (sector_size_of sdcard))"
    and card_erase_sector:
      "sdmmc_erase_sectors S sdcard a 1 c = (e, c') \<Longrightarrow> unat a < sectors \<Longrightarrow>
       content c' = content c \<or>
       content c' = fill_bytes (content c) (unat a * unat (sector_size_of sdcard)) (unat (sector_size_of sdcard)) erased"
    and card_write_ok:
      "sdmmc_write_sectors S sdcard src a n c = (ESP_OK, c') \<Longrightarrow> unat a + unat n \<le> sectors \<Longrightarrow>
       content c' = put_bytes (content c) (unat a * unat (sector_size_of sdcard))
         (buf_bytes src (unat n * unat (sector_size_of sdcard)))"
    and card_write_frame:
      "sdmmc_write_sectors S sdcard src a n c = (e, c') \<Longrightarrow> unat a + unat n \<le> sectors \<Longrightarrow>
       same_outside (content c) (content c') (unat a * unat (sector_size_of sdcard))
         (unat n * unat (sector_size_of sdcard))"
    and card_write_sector:
      "sdmmc_write_sectors S sdcard src a 1 c = (e, c') \<Longrightarrow> unat a < sectors \<Longrightarrow>
       content c' = content c \<or>
       content c' = put_bytes (content c) (unat a * unat (sector_size_of sdcard))
         (buf_bytes src (unat (sector_size_of sdcard)))"

text \<open>The routines while the card structures in memory are those of \<open>t\<close>, as functions on the controllers.\<close>

definition on_table ::
  "'c sdmmc_card_t option list \<Rightarrow> ('c sd_dev \<Rightarrow> 'a \<times> 'c sd_dev) \<Rightarrow> 'c \<Rightarrow> 'a \<times> 'c" where
  "on_table t f c = map_prod id sd_bus (f \<lparr> sd_bus = c, sd_cards = t, sd_undefined = False \<rparr>)"

definition table_diskio ::
  "'c sdmmc_card_t option list \<Rightarrow> 'c sd_dev esp_jrnl_diskio_t \<Rightarrow> 'c esp_jrnl_diskio_t" where
  "table_diskio t io =
     \<lparr> diskio_ctrl_handle = diskio_ctrl_handle io,
       disk_read = (\<lambda>h a n. on_table t (disk_read io h a n)),
       disk_write = (\<lambda>h a src n. on_table t (disk_write io h a src n)),
       disk_erase_range = (\<lambda>h a n. on_table t (disk_erase_range io h a n)) \<rparr>"

lemma on_table_aligned:
  assumes "sector_size_of sdcard = ss" and "ss \<noteq> 0" and "0 \<le> h" and "nat h < length t" and "t ! nat h = Some sdcard"
  shows "disk_read (table_diskio t (sdmmc_diskio_cfg S k)) h a n c =
      (if aligned ss a n then sdmmc_read_sectors S sdcard (a div ss) (n div ss) c else ((ESP_ERR_INVALID_ARG, []), c))"
    and "disk_write (table_diskio t (sdmmc_diskio_cfg S k)) h a src n c =
      (if aligned ss a n then sdmmc_write_sectors S sdcard src (a div ss) (n div ss) c else (ESP_ERR_INVALID_ARG, c))"
    and "disk_erase_range (table_diskio t (sdmmc_diskio_cfg S k)) h a n c =
      (if aligned ss a n then sdmmc_erase_sectors S sdcard (a div ss) (n div ss) c else (ESP_ERR_INVALID_ARG, c))"
proof -
  have "card_at h sdcard \<lparr> sd_bus = c, sd_cards = t, sd_undefined = False \<rparr>" using assms(3-5) by (simp add: card_at_def)
  note run = sdmmc_routines_run [OF this assms(1,2), of S k]
  show "disk_read (table_diskio t (sdmmc_diskio_cfg S k)) h a n c =
      (if aligned ss a n then sdmmc_read_sectors S sdcard (a div ss) (n div ss) c else ((ESP_ERR_INVALID_ARG, []), c))"
    "disk_write (table_diskio t (sdmmc_diskio_cfg S k)) h a src n c =
      (if aligned ss a n then sdmmc_write_sectors S sdcard src (a div ss) (n div ss) c else (ESP_ERR_INVALID_ARG, c))"
    "disk_erase_range (table_diskio t (sdmmc_diskio_cfg S k)) h a n c =
      (if aligned ss a n then sdmmc_erase_sectors S sdcard (a div ss) (n div ss) c else (ESP_ERR_INVALID_ARG, c))"
    by (simp_all add: table_diskio_def on_table_def run prod.map_comp comp_def prod.map_ident id_def)
qed

text \<open>An aligned byte range of the card is a range of sectors.\<close>

lemma aligned_range:
  assumes "aligned ss a n" and "ss \<noteq> 0" and "unat a + unat n \<le> k * unat ss"
  shows "unat (a div ss) + unat (n div ss) \<le> k"
proof -
  have "(unat (a div ss) + unat (n div ss)) * unat ss \<le> k * unat ss"
    using assms(3) aligned_sectors [OF assms(1)] by (simp add: add_mult_distrib)
  then show ?thesis using assms(2) by (simp add: unat_gt_0)
qed

lemma aligned_single:
  assumes "aligned ss a n" and "ss \<noteq> 0" and "unat n = unat ss"
  shows "n div ss = 1"
proof -
  have "n = ss" using assms(3) by (simp only: word_unat_eq_iff)
  moreover have "unat (ss div ss) = unat (1 :: u32)" using assms(2) by (simp add: unat_div_u32 unat_gt_0)
  ultimately show ?thesis using word_unat_eq_iff [of "ss div ss" 1] by blast
qed

context sector_card
begin

lemma table_block_device:
  assumes "0 \<le> h" and "nat h < length t" and "t ! nat h = Some sdcard"
  shows "block_device (table_diskio t (sdmmc_diskio_cfg S h)) content (unat (sector_size_of sdcard))
     (sectors * unat (sector_size_of sdcard)) erased"
proof -
  let ?ss = "sector_size_of sdcard" and ?io = "table_diskio t (sdmmc_diskio_cfg S h)"
  have h: "diskio_ctrl_handle ?io = h" by (simp add: table_diskio_def sdmmc_diskio_cfg_def)
  note run = on_table_aligned [OF refl has_sector_size assms, of S h]
  note range = aligned_range [OF _ has_sector_size] and sec = aligned_sectors
  have one: "unat (a div ?ss) < sectors" if "aligned ?ss a n" "unat n = unat ?ss"
    "unat a + unat n \<le> sectors * unat ?ss" for a n :: u32
    using range [OF that(1,3)] aligned_single [OF that(1) has_sector_size that(2)] by simp
  show ?thesis
  proof (unfold_locales, unfold h run)
    fix a n c r c'
    assume "(if aligned ?ss a n then sdmmc_read_sectors S sdcard (a div ?ss) (n div ?ss) c
      else ((ESP_ERR_INVALID_ARG, []), c)) = (r, c')" "unat a + unat n \<le> sectors * unat ?ss"
    then show "content c' = content c" by (auto split: if_splits dest: card_read_frame)
  next
    fix a n c bs c'
    assume "(if aligned ?ss a n then sdmmc_read_sectors S sdcard (a div ?ss) (n div ?ss) c
      else ((ESP_ERR_INVALID_ARG, []), c)) = ((ESP_OK, bs), c')" "unat a + unat n \<le> sectors * unat ?ss"
    then show "bs = get_bytes (content c) (unat a) (unat n)"
      by (auto split: if_splits dest!: card_read_ok simp: range sec)
  next
    fix a n c c'
    assume "(if aligned ?ss a n then sdmmc_erase_sectors S sdcard (a div ?ss) (n div ?ss) c
      else (ESP_ERR_INVALID_ARG, c)) = (ESP_OK, c')" "unat a + unat n \<le> sectors * unat ?ss"
    then show "content c' = fill_bytes (content c) (unat a) (unat n) erased"
      by (auto split: if_splits dest!: card_erase_ok simp: range sec)
  next
    fix a n c e c'
    assume "(if aligned ?ss a n then sdmmc_erase_sectors S sdcard (a div ?ss) (n div ?ss) c
      else (ESP_ERR_INVALID_ARG, c)) = (e, c')" "unat a + unat n \<le> sectors * unat ?ss"
    then show "same_outside (content c) (content c') (unat a) (unat n)"
      by (auto split: if_splits dest!: card_erase_frame simp: range sec)
  next
    fix a n c e c'
    assume "(if aligned ?ss a n then sdmmc_erase_sectors S sdcard (a div ?ss) (n div ?ss) c
      else (ESP_ERR_INVALID_ARG, c)) = (e, c')" "unat n = unat ?ss" "unat a + unat n \<le> sectors * unat ?ss"
    then show "content c' = content c \<or> content c' = fill_bytes (content c) (unat a) (unat n) erased"
      using aligned_single [OF _ has_sector_size, of a n]
      by (auto split: if_splits dest!: card_erase_sector simp: one sec)
  next
    fix a src n c c'
    assume "(if aligned ?ss a n then sdmmc_write_sectors S sdcard src (a div ?ss) (n div ?ss) c
      else (ESP_ERR_INVALID_ARG, c)) = (ESP_OK, c')" "unat a + unat n \<le> sectors * unat ?ss"
    then show "content c' = put_bytes (content c) (unat a) (buf_bytes src (unat n))"
      by (auto split: if_splits dest!: card_write_ok simp: range sec)
  next
    fix a src n c e c'
    assume "(if aligned ?ss a n then sdmmc_write_sectors S sdcard src (a div ?ss) (n div ?ss) c
      else (ESP_ERR_INVALID_ARG, c)) = (e, c')" "unat a + unat n \<le> sectors * unat ?ss"
    then show "same_outside (content c) (content c') (unat a) (unat n)"
      by (auto split: if_splits dest!: card_write_frame simp: range sec)
  next
    fix a src n c e c'
    assume "(if aligned ?ss a n then sdmmc_write_sectors S sdcard src (a div ?ss) (n div ?ss) c
      else (ESP_ERR_INVALID_ARG, c)) = (e, c')" "unat n = unat ?ss" "unat a + unat n \<le> sectors * unat ?ss"
    then show "content c' = content c \<or> content c' = put_bytes (content c) (unat a) (buf_bytes src (unat n))"
      using aligned_single [OF _ has_sector_size, of a n]
      by (auto split: if_splits dest!: card_write_sector simp: one sec)
  qed
qed

end

text \<open>A read that succeeds was one of whole sectors of a card that is there.\<close>

lemma sdmmc_read_OK:
  assumes "disk_read (sdmmc_diskio_cfg S k) h a n d = ((ESP_OK, bs), d')"
  obtains sdcard where "card_at h sdcard d" and "unat (sector_size_of sdcard) dvd unat n"
proof -
  have "\<exists>sdcard. card_at h sdcard d \<and> n mod sector_size_of sdcard = 0"
    using assms
    by (auto simp: sdmmc_diskio_cfg_def as_routine_def jrnl_sdmmc_read_def card_of_def card_at_def bind_assoc prog_simps
        Let_def split: if_splits option.splits)
  then show thesis using that by (auto simp: mod_zero_dvd)
qed

section \<open>A simulated card\<close>

text \<open>A card of sectors of the simulated flash, which writes over what was there.\<close>

definition card_serves :: "nat \<Rightarrow> u32 \<Rightarrow> u32 \<Rightarrow> flash \<Rightarrow> bool" where
  "card_serves k a n c \<longleftrightarrow> ops_left c \<noteq> Some 0 \<and> unat a + unat n \<le> k"

definition flash_card_driver :: "nat \<Rightarrow> flash sdmmc_driver" where
  "flash_card_driver k =
     \<lparr> SDMMC_HOST_FLAG_SPI = 8, SOC_SDMMC_HOST_SUPPORTED = True, sizeof_card = 200,
       sdmmc_read_sectors = (\<lambda>cd a n c.
         let ss = unat (sector_size_of cd) in
         if card_serves k a n c then ((ESP_OK, get_bytes (cells c) (unat a * ss) (unat n * ss)), flash_tick c)
         else ((ESP_FAIL, []), c)),
       sdmmc_write_sectors = (\<lambda>cd src a n c.
         let ss = unat (sector_size_of cd) in
         if card_serves k a n c then
           (ESP_OK, flash_tick (c\<lparr>cells := put_bytes (cells c) (unat a * ss) (buf_bytes src (unat n * ss))\<rparr>))
         else (ESP_FAIL, c)),
       sdmmc_erase_sectors = (\<lambda>cd a n c.
         let ss = unat (sector_size_of cd) in
         if card_serves k a n c then
           (ESP_OK, flash_tick (c\<lparr>cells := fill_bytes (cells c) (unat a * ss) (unat n * ss) 0\<rparr>))
         else (ESP_FAIL, c)),
       sdspi_host_init_device = (\<lambda>_ c. ((ESP_OK, 1), c)),
       sdmmc_host_init_slot = (\<lambda>_ _ c. (ESP_OK, c)),
       sdmmc_card_init = (\<lambda>cd c. ((ESP_OK, cd\<lparr>csd_capacity := int k, csd_sector_size := 512\<rparr>), c)),
       sdspi_host_remove_device = (\<lambda>_ c. (ESP_OK, c)) \<rparr>"

lemma flash_card_contract:
  assumes "sector_size_of sdcard \<noteq> 0"
  shows "sector_card (flash_card_driver k) sdcard cells k 0"
  using assms
  by unfold_locales
    (auto simp: flash_card_driver_def Let_def same_outside_fill same_outside_put split: if_splits)

definition sample_host :: "'c sdmmc_host_t" where
  "sample_host = \<lparr> host_flags = 0, host_slot = 1, host_init = None, host_deinit = None \<rparr>"

definition sample_card :: "flash sdmmc_card_t" where
  "sample_card = \<lparr> card_host = sample_host, csd_capacity = 2048, csd_sector_size = 512 \<rparr>"

lemma sample_card_sector [simp]: "sector_size_of sample_card = 512"
  by (simp add: sector_size_of_def sample_card_def)

interpretation flash_card: sector_card "flash_card_driver k" sample_card cells k 0
  by (rule flash_card_contract) simp

text \<open>The routines over this card are a disk of the journal.\<close>

interpretation card_disk: block_device "table_diskio [Some sample_card] (sdmmc_diskio_cfg (flash_card_driver k) 0)"
  cells 512 "k * 512" 0
  using flash_card.table_block_device [of 0 "[Some sample_card]"] by simp

section \<open>What the journal gets\<close>

text \<open>
  C38. Over a card the three routines meet the safety contract the journal relies on: while the card structure is in
  memory they stay defined, touch nothing but the card, refuse a range that is not one of whole
  sectors, and on a card that keeps its promises per sector they keep the contract of
  \<open>block_device\<close> for byte addresses up to the end of the card. That contract says what a request that is served
  does, not that it is served: the 28 bytes of a master record are refused on a card.
\<close>

theorem sdmmc_routines_contract:
  assumes "sector_card S sdcard content sectors er" and "card_at h sdcard d"
  shows "block_device (table_diskio (sd_cards d) (sdmmc_diskio_cfg S h)) content (unat (sector_size_of sdcard))
       (sectors * unat (sector_size_of sdcard)) er \<and>
     (\<forall>a n. \<exists>e bs c. disk_read (sdmmc_diskio_cfg S h) h a n d = ((e, bs), d\<lparr>sd_bus := c\<rparr>) \<and>
        disk_read (table_diskio (sd_cards d) (sdmmc_diskio_cfg S h)) h a n (sd_bus d) = ((e, bs), c)) \<and>
     (\<forall>a src n. \<exists>e c. disk_write (sdmmc_diskio_cfg S h) h a src n d = (e, d\<lparr>sd_bus := c\<rparr>) \<and>
        disk_write (table_diskio (sd_cards d) (sdmmc_diskio_cfg S h)) h a src n (sd_bus d) = (e, c)) \<and>
     (\<forall>a n. \<exists>e c. disk_erase_range (sdmmc_diskio_cfg S h) h a n d = (e, d\<lparr>sd_bus := c\<rparr>) \<and>
        disk_erase_range (table_diskio (sd_cards d) (sdmmc_diskio_cfg S h)) h a n (sd_bus d) = (e, c)) \<and>
     (\<forall>a n. \<not> aligned (sector_size_of sdcard) a n \<longrightarrow>
        disk_read (sdmmc_diskio_cfg S h) h a n d = ((ESP_ERR_INVALID_ARG, []), d) \<and>
        (\<forall>src. disk_write (sdmmc_diskio_cfg S h) h a src n d = (ESP_ERR_INVALID_ARG, d)) \<and>
        disk_erase_range (sdmmc_diskio_cfg S h) h a n d = (ESP_ERR_INVALID_ARG, d))"
proof -
  have t: "0 \<le> h" "nat h < length (sd_cards d)" "sd_cards d ! nat h = Some sdcard"
    using assms(2) by (simp_all add: card_at_def)
  have ss: "sector_size_of sdcard \<noteq> 0" using assms(1) by (rule sector_card.has_sector_size)
  note run = sdmmc_routines_run [OF assms(2) refl ss, of S h] on_table_aligned [OF refl ss t, of S h]
  have same: "d = d\<lparr>sd_bus := sd_bus d\<rparr>" by simp
  have w: "\<exists>e c. disk_write (sdmmc_diskio_cfg S h) h a src n d = (e, d\<lparr>sd_bus := c\<rparr>) \<and>
      disk_write (table_diskio (sd_cards d) (sdmmc_diskio_cfg S h)) h a src n (sd_bus d) = (e, c)" for a src n
    using same by (cases "sdmmc_write_sectors S sdcard src (a div sector_size_of sdcard) (n div sector_size_of sdcard) (sd_bus d)")
      (auto simp: run)
  have e: "\<exists>e c. disk_erase_range (sdmmc_diskio_cfg S h) h a n d = (e, d\<lparr>sd_bus := c\<rparr>) \<and>
      disk_erase_range (table_diskio (sd_cards d) (sdmmc_diskio_cfg S h)) h a n (sd_bus d) = (e, c)" for a n
    using same by (cases "sdmmc_erase_sectors S sdcard (a div sector_size_of sdcard) (n div sector_size_of sdcard) (sd_bus d)")
      (auto simp: run)
  have r: "\<exists>e bs c. disk_read (sdmmc_diskio_cfg S h) h a n d = ((e, bs), d\<lparr>sd_bus := c\<rparr>) \<and>
      disk_read (table_diskio (sd_cards d) (sdmmc_diskio_cfg S h)) h a n (sd_bus d) = ((e, bs), c)" for a n
    using same by (cases "sdmmc_read_sectors S sdcard (a div sector_size_of sdcard) (n div sector_size_of sdcard) (sd_bus d)")
      (auto simp: run)
  show ?thesis
    using sector_card.table_block_device [OF assms(1) t] w e r by (simp add: run)
qed

theorem sdmmc_routines_contract_witness:
  "let d = \<lparr> sd_bus = sample_flash, sd_cards = [Some sample_card], sd_undefined = False \<rparr> in
   block_device (table_diskio [Some sample_card] (sdmmc_diskio_cfg (flash_card_driver 2048) 0)) cells 512 (2048 * 512) 0 \<and>
   disk_read (sdmmc_diskio_cfg (flash_card_driver 2048) 0) 0 1024 28 d = ((ESP_ERR_INVALID_ARG, []), d)"
proof -
  let ?d = "\<lparr> sd_bus = sample_flash, sd_cards = [Some sample_card], sd_undefined = False \<rparr>"
  have "card_at 0 sample_card ?d" by (simp add: card_at_def)
  moreover have "\<not> aligned 512 1024 28" by (simp add: aligned_iff)
  ultimately show ?thesis
    using sdmmc_routines_contract [OF flash_card.sector_card_axioms, of 0 ?d 2048] by (simp add: Let_def)
qed

end
