(* ===== verification/Vfs_Mount.thy ===== *)
theory Vfs_Mount
  imports Vfs_Sample Sdmmc_Diskio
begin

text \<open>
  The two pairs of functions that put the stack together:
  \<open>srcs/fatfs/vfs/vfs_jrnl_fat_spiflash.c\<close> on wear-levelled flash and
  \<open>srcs/fatfs/vfs/vfs_jrnl_fat_sdmmc.c\<close> on a card. What they call outside the repository is a
  parameter: the partition table, the drive numbers and disk table of the FatFS port, the mounting and
  formatting functions of FatFS, the wear-levelling layer, and the card driver.
\<close>

section \<open>Services outside the repository\<close>

text \<open>
  \<open>f_mount\<close> gets the work area of a context by the index of the context, \<open>None\<close> for \<open>NULL\<close>; of the
  options of \<open>f_mkfs\<close> only the allocation unit varies.
\<close>

record 'd mount_api =
  esp_partition_find_first :: "string option \<Rightarrow> ('d vfs_world, nat option) prog"
  ff_diskio_get_drive :: "('d vfs_world, esp_err_t \<times> byte) prog"
  ff_diskio_register :: "byte \<Rightarrow> ('d vfs_world, unit) prog"
  ff_diskio_unregister :: "byte \<Rightarrow> ('d vfs_world, unit) prog"
  f_mount :: "nat option \<Rightarrow> string \<Rightarrow> byte \<Rightarrow> ('d vfs_world, FRESULT) prog"
  f_mkfs :: "string \<Rightarrow> u32 \<Rightarrow> u32 \<Rightarrow> ('d vfs_world, FRESULT) prog"
  esp_vfs_fat_get_allocation_unit_size :: "u32 \<Rightarrow> u32 \<Rightarrow> u32"

record 'd wl_api =
  CONFIG_WL_SECTOR_SIZE :: u32
  wl_mount :: "nat \<Rightarrow> ('d vfs_world, esp_err_t \<times> int) prog"
  wl_unmount :: "int \<Rightarrow> ('d vfs_world, esp_err_t) prog"
  wl_size :: "int \<Rightarrow> 'd \<Rightarrow> u32"
  wl_sector_size :: "int \<Rightarrow> 'd \<Rightarrow> u32"
  wl_read :: "int \<Rightarrow> u32 \<Rightarrow> u32 \<Rightarrow> 'd \<Rightarrow> (esp_err_t \<times> byte list) \<times> 'd"
  wl_write :: "int \<Rightarrow> u32 \<Rightarrow> cbuf \<Rightarrow> u32 \<Rightarrow> 'd \<Rightarrow> esp_err_t \<times> 'd"
  wl_erase_range :: "int \<Rightarrow> u32 \<Rightarrow> u32 \<Rightarrow> 'd \<Rightarrow> esp_err_t \<times> 'd"

record esp_vfs_fat_mount_config_t =
  format_if_mount_failed :: bool
  mount_max_files :: u32
  allocation_unit_size :: u32

text \<open>The two macros of \<open>esp_jrnl.h\<close> for a wear-levelling handle.\<close>

definition ESP_JRNL_VOLUME_DEFAULT_CONFIG :: "'d wl_api \<Rightarrow> int \<Rightarrow> 'd \<Rightarrow> esp_jrnl_volume_t" where
  "ESP_JRNL_VOLUME_DEFAULT_CONFIG W wl_hndl d =
     \<lparr> volume_size = wl_size W wl_hndl d, disk_sector_size = wl_sector_size W wl_hndl d \<rparr>"

definition ESP_JRNL_DISKIO_DEFAULT_CONFIG :: "'d wl_api \<Rightarrow> int \<Rightarrow> 'd esp_jrnl_diskio_t" where
  "ESP_JRNL_DISKIO_DEFAULT_CONFIG W wl_hndl =
     \<lparr> diskio_ctrl_handle = wl_hndl, disk_read = wl_read W, disk_write = wl_write W,
       disk_erase_range = wl_erase_range W \<rparr>"

section \<open>Steps both mounts share\<close>

text \<open>\<open>char drv[3] = {(char) ('0' + pdrv), ':', 0}\<close>.\<close>

definition drive_name :: "byte \<Rightarrow> string" where
  "drive_name pdrv = [char_of (48 + unat pdrv), CHR '':'']"

text \<open>
  The pointer \<open>fs\<close> is a local without an initial value. It is assigned only where the context was
  registered; handing it over without a value has no meaning.
\<close>

definition mount_at :: "'d mount_api \<Rightarrow> nat option \<Rightarrow> string \<Rightarrow> byte \<Rightarrow> ('d vfs_world, FRESULT) prog" where
  "mount_at I fs drv opt = (case fs of None \<Rightarrow> undefined_behaviour | Some c \<Rightarrow> f_mount I (Some c) drv opt)"

text \<open>Mounting the file system, with a format where it is asked for or there is none.\<close>

definition mount_filesystem ::
  "'d mount_api \<Rightarrow> nat option \<Rightarrow> string \<Rightarrow> bool \<Rightarrow> esp_vfs_fat_mount_config_t \<Rightarrow> u32 \<Rightarrow>
   ('d vfs_world, esp_err_t) prog" where
  "mount_filesystem I fs drv force mount_config sector_size =
     bind (if force then ret (ESP_OK, True)
           else
             bind (mount_at I fs drv 1) (\<lambda>fres.
             if fres = FR_OK then ret (ESP_OK, False)
             else if (fres = FR_NO_FILESYSTEM \<or> fres = FR_INT_ERR) \<and> format_if_mount_failed mount_config
             then ret (ESP_OK, True)
             else ret (ESP_FAIL, False))) (\<lambda>(err, need_mount_again).
     if err \<noteq> ESP_OK then ret err
     else if \<not> need_mount_again then ret ESP_OK
     else
       bind (ff_memalloc 4096) (\<lambda>workbuf.
       if \<not> workbuf then ret ESP_ERR_NO_MEM
       else
         bind (f_mkfs I drv
                 (esp_vfs_fat_get_allocation_unit_size I sector_size (allocation_unit_size mount_config)) 4096) (\<lambda>fres.
         if fres \<noteq> FR_OK then ret ESP_FAIL
         else
           bind (mount_at I fs drv 0) (\<lambda>fres.
           if fres \<noteq> FR_OK then ret ESP_FAIL else ret ESP_OK))))"

text \<open>From the mounted journal to the mounted file system: steps 3 to 6 and the change to the ready state.\<close>

definition connect_volume ::
  "esp_env \<Rightarrow> libc_time \<Rightarrow> vfs_config \<Rightarrow> 'd vfs_world fatfs_api \<Rightarrow> 'd vfs_registry \<Rightarrow> 'd mount_api \<Rightarrow>
   byte \<Rightarrow> esp_jrnl_handle_t \<Rightarrow> string \<Rightarrow> bool \<Rightarrow> esp_vfs_fat_mount_config_t \<Rightarrow> u32 \<Rightarrow>
   ('d vfs_world, esp_err_t) prog" where
  "connect_volume E L C FF V I pdrv jrnl_handle path force mount_config sector_size =
     bind (ff_diskio_register_jrnl (FF_VOLUMES C) (ff_diskio_register I) pdrv jrnl_handle) (\<lambda>err.
     if err \<noteq> ESP_OK then ret err
     else
     bind (vfs_fat_register_cfg_jrnl E L C FF V
             \<lparr> conf_base_path = path, conf_fat_drive = drive_name pdrv,
               conf_max_files = mount_max_files mount_config \<rparr>) (\<lambda>(err, fs).
     if err \<noteq> ESP_ERR_INVALID_STATE \<and> err \<noteq> ESP_OK then ret err
     else
     bind (vfs_fat_register_pdrv_jrnl_handle pdrv jrnl_handle) (\<lambda>err.
     if err \<noteq> ESP_OK then ret err
     else
     bind (mount_filesystem I fs (drive_name pdrv) force mount_config sector_size) (\<lambda>err.
     if err \<noteq> ESP_OK then ret err
     else esp_jrnl_set_direct_io E jrnl_handle False))))"

section \<open>Wear-levelled flash\<close>

text \<open>
  A pointer parameter is the value behind it, \<open>None\<close> for \<open>NULL\<close>; the value of \<open>*jrnl_handle\<close> on return
  is part of the result.
\<close>

definition esp_vfs_fat_spiflash_unmount_jrnl ::
  "vfs_config \<Rightarrow> 'd vfs_registry \<Rightarrow> 'd mount_api \<Rightarrow> 'd wl_api \<Rightarrow> esp_jrnl_handle_t option \<Rightarrow> string option \<Rightarrow>
   ('d vfs_world, esp_err_t \<times> esp_jrnl_handle_t option) prog" where
  "esp_vfs_fat_spiflash_unmount_jrnl C V I W jrnl_handle path_ptr =
     (case (jrnl_handle, path_ptr) of
        (Some h, Some path) \<Rightarrow>
          if h = JRNL_INVALID_HANDLE then ret (ESP_ERR_INVALID_ARG, jrnl_handle)
          else
          bind (vfs_fat_unregister_pdrv_jrnl_handle h) (\<lambda>_.
          bind (ff_diskio_get_pdrv_jrnl (FF_VOLUMES C) h) (\<lambda>pdrv.
          if pdrv = 0xFF then ret (ESP_ERR_INVALID_STATE, jrnl_handle)
          else
          bind (ff_diskio_clear_pdrv_jrnl (FF_VOLUMES C) h) (\<lambda>_.
          bind (f_mount I None (drive_name pdrv) 0) (\<lambda>_.
          bind (ff_diskio_unregister I pdrv) (\<lambda>_.
          bind (esp_jrnl_get_diskio_handle h True) (\<lambda>(err, wl_handle).
          case wl_handle of
            None \<Rightarrow> ret (err, jrnl_handle)
          | Some wl \<Rightarrow>
              if err \<noteq> ESP_OK then ret (err, jrnl_handle)
              else
              bind (esp_jrnl_unmount h) (\<lambda>err.
              if err \<noteq> ESP_OK then ret (err, jrnl_handle)
              else
              bind (wl_unmount W wl) (\<lambda>err_drv.
              bind (vfs_fat_unregister_path_jrnl C V path) (\<lambda>err.
              ret (if err = ESP_OK then err_drv else err, Some JRNL_INVALID_HANDLE))))))))))
      | _ \<Rightarrow> ret (ESP_ERR_INVALID_ARG, jrnl_handle))"

text \<open>The body of the \<open>do ... while(0)\<close>: the result and \<open>jrnl_handle_temp\<close>.\<close>

definition spiflash_steps ::
  "esp_env \<Rightarrow> libc_time \<Rightarrow> vfs_config \<Rightarrow> 'd vfs_world fatfs_api \<Rightarrow> 'd vfs_registry \<Rightarrow> 'd mount_api \<Rightarrow> 'd wl_api \<Rightarrow>
   nat \<Rightarrow> byte \<Rightarrow> string \<Rightarrow> esp_vfs_fat_mount_config_t \<Rightarrow> esp_jrnl_config_t \<Rightarrow>
   ('d vfs_world, esp_err_t \<times> esp_jrnl_handle_t option) prog" where
  "spiflash_steps E L C FF V I W jrnl_partition pdrv path mount_config jrnl_config =
     bind (wl_mount W jrnl_partition) (\<lambda>(err, wl_handle).
     if err \<noteq> ESP_OK then ret (err, Some JRNL_INVALID_HANDLE)
     else
     bind (gets (\<lambda>s. ESP_JRNL_VOLUME_DEFAULT_CONFIG W wl_handle (dev s))) (\<lambda>volume_cfg.
     bind (esp_jrnl_mount E
             (Some \<lparr> user_cfg = jrnl_config, cfg_fs_volume_id = pdrv, volume_cfg = volume_cfg,
                     diskio_cfg = ESP_JRNL_DISKIO_DEFAULT_CONFIG W wl_handle \<rparr>)
             (Some JRNL_INVALID_HANDLE)) (\<lambda>(err, jrnl_handle_temp).
     case jrnl_handle_temp of
       None \<Rightarrow> ret (err, None)
     | Some h \<Rightarrow>
         if err \<noteq> ESP_OK then ret (err, Some h)
         else
           bind (connect_volume E L C FF V I pdrv h path (force_fs_format jrnl_config) mount_config
                   (CONFIG_WL_SECTOR_SIZE W)) (\<lambda>err.
           ret (err, Some h)))))"

definition esp_vfs_fat_spiflash_mount_jrnl ::
  "esp_env \<Rightarrow> libc_time \<Rightarrow> vfs_config \<Rightarrow> 'd vfs_world fatfs_api \<Rightarrow> 'd vfs_registry \<Rightarrow> 'd mount_api \<Rightarrow> 'd wl_api \<Rightarrow>
   string option \<Rightarrow> string option \<Rightarrow> esp_vfs_fat_mount_config_t option \<Rightarrow> esp_jrnl_config_t option \<Rightarrow>
   esp_jrnl_handle_t option \<Rightarrow> ('d vfs_world, esp_err_t \<times> esp_jrnl_handle_t option) prog" where
  "esp_vfs_fat_spiflash_mount_jrnl E L C FF V I W path_ptr partition_label mount_config jrnl_config jrnl_handle =
     (case (path_ptr, mount_config, jrnl_config, jrnl_handle) of
        (Some path, Some mcfg, Some jcfg, Some _) \<Rightarrow>
          bind (esp_partition_find_first I partition_label) (\<lambda>jrnl_partition.
          case jrnl_partition of
            None \<Rightarrow> ret (ESP_ERR_NOT_FOUND, jrnl_handle)
          | Some part \<Rightarrow>
              bind (ff_diskio_get_drive I) (\<lambda>(err, pdrv).
              if err \<noteq> ESP_OK then ret (ESP_ERR_NO_MEM, jrnl_handle)
              else
              bind (spiflash_steps E L C FF V I W part pdrv path mcfg jcfg) (\<lambda>(result, jrnl_handle_temp).
              if result = ESP_OK then ret (ESP_OK, jrnl_handle_temp)
              else
                bind (esp_vfs_fat_spiflash_unmount_jrnl C V I W jrnl_handle_temp (Some path)) (\<lambda>_.
                ret (result, jrnl_handle)))))
      | _ \<Rightarrow> ret (ESP_ERR_INVALID_ARG, jrnl_handle))"


section \<open>Cards\<close>

text \<open>
  The device state of the core has the card structures. A routine that was entered without a meaning
  makes the whole call meaningless.
\<close>

type_synonym 'c sd_world = "'c sd_dev vfs_world"

definition on_dev :: "('d, 'a) prog \<Rightarrow> ('d vfs_world, 'a) prog" where
  "on_dev p = (\<lambda>s. case p (dev s) of (r, d) \<Rightarrow> (r, s\<lparr>dev := d\<rparr>))"

definition stop_if_undefined :: "('c sd_world, 'a) prog \<Rightarrow> ('c sd_world, 'a) prog" where
  "stop_if_undefined p = (\<lambda>s. case p s of (r, s') \<Rightarrow> if sd_undefined (dev s') then (Undefined, s') else (r, s'))"

definition put_card :: "int \<Rightarrow> 'c sdmmc_card_t option \<Rightarrow> ('c sd_dev, unit) prog" where
  "put_card handle p = modify (\<lambda>d. d\<lparr>sd_cards := (sd_cards d)[nat handle := p]\<rparr>)"

text \<open>\<open>malloc(sizeof(sdmmc_card_t))\<close> and the copy of the host configuration.\<close>

definition malloc_card :: "'c sdmmc_driver \<Rightarrow> 'c sdmmc_host_t \<Rightarrow> ('c sd_world, int option) prog" where
  "malloc_card S host_config =
     bind (calloc 1 (sizeof_card S)) (\<lambda>ok.
     if \<not> ok then ret None
     else
       bind (gets (\<lambda>s. int (length (sd_cards (dev s))))) (\<lambda>p.
       bind (on_dev (modify (\<lambda>d. d\<lparr>sd_cards := sd_cards d @
               [Some \<lparr> card_host = host_config, csd_capacity = 0, csd_sector_size = 0 \<rparr>]\<rparr>))) (\<lambda>_.
       ret (Some p))))"

definition is_spi :: "'c sdmmc_driver \<Rightarrow> 'c sdmmc_card_t \<Rightarrow> bool" where
  "is_spi S sdcard \<longleftrightarrow> host_flags (card_host sdcard) AND SDMMC_HOST_FLAG_SPI S \<noteq> 0"

text \<open>\<open>sdmmc_card_init(&card->host, card)\<close> fills the structure in.\<close>

definition identify_card :: "'c sdmmc_driver \<Rightarrow> int \<Rightarrow> ('c sd_dev, esp_err_t) prog" where
  "identify_card S p =
     bind (card_of p) (\<lambda>sdcard.
     bind (on_bus (sdmmc_card_init S sdcard)) (\<lambda>(err, sdcard').
     bind (put_card p (Some sdcard')) (\<lambda>_.
     ret err)))"

text \<open>The host, the slot and the card are initialised.\<close>

definition init_card :: "'c sdmmc_driver \<Rightarrow> nat option \<Rightarrow> int \<Rightarrow> ('c sd_dev, esp_err_t) prog" where
  "init_card S slot_config p =
     bind (card_of p) (\<lambda>sdcard.
     bind (case host_init (card_host sdcard) of
             None \<Rightarrow> ret ESP_OK
           | Some init \<Rightarrow>
               bind (on_bus init) (\<lambda>err.
               ret (if err \<noteq> ESP_OK \<and> err \<noteq> ESP_ERR_INVALID_STATE then err else ESP_OK))) (\<lambda>err.
     if err \<noteq> ESP_OK then ret err
     else
     bind (if is_spi S sdcard then
             bind (on_bus (sdspi_host_init_device S slot_config)) (\<lambda>(err, slot).
             bind (put_card p (Some (sdcard\<lparr>card_host := (card_host sdcard)\<lparr>host_slot := slot\<rparr>\<rparr>))) (\<lambda>_.
             ret err))
           else if SOC_SDMMC_HOST_SUPPORTED S then
             on_bus (sdmmc_host_init_slot S (host_slot (card_host sdcard)) slot_config)
           else ret ESP_ERR_NOT_SUPPORTED) (\<lambda>err.
     if err \<noteq> ESP_OK then ret err
     else identify_card S p)))"

text \<open>The host is given back and the card structure freed.\<close>

definition release_card :: "'c sdmmc_driver \<Rightarrow> int \<Rightarrow> ('c sd_dev, unit) prog" where
  "release_card S p =
     bind (card_of p) (\<lambda>sdcard.
     bind (if is_spi S sdcard then
             bind (on_bus (sdspi_host_remove_device S (host_slot (card_host sdcard)))) (\<lambda>_. ret ())
           else ret ()) (\<lambda>_.
     bind (case host_deinit (card_host sdcard) of
             None \<Rightarrow> ret ()
           | Some deinit \<Rightarrow> bind (on_bus deinit) (\<lambda>_. ret ())) (\<lambda>_.
     put_card p None)))"

definition esp_vfs_fat_sdmmc_unmount_jrnl ::
  "'c sdmmc_driver \<Rightarrow> vfs_config \<Rightarrow> 'c sd_dev vfs_registry \<Rightarrow> 'c sd_dev mount_api \<Rightarrow> esp_jrnl_handle_t option \<Rightarrow>
   string option \<Rightarrow> ('c sd_world, esp_err_t \<times> esp_jrnl_handle_t option) prog" where
  "esp_vfs_fat_sdmmc_unmount_jrnl S C V I jrnl_handle path_ptr =
     (case (jrnl_handle, path_ptr) of
        (Some h, Some path) \<Rightarrow>
          if h = JRNL_INVALID_HANDLE then ret (ESP_ERR_INVALID_ARG, jrnl_handle)
          else
          bind (esp_jrnl_get_diskio_handle h True) (\<lambda>(err, card_handle_int).
          case card_handle_int of
            None \<Rightarrow> ret (err, jrnl_handle)
          | Some p \<Rightarrow>
              if err \<noteq> ESP_OK then ret (err, jrnl_handle)
              else
              bind (vfs_fat_unregister_pdrv_jrnl_handle h) (\<lambda>_.
              bind (ff_diskio_get_pdrv_jrnl (FF_VOLUMES C) h) (\<lambda>pdrv.
              bind (if pdrv \<noteq> 0xFF then
                      bind (f_mount I None (drive_name pdrv) 0) (\<lambda>_.
                      bind (ff_diskio_clear_pdrv_jrnl (FF_VOLUMES C) h) (\<lambda>_.
                      ff_diskio_unregister I pdrv))
                    else ret ()) (\<lambda>_.
              bind (esp_jrnl_unmount h) (\<lambda>err.
              bind (vfs_fat_unregister_path_jrnl C V path) (\<lambda>_.
              bind (on_dev (release_card S p)) (\<lambda>_.
              ret (err, Some JRNL_INVALID_HANDLE))))))))
      | _ \<Rightarrow> ret (ESP_ERR_INVALID_ARG, jrnl_handle))"

text \<open>
  From the drive number on; a result other than \<open>ESP_OK\<close> goes to the label \<open>fail\<close>, with the handle the
  journal has by then.
\<close>

definition sdmmc_steps ::
  "esp_env \<Rightarrow> libc_time \<Rightarrow> 'c sdmmc_driver \<Rightarrow> vfs_config \<Rightarrow> 'c sd_world fatfs_api \<Rightarrow> 'c sd_dev vfs_registry \<Rightarrow>
   'c sd_dev mount_api \<Rightarrow> int \<Rightarrow> 'c sdmmc_card_t \<Rightarrow> string \<Rightarrow> esp_vfs_fat_mount_config_t \<Rightarrow> esp_jrnl_config_t \<Rightarrow>
   ('c sd_world, esp_err_t \<times> esp_jrnl_handle_t option) prog" where
  "sdmmc_steps E L S C FF V I p sdcard path mount_config jrnl_config =
     bind (ff_diskio_get_drive I) (\<lambda>(err, pdrv).
     if err \<noteq> ESP_OK then ret (ESP_ERR_NO_MEM, Some JRNL_INVALID_HANDLE)
     else
     bind (esp_jrnl_mount E
             (Some \<lparr> user_cfg = jrnl_config, cfg_fs_volume_id = pdrv, volume_cfg = sdmmc_volume_cfg sdcard,
                     diskio_cfg = sdmmc_diskio_cfg S p \<rparr>)
             (Some JRNL_INVALID_HANDLE)) (\<lambda>(err, jrnl_handle_temp).
     case jrnl_handle_temp of
       None \<Rightarrow> ret (err, None)
     | Some h \<Rightarrow>
         if err \<noteq> ESP_OK then ret (err, Some h)
         else
           bind (connect_volume E L C FF V I pdrv h path (force_fs_format jrnl_config) mount_config
                   (sector_size_of sdcard)) (\<lambda>err.
           ret (err, Some h))))"

text \<open>The result also has the value \<open>*out_card\<close> got, if any.\<close>

definition esp_vfs_fat_sdmmc_mount_jrnl ::
  "esp_env \<Rightarrow> libc_time \<Rightarrow> 'c sdmmc_driver \<Rightarrow> vfs_config \<Rightarrow> 'c sd_world fatfs_api \<Rightarrow> 'c sd_dev vfs_registry \<Rightarrow>
   'c sd_dev mount_api \<Rightarrow> string option \<Rightarrow> 'c sdmmc_host_t option \<Rightarrow> nat option \<Rightarrow>
   esp_vfs_fat_mount_config_t option \<Rightarrow> bool \<Rightarrow> esp_jrnl_config_t option \<Rightarrow> esp_jrnl_handle_t option \<Rightarrow>
   ('c sd_world, esp_err_t \<times> int option \<times> esp_jrnl_handle_t option) prog" where
  "esp_vfs_fat_sdmmc_mount_jrnl E L S C FF V I path_ptr host_config slot_config mount_config out_card jrnl_config jrnl_handle =
     (case (path_ptr, host_config, mount_config, out_card, jrnl_config, jrnl_handle) of
        (Some path, Some host, Some mcfg, True, Some jcfg, Some _) \<Rightarrow>
          stop_if_undefined
          (bind (malloc_card S host) (\<lambda>ptr.
           case ptr of
             None \<Rightarrow> ret (ESP_ERR_NO_MEM, None, jrnl_handle)
           | Some p \<Rightarrow>
               bind (on_dev (init_card S slot_config p)) (\<lambda>err.
               if err \<noteq> ESP_OK then
                 bind (on_dev (release_card S p)) (\<lambda>_. ret (err, None, jrnl_handle))
               else
               bind (on_dev (card_of p)) (\<lambda>sdcard.
               bind (sdmmc_steps E L S C FF V I p sdcard path mcfg jcfg) (\<lambda>(err, jrnl_handle_temp).
               if err = ESP_OK then ret (ESP_OK, Some p, jrnl_handle_temp)
               else if jrnl_handle_temp \<noteq> Some JRNL_INVALID_HANDLE then
                 bind (esp_vfs_fat_sdmmc_unmount_jrnl S C V I jrnl_handle_temp (Some path)) (\<lambda>_.
                 ret (err, Some p, jrnl_handle))
               else
                 bind (on_dev (release_card S p)) (\<lambda>_. ret (err, Some p, jrnl_handle)))))))
      | _ \<Rightarrow> ret (ESP_ERR_INVALID_ARG, None, jrnl_handle))"

end
