(* ===== verification/Vfs_Mount_Correct.thy ===== *)
theory Vfs_Mount_Correct
  imports Vfs_Mount Vfs_Behaviour
begin

text \<open>
  Correctness of mounting and unmounting a journaled volume. \<open>mount_services\<close> is what the code relies
  on of the services outside the repository; the triples follow the steps of the code, and
  the theorems put them together: what a mount on flash leaves behind on every outcome, and that
  an operation on the mounted volume is whole or absent after a restart.
\<close>

section \<open>What the services leave alone\<close>

text \<open>
  A service may use the device without changing what it holds, allocate, and keep data of its own;
  the data of the journal and of the VFS layer stay.
\<close>

definition quiet :: "('d \<Rightarrow> image) \<Rightarrow> 'd vfs_world \<Rightarrow> 'd vfs_world \<Rightarrow> bool" where
  "quiet content s s' \<longleftrightarrow>
     (\<exists>d hp z. content d = content (dev s) \<and> s' = s\<lparr>dev := d, heap := hp, ff_static := z\<rparr>)"

lemma quiet_refl [simp]: "quiet content s s"
  unfolding quiet_def by (intro exI [of _ "dev s"] exI [of _ "heap s"] exI [of _ "ff_static s"]) simp

lemma quiet_heap [simp]: "quiet content s (s\<lparr>heap := hp\<rparr>)"
  unfolding quiet_def by (intro exI [of _ "dev s"] exI [of _ hp] exI [of _ "ff_static s"]) simp

lemma quiet_trans: "quiet content s s' \<Longrightarrow> quiet content s' s'' \<Longrightarrow> quiet content s s''"
  by (auto simp: quiet_def) (metis (no_types, lifting))

lemma quiet_fields:
  assumes "quiet content s s'"
  shows "content (dev s') = content (dev s)" "s_instances_lock s' = s_instances_lock s"
    "s_jrnl_instance_ptrs s' = s_jrnl_instance_ptrs s" "ff_jrnl_handles s' = ff_jrnl_handles s"
    "s_fat_ctxs s' = s_fat_ctxs s" "s_jrnl_handles s' = s_jrnl_handles s" "dirs s' = dirs s"
  using assms by (auto simp: quiet_def)

lemma quiet_ready:
  "quiet content s s' \<Longrightarrow> journal_ready E io content sec m h fs s' = journal_ready E io content sec m h fs s"
  by (auto simp: quiet_def journal_ready_def attached_def mounted_def)

lemma ready_tables [simp]:
  fixes s :: "'d vfs_world"
  shows
    "journal_ready E io content sec m h fs (s\<lparr>ff_jrnl_handles := t\<rparr>) = journal_ready E io content sec m h fs s"
    "journal_ready E io content sec m h fs (s\<lparr>s_fat_ctxs := ctxs\<rparr>) = journal_ready E io content sec m h fs s"
    "journal_ready E io content sec m h fs (s\<lparr>s_fat_ctx := c\<rparr>) = journal_ready E io content sec m h fs s"
    "journal_ready E io content sec m h fs (s\<lparr>s_jrnl_handles := t\<rparr>) = journal_ready E io content sec m h fs s"
    "journal_ready E io content sec m h fs (set_ctx i x s) = journal_ready E io content sec m h fs s"
  by (simp_all add: journal_ready_def attached_def mounted_def set_ctx_def)

text \<open>The journal of the drive is mounted and ready.\<close>

definition connected ::
  "esp_env \<Rightarrow> 'd esp_jrnl_diskio_t \<Rightarrow> ('d \<Rightarrow> image) \<Rightarrow> nat \<Rightarrow> esp_jrnl_master_t \<Rightarrow> byte list \<Rightarrow> byte \<Rightarrow>
   'd vfs_world \<Rightarrow> bool" where
  "connected E io content sec m fs pdrv s \<longleftrightarrow>
     (\<exists>h. journal_ready E io content sec m h fs s \<and> on_drive pdrv h s)"

text \<open>A journal that is ready has no transaction open: it refuses every write and changes nothing.\<close>

lemma ready_write_refused:
  assumes "connected E io content sec m fs pdrv s"
  shows "ff_jrnl_write E' pdrv (Some buff) target count s = (Ret RES_ERROR, s)"
proof -
  obtain h inst where d: "on_drive pdrv h s" and mt: "mounted h inst s"
    and st: "status (master inst) = ESP_JRNL_STATUS_TRANS_READY"
    using assms by (auto simp: connected_def journal_ready_def attached_def)
  show ?thesis
    by (simp add: ff_jrnl_write_def drive_handle_run [OF d] esp_jrnl_write_def mounted_run [OF mt] st Let_def
        run_bind_Ret prog_simps)
qed

text \<open>Contexts that differ in the work areas of FatFS at most.\<close>

definition same_contexts :: "vfs_fat_ctx_t option list \<Rightarrow> vfs_fat_ctx_t option list \<Rightarrow> bool" where
  "same_contexts t t' \<longleftrightarrow> map (map_option (fat_fs_update (\<lambda>_. zero_fatfs))) t' = map (map_option (fat_fs_update (\<lambda>_. zero_fatfs))) t"

lemma same_contexts_refl [simp]: "same_contexts t t"
  by (simp add: same_contexts_def)

lemma same_contexts_length: "same_contexts t t' \<Longrightarrow> length t' = length t"
  by (metis same_contexts_def length_map)

text \<open>
  The contract. The registry of the VFS reports that it is full, never an invalid state;
  \<open>f_mount\<close> and \<open>f_mkfs\<close> return when the drive they work on is connected (\<open>R\<close>), reach the disk through
  the callbacks only, and a volume that \<open>f_mount\<close> has mounted at once has its drive and a cluster size in the
  work area. \<open>f_mount\<close> without a work area gives the volume up and may mark its work area. \<open>f_mkfs\<close> reports a disk error when the callback refuses its writes.
\<close>

locale mount_services =
  fixes V :: "'d vfs_registry" and I :: "'d mount_api" and W :: "'d wl_api"
    and content :: "'d \<Rightarrow> image" and E :: esp_env and R :: "byte \<Rightarrow> 'd vfs_world \<Rightarrow> bool"
  assumes quiet_find: "\<exists>r s'. esp_partition_find_first I label s = (Ret r, s') \<and> quiet content s s'"
    and quiet_get_drive: "\<exists>r s'. ff_diskio_get_drive I s = (Ret r, s') \<and> quiet content s s'"
    and quiet_register: "\<exists>r s'. ff_diskio_register I pdrv s = (Ret r, s') \<and> quiet content s s'"
    and quiet_unregister: "\<exists>r s'. ff_diskio_unregister I pdrv s = (Ret r, s') \<and> quiet content s s'"
    and quiet_vfs_register:
      "\<exists>err s'. esp_vfs_register V path vfs i s = (Ret err, s') \<and> quiet content s s' \<and> err \<noteq> ESP_ERR_INVALID_STATE"
    and quiet_vfs_unregister: "\<exists>err s'. esp_vfs_unregister V path s = (Ret err, s') \<and> quiet content s s'"
    and quiet_wl_mount: "\<exists>r s'. wl_mount W part s = (Ret r, s') \<and> quiet content s s'"
    and quiet_wl_unmount: "\<exists>err s'. wl_unmount W wl s = (Ret err, s') \<and> quiet content s s'"
    and unmounts: "\<exists>r t s'. f_mount I None drv opt s = (Ret r, s') \<and> same_contexts (s_fat_ctxs s) t \<and>
      quiet content (s\<lparr>s_fat_ctxs := t\<rparr>) s'"
    and mounts: "R pdrv s \<Longrightarrow> holds c x s \<Longrightarrow>
      \<exists>r F s'. f_mount I (Some c) (drive_name pdrv) opt s = (Ret r, s') \<and>
        quiet content (set_ctx c (x\<lparr>fat_fs := F\<rparr>) s) s' \<and>
        (r = FR_OK \<and> opt = 1 \<longrightarrow> fs_pdrv F = pdrv \<and> fs_csize F \<noteq> 0)"
    and formats: "R pdrv s \<Longrightarrow>
      (\<And>buff target count. ff_jrnl_write E pdrv (Some buff) target count s = (Ret RES_ERROR, s)) \<Longrightarrow>
      \<exists>r s'. f_mkfs I (drive_name pdrv) au sz s = (Ret r, s') \<and> quiet content s s' \<and> r \<noteq> FR_OK"

text \<open>
  The wear-levelling layer gives out the handle \<open>w\<close>, whose routines are the disk of the journal and
  whose size is the one of the geometry; and a configuration that resumes an existing journal.
\<close>

definition wl_volume :: "'d wl_api \<Rightarrow> 'd esp_jrnl_diskio_t \<Rightarrow> esp_jrnl_master_t \<Rightarrow> int \<Rightarrow> bool" where
  "wl_volume W io m w \<longleftrightarrow> io = ESP_JRNL_DISKIO_DEFAULT_CONFIG W w \<and>
     (\<forall>d. ESP_JRNL_VOLUME_DEFAULT_CONFIG W w d = volume m) \<and>
     (\<forall>part s w' s'. wl_mount W part s = (Ret (ESP_OK, w'), s') \<longrightarrow> w' = w)"

definition resumes :: "esp_jrnl_master_t \<Rightarrow> esp_jrnl_config_t \<Rightarrow> bool" where
  "resumes m jcfg \<longleftrightarrow> cfg_store_size_sectors jcfg = store_size_sectors m \<and>
     \<not> overwrite_existing jcfg \<and> \<not> force_fs_format jcfg \<and> replay_journal_after_mount jcfg"

text \<open>A drive number the FatFS port has given out.\<close>

definition assigned :: "'d mount_api \<Rightarrow> byte \<Rightarrow> bool" where
  "assigned I pdrv \<longleftrightarrow> (\<exists>t t'. ff_diskio_get_drive I t = (Ret (ESP_OK, pdrv), t'))"

section \<open>Triples of the steps\<close>

lemma hoare_check:
  assumes "hoare P p R" and "\<And>err s. R err s \<Longrightarrow> err \<noteq> ESP_OK \<Longrightarrow> Q err s" and "hoare (R ESP_OK) q Q"
  shows "hoare P (bind p (\<lambda>err. if err \<noteq> ESP_OK then ret err else q)) Q"
proof (rule hoare_bind [OF assms(1)])
  show "hoare (R err) (if err \<noteq> ESP_OK then ret err else q) Q" for err
    using assms(2,3) by (cases "err = ESP_OK") (auto intro: hoare_ret)
qed

text \<open>The tables have their sizes and the lock of the instances is free.\<close>

definition sane :: "vfs_config \<Rightarrow> 'd vfs_world \<Rightarrow> bool" where
  "sane C s \<longleftrightarrow> \<not> s_instances_lock s \<and> length (s_jrnl_instance_ptrs s) = JRNL_MAX_HANDLES \<and>
     wf_drives (FF_VOLUMES C) s \<and> length (s_jrnl_handles s) = JRNL_MAX_HANDLES \<and>
     length (s_fat_ctxs s) = FF_VOLUMES C"

definition new_path :: "string \<Rightarrow> 'd vfs_world \<Rightarrow> bool" where
  "new_path path s \<longleftrightarrow> (\<forall>x. Some x \<in> set (s_fat_ctxs s) \<longrightarrow> base_path x \<noteq> path)"

text \<open>The number of files a context gets: the configured one, at least one.\<close>

definition file_slots :: "esp_vfs_fat_mount_config_t \<Rightarrow> nat" where
  "file_slots mcfg = unat (if mount_max_files mcfg < 1 then 1 else mount_max_files mcfg)"

text \<open>A context that was registered and not used yet.\<close>

definition fresh_ctx :: "nat \<Rightarrow> vfs_fat_ctx_t \<Rightarrow> bool" where
  "fresh_ctx n x \<longleftrightarrow> \<not> fat_lock x \<and> length (files x) = n \<and> length (o_append x) = n \<and> unat (max_files x) = n"

lemma quiet_tables:
  assumes "quiet content s s'"
  shows "sane C s' = sane C s" "new_path path s' = new_path path s" "holds c x s' = holds c x s"
    "on_drive pdrv h s' = on_drive pdrv h s"
  using quiet_fields [OF assms] by (simp_all add: sane_def new_path_def holds_def on_drive_def wf_drives_def)

lemma sane_updates [simp]:
  "length t = length (ff_jrnl_handles s) \<Longrightarrow> sane C (s\<lparr>ff_jrnl_handles := t\<rparr>) = sane C s"
  "length ctxs = length (s_fat_ctxs s) \<Longrightarrow> sane C (s\<lparr>s_fat_ctxs := ctxs\<rparr>) = sane C s"
  "length t = length (s_jrnl_handles s) \<Longrightarrow> sane C (s\<lparr>s_jrnl_handles := t\<rparr>) = sane C s"
  "sane C (s\<lparr>s_fat_ctx := c\<rparr>) = sane C s" "sane C (set_ctx i x s) = sane C s"
  by (simp_all add: sane_def wf_drives_def set_ctx_def)

lemma table_updates [simp]:
  "new_path path (s\<lparr>ff_jrnl_handles := t\<rparr>) = new_path path s"
  "holds c x (s\<lparr>s_jrnl_handles := t\<rparr>) = holds c x s" "holds c x (s\<lparr>s_fat_ctx := i\<rparr>) = holds c x s"
  "on_drive pdrv h (s\<lparr>s_jrnl_handles := t\<rparr>) = on_drive pdrv h s"
  "on_drive pdrv h (s\<lparr>s_fat_ctxs := ctxs\<rparr>) = on_drive pdrv h s"
  "on_drive pdrv h (s\<lparr>s_fat_ctx := i\<rparr>) = on_drive pdrv h s"
  "on_drive pdrv h (set_ctx c x s) = on_drive pdrv h s"
  by (simp_all add: new_path_def holds_def on_drive_def set_ctx_def)

locale journaled_volume = volume_journal io content sector capacity erased E m +
  mount_services V I W content E "connected E io content sector m fs"
  for io :: "'d esp_jrnl_diskio_t" and content :: "'d \<Rightarrow> image" and sector capacity erased
    and V :: "'d vfs_registry" and I :: "'d mount_api" and W :: "'d wl_api" and E m fs
begin

abbreviation ready :: "esp_jrnl_handle_t \<Rightarrow> 'd vfs_world \<Rightarrow> bool" where
  "ready h s \<equiv> journal_ready E io content sector m h fs s"

lemma register_drive:
  "hoare (\<lambda>s. ready h s \<and> sane C s \<and> new_path path s)
     (ff_diskio_register_jrnl (FF_VOLUMES C) (ff_diskio_register I) pdrv h)
     (\<lambda>err s. ready h s \<and> sane C s \<and> new_path path s \<and> (err = ESP_OK \<longrightarrow> on_drive pdrv h s))"
proof (rule hoareI)
  fix s assume s: "ready h s \<and> sane C s \<and> new_path path s"
  obtain s1 where r: "ff_diskio_register I pdrv s = (Ret (), s1)" and q: "quiet content s s1"
    using quiet_register [of pdrv s] by auto
  let ?s2 = "s1\<lparr>ff_jrnl_handles := (ff_jrnl_handles s1)[unat pdrv := h]\<rparr>"
  have V: "FF_VOLUMES C \<le> JRNL_MAX_HANDLES" and len: "length (ff_jrnl_handles s) = JRNL_MAX_HANDLES"
    using s by (simp_all add: sane_def wf_drives_def)
  have "ready h ?s2" using quiet_ready [OF q] s by simp
  moreover have "sane C ?s2" "new_path path ?s2"
    using s by (simp_all add: quiet_tables [OF q])
  moreover have "on_drive pdrv h ?s2" if "unat pdrv < FF_VOLUMES C"
    using that V len quiet_fields(4) [OF q] by (simp add: on_drive_def)
  ultimately show "\<exists>err s'. ff_diskio_register_jrnl (FF_VOLUMES C) (ff_diskio_register I) pdrv h s = (Ret err, s') \<and>
      ready h s' \<and> sane C s' \<and> new_path path s' \<and> (err = ESP_OK \<longrightarrow> on_drive pdrv h s')"
    using s V r by (simp add: ff_diskio_register_jrnl_def prog_simps run_bind_Ret)
qed


text \<open>
  Registering a context under a new path: it fails with nothing but calls outside made, or a new context is in a slot
  that was free.
\<close>

lemma register_outcome:
  assumes path: "new_path (conf_base_path conf) s" and len: "length (s_fat_ctxs s) = FF_VOLUMES C"
  defines "n \<equiv> if conf_max_files conf < 1 then 1 else conf_max_files conf"
  obtains (failed) err s' where "vfs_fat_register_cfg_jrnl E' L C FF V conf s = (Ret (err, None), s')"
      and "err \<noteq> ESP_OK" and "err \<noteq> ESP_ERR_INVALID_STATE" and "quiet content s s'"
    | (registered) i s' where "vfs_fat_register_cfg_jrnl E' L C FF V conf s = (Ret (ESP_OK, Some i),
        s'\<lparr>s_fat_ctxs := (s_fat_ctxs s')[i := Some (new_ctx C conf n)], s_fat_ctx := Some i\<rparr>)"
      and "i < length (s_fat_ctxs s)" and "quiet content s s'"
proof -
  let ?t = "s_fat_ctxs s" and ?i = "find_unused_context_index C (s_fat_ctxs s)"
  have start: "find_context_index_by_path C ?t (conf_base_path conf) = FF_VOLUMES C"
    using path by (auto simp: find_context_index_by_path_def first_index_Some new_path_def split: option.splits) (metis nth_mem)
  show thesis
  proof (cases "?i = FF_VOLUMES C")
    case True
    then show thesis using failed [of ESP_ERR_NO_MEM s] start by (simp add: vfs_fat_register_cfg_jrnl_def prog_simps Let_def)
  next
    case False
    then obtain j where j: "first_index (\<lambda>p. p = None) ?t = Some j"
      by (cases "first_index (\<lambda>p. p = None) ?t") (simp_all add: find_unused_context_index_def)
    then have i: "?i < length ?t" using first_index_Some [THEN iffD1, OF j] by (simp add: find_unused_context_index_def)
    obtain ok1 hp1 where a1: "ff_memalloc (sizeof_ctx C + n * sizeof_FIL C) s = (Ret ok1, s\<lparr>heap := hp1\<rparr>)"
      unfolding ff_memalloc_def by (rule calloc_run)
    obtain ok2 hp2 where a2: "ff_memalloc n (s\<lparr>heap := hp1\<rparr>) = (Ret ok2, s\<lparr>heap := hp1, heap := hp2\<rparr>)"
      unfolding ff_memalloc_def by (rule calloc_run)
    obtain api where api: "vfs_fat_get_default_api E' L C FF True = (ESP_OK, Some api)"
      by (simp add: vfs_fat_get_default_api_def)
    let ?s2 = "s\<lparr>heap := hp2\<rparr>"
    obtain err s3 where r: "esp_vfs_register V (conf_base_path conf) api ?i ?s2 = (Ret err, s3)"
      and q3: "quiet content ?s2 s3" and e: "err \<noteq> ESP_ERR_INVALID_STATE"
      using quiet_vfs_register by blast
    have q: "quiet content s s3" using q3 quiet_heap quiet_trans by blast
    have run: "vfs_fat_register_cfg_jrnl E' L C FF V conf s =
       (if \<not> ok1 then (Ret (ESP_ERR_NO_MEM, None), s\<lparr>heap := hp1\<rparr>)
        else if \<not> ok2 then (Ret (ESP_ERR_NO_MEM, None), ?s2)
        else if err \<noteq> ESP_OK then (Ret (err, None), s3)
        else (Ret (ESP_OK, Some ?i), s3\<lparr>s_fat_ctxs := (s_fat_ctxs s3)[?i := Some (new_ctx C conf n)], s_fat_ctx := Some ?i\<rparr>))"
      unfolding vfs_fat_register_cfg_jrnl_def Let_def n_def [symmetric]
      using start False a1 a2 r api by (simp add: prog_simps run_bind_Ret)
    show thesis
      using run failed [of ESP_ERR_NO_MEM "s\<lparr>heap := hp1\<rparr>"] failed [of ESP_ERR_NO_MEM ?s2] failed [of err s3] registered [OF _ i q]
        q e quiet_heap [of content s] by (auto split: if_splits)
  qed
qed

text \<open>Registering the context; a path that is registered already is excluded.\<close>

lemma register_context:
  assumes "new_path (conf_base_path conf) s" and "sane C s" and "ready h s" and "on_drive pdrv h s"
  defines "n \<equiv> if conf_max_files conf < 1 then 1 else conf_max_files conf"
  obtains err p s' where "vfs_fat_register_cfg_jrnl E' L C FF V conf s = (Ret (err, p), s')"
    and "ready h s'" and "sane C s'" and "on_drive pdrv h s'" and "err \<noteq> ESP_ERR_INVALID_STATE"
    and "err = ESP_OK \<Longrightarrow> \<exists>c x. p = Some c \<and> holds c x s' \<and> fresh_ctx (unat n) x"
proof -
  have keep: "ready h s' \<and> sane C s' \<and> on_drive pdrv h s'" if "quiet content s s'" for s'
    using assms(2-4) quiet_ready [OF that] quiet_tables [OF that] by blast
  have "length (s_fat_ctxs s) = FF_VOLUMES C" using assms(2) by (simp add: sane_def)
  with assms(1) show thesis
  proof (cases rule: register_outcome [of conf s C E' L FF])
    case (failed err s')
    then show thesis using that [of err None s'] keep by blast
  next
    case (registered i s')
    let ?s = "s'\<lparr>s_fat_ctxs := (s_fat_ctxs s')[i := Some (new_ctx C conf n)], s_fat_ctx := Some i\<rparr>"
    have "holds i (new_ctx C conf n) ?s" using registered(2) quiet_fields(5) [OF registered(3)] by (simp add: holds_def)
    moreover have "fresh_ctx (unat n) (new_ctx C conf n)" by (simp add: fresh_ctx_def new_ctx_def)
    ultimately show thesis
      by (intro that [of ESP_OK "Some i" ?s]) (use registered(1) keep [OF registered(3)] in \<open>auto simp: n_def\<close>)
  qed
qed

text \<open>What holds from the binding of the handle on, with the context \<open>c\<close> of \<open>n\<close> files.\<close>

definition bound :: "esp_jrnl_handle_t \<Rightarrow> byte \<Rightarrow> vfs_config \<Rightarrow> nat \<Rightarrow> nat \<Rightarrow> 'd vfs_world \<Rightarrow> bool" where
  "bound h pdrv C c n s \<longleftrightarrow> ready h s \<and> sane C s \<and> on_drive pdrv h s \<and>
     unat pdrv < JRNL_MAX_HANDLES \<and> s_jrnl_handles s ! unat pdrv = h \<and> (\<exists>x. holds c x s \<and> fresh_ctx n x)"

lemma bind_handle:
  assumes "ready h s" and "sane C s" and "on_drive pdrv h s" and "holds c x s" and "fresh_ctx n x"
  obtains err s' where "vfs_fat_register_pdrv_jrnl_handle pdrv h s = (Ret err, s')"
    and "ready h s'" and "sane C s'" and "err = ESP_OK \<Longrightarrow> bound h pdrv C c n s'"
proof -
  let ?s1 = "s\<lparr>s_jrnl_handles := (s_jrnl_handles s)[unat pdrv := h]\<rparr>"
  have p: "unat pdrv < JRNL_MAX_HANDLES" using assms(3) by (simp add: on_drive_def)
  have len: "length (s_jrnl_handles s) = JRNL_MAX_HANDLES" using assms(2) by (simp add: sane_def)
  have b: "bound h pdrv C c n ?s1"
    using assms p len unfolding bound_def by (intro conjI exI [of _ x]) simp_all
  have run: "vfs_fat_register_pdrv_jrnl_handle pdrv h s =
      (if s_jrnl_handles s ! unat pdrv \<noteq> JRNL_INVALID_HANDLE then (Ret ESP_ERR_INVALID_STATE, s) else (Ret ESP_OK, ?s1))"
    using p by (simp add: vfs_fat_register_pdrv_jrnl_handle_def prog_simps)
  show thesis
  proof (cases "s_jrnl_handles s ! unat pdrv = JRNL_INVALID_HANDLE")
    case True
    show thesis by (rule that [of ESP_OK ?s1]) (use True run b in \<open>simp_all add: bound_def\<close>)
  next
    case False
    show thesis by (rule that [of ESP_ERR_INVALID_STATE s]) (use False run assms in simp_all)
  qed
qed

lemma bound_quiet: "quiet content s s' \<Longrightarrow> bound h pdrv C c n s' = bound h pdrv C c n s"
  by (simp add: bound_def quiet_ready quiet_tables quiet_fields)

lemma bound_connected: "bound h pdrv C c n s \<Longrightarrow> connected E io content sector m fs pdrv s"
  by (auto simp: bound_def connected_def)

lemma bound_set_fs:
  "bound h pdrv C c n s \<Longrightarrow> holds c x s \<Longrightarrow> bound h pdrv C c n (set_ctx c (x\<lparr>fat_fs := F\<rparr>) s)"
  unfolding bound_def
  by (elim conjE exE, intro conjI exI [of _ "x\<lparr>fat_fs := F\<rparr>"])
    (simp_all add: fresh_ctx_def holds_def, auto simp: set_ctx_def)

text \<open>\<open>f_mount\<close> on a bound volume.\<close>

lemma mount_at_run:
  assumes "bound h pdrv C c n s"
  obtains r s' where "mount_at I (Some c) (drive_name pdrv) opt s = (Ret r, s')" and "bound h pdrv C c n s'"
    and "r = FR_OK \<Longrightarrow> opt = 1 \<Longrightarrow> ctx_at c n pdrv (s_jrnl_handles s') {} False s'"
proof -
  obtain x where x: "holds c x s" "fresh_ctx n x" using assms by (auto simp: bound_def)
  obtain r F s' where run: "f_mount I (Some c) (drive_name pdrv) opt s = (Ret r, s')"
    and q: "quiet content (set_ctx c (x\<lparr>fat_fs := F\<rparr>) s) s'"
    and F: "r = FR_OK \<and> opt = 1 \<longrightarrow> fs_pdrv F = pdrv \<and> fs_csize F \<noteq> 0"
    using mounts [OF bound_connected [OF assms] x(1)] by blast
  have b: "bound h pdrv C c n s'" using bound_set_fs [OF assms x(1)] bound_quiet [OF q] by blast
  have "holds c (x\<lparr>fat_fs := F\<rparr>) s'" using quiet_tables(3) [OF q] x(1) by (simp add: holds_in_table)
  then have "ctx_at c n pdrv (s_jrnl_handles s') {} False s'" if "r = FR_OK" "opt = 1"
    using that F x(2) by (auto simp: ctx_at_holds ctx_shape_def fresh_ctx_def)
  then show thesis using that [of r s'] run b by (simp add: mount_at_def)
qed

text \<open>
  Without \<open>force_fs_format\<close> the file system is mounted by the first \<open>f_mount\<close> or not at all, since the
  journal does not let a format write.
\<close>

definition found :: "byte \<Rightarrow> nat \<Rightarrow> bool" where
  "found pdrv c \<longleftrightarrow> (\<exists>t. connected E io content sector m fs pdrv t \<and>
     fst (f_mount I (Some c) (drive_name pdrv) 1 t) = Ret FR_OK)"

lemma mount_filesystem_run:
  assumes b: "bound h pdrv C c n s" and force: "\<not> force"
  obtains err s' where "mount_filesystem I (Some c) (drive_name pdrv) force mcfg ss s = (Ret err, s')"
    and "bound h pdrv C c n s'"
    and "err = ESP_OK \<Longrightarrow> ctx_at c n pdrv (s_jrnl_handles s') {} False s' \<and> found pdrv c"
proof -
  obtain r1 s1 where m1: "mount_at I (Some c) (drive_name pdrv) 1 s = (Ret r1, s1)" and b1: "bound h pdrv C c n s1"
    and k1: "r1 = FR_OK \<Longrightarrow> ctx_at c n pdrv (s_jrnl_handles s1) {} False s1"
    by (rule mount_at_run [OF b, of 1]) (rule that; simp)
  have f: "found pdrv c" if "r1 = FR_OK"
    unfolding found_def using bound_connected [OF b] m1 that by (intro exI [of _ s]) (simp add: mount_at_def)
  let ?fmt = "(r1 = FR_NO_FILESYSTEM \<or> r1 = FR_INT_ERR) \<and> format_if_mount_failed mcfg"
  let ?au = "esp_vfs_fat_get_allocation_unit_size I ss (allocation_unit_size mcfg)"
  let ?format = "bind (ff_memalloc 4096) (\<lambda>workbuf. if \<not> workbuf then ret ESP_ERR_NO_MEM
      else bind (f_mkfs I (drive_name pdrv) ?au 4096) (\<lambda>fres. if fres \<noteq> FR_OK then ret ESP_FAIL
        else bind (mount_at I (Some c) (drive_name pdrv) 0) (\<lambda>fres. if fres \<noteq> FR_OK then ret ESP_FAIL else ret ESP_OK)))"
  have run: "mount_filesystem I (Some c) (drive_name pdrv) force mcfg ss s =
      (if r1 = FR_OK then (Ret ESP_OK, s1) else if ?fmt then ?format s1 else (Ret ESP_FAIL, s1))"
    using m1 force by (cases ?fmt) (simp_all only: mount_filesystem_def if_False bind_assoc run_bind_Ret, auto simp: prog_simps)
  obtain ok hp where a: "ff_memalloc 4096 s1 = (Ret ok, s1\<lparr>heap := hp\<rparr>)"
    unfolding ff_memalloc_def by (rule calloc_run)
  have b2: "bound h pdrv C c n (s1\<lparr>heap := hp\<rparr>)" using b1 bound_quiet [OF quiet_heap] by blast
  note co = bound_connected [OF b2]
  obtain r3 s3 where mk: "f_mkfs I (drive_name pdrv) ?au 4096 (s1\<lparr>heap := hp\<rparr>) = (Ret r3, s3)"
    and q3: "quiet content (s1\<lparr>heap := hp\<rparr>) s3" and r3: "r3 \<noteq> FR_OK"
    using formats [OF co ready_write_refused [OF co]] by blast
  have b3: "bound h pdrv C c n s3" using b2 bound_quiet [OF q3] by blast
  have "?format s1 = (if \<not> ok then (Ret ESP_ERR_NO_MEM, s1\<lparr>heap := hp\<rparr>) else (Ret ESP_FAIL, s3))"
    using a mk r3 by (simp add: run_bind_Ret run_ret)
  note run = run [unfolded this]
  show thesis
  proof (cases "r1 = FR_OK")
    case True
    show thesis by (rule that [of ESP_OK s1]) (use run True b1 k1 f in simp_all)
  next
    case False
    show thesis
      by (rule that [of "if ?fmt then if \<not> ok then ESP_ERR_NO_MEM else ESP_FAIL else ESP_FAIL"
            "if ?fmt then if \<not> ok then s1\<lparr>heap := hp\<rparr> else s3 else s1"])
        (use run False b1 b2 b3 in \<open>simp_all split: if_splits\<close>)
  qed
qed

lemma bound_instance:
  "mounted h i s \<Longrightarrow> bound h pdrv C c n s \<Longrightarrow> ready h (set_instance h inst (s\<lparr>dev := d\<rparr>)) \<Longrightarrow>
   bound h pdrv C c n (set_instance h inst (s\<lparr>dev := d\<rparr>))"
  by (simp add: bound_def sane_def wf_drives_def holds_def on_drive_def set_instance_def)

lemma set_ready_bound:
  assumes b: "bound h pdrv C c n s"
  obtains err s' where "esp_jrnl_set_direct_io E h False s = (Ret err, s')" and "bound h pdrv C c n s'"
    and "s_fat_ctxs s' = s_fat_ctxs s" and "s_jrnl_handles s' = s_jrnl_handles s"
proof -
  have rd: "ready h s" using b by (simp add: bound_def)
  obtain i where mt: "mounted h i s" using rd by (auto simp: journal_ready_def attached_def)
  obtain err inst d where "esp_jrnl_set_direct_io E h False s = (Ret err, set_instance h inst (s\<lparr>dev := d\<rparr>))"
    and "ready h (set_instance h inst (s\<lparr>dev := d\<rparr>))"
    by (rule set_ready_refines [OF geometry rd])
  then show thesis using bound_instance [OF mt b] that [of err "set_instance h inst (s\<lparr>dev := d\<rparr>)"]
    by (simp add: set_instance_def)
qed

text \<open>
  A volume in use: bound, and mounted by FatFS.
\<close>

definition in_use :: "esp_jrnl_handle_t \<Rightarrow> byte \<Rightarrow> vfs_config \<Rightarrow> esp_vfs_fat_mount_config_t \<Rightarrow> nat \<Rightarrow> 'd vfs_world \<Rightarrow> bool" where
  "in_use h pdrv C mcfg c s \<longleftrightarrow> bound h pdrv C c (file_slots mcfg) s \<and>
     ctx_at c (file_slots mcfg) pdrv (s_jrnl_handles s) {} False s \<and> found pdrv c"

text \<open>The steps from the mounted journal on; every error leaves the journal ready and the tables sound.\<close>

abbreviation connected_or_failed ::
  "esp_jrnl_handle_t \<Rightarrow> byte \<Rightarrow> vfs_config \<Rightarrow> esp_vfs_fat_mount_config_t \<Rightarrow> esp_err_t \<Rightarrow> 'd vfs_world \<Rightarrow> bool" where
  "connected_or_failed h pdrv C mcfg err s \<equiv>
     ready h s \<and> sane C s \<and> (err = ESP_OK \<longrightarrow> (\<exists>c. in_use h pdrv C mcfg c s))"

lemma bound_ready: "bound h pdrv C c n s \<Longrightarrow> ready h s \<and> sane C s"
  by (simp add: bound_def)

lemma set_ready_triple:
  "hoare (in_use h pdrv C mcfg c) (esp_jrnl_set_direct_io E h False) (connected_or_failed h pdrv C mcfg)"
proof (rule hoareI)
  fix s assume u: "in_use h pdrv C mcfg c s"
  then have b: "bound h pdrv C c (file_slots mcfg) s" by (simp add: in_use_def)
  obtain err s' where r: "esp_jrnl_set_direct_io E h False s = (Ret err, s')" and b': "bound h pdrv C c (file_slots mcfg) s'"
    and e: "s_fat_ctxs s' = s_fat_ctxs s" "s_jrnl_handles s' = s_jrnl_handles s"
    by (rule set_ready_bound [OF b])
  have "in_use h pdrv C mcfg c s'" using u b' e by (simp add: in_use_def ctx_at_def)
  then show "\<exists>err s'. esp_jrnl_set_direct_io E h False s = (Ret err, s') \<and> connected_or_failed h pdrv C mcfg err s'"
    using r bound_ready [OF b'] by blast
qed

lemma mount_filesystem_triple:
  "\<not> force \<Longrightarrow> hoare (bound h pdrv C c (file_slots mcfg)) (mount_filesystem I (Some c) (drive_name pdrv) force mcfg ss)
     (\<lambda>err s. bound h pdrv C c (file_slots mcfg) s \<and> (err = ESP_OK \<longrightarrow> in_use h pdrv C mcfg c s))"
  unfolding in_use_def
  by (rule hoareI, erule mount_filesystem_run [where force = force and mcfg = mcfg and ss = ss]) auto

lemma bind_handle_triple:
  "hoare (\<lambda>s. ready h s \<and> sane C s \<and> on_drive pdrv h s \<and> (\<exists>x. holds c x s \<and> fresh_ctx n x))
     (vfs_fat_register_pdrv_jrnl_handle pdrv h)
     (\<lambda>err s. ready h s \<and> sane C s \<and> (err = ESP_OK \<longrightarrow> bound h pdrv C c n s))"
  by (rule hoareI, elim conjE exE, erule (4) bind_handle) blast

text \<open>The steps after the registration of the context.\<close>

lemma connect_tail:
  assumes "\<not> force"
  shows "hoare (\<lambda>s. ready h s \<and> sane C s \<and> on_drive pdrv h s \<and> (\<exists>x. holds c x s \<and> fresh_ctx (file_slots mcfg) x))
     (bind (vfs_fat_register_pdrv_jrnl_handle pdrv h) (\<lambda>err. if err \<noteq> ESP_OK then ret err
      else bind (mount_filesystem I (Some c) (drive_name pdrv) force mcfg ss) (\<lambda>err. if err \<noteq> ESP_OK then ret err
      else esp_jrnl_set_direct_io E h False)))
     (connected_or_failed h pdrv C mcfg)"
proof (rule hoare_check [OF bind_handle_triple])
  have d: "hoare (\<lambda>s. bound h pdrv C c (file_slots mcfg) s \<and> (ESP_OK = ESP_OK \<longrightarrow> in_use h pdrv C mcfg c s))
      (esp_jrnl_set_direct_io E h False) (connected_or_failed h pdrv C mcfg)"
    by (rule hoare_pre [OF set_ready_triple [where c = c]]) simp
  show "hoare (\<lambda>s. ready h s \<and> sane C s \<and> (ESP_OK = ESP_OK \<longrightarrow> bound h pdrv C c (file_slots mcfg) s))
      (bind (mount_filesystem I (Some c) (drive_name pdrv) force mcfg ss) (\<lambda>err. if err \<noteq> ESP_OK then ret err
        else esp_jrnl_set_direct_io E h False)) (connected_or_failed h pdrv C mcfg)"
    by (rule hoare_pre [OF hoare_check [OF mount_filesystem_triple [OF assms] _ d]]) (auto dest: bound_ready)
qed auto

lemma register_context_triple:
  "hoare (\<lambda>s. ready h s \<and> sane C s \<and> new_path path s \<and> on_drive pdrv h s)
     (vfs_fat_register_cfg_jrnl E L C FF V
        \<lparr> conf_base_path = path, conf_fat_drive = drive_name pdrv, conf_max_files = mount_max_files mcfg \<rparr>)
     (\<lambda>r s. ready h s \<and> sane C s \<and> on_drive pdrv h s \<and> fst r \<noteq> ESP_ERR_INVALID_STATE \<and>
        (fst r = ESP_OK \<longrightarrow> (\<exists>c. snd r = Some c \<and> (\<exists>x. holds c x s \<and> fresh_ctx (file_slots mcfg) x))))"
proof (rule hoareI, elim conjE)
  let ?conf = "\<lparr> conf_base_path = path, conf_fat_drive = drive_name pdrv, conf_max_files = mount_max_files mcfg \<rparr>"
  fix s assume s: "ready h s" "sane C s" "new_path path s" "on_drive pdrv h s"
  have p: "new_path (conf_base_path ?conf) s" using s(3) by simp
  have n: "unat (if conf_max_files ?conf < 1 then 1 else conf_max_files ?conf) = file_slots mcfg"
    by (simp add: file_slots_def)
  obtain err q s' where "vfs_fat_register_cfg_jrnl E L C FF V ?conf s = (Ret (err, q), s')"
    "ready h s'" "sane C s'" "on_drive pdrv h s'" "err \<noteq> ESP_ERR_INVALID_STATE"
    "err = ESP_OK \<Longrightarrow> \<exists>c x. q = Some c \<and> holds c x s' \<and> fresh_ctx (file_slots mcfg) x"
    by (rule register_context [OF p s(2,1,4), unfolded n]) (rule that; blast)
  then show "\<exists>r s'. vfs_fat_register_cfg_jrnl E L C FF V ?conf s = (Ret r, s') \<and> ready h s' \<and> sane C s' \<and>
      on_drive pdrv h s' \<and> fst r \<noteq> ESP_ERR_INVALID_STATE \<and>
      (fst r = ESP_OK \<longrightarrow> (\<exists>c. snd r = Some c \<and> (\<exists>x. holds c x s' \<and> fresh_ctx (file_slots mcfg) x)))"
    by (intro exI [of _ "(err, q)"] exI [of _ s']) auto
qed

lemma connect_run:
  assumes s: "ready h s" "sane C s" "new_path path s" and force: "\<not> force"
  shows "\<exists>err s'. connect_volume E L C FF V I pdrv h path force mcfg ss s = (Ret err, s') \<and>
     connected_or_failed h pdrv C mcfg err s'"
proof -
  have "hoare (\<lambda>s. ready h s \<and> sane C s \<and> new_path path s)
      (connect_volume E L C FF V I pdrv h path force mcfg ss) (connected_or_failed h pdrv C mcfg)"
    unfolding connect_volume_def
  proof (rule hoare_check [OF register_drive], blast, rule hoare_pre [OF hoare_bind [OF register_context_triple]])
    fix r :: "esp_err_t \<times> nat option"
    obtain err q where r: "r = (err, q)" by fastforce
    let ?last = "\<lambda>fs. bind (vfs_fat_register_pdrv_jrnl_handle pdrv h) (\<lambda>err. if err \<noteq> ESP_OK then ret err
      else bind (mount_filesystem I fs (drive_name pdrv) force mcfg ss) (\<lambda>err. if err \<noteq> ESP_OK then ret err
      else esp_jrnl_set_direct_io E h False))"
    show "hoare (\<lambda>s. ready h s \<and> sane C s \<and> on_drive pdrv h s \<and> fst r \<noteq> ESP_ERR_INVALID_STATE \<and>
        (fst r = ESP_OK \<longrightarrow> (\<exists>c. snd r = Some c \<and> (\<exists>x. holds c x s \<and> fresh_ctx (file_slots mcfg) x))))
      (case r of (err, fs) \<Rightarrow> if err \<noteq> ESP_ERR_INVALID_STATE \<and> err \<noteq> ESP_OK then ret err else ?last fs)
      (connected_or_failed h pdrv C mcfg)"
    proof (cases "err = ESP_OK \<and> q \<noteq> None")
      case True
      then obtain c where "r = (ESP_OK, Some c)" using r by auto
      then show ?thesis using hoare_pre [OF connect_tail [OF force, of h C pdrv c mcfg ss]] by simp
    next
      case False
      then show ?thesis unfolding r by (auto simp: hoare_def run_ret)
    qed
  qed simp
  from hoare_run [OF this] s show ?thesis by blast
qed


text \<open>Unmounting: while the journal is mounted, and after its instance is gone.\<close>

definition up :: "esp_jrnl_handle_t \<Rightarrow> vfs_config \<Rightarrow> 'd vfs_world \<Rightarrow> bool" where
  "up h C s \<longleftrightarrow> ready h s \<and> sane C s"

definition down :: "vfs_config \<Rightarrow> 'd vfs_world \<Rightarrow> bool" where
  "down C s \<longleftrightarrow> recovers_to E sector m (content (dev s)) fs \<and> sane C s"

lemma up_down: "up h C s \<Longrightarrow> down C s"
  by (simp add: up_def down_def journal_ready_def)

lemma keeps_up_quiet:
  "(\<And>s. \<exists>r s'. p s = (Ret r, s') \<and> quiet content s s') \<Longrightarrow> keeps (up h C) p"
  "(\<And>s. \<exists>r s'. p s = (Ret r, s') \<and> quiet content s s') \<Longrightarrow> keeps (down C) p"
proof -
  assume p: "\<And>s. \<exists>r s'. p s = (Ret r, s') \<and> quiet content s s'"
  show "keeps (up h C) p"
    using p quiet_ready [of content] quiet_tables(1) [of content] by (intro keepsI) (metis up_def)
  show "keeps (down C) p"
    using p quiet_fields(1) [of content] quiet_tables(1) [of content] by (intro keepsI) (metis down_def)
qed

lemma keeps_f_unmount: "keeps (up h C) (f_mount I None drv opt)"
proof (rule keepsI)
  fix s assume u: "up h C s"
  obtain r t s' where f: "f_mount I None drv opt s = (Ret r, s')" "same_contexts (s_fat_ctxs s) t"
    and q: "quiet content (s\<lparr>s_fat_ctxs := t\<rparr>) s'"
    using unmounts by blast
  then have "up h C s'"
    using u same_contexts_length quiet_ready [OF q] quiet_tables(1) [OF q] by (simp add: up_def)
  with f show "\<exists>x s'. f_mount I None drv opt s = (Ret x, s') \<and> up h C s'" by blast
qed

lemma keeps_unregister_handle: "keeps (up h C) (vfs_fat_unregister_pdrv_jrnl_handle k)"
  by (rule keepsI) (auto simp: vfs_fat_unregister_pdrv_jrnl_handle_def prog_simps up_def split: option.splits)

lemma keeps_drive_table:
  "keeps (up h C) (ff_diskio_get_pdrv_jrnl (FF_VOLUMES C) k)" "keeps (up h C) (ff_diskio_clear_pdrv_jrnl (FF_VOLUMES C) k)"
proof -
  have V: "FF_VOLUMES C \<le> JRNL_MAX_HANDLES" "length (ff_jrnl_handles s) = JRNL_MAX_HANDLES" if "up h C s" for s
    using that by (simp_all add: up_def sane_def wf_drives_def)
  show "keeps (up h C) (ff_diskio_get_pdrv_jrnl (FF_VOLUMES C) k)"
    using V by (intro keepsI) (force simp: ff_diskio_get_pdrv_jrnl_def prog_simps split: option.splits)
  show "keeps (up h C) (ff_diskio_clear_pdrv_jrnl (FF_VOLUMES C) k)"
    using V by (intro keepsI) (fastforce simp: ff_diskio_clear_pdrv_jrnl_def prog_simps up_def)
qed

lemma unmount_instance: "hoare (up h C) (esp_jrnl_unmount h) (\<lambda>_. down C)"
proof (rule hoareI)
  fix s assume u: "up h C s"
  then obtain inst where mt: "mounted h inst s" by (auto simp: up_def journal_ready_def attached_def)
  have lk: "\<not> s_instances_lock s" using u by (simp add: up_def sane_def)
  have "down C (s\<lparr>s_instances_lock := False, s_jrnl_instance_ptrs := (s_jrnl_instance_ptrs s)[nat h := None]\<rparr>)"
    using up_down [OF u] by (simp add: down_def sane_def wf_drives_def)
  then show "\<exists>x s'. esp_jrnl_unmount h s = (Ret x, s') \<and> down C s'" using unmount_mounted [OF mt lk] by blast
qed

lemma get_diskio_up:
  "hoare (up h C) (esp_jrnl_get_diskio_handle h True) (\<lambda>r s. up h C s \<and> r = (ESP_OK, Some (diskio_ctrl_handle io)))"
proof (rule hoareI)
  fix s assume u: "up h C s"
  then obtain inst where "attached io m h inst s" by (auto simp: up_def journal_ready_def)
  from getters_run(3) [OF geometry this] u
  show "\<exists>r s'. esp_jrnl_get_diskio_handle h True s = (Ret r, s') \<and> up h C s' \<and> r = (ESP_OK, Some (diskio_ctrl_handle io))"
    by blast
qed

lemma keeps_unregister_path: "keeps (down C) (vfs_fat_unregister_path_jrnl C V path)"
proof (rule keepsI)
  fix s assume d: "down C s"
  let ?i = "find_context_index_by_path C (s_fat_ctxs s) path"
  show "\<exists>x s'. vfs_fat_unregister_path_jrnl C V path s = (Ret x, s') \<and> down C s'"
  proof (cases "?i = FF_VOLUMES C")
    case True
    then show ?thesis using d by (simp add: vfs_fat_unregister_path_jrnl_def prog_simps)
  next
    case False
    obtain j where j: "first_index (\<lambda>p. case p of None \<Rightarrow> False | Some x \<Rightarrow> base_path x = path) (s_fat_ctxs s) = Some j"
      using False by (cases "first_index (\<lambda>p. case p of None \<Rightarrow> False | Some x \<Rightarrow> base_path x = path) (s_fat_ctxs s)")
        (simp_all add: find_context_index_by_path_def)
    then have i: "?i = j" by (simp add: find_context_index_by_path_def)
    obtain x where x: "holds j x s"
      using first_index_Some [THEN iffD1, OF j] by (auto simp: holds_def split: option.splits)
    obtain err s1 where r: "esp_vfs_unregister V (base_path x) s = (Ret err, s1)" and q: "quiet content s s1"
      using quiet_vfs_unregister by blast
    have d1: "down C s1" using d quiet_fields(1) [OF q] quiet_tables(1) [OF q] by (simp add: down_def)
    then have "down C (s1\<lparr>s_fat_ctxs := (s_fat_ctxs s1)[j := None]\<rparr>)" by (simp add: down_def)
    then show ?thesis
      using False d1 r x i by (simp add: vfs_fat_unregister_path_jrnl_def prog_simps run_ctx run_bind_Ret)
  qed
qed

lemma spiflash_unmount_triple:
  assumes "h \<noteq> JRNL_INVALID_HANDLE"
  shows "hoare (up h C) (esp_vfs_fat_spiflash_unmount_jrnl C V I W (Some h) (Some path)) (\<lambda>_. down C)"
proof -
  let ?K = "\<lambda>err. if err \<noteq> ESP_OK then ret (err, Some h)
      else bind (wl_unmount W (diskio_ctrl_handle io)) (\<lambda>err_drv. bind (vfs_fat_unregister_path_jrnl C V path)
        (\<lambda>err. ret (if err = ESP_OK then err_drv else err, Some JRNL_INVALID_HANDLE)))"
  have K: "hoare (down C) (?K err) (\<lambda>_. down C)" for err
    using keeps_up_quiet(2) [OF quiet_wl_unmount] keeps_unregister_path
    by (intro keepsD keeps_intros)
  have stop: "hoare (up h C) (ret x) (\<lambda>_. down C)" for x :: "esp_err_t \<times> esp_jrnl_handle_t option"
    by (rule hoare_ret) (rule up_down)
  have get: "hoare (up h C) (bind (esp_jrnl_get_diskio_handle h True) (\<lambda>(err, wl_handle).
      case wl_handle of None \<Rightarrow> ret (err, Some h) | Some wl \<Rightarrow>
        if err \<noteq> ESP_OK then ret (err, Some h)
        else bind (esp_jrnl_unmount h) (\<lambda>err. if err \<noteq> ESP_OK then ret (err, Some h)
          else bind (wl_unmount W wl) (\<lambda>err_drv. bind (vfs_fat_unregister_path_jrnl C V path)
            (\<lambda>err. ret (if err = ESP_OK then err_drv else err, Some JRNL_INVALID_HANDLE))))))
      (\<lambda>_. down C)"
    by (rule hoare_bind [OF get_diskio_up], rule hoare_fact)
      (simp, rule hoare_bind [OF unmount_instance], rule K)
  show ?thesis
    unfolding esp_vfs_fat_spiflash_unmount_jrnl_def prod.case option.case if_not_P [OF assms]
    by (intro hoare_if stop get
        hoare_bind [OF keepsD [OF keeps_unregister_handle]] hoare_bind [OF keepsD [OF keeps_drive_table(1)]]
        hoare_bind [OF keepsD [OF keeps_drive_table(2)]] hoare_bind [OF keepsD [OF keeps_f_unmount]]
        hoare_bind [OF keepsD [OF keeps_up_quiet(1) [OF quiet_unregister]]])
qed


text \<open>The body of the mount, and the mount with its clean-up.\<close>

lemma spiflash_steps_run:
  assumes wl: "wl_volume W io m w" and cfg: "resumes m jcfg"
    and s: "down C s" "new_path path s" "None \<in> set (s_jrnl_instance_ptrs s)"
  shows "\<exists>err h s'. spiflash_steps E L C FF V I W part pdrv path mcfg jcfg s = (Ret (err, Some h), s') \<and>
     (if h = JRNL_INVALID_HANDLE then err \<noteq> ESP_OK \<and> down C s' else connected_or_failed h pdrv C mcfg err s')"
proof -
  obtain err1 w1 s1 where w: "wl_mount W part s = (Ret (err1, w1), s1)" and q: "quiet content s s1"
    using quiet_wl_mount [of part s] by auto
  have d1: "down C s1" using s(1) quiet_fields(1) [OF q] quiet_tables(1) [OF q] by (simp add: down_def)
  show ?thesis
  proof (cases "err1 = ESP_OK")
    case False
    then show ?thesis using w d1 by (auto simp: spiflash_steps_def run_bind_Ret prog_simps)
  next
    case True
    have w1: "w1 = w" using wl w True unfolding wl_volume_def by blast
    let ?config = "\<lparr> user_cfg = jcfg, cfg_fs_volume_id = pdrv, volume_cfg = volume m, diskio_cfg = io \<rparr>"
    have mt: "matches m io ?config" using cfg by (simp add: matches_def describes_def resumes_def)
    obtain err h s2 where m: "esp_jrnl_mount E (Some ?config) (Some JRNL_INVALID_HANDLE) s1 = (Ret (err, Some h), s2)"
      and rc: "recovers_to E sector m (content (dev s2)) fs" and lk: "\<not> s_instances_lock s2"
      and len: "length (s_jrnl_instance_ptrs s2) = JRNL_MAX_HANDLES"
      and k: "if err = ESP_OK then ready h s2 else h = JRNL_INVALID_HANDLE"
      by (rule mount_refines_table [OF geometry mt, of E s1 fs JRNL_INVALID_HANDLE])
        (use d1 s(3) quiet_fields(3) [OF q] in \<open>simp_all add: down_def sane_def\<close>)
    have f: "ff_jrnl_handles s2 = ff_jrnl_handles s1" "s_fat_ctxs s2 = s_fat_ctxs s1" "s_jrnl_handles s2 = s_jrnl_handles s1"
      using more_eq_fields [OF keeps_moreD [OF frame_interface(1) m]] by simp_all
    then have s2: "sane C s2" "new_path path s2"
      using d1 lk len s(2) quiet_tables(2) [OF q] by (simp_all add: down_def sane_def wf_drives_def new_path_def)
    have run: "spiflash_steps E L C FF V I W part pdrv path mcfg jcfg s =
        (if err \<noteq> ESP_OK then (Ret (err, Some h), s2)
         else bind (connect_volume E L C FF V I pdrv h path (force_fs_format jcfg) mcfg (CONFIG_WL_SECTOR_SIZE W))
           (\<lambda>err. ret (err, Some h)) s2)"
      using w True w1 wl m by (simp add: spiflash_steps_def wl_volume_def run_bind_Ret prog_simps)
    show ?thesis
    proof (cases "err = ESP_OK")
      case False
      then show ?thesis using run k rc s2(1) by (auto simp: down_def)
    next
      case True
      have nf: "\<not> force_fs_format jcfg" using cfg by (simp add: resumes_def)
      have rd: "ready h s2" using k True by simp
      then have h: "h \<noteq> JRNL_INVALID_HANDLE"
        by (auto simp: journal_ready_def attached_def mounted_def JRNL_INVALID_HANDLE_def)
      obtain err3 s3 where "connect_volume E L C FF V I pdrv h path (force_fs_format jcfg) mcfg (CONFIG_WL_SECTOR_SIZE W) s2 = (Ret err3, s3)"
        and "connected_or_failed h pdrv C mcfg err3 s3"
        using connect_run [OF rd s2 nf] by blast
      then show ?thesis using run True h by (auto simp: run_bind_Ret run_ret)
    qed
  qed
qed

lemma spiflash_mount_run:
  assumes "wl_volume W io m w" and "resumes m jcfg"
    and "down C s" and "new_path path s" and "None \<in> set (s_jrnl_instance_ptrs s)"
  shows "\<exists>err k s'. esp_vfs_fat_spiflash_mount_jrnl E L C FF V I W (Some path) label (Some mcfg) (Some jcfg) (Some h0) s =
       (Ret (err, k), s') \<and> down C s' \<and>
     (err = ESP_OK \<longrightarrow> (\<exists>h pdrv c. k = Some h \<and> in_use h pdrv C mcfg c s' \<and> assigned I pdrv))"
proof -
  obtain p s1 where p: "esp_partition_find_first I label s = (Ret p, s1)" and q1: "quiet content s s1"
    using quiet_find by blast
  obtain err2 pdrv s2 where g: "ff_diskio_get_drive I s1 = (Ret (err2, pdrv), s2)" and q2: "quiet content s1 s2"
    using quiet_get_drive [of s1] by auto
  have q: "quiet content s s2" using q1 q2 by (rule quiet_trans)
  have d: "down C s1" "down C s2"
    using assms(3) quiet_fields(1) [OF q1] quiet_tables(1) [OF q1] quiet_fields(1) [OF q] quiet_tables(1) [OF q]
    by (simp_all add: down_def)
  have n: "new_path path s2" "None \<in> set (s_jrnl_instance_ptrs s2)"
    using assms(4,5) quiet_tables(2) [OF q] quiet_fields(3) [OF q] by simp_all
  note run = esp_vfs_fat_spiflash_mount_jrnl_def p g run_bind_Ret prog_simps
  consider "p = None" | part where "p = Some part" "err2 \<noteq> ESP_OK" | part where "p = Some part" "err2 = ESP_OK" by auto
  then show ?thesis
  proof cases
    case 1
    then show ?thesis using d(1) by (simp add: run)
  next
    case 2
    then show ?thesis using d(2) by (simp add: run)
  next
    case 3
    then have as: "assigned I pdrv" using g by (auto simp: assigned_def)
    obtain err h s3 where r: "spiflash_steps E L C FF V I W part pdrv path mcfg jcfg s2 = (Ret (err, Some h), s3)"
      and k: "if h = JRNL_INVALID_HANDLE then err \<noteq> ESP_OK \<and> down C s3 else connected_or_failed h pdrv C mcfg err s3"
      using spiflash_steps_run [OF assms(1,2) d(2) n] by blast
    show ?thesis
    proof (cases "h = JRNL_INVALID_HANDLE")
      case True
      then have "esp_vfs_fat_spiflash_unmount_jrnl C V I W (Some h) (Some path) s3 = (Ret (ESP_ERR_INVALID_ARG, Some h), s3)"
        by (simp add: esp_vfs_fat_spiflash_unmount_jrnl_def run_ret)
      then show ?thesis using 3 r k True by (simp add: run)
    next
      case False
      then have u: "up h C s3" using k by (simp add: up_def)
      obtain x s4 where "esp_vfs_fat_spiflash_unmount_jrnl C V I W (Some h) (Some path) s3 = (Ret x, s4)" and "down C s4"
        by (rule hoareE [OF spiflash_unmount_triple [OF False] u])
      then show ?thesis using 3 r k False as up_down [OF u] by (cases "err = ESP_OK") (auto simp: run)
    qed
  qed
qed

end

section \<open>Mounting on flash\<close>

text \<open>What a user of a mounted volume relies on: the hypotheses of the operations of the VFS layer.\<close>

definition serves ::
  "esp_env \<Rightarrow> 'd esp_jrnl_diskio_t \<Rightarrow> ('d \<Rightarrow> image) \<Rightarrow> nat \<Rightarrow> esp_jrnl_master_t \<Rightarrow> byte list \<Rightarrow> nat \<Rightarrow>
   esp_jrnl_handle_t \<Rightarrow> byte \<Rightarrow> nat \<Rightarrow> 'd vfs_world \<Rightarrow> bool" where
  "serves E io content sec m fs n h pdrv c s \<longleftrightarrow>
     journal_ready E io content sec m h fs s \<and> on_drive pdrv h s \<and>
     unat pdrv < length (s_jrnl_handles s) \<and> s_jrnl_handles s ! unat pdrv = h \<and>
     ctx_at c n pdrv (s_jrnl_handles s) {} False s"

context journaled_volume
begin

lemma in_use_serves:
  "in_use h pdrv C mcfg c s \<Longrightarrow> serves E io content sector m fs (file_slots mcfg) h pdrv c s"
  by (auto simp: in_use_def bound_def serves_def sane_def)

lemma spiflash_mount_serves:
  assumes "wl_volume W io m w" and "resumes m jcfg"
    and "recovers_to E sector m (content (dev s)) fs" and "sane C s" and "new_path path s"
    and "None \<in> set (s_jrnl_instance_ptrs s)"
  shows "\<exists>err k s'. esp_vfs_fat_spiflash_mount_jrnl E L C FF V I W (Some path) label (Some mcfg) (Some jcfg) (Some h0) s =
       (Ret (err, k), s') \<and> recovers_to E sector m (content (dev s')) fs \<and> sane C s' \<and>
     (err = ESP_OK \<longrightarrow> (\<exists>h pdrv c. k = Some h \<and> serves E io content sector m fs (file_slots mcfg) h pdrv c s' \<and>
       found pdrv c \<and> assigned I pdrv))"
  using spiflash_mount_run [OF assms(1,2) _ assms(5,6), of C L FF label mcfg h0] assms(3,4) in_use_serves
  unfolding down_def in_use_def by fast

end

text \<open>
  C10. Mounting a journaled volume on flash is safe and complete, for a configuration that resumes the journal (replay
  on, neither \<open>force_fs_format\<close> nor \<open>overwrite_existing\<close>), a path that is not registered yet, a free slot in
  the table of instances, and a disk that stands for a file system, idle or with a committed transaction to
  carry out. Whatever the device, the allocator, FatFS and the registry do within their contracts: the call
  returns, the file system the disk stands for is the one of before, the tables are sound and no lock is kept. When it reports success, a committed
  transaction that was interrupted has been replayed, the journal is ready over that file system, and
  drive, journal handle and context are bound to each other the way the operations of the VFS
  layer need them.
\<close>

theorem spiflash_mount_safe:
  fixes s :: "'d vfs_world"
  assumes "journaled_volume io content sec cap er V I W E m fs" and "wl_volume W io m w" and "resumes m jcfg"
    and "recovers_to E sec m (content (dev s)) fs" and "sane C s" and "new_path path s"
    and "None \<in> set (s_jrnl_instance_ptrs s)"
  shows "\<exists>err k s'. esp_vfs_fat_spiflash_mount_jrnl E L C FF V I W (Some path) label (Some mcfg) (Some jcfg) (Some h0) s =
       (Ret (err, k), s') \<and> recovers_to E sec m (content (dev s')) fs \<and> sane C s' \<and>
     (err = ESP_OK \<longrightarrow> (\<exists>h pdrv c. k = Some h \<and> serves E io content sec m fs (file_slots mcfg) h pdrv c s'))"
  using journaled_volume.spiflash_mount_serves [OF assms, of L FF label mcfg h0] by blast

text \<open>
  C39. With a configuration that resumes the journal, that is, with neither \<open>force_fs_format\<close> nor
  \<open>overwrite_existing\<close>, \<open>format_if_mount_failed\<close> does not format a volume in which FatFS finds no file system: the
  journal is ready by the time of the format and refuses its writes. Whatever \<open>format_if_mount_failed\<close> says, the mount
  fails, and the file system sectors the disk stands for are kept. With \<open>overwrite_existing\<close> the journal is in direct
  mode instead, and the theorem does not apply.
\<close>

theorem format_needs_force:
  fixes s :: "'d vfs_world"
  assumes "journaled_volume io content sec cap er V I W E m fs" and "wl_volume W io m w" and "resumes m jcfg"
    and "recovers_to E sec m (content (dev s)) fs" and "sane C s" and "new_path path s"
    and "None \<in> set (s_jrnl_instance_ptrs s)"
    and "\<forall>c pdrv t. connected E io content sec m fs pdrv t \<longrightarrow>
      fst (f_mount I (Some c) (drive_name pdrv) 1 t) \<noteq> Ret FR_OK"
  shows "\<exists>err k s'. esp_vfs_fat_spiflash_mount_jrnl E L C FF V I W (Some path) label (Some mcfg) (Some jcfg) (Some h0) s =
       (Ret (err, k), s') \<and> err \<noteq> ESP_OK \<and> recovers_to E sec m (content (dev s')) fs"
  using journaled_volume.spiflash_mount_serves [OF assms(1-7), of L FF label mcfg h0] assms(8)
  unfolding journaled_volume.found_def [OF assms(1)] by blast


section \<open>A sample of the services\<close>

text \<open>
  The sample flash behind a wear-levelling interface, a registry that accepts everything, and a FatFS whose
  \<open>f_mount\<close> reads the first sector of its drive through the callback and whose \<open>f_mkfs\<close> writes it.
\<close>

definition sample_wl :: "flash wl_api" where
  "sample_wl =
     \<lparr> CONFIG_WL_SECTOR_SIZE = 32, wl_mount = (\<lambda>part. ret (ESP_OK, 0)), wl_unmount = (\<lambda>w. ret ESP_OK),
       wl_size = (\<lambda>w d. 384), wl_sector_size = (\<lambda>w d. 32),
       wl_read = flash_read 384, wl_write = flash_write 384, wl_erase_range = flash_erase 384 \<rparr>"

definition drive_of_name :: "string \<Rightarrow> byte" where
  "drive_of_name drv = of_nat (of_char (hd drv)) - 48"

definition sample_f_mount :: "bool \<Rightarrow> nat option \<Rightarrow> string \<Rightarrow> byte \<Rightarrow> (flash vfs_world, FRESULT) prog" where
  "sample_f_mount formatted fs drv opt =
     (case fs of
        None \<Rightarrow> ret FR_OK
      | Some c \<Rightarrow>
          bind (ff_jrnl_read (drive_of_name drv) True 0 1) (\<lambda>(res, bs).
          if res \<noteq> RES_OK then ret FR_DISK_ERR
          else if \<not> formatted then ret FR_NO_FILESYSTEM
          else
            bind (ctx_of c) (\<lambda>x.
            bind (put_ctx c (x\<lparr>fat_fs := (fat_fs x)\<lparr>fs_pdrv := drive_of_name drv, fs_csize := 1\<rparr>\<rparr>)) (\<lambda>_.
            ret FR_OK))))"

definition sample_f_mkfs :: "string \<Rightarrow> u32 \<Rightarrow> u32 \<Rightarrow> (flash vfs_world, FRESULT) prog" where
  "sample_f_mkfs drv au sz =
     bind (ff_jrnl_write sample_env (drive_of_name drv) (Some (\<lambda>_. 0)) 0 1) (\<lambda>res.
     ret (if res = RES_OK then FR_OK else FR_DISK_ERR))"

definition sample_services :: "bool \<Rightarrow> flash mount_api" where
  "sample_services formatted =
     \<lparr> esp_partition_find_first = (\<lambda>label. ret (Some 0)), ff_diskio_get_drive = ret (ESP_OK, 0),
       ff_diskio_register = (\<lambda>pdrv. ret ()), ff_diskio_unregister = (\<lambda>pdrv. ret ()),
       f_mount = sample_f_mount formatted, f_mkfs = sample_f_mkfs,
       esp_vfs_fat_get_allocation_unit_size = (\<lambda>sec unit. max sec unit) \<rparr>"

lemma drive_of_drive_name: "drive_of_name (drive_name pdrv) = pdrv"
proof -
  have "(of_nat ((48 + unat pdrv) mod 256) :: byte) = of_nat (48 + unat pdrv)"
    unfolding word_of_nat_eq_iff by (simp add: take_bit_eq_mod)
  then show ?thesis by (simp add: drive_of_name_def drive_name_def)
qed

lemma sample_wl_io: "ESP_JRNL_DISKIO_DEFAULT_CONFIG sample_wl 0 = sample_io"
  by (simp add: ESP_JRNL_DISKIO_DEFAULT_CONFIG_def sample_wl_def sample_io_def flash_diskio_def)

lemma sample_wl_volume: "wl_volume sample_wl sample_io sample_master 0"
  using sample_wl_io
  by (simp add: wl_volume_def ESP_JRNL_VOLUME_DEFAULT_CONFIG_def sample_master_def sample_volume_def)
    (simp add: sample_wl_def run_ret)

lemma sample_f_mount_eq:
  assumes "on_drive pdrv h s" and "holds c x s" and "esp_jrnl_read h 0 True 1 s = (Ret (err, bs), s\<lparr>dev := e\<rparr>)"
  shows "sample_f_mount formatted (Some c) (drive_name pdrv) opt s =
      (if err \<noteq> ESP_OK then (Ret FR_DISK_ERR, s\<lparr>dev := e\<rparr>)
       else if \<not> formatted then (Ret FR_NO_FILESYSTEM, s\<lparr>dev := e\<rparr>)
       else (Ret FR_OK, set_ctx c (x\<lparr>fat_fs := (fat_fs x)\<lparr>fs_pdrv := pdrv, fs_csize := 1\<rparr>\<rparr>) (s\<lparr>dev := e\<rparr>)))"
proof -
  have "holds c x (s\<lparr>dev := e\<rparr>)" using assms(2) by (simp add: holds_def)
  then show ?thesis
    using assms(3)
    by (simp add: sample_f_mount_def drive_of_drive_name ff_jrnl_read_def drive_handle_run [OF assms(1)] bind_assoc
        run_bind_Ret prog_simps run_ctx)
qed

lemma sample_first_read:
  assumes "attached sample_io sample_master h inst s"
  obtains err bs e where "esp_jrnl_read h 0 True 1 s = (Ret (err, bs), s\<lparr>dev := e\<rparr>)" and "cells e = cells (dev s)"
proof -
  have "unat (0 :: u32) + unat (1 :: u32) < 2 ^ 32" by simp
  from block_device.any_read_run [OF sample_device sample_geom assms this] that show thesis by blast
qed

lemma sample_f_mount_run:
  assumes "connected sample_env sample_io cells 32 sample_master fs pdrv s" and "holds c x s"
  shows "\<exists>r F s'. sample_f_mount formatted (Some c) (drive_name pdrv) opt s = (Ret r, s') \<and>
     quiet cells (set_ctx c (x\<lparr>fat_fs := F\<rparr>) s) s' \<and> (r = FR_OK \<and> opt = 1 \<longrightarrow> fs_pdrv F = pdrv \<and> fs_csize F \<noteq> 0)"
proof -
  obtain h inst where d: "on_drive pdrv h s" and at: "attached sample_io sample_master h inst s"
    using assms(1) by (auto simp: connected_def journal_ready_def)
  obtain err bs e where r: "esp_jrnl_read h 0 True 1 s = (Ret (err, bs), s\<lparr>dev := e\<rparr>)" and c: "cells e = cells (dev s)"
    by (rule sample_first_read [OF at])
  let ?F = "(fat_fs x)\<lparr>fs_pdrv := pdrv, fs_csize := 1\<rparr>"
  have q: "quiet cells t (t\<lparr>dev := e\<rparr>)" if "cells e = cells (dev t)" for t :: "flash vfs_world"
    unfolding quiet_def using that
    by (intro exI [of _ e] exI [of _ "heap t"] exI [of _ "ff_static t"]) simp
  note run = sample_f_mount_eq [OF d assms(2) r, of formatted opt]
  show ?thesis
  proof (cases "err = ESP_OK \<and> formatted")
    case True
    have eq: "set_ctx c y (s\<lparr>dev := e\<rparr>) = (set_ctx c y s)\<lparr>dev := e\<rparr>" and dv: "dev (set_ctx c y s) = dev s" for y
      by (simp_all add: set_ctx_def)
    have "quiet cells (set_ctx c (x\<lparr>fat_fs := ?F\<rparr>) s) (set_ctx c (x\<lparr>fat_fs := ?F\<rparr>) (s\<lparr>dev := e\<rparr>))"
      unfolding eq by (rule q) (simp add: dv c)
    then show ?thesis using run True by (intro exI [of _ FR_OK] exI [of _ ?F]) auto
  next
    case False
    have "x\<lparr>fat_fs := fat_fs x\<rparr> = x" by simp
    then have "set_ctx c (x\<lparr>fat_fs := fat_fs x\<rparr>) s = s" using set_ctx_id [OF assms(2)] by simp
    then show ?thesis using run False q [OF c]
      by (intro exI [of _ "if err \<noteq> ESP_OK then FR_DISK_ERR else FR_NO_FILESYSTEM"] exI [of _ "fat_fs x"]) auto
  qed
qed

interpretation sample_mounts: mount_services sample_registry "sample_services formatted" sample_wl cells sample_env
  "connected sample_env sample_io cells 32 sample_master fs"
proof (unfold_locales, goal_cases)
  case (9 drv opt s)
  have "f_mount (sample_services formatted) None drv opt s = (Ret FR_OK, s)"
    by (simp add: sample_services_def sample_f_mount_def run_ret)
  moreover have "quiet cells (s\<lparr>s_fat_ctxs := s_fat_ctxs s\<rparr>) s" by simp
  ultimately show ?case using same_contexts_refl by blast
next
  case (10 pdrv s c x opt)
  from sample_f_mount_run [OF this] show ?case by (simp add: sample_services_def)
next
  case (11 pdrv s au sz)
  then have "f_mkfs (sample_services formatted) (drive_name pdrv) au sz s = (Ret FR_DISK_ERR, s)"
    by (simp add: sample_services_def sample_f_mkfs_def drive_of_drive_name run_bind_Ret run_ret)
  then show ?case by simp
qed (auto simp: sample_services_def sample_registry_def sample_wl_def sample_f_mount_def run_ret)

interpretation sample_volume: journaled_volume sample_io cells 32 384 "0xFF" sample_registry "sample_services formatted"
  sample_wl sample_env sample_master fs
  using sample_journal.volume_journal_axioms sample_mounts.mount_services_axioms by (rule journaled_volume.intro)


text \<open>A configuration for the sample volume.\<close>

lemma sample_off_sane: "sane sample_cfg (sample_off d)" "new_path path (sample_off d)"
    "None \<in> set (s_jrnl_instance_ptrs (sample_off d))"
  by (simp_all add: sane_def wf_drives_def JRNL_MAX_HANDLES_def sample_cfg_def new_path_def)

definition sample_mcfg :: esp_vfs_fat_mount_config_t where
  "sample_mcfg = \<lparr> format_if_mount_failed = True, mount_max_files = 2, allocation_unit_size = 32 \<rparr>"

lemma sample_slots: "file_slots sample_mcfg = 2"
  by (simp add: file_slots_def sample_mcfg_def)

definition sample_jcfg :: esp_jrnl_config_t where
  "sample_jcfg = ESP_JRNL_DEFAULT_CONFIG\<lparr>cfg_store_size_sectors := 8\<rparr>"

lemma sample_resumes: "resumes sample_master sample_jcfg"
  by (simp add: resumes_def sample_jcfg_def sample_master_def ESP_JRNL_DEFAULT_CONFIG_def)

lemma sample_off_recovers: "recovers_to sample_env 32 sample_master (cells (dev (sample_off sample_flash))) sample_fs"
  using blank_recovers by simp

text \<open>The committed flash of the sample stands for the file system with the logged write.\<close>

lemma committed_recovers: "recovers_to sample_env 32 sample_master (cells (dev (sample_off committed_flash)))
    (write_fs 32 [sample_op] (fs_bytes 32 sample_master (cells committed_flash)))"
  using committed_sample by (auto simp: recovers_to_def)

abbreviation sample_mount_jrnl :: "bool \<Rightarrow> flash vfs_world \<Rightarrow> (esp_err_t \<times> esp_jrnl_handle_t option) outcome \<times> flash vfs_world" where
  "sample_mount_jrnl formatted \<equiv> esp_vfs_fat_spiflash_mount_jrnl sample_env sample_libc sample_cfg sample_fatfs sample_registry
     (sample_services formatted) sample_wl (Some ''/flash'') None (Some sample_mcfg) (Some sample_jcfg) (Some 0)"

theorem spiflash_mount_safe_witness:
  "let fs = write_fs 32 [sample_op] (fs_bytes 32 sample_master (cells committed_flash)) in
   \<exists>err k s'. sample_mount_jrnl True (sample_off committed_flash) = (Ret (err, k), s') \<and>
     recovers_to sample_env 32 sample_master (cells (dev s')) fs \<and>
     (err = ESP_OK \<longrightarrow> (\<exists>h pdrv c. k = Some h \<and> serves sample_env sample_io cells 32 sample_master fs 2 h pdrv c s'))"
  using spiflash_mount_safe [OF sample_volume.journaled_volume_axioms sample_wl_volume sample_resumes committed_recovers
      sample_off_sane, of sample_libc sample_fatfs True "''/flash''" None sample_mcfg 0]
  unfolding Let_def sample_slots by blast

theorem format_needs_force_witness:
  "\<exists>err k s'. sample_mount_jrnl False (sample_off sample_flash) = (Ret (err, k), s') \<and> err \<noteq> ESP_OK \<and>
     recovers_to sample_env 32 sample_master (cells (dev s')) sample_fs"
proof (rule format_needs_force [OF sample_volume.journaled_volume_axioms sample_wl_volume sample_resumes sample_off_recovers
      sample_off_sane], intro allI impI)
  fix c pdrv and t :: "flash vfs_world"
  assume "connected sample_env sample_io cells 32 sample_master sample_fs pdrv t"
  then obtain h inst where d: "on_drive pdrv h t" and at: "attached sample_io sample_master h inst t"
    by (auto simp: connected_def journal_ready_def)
  obtain err bs e where "esp_jrnl_read h 0 True 1 t = (Ret (err, bs), t\<lparr>dev := e\<rparr>)"
    by (rule sample_first_read [OF at])
  then show "fst (f_mount (sample_services False) (Some c) (drive_name pdrv) 1 t) \<noteq> Ret FR_OK"
    by (simp add: sample_services_def sample_f_mount_def drive_of_drive_name ff_jrnl_read_def drive_handle_run [OF d]
        bind_assoc run_bind_Ret prog_simps)
qed

section \<open>From mount to mount\<close>

text \<open>
  A mount at \<open>t\<close> returns, keeps the file system \<open>fs\<close> on the disk, and on success leaves a working volume
  over it.
\<close>

definition mounts_over ::
  "('d vfs_world, esp_err_t \<times> esp_jrnl_handle_t option) prog \<Rightarrow> esp_env \<Rightarrow> 'd esp_jrnl_diskio_t \<Rightarrow> ('d \<Rightarrow> image) \<Rightarrow>
   nat \<Rightarrow> esp_jrnl_master_t \<Rightarrow> nat \<Rightarrow> byte list \<Rightarrow> 'd vfs_world \<Rightarrow> bool" where
  "mounts_over mount E io content sec m n fs t \<longleftrightarrow>
     (\<exists>err k t'. mount t = (Ret (err, k), t') \<and> recovers_to E sec m (content (dev t')) fs \<and>
        (err = ESP_OK \<longrightarrow> (\<exists>h pdrv c. k = Some h \<and> serves E io content sec m fs n h pdrv c t')))"

text \<open>The machine after a start: the device holds what it held, nothing is mounted yet under the path.\<close>

definition restarted :: "('d \<Rightarrow> image) \<Rightarrow> vfs_config \<Rightarrow> string \<Rightarrow> 'd vfs_world \<Rightarrow> 'd vfs_world \<Rightarrow> bool" where
  "restarted content C path s t \<longleftrightarrow> content (dev t) = content (dev s) \<and> sane C t \<and> new_path path t \<and>
     None \<in> set (s_jrnl_instance_ptrs t)"

text \<open>A mounted volume in use: it serves, and the streams in \<open>D\<close> are open.\<close>

definition in_service ::
  "esp_env \<Rightarrow> 'd esp_jrnl_diskio_t \<Rightarrow> ('d \<Rightarrow> image) \<Rightarrow> nat \<Rightarrow> esp_jrnl_master_t \<Rightarrow> byte list \<Rightarrow> nat \<Rightarrow>
   esp_jrnl_handle_t \<Rightarrow> byte \<Rightarrow> nat \<Rightarrow> nat set \<Rightarrow> 'd vfs_world \<Rightarrow> bool" where
  "in_service E io content sec m fs n h pdrv c D s \<longleftrightarrow>
     serves E io content sec m fs n h pdrv c s \<and> (\<forall>a \<in> D. a < length (dirs s) \<and> dirs s ! a \<noteq> None)"

lemma in_service_ctx:
  "in_service E io content sec m fs n h pdrv c D s \<longleftrightarrow>
     journal_ready E io content sec m h fs s \<and> on_drive pdrv h s \<and>
     unat pdrv < length (s_jrnl_handles s) \<and> s_jrnl_handles s ! unat pdrv = h \<and>
     ctx_at c n pdrv (s_jrnl_handles s) D False s"
  by (auto simp: in_service_def serves_def ctx_at_def)

lemma call_in_service:
  assumes bd: "block_device io content sec cap er" and g: "geom sec cap m"
    and ff: "fatfs_calls FF (in_transaction E io content sec m h pdrv fs)"
    and sv: "in_service E io content sec m fs n h pdrv c D u" and rd: "call_ready c n D call u"
  shows "\<exists>oc s2 ps. jrnl_call E L C FF c call u = (oc, s2) \<and>
     ((\<exists>r. oc = Ret r) \<or> oc = Undefined \<and> (\<exists>a. call = Readdir a)) \<and>
     (logs E io content sec m h (plain_call L C FF c call) fs ps u \<or> ps = [] \<and> \<not> (\<exists>r. oc = Ret r \<and> succeeded call r s2)) \<and>
     (\<forall>r. oc = Ret r \<and> succeeded call r s2 \<and> \<not> may_keep_lock call \<longrightarrow>
        in_service E io content sec m (write_fs sec ps fs) n h pdrv c D s2) \<and>
     (\<exists>fs'. (fs' = write_fs sec ps fs \<or> \<not> (\<exists>r. oc = Ret r \<and> succeeded call r s2) \<and> fs' = fs) \<and>
        recovers_to E sec m (content (dev s2)) fs')"
proof -
  have hs: "unat pdrv < length (s_jrnl_handles u)" "s_jrnl_handles u ! unat pdrv = h"
    and in_svc: "journal_ready E io content sec m h fs u" "on_drive pdrv h u" "ctx_at c n pdrv (s_jrnl_handles u) D False u"
    using sv by (simp_all add: in_service_ctx)
  obtain oc s2 ps where run: "jrnl_call E L C FF c call u = (oc, s2)"
    and lg: "logs E io content sec m h (plain_call L C FF c call) fs ps u \<or> ps = [] \<and> \<not> (\<exists>r. oc = Ret r \<and> succeeded call r s2)" and
    e: "(\<exists>r. oc = Ret r \<and> on_drive pdrv h s2 \<and>
        (ctx_at c n pdrv (s_jrnl_handles u) D False s2 \<or> may_keep_lock call \<and> ctx_at c n pdrv (s_jrnl_handles u) D True s2) \<and>
        (succeeded call r s2 \<and> journal_ready E io content sec m h (write_fs sec ps fs) s2 \<or>
         \<not> succeeded call r s2 \<and> (journal_ready E io content sec m h fs s2 \<or>
           errno s2 = EBADF \<and> (recovers_to E sec m (content (dev s2)) fs \<or>
             recovers_to E sec m (content (dev s2)) (write_fs sec ps fs))))) \<or>
      oc = Undefined \<and> (\<exists>a. call = Readdir a) \<and>
        (recovers_to E sec m (content (dev s2)) fs \<or> recovers_to E sec m (content (dev s2)) (write_fs sec ps fs))"
    using jrnl_call_atomic [OF bd g ff in_svc hs rd, of L C] by (elim exE conjE) (rule that)
  have "in_service E io content sec m (write_fs sec ps fs) n h pdrv c D s2"
    if "oc = Ret r" and "succeeded call r s2" and "\<not> may_keep_lock call" for r
    using e that hs by (auto simp: in_service_ctx ctx_at_def)
  moreover have "\<exists>fs'. (fs' = write_fs sec ps fs \<or> \<not> (\<exists>r. oc = Ret r \<and> succeeded call r s2) \<and> fs' = fs) \<and>
      recovers_to E sec m (content (dev s2)) fs'"
    using e unfolding journal_ready_def by fastforce
  moreover have "(\<exists>r. oc = Ret r) \<or> oc = Undefined \<and> (\<exists>a. call = Readdir a)" using e by blast
  ultimately show ?thesis using run lg by (intro exI [of _ oc] exI [of _ s2] exI [of _ ps] conjI allI impI) blast+
qed


text \<open>The sample mount succeeds: the device has power and there is memory.\<close>

lemma sample_read_first:
  assumes "attached sample_io sample_master h inst s" and "ops_left (dev s) = None"
  shows "\<exists>bs d. esp_jrnl_read h 0 True 1 s = (Ret (ESP_OK, bs), s\<lparr>dev := d\<rparr>) \<and> ops_left d = None \<and> cells d = cells (dev s)"
proof -
  have mt: "mounted h inst s" and io: "diskio inst = sample_io" and v: "volume (master inst) = sample_volume"
    and o: "store_volume_offset_sector (master inst) = 4"
    using assms(1) by (simp_all add: attached_def same_geometry_def sample_master_def)
  show ?thesis
    using assms(2) by (simp add: esp_jrnl_read_def mounted_run [OF mt] io v o jrnl_read_raw_def sample_volume_def
        sample_io_def flash_read_def flash_tick_def Let_def word_le_nat_alt)
      (rule exI [of _ "(dev s)\<lparr>ops_left := None\<rparr>"], simp)
qed

lemma sample_set_ready:
  assumes "journal_ready sample_env sample_io cells 32 sample_master h fs s" and "ops_left (dev s) = None"
  shows "\<exists>s'. esp_jrnl_set_direct_io sample_env h False s = (Ret ESP_OK, s')"
proof -
  obtain inst where at: "attached sample_io sample_master h inst s"
    and st: "status (master inst) = ESP_JRNL_STATUS_TRANS_READY"
    using assms(1) by (auto simp: journal_ready_def)
  have mt: "mounted h inst s" and unl: "\<not> trans_lock inst" using at by (simp_all add: attached_def)
  let ?i = "inst\<lparr>trans_lock := True, master := (master inst)\<lparr>status := ESP_JRNL_STATUS_TRANS_READY\<rparr>\<rparr>"
  have i: "diskio ?i = sample_io" "geom 32 384 (master ?i)"
    using at attached_geom [OF at sample_geom] by (simp_all add: attached_def geom_def)
  obtain d where "jrnl_update_master sample_env ?i (master ?i) s = (Ret ESP_OK, s\<lparr>dev := d\<rparr>)"
    using reliable_device.update_master_serves [OF byte_reliable_device.axioms(1) [OF sample_reliable] i assms(2)] by blast
  then show ?thesis
    by (simp add: esp_jrnl_set_direct_io_def mounted_run [OF mt] st unl prog_simps Let_def run_bind_Ret)
qed

lemma sample_connects:
  assumes rd: "journal_ready sample_env sample_io cells 32 sample_master h fs s" and pw: "ops_left (dev s) = None"
    and hp: "heap s = []" and t: "ff_jrnl_handles s = replicate 8 (-1)" "s_fat_ctxs s = [None, None]"
      "s_jrnl_handles s = replicate 8 (-1)"
  shows "\<exists>s'. connect_volume sample_env sample_libc sample_cfg sample_fatfs sample_registry (sample_services True) 0 h ''/flash''
     False sample_mcfg 32 s = (Ret ESP_OK, s')"
proof -
  let ?conf = "\<lparr> conf_base_path = ''/flash'', conf_fat_drive = drive_name 0, conf_max_files = 2 \<rparr>"
  let ?s1 = "s\<lparr>ff_jrnl_handles := (replicate 8 (-1))[0 := h]\<rparr>"
  have V: "FF_VOLUMES sample_cfg = 2" and len: "length (s_fat_ctxs s) = FF_VOLUMES sample_cfg"
    using t(2) by (simp_all add: sample_cfg_def)
  obtain c where c: "c < FF_VOLUMES sample_cfg" and r2: "vfs_fat_register_cfg_jrnl sample_env sample_libc sample_cfg sample_fatfs
      sample_registry ?conf ?s1 = (Ret (ESP_OK, Some c),
        ?s1\<lparr>s_fat_ctxs := (s_fat_ctxs ?s1)[c := Some (new_ctx sample_cfg ?conf 2)], s_fat_ctx := Some c\<rparr>)" (is "_ = (_, ?s2)")
    by (rule register_run [of ?s1 sample_cfg ?conf sample_registry sample_env sample_libc sample_fatfs])
      (use t hp in \<open>simp_all add: sample_cfg_def sample_registry_def run_ret\<close>)
  let ?s3 = "?s2\<lparr>s_jrnl_handles := (replicate 8 (-1))[0 := h]\<rparr>"
  have rd3: "journal_ready sample_env sample_io cells 32 sample_master h fs ?s3" using rd by simp
  then obtain inst where at: "attached sample_io sample_master h inst ?s3" by (auto simp: journal_ready_def)
  have d: "on_drive 0 h ?s3" by (simp add: on_drive_def JRNL_MAX_HANDLES_def)
  obtain bs e where r4: "esp_jrnl_read h 0 True 1 ?s3 = (Ret (ESP_OK, bs), ?s3\<lparr>dev := e\<rparr>)" and pe: "ops_left e = None"
    and ce: "cells e = cells (dev ?s3)"
    using sample_read_first [OF at] pw by auto
  have hc: "holds c (new_ctx sample_cfg ?conf 2) ?s3"
    using c len by (simp add: holds_def)
  obtain s5 where r5: "f_mount (sample_services True) (Some c) (drive_name 0) 1 ?s3 = (Ret FR_OK, s5)"
    and dev5: "dev s5 = e" and p5: "s_jrnl_instance_ptrs s5 = s_jrnl_instance_ptrs ?s3"
    using sample_f_mount_eq [OF d hc r4, of True 1] by (simp add: sample_services_def set_ctx_def)
  have "journal_ready sample_env sample_io cells 32 sample_master h fs s5"
    using rd3 dev5 p5 ce by (simp add: journal_ready_def attached_def mounted_def)
  from sample_set_ready [OF this] dev5 pe obtain s6 where "esp_jrnl_set_direct_io sample_env h False s5 = (Ret ESP_OK, s6)" by auto
  moreover have "ff_diskio_register_jrnl (FF_VOLUMES sample_cfg) (ff_diskio_register (sample_services True)) 0 h s = (Ret ESP_OK, ?s1)"
    using t(1) by (simp add: ff_diskio_register_jrnl_def V sample_services_def JRNL_MAX_HANDLES_def prog_simps)
  moreover have "vfs_fat_register_pdrv_jrnl_handle 0 h ?s2 = (Ret ESP_OK, ?s3)"
    using t(3) by (simp add: vfs_fat_register_pdrv_jrnl_handle_def JRNL_MAX_HANDLES_def JRNL_INVALID_HANDLE_def prog_simps)
  moreover have "mount_filesystem (sample_services True) (Some c) (drive_name 0) False sample_mcfg 32 ?s3 = (Ret ESP_OK, s5)"
    using r5 by (simp add: mount_filesystem_def mount_at_def bind_assoc run_bind_Ret prog_simps)
  moreover have "mount_max_files sample_mcfg = 2" by (simp add: sample_mcfg_def)
  ultimately show ?thesis using r2 by (simp add: connect_volume_def run_bind_Ret)
qed


lemma sample_mount_succeeds:
  obtains k s1 where "sample_mount_jrnl True (sample_off sample_flash) = (Ret (ESP_OK, k), s1)"
proof -
  let ?s = "sample_off sample_flash"
  let ?config = "\<lparr> user_cfg = sample_jcfg, cfg_fs_volume_id = 0, volume_cfg = sample_volume, diskio_cfg = sample_io \<rparr>"
  have mt: "matches sample_master sample_io ?config"
    using sample_resumes by (simp add: resumes_def matches_def describes_def) (simp add: sample_master_def)
  obtain h s1 where m: "esp_jrnl_mount sample_env (Some ?config) (Some JRNL_INVALID_HANDLE) ?s = (Ret (ESP_OK, Some h), s1)"
    and pw: "ops_left (dev s1) = None" and hp: "heap s1 = []"
    and rd: "journal_ready sample_env sample_io cells 32 sample_master h sample_fs s1"
    by (rule byte_reliable_device.mount_serves [OF sample_reliable sample_geom mt sample_off_recovers])
      (simp_all add: JRNL_MAX_HANDLES_def sample_flash_def)
  have f: "ff_jrnl_handles s1 = replicate 8 (-1)" "s_fat_ctxs s1 = [None, None]" "s_jrnl_handles s1 = replicate 8 (-1)"
    using more_eq_fields [OF keeps_moreD [OF frame_interface(1) m]] by simp_all
  obtain s2 where "connect_volume sample_env sample_libc sample_cfg sample_fatfs sample_registry (sample_services True) 0 h
      ''/flash'' False sample_mcfg 32 s1 = (Ret ESP_OK, s2)"
    using sample_connects [OF rd pw hp f] by blast
  moreover have "ESP_JRNL_VOLUME_DEFAULT_CONFIG sample_wl 0 d = sample_volume" for d
    by (simp add: ESP_JRNL_VOLUME_DEFAULT_CONFIG_def sample_wl_def sample_volume_def)
  moreover have "wl_mount sample_wl 0 t = (Ret (ESP_OK, 0), t)" "CONFIG_WL_SECTOR_SIZE sample_wl = 32" for t
    by (simp_all add: sample_wl_def run_ret)
  moreover have "\<not> force_fs_format sample_jcfg" using sample_resumes by (simp add: resumes_def)
  ultimately have "spiflash_steps sample_env sample_libc sample_cfg sample_fatfs sample_registry (sample_services True) sample_wl 0 0
      ''/flash'' sample_mcfg sample_jcfg ?s = (Ret (ESP_OK, Some h), s2)"
    using m by (simp add: spiflash_steps_def sample_wl_io run_bind_Ret prog_simps)
  then show thesis
    using that by (simp add: esp_vfs_fat_spiflash_mount_jrnl_def sample_services_def run_bind_Ret prog_simps)
qed

lemma sample_assigned: "assigned (sample_services formatted) pdrv \<Longrightarrow> pdrv = 0"
  by (auto simp: assigned_def sample_services_def run_ret)


end
