(* ===== verification/Vfs_Unmount.thy ===== *)
theory Vfs_Unmount
  imports Vfs_Mount_Correct
begin

text \<open>
  Unmounting a volume on flash: the entries of the four tables the mount made are gone, nothing else
  has changed, and the machine is again one the volume can be mounted on.
\<close>

section \<open>The entries of one volume\<close>

text \<open>The drive is the only one with the handle, and the context the only one under the path.\<close>

definition sole_path :: "string \<Rightarrow> nat \<Rightarrow> vfs_fat_ctx_t option list \<Rightarrow> bool" where
  "sole_path path c t \<longleftrightarrow> c < length t \<and> (\<forall>i < length t. map_option base_path (t ! i) = Some path \<longleftrightarrow> i = c)"

definition sole_volume :: "vfs_config \<Rightarrow> string \<Rightarrow> esp_jrnl_handle_t \<Rightarrow> byte \<Rightarrow> nat \<Rightarrow> 'd vfs_world \<Rightarrow> bool" where
  "sole_volume C path h pdrv c s \<longleftrightarrow> unat pdrv < FF_VOLUMES C \<and>
     (\<forall>i < length (ff_jrnl_handles s). ff_jrnl_handles s ! i = h \<longrightarrow> i = unat pdrv) \<and>
     (\<forall>i < length (s_jrnl_handles s). s_jrnl_handles s ! i = h \<longrightarrow> i = unat pdrv) \<and>
     sole_path path c (s_fat_ctxs s)"

lemma sole_volumeD:
  assumes "sole_volume C path h pdrv c s"
  shows "unat pdrv < FF_VOLUMES C" "\<And>i. i < length (ff_jrnl_handles s) \<Longrightarrow> ff_jrnl_handles s ! i = h \<Longrightarrow> i = unat pdrv"
    "\<And>i. i < length (s_jrnl_handles s) \<Longrightarrow> s_jrnl_handles s ! i = h \<Longrightarrow> i = unat pdrv"
    "sole_path path c (s_fat_ctxs s)"
  using assms unfolding sole_volume_def by blast+

lemma first_index_only:
  assumes "i < length xs" and "P (xs ! i)" and "\<And>j. j < length xs \<Longrightarrow> P (xs ! j) \<Longrightarrow> j = i"
  shows "first_index P xs = Some i"
proof -
  have "\<not> P (xs ! j)" if "j < i" for j using assms(1) assms(3) [of j] that by auto
  then show ?thesis using assms(1,2) by (simp add: first_index_Some)
qed

lemma unregister_handle_run:
  assumes "h \<noteq> JRNL_INVALID_HANDLE" and "sole_volume C path h pdrv c s"
    and "unat pdrv < length (s_jrnl_handles s)" and "s_jrnl_handles s ! unat pdrv = h"
  shows "vfs_fat_unregister_pdrv_jrnl_handle h s =
     (Ret ESP_OK, s\<lparr>s_jrnl_handles := (s_jrnl_handles s)[unat pdrv := JRNL_INVALID_HANDLE]\<rparr>)"
proof -
  have "first_index (\<lambda>k. h = k) (s_jrnl_handles s) = Some (unat pdrv)"
    by (rule first_index_only [OF assms(3)], simp add: assms(4), rule sole_volumeD(3) [OF assms(2)], assumption, erule sym)
  then show ?thesis using assms(1) by (simp add: vfs_fat_unregister_pdrv_jrnl_handle_def prog_simps)
qed

text \<open>Looking the drive up, and clearing its entry.\<close>

lemma drive_run:
  assumes "wf_drives (FF_VOLUMES C) s" and "on_drive pdrv h s" and "unat pdrv < FF_VOLUMES C"
    and "\<And>i. i < length (ff_jrnl_handles s) \<Longrightarrow> ff_jrnl_handles s ! i = h \<Longrightarrow> i = unat pdrv"
  shows "ff_diskio_get_pdrv_jrnl (FF_VOLUMES C) h s = (Ret pdrv, s)" "pdrv \<noteq> 0xFF"
    "ff_diskio_clear_pdrv_jrnl (FF_VOLUMES C) h s =
       (Ret (), s\<lparr>ff_jrnl_handles := (ff_jrnl_handles s)[unat pdrv := JRNL_INVALID_HANDLE]\<rparr>)"
proof -
  let ?t = "ff_jrnl_handles s" and ?V = "FF_VOLUMES C"
  have V: "?V \<le> JRNL_MAX_HANDLES" "length ?t = JRNL_MAX_HANDLES" using assms(1) by (simp_all add: wf_drives_def)
  have p: "unat pdrv < ?V" "?t ! unat pdrv = h" "\<And>i. i < length ?t \<Longrightarrow> ?t ! i = h \<Longrightarrow> i = unat pdrv"
    using assms(2-4) unfolding on_drive_def by blast+
  have "first_index (\<lambda>k. h = k) (take ?V ?t) = Some (unat pdrv)"
    by (rule first_index_only) (use V p(1,2) in \<open>simp_all add: p(3)\<close>)
  then show "ff_diskio_get_pdrv_jrnl ?V h s = (Ret pdrv, s)" by (simp add: ff_diskio_get_pdrv_jrnl_def prog_simps)
  have "unat pdrv < 8" using p V by (simp add: JRNL_MAX_HANDLES_def)
  then show "pdrv \<noteq> 0xFF" by auto
  have "map (\<lambda>k. if h = k then JRNL_INVALID_HANDLE else k) (take ?V ?t) @ drop ?V ?t = ?t[unat pdrv := JRNL_INVALID_HANDLE]"
    by (rule nth_equalityI) (use V p in \<open>auto simp: nth_append nth_list_update\<close>)
  then show "ff_diskio_clear_pdrv_jrnl ?V h s = (Ret (), s\<lparr>ff_jrnl_handles := ?t[unat pdrv := JRNL_INVALID_HANDLE]\<rparr>)"
    using V by (simp add: ff_diskio_clear_pdrv_jrnl_def prog_simps)
qed

text \<open>A volume given up by FatFS: the contexts keep their paths.\<close>

lemma same_contexts_paths:
  assumes "same_contexts t t'"
  shows "map (map_option base_path) t' = map (map_option base_path) t"
proof -
  let ?z = "map_option (fat_fs_update (\<lambda>_. zero_fatfs))"
  have z: "map_option base_path (?z p) = map_option base_path p" for p by (cases p) simp_all
  have "map (map_option base_path) (map ?z t') = map (map_option base_path) (map ?z t)"
    using assms by (simp only: same_contexts_def)
  then show ?thesis by (simp only: map_map comp_def z)
qed

lemma same_contexts_sole:
  assumes "same_contexts t t'" and "sole_path path c t"
  shows "sole_path path c t'"
proof -
  have len: "length t' = length t" using assms(1) by (rule same_contexts_length)
  have "map_option base_path (t' ! i) = map_option base_path (t ! i)" if "i < length t" for i
    using same_contexts_paths [OF assms(1)] len that by (metis nth_map)
  then show ?thesis using assms(2) len by (simp add: sole_path_def)
qed

lemma same_contexts_update: "same_contexts t t' \<Longrightarrow> same_contexts (t[c := None]) (t'[c := None])"
  by (simp add: same_contexts_def map_update)

text \<open>Without its context the path is new.\<close>

lemma sole_path_removed:
  assumes "sole_path path c t" and "s_fat_ctxs s = t[c := None]"
  shows "new_path path s"
  unfolding new_path_def
proof (intro allI impI notI)
  fix x assume x: "Some x \<in> set (s_fat_ctxs s)" "base_path x = path"
  then obtain i where i: "i < length t" "t[c := None] ! i = Some x" using assms(2) by (auto simp: in_set_conv_nth)
  then have "i \<noteq> c" by (metis nth_list_update_eq option.distinct(1))
  then show False using assms(1) i x(2) unfolding sole_path_def by fastforce
qed

text \<open>Removing the context of the path.\<close>

lemma unregister_path_run:
  assumes "mount_services V I W content E R" and "length (s_fat_ctxs s) = FF_VOLUMES C" and "sole_path path c (s_fat_ctxs s)"
    and "\<forall>t err t'. esp_vfs_unregister V path t = (Ret err, t') \<longrightarrow> err = ESP_OK"
  obtains s1 where "vfs_fat_unregister_path_jrnl C V path s = (Ret ESP_OK, s1\<lparr>s_fat_ctxs := (s_fat_ctxs s)[c := None]\<rparr>)"
    and "quiet content s s1"
proof -
  have c: "c < length (s_fat_ctxs s)" and "map_option base_path (s_fat_ctxs s ! c) = Some path"
    using assms(3) by (simp_all add: sole_path_def)
  then obtain x where x: "holds c x s" "base_path x = path" by (auto simp: holds_def)
  have P: "(\<lambda>p. case p of None \<Rightarrow> False | Some y \<Rightarrow> base_path y = path) = (\<lambda>p. map_option base_path p = Some path)"
    by (rule ext) (simp split: option.split)
  have "first_index (\<lambda>p. map_option base_path p = Some path) (s_fat_ctxs s) = Some c"
    by (rule first_index_only [OF c]) (use assms(3) in \<open>simp_all add: sole_path_def\<close>)
  then have i: "find_context_index_by_path C (s_fat_ctxs s) path = c" by (simp only: find_context_index_by_path_def P option.case)
  obtain err s1 where u: "esp_vfs_unregister V path s = (Ret err, s1)" and q: "quiet content s s1"
    using mount_services.quiet_vfs_unregister [OF assms(1)] by blast
  moreover have "err = ESP_OK" using assms(4) u by blast
  ultimately have "vfs_fat_unregister_path_jrnl C V path s = (Ret ESP_OK, s1\<lparr>s_fat_ctxs := (s_fat_ctxs s)[c := None]\<rparr>)"
    using i c x assms(2) quiet_fields(5) [OF q]
    by (simp add: vfs_fat_unregister_path_jrnl_def prog_simps run_ctx run_bind_Ret)
  then show thesis using q by (rule that)
qed

lemma emptied_tables:
  assumes "sane C s" and "sole_path path c (s_fat_ctxs s)" and "same_contexts (s_fat_ctxs s) t"
    and "k < length (s_jrnl_instance_ptrs s)" and "content (dev s') = content (dev s)" and "\<not> s_instances_lock s'"
    and "s_jrnl_instance_ptrs s' = (s_jrnl_instance_ptrs s)[k := None]"
    and "length (ff_jrnl_handles s') = length (ff_jrnl_handles s)" and "length (s_jrnl_handles s') = length (s_jrnl_handles s)"
    and "s_fat_ctxs s' = t[c := None]"
  shows "restarted content C path s s' \<and> same_contexts ((s_fat_ctxs s)[c := None]) (s_fat_ctxs s')"
proof -
  have "sane C s'" using assms(1,6-10) same_contexts_length [OF assms(3)] by (simp add: sane_def wf_drives_def)
  moreover have "new_path path s'" using same_contexts_sole [OF assms(3,2)] assms(10) by (rule sole_path_removed)
  moreover have "None \<in> set (s_jrnl_instance_ptrs s')" unfolding assms(7) using assms(4) by (rule set_update_memI)
  moreover have "same_contexts ((s_fat_ctxs s)[c := None]) (s_fat_ctxs s')"
    unfolding assms(10) by (rule same_contexts_update [OF assms(3)])
  ultimately show ?thesis using assms(5) by (simp add: restarted_def)
qed

section \<open>Unmounting\<close>

text \<open>
  C20. Unmounting undoes the mount. For a volume that is in use, when the registry and the wear levelling
  agree, the call returns \<open>ESP_OK\<close> and sets the handle of the caller to \<open>JRNL_INVALID_HANDLE\<close>: the
  instance, the entries of the drive in both tables of handles and the context are gone,
  every other volume keeps its own, the disk is untouched, and the machine is one the volume can be mounted on again.
\<close>

theorem spiflash_unmount_undoes_mount:
  fixes s :: "'d vfs_world"
  assumes "journaled_volume io content sec cap er V I W E m fs"
    and "serves E io content sec m fs n h pdrv c s" and "sane C s" and "sole_volume C path h pdrv c s"
    and "\<forall>t err t'. esp_vfs_unregister V path t = (Ret err, t') \<longrightarrow> err = ESP_OK"
    and "\<forall>t err t'. wl_unmount W (diskio_ctrl_handle io) t = (Ret err, t') \<longrightarrow> err = ESP_OK"
  shows "\<exists>s'. esp_vfs_fat_spiflash_unmount_jrnl C V I W (Some h) (Some path) s = (Ret (ESP_OK, Some JRNL_INVALID_HANDLE), s') \<and>
     restarted content C path s s' \<and>
     s_jrnl_instance_ptrs s' = (s_jrnl_instance_ptrs s)[nat h := None] \<and>
     ff_jrnl_handles s' = (ff_jrnl_handles s)[unat pdrv := JRNL_INVALID_HANDLE] \<and>
     s_jrnl_handles s' = (s_jrnl_handles s)[unat pdrv := JRNL_INVALID_HANDLE] \<and>
     same_contexts ((s_fat_ctxs s)[c := None]) (s_fat_ctxs s')"
proof -
  have ms: "mount_services V I W content E (connected E io content sec m fs)" and g: "geom sec cap m"
    using assms(1) by (simp_all add: journaled_volume_def volume_journal_def volume_journal_axioms_def)
  have rd: "journal_ready E io content sec m h fs s" and dr: "on_drive pdrv h s"
    and hs: "unat pdrv < length (s_jrnl_handles s)" "s_jrnl_handles s ! unat pdrv = h"
    using assms(2) by (simp_all add: serves_def)
  obtain inst where at: "attached io m h inst s" using rd by (auto simp: journal_ready_def)
  then have h: "h \<noteq> JRNL_INVALID_HANDLE" and nh: "nat h < length (s_jrnl_instance_ptrs s)"
    by (auto simp: attached_def mounted_def JRNL_INVALID_HANDLE_def)
  note sv = sole_volumeD [OF assms(4)]
  let ?s1 = "s\<lparr>s_jrnl_handles := (s_jrnl_handles s)[unat pdrv := JRNL_INVALID_HANDLE]\<rparr>"
  let ?s2 = "?s1\<lparr>ff_jrnl_handles := (ff_jrnl_handles s)[unat pdrv := JRNL_INVALID_HANDLE]\<rparr>"
  have r1: "vfs_fat_unregister_pdrv_jrnl_handle h s = (Ret ESP_OK, ?s1)" by (rule unregister_handle_run [OF h assms(4) hs])
  have d1: "wf_drives (FF_VOLUMES C) ?s1" "on_drive pdrv h ?s1" using assms(3) dr by (simp_all add: sane_def wf_drives_def)
  note dr1 = drive_run [OF d1 sv(1), simplified, OF sv(2)]
  obtain r3 t s3 where r3: "f_mount I None (drive_name pdrv) 0 ?s2 = (Ret r3, s3)"
    and t: "same_contexts (s_fat_ctxs ?s2) t" and q3: "quiet content (?s2\<lparr>s_fat_ctxs := t\<rparr>) s3"
    using mount_services.unmounts [OF ms] by blast
  obtain s4 where r4: "ff_diskio_unregister I pdrv s3 = (Ret (), s4)" and q4: "quiet content s3 s4"
    using mount_services.quiet_unregister [OF ms, of pdrv s3] by auto
  have q: "quiet content (?s2\<lparr>s_fat_ctxs := t\<rparr>) s4" using q3 q4 by (rule quiet_trans)
  note f4 = quiet_fields [OF q, simplified]
  have at4: "attached io m h inst s4" using at f4(3) by (simp add: attached_def mounted_def)
  have mt4: "mounted h inst s4" and lk: "\<not> s_instances_lock s4" using at4 f4(2) assms(3) by (simp_all add: attached_def sane_def)
  let ?s5 = "s4\<lparr>s_instances_lock := False, s_jrnl_instance_ptrs := (s_jrnl_instance_ptrs s4)[nat h := None]\<rparr>"
  obtain err s6 where r6: "wl_unmount W (diskio_ctrl_handle io) ?s5 = (Ret err, s6)" and q6: "quiet content ?s5 s6"
    using mount_services.quiet_wl_unmount [OF ms] by blast
  have e6: "err = ESP_OK" using assms(6) r6 by blast
  note f6 = quiet_fields [OF q6, simplified]
  have c6: "s_fat_ctxs s6 = t" using f6(5) f4(5) by simp
  have tl: "same_contexts (s_fat_ctxs s) t" using t by simp
  have sp: "sole_path path c (s_fat_ctxs s6)" using same_contexts_sole [OF tl sv(4)] c6 by simp
  have l6: "length (s_fat_ctxs s6) = FF_VOLUMES C" using same_contexts_length [OF tl] c6 assms(3) by (simp add: sane_def)
  obtain s7 where r7: "vfs_fat_unregister_path_jrnl C V path s6 = (Ret ESP_OK, s7\<lparr>s_fat_ctxs := (s_fat_ctxs s6)[c := None]\<rparr>)" (is "_ = (_, ?s8)")
    and q7: "quiet content s6 s7"
    by (rule unregister_path_run [OF ms l6 sp assms(5)])
  have run: "esp_vfs_fat_spiflash_unmount_jrnl C V I W (Some h) (Some path) s = (Ret (ESP_OK, Some JRNL_INVALID_HANDLE), ?s8)"
    using h r1 dr1 r3 r4 getters_run(3) [OF g at4] unmount_mounted [OF mt4 lk] r6 e6 r7
    by (simp add: esp_vfs_fat_spiflash_unmount_jrnl_def run_bind_Ret run_ret)
  note f8 = quiet_fields [OF q7]
  have ptrs: "s_jrnl_instance_ptrs ?s8 = (s_jrnl_instance_ptrs s)[nat h := None]" using f8(3) f6(3) f4(3) by simp
  have ffh: "ff_jrnl_handles ?s8 = (ff_jrnl_handles s)[unat pdrv := JRNL_INVALID_HANDLE]" using f8(4) f6(4) f4(4) by simp
  have jh: "s_jrnl_handles ?s8 = (s_jrnl_handles s)[unat pdrv := JRNL_INVALID_HANDLE]" using f8(6) f6(6) f4(6) by simp
  have "restarted content C path s ?s8 \<and> same_contexts ((s_fat_ctxs s)[c := None]) (s_fat_ctxs ?s8)"
    by (rule emptied_tables [OF assms(3) sv(4) tl nh]) (use f8 f6 f4 c6 in simp_all)
  then show ?thesis using run ptrs ffh jh by blast
qed

text \<open>The sample volume in use, with tables of their full size.\<close>

definition sample_in_use :: "flash vfs_world" where
  "sample_in_use = (sample_vfs (sample_in ESP_JRNL_STATUS_TRANS_READY))
     \<lparr>ff_jrnl_handles := init_ff_jrnl_handles[0 := 0], s_jrnl_handles := init_jrnl_handles[0 := 0]\<rparr>"

lemma sample_in_use_serves:
  "serves sample_env sample_io cells 32 sample_master sample_fs 2 0 0 0 sample_in_use" "sane sample_cfg sample_in_use"
  "sole_volume sample_cfg ''/flash'' 0 0 0 sample_in_use"
proof -
  note tables = sample_in_use_def init_jrnl_handles_def init_ff_jrnl_handles_def JRNL_MAX_HANDLES_def
  show "serves sample_env sample_io cells 32 sample_master sample_fs 2 0 0 0 sample_in_use"
    using sample_vfs_ready sample_ctx_at by (simp add: tables serves_def ctx_at_def on_drive_def)
  show "sane sample_cfg sample_in_use"
    by (simp add: tables sane_def wf_drives_def sample_cfg_def)
      (simp add: sample_vfs_def ff_world.defs sample_ff_def jrnl_world.defs sample_world_def boot_def)
  show "sole_volume sample_cfg ''/flash'' 0 0 0 sample_in_use"
    by (auto simp: tables sole_volume_def sole_path_def sample_cfg_def JRNL_INVALID_HANDLE_def sample_ctx_def new_ctx_def
        strlcpy_def nth_Cons nth_list_update split: nat.splits if_splits)
qed

theorem spiflash_unmount_undoes_mount_witness:
  "\<exists>s'. esp_vfs_fat_spiflash_unmount_jrnl sample_cfg sample_registry (sample_services True) sample_wl (Some 0) (Some ''/flash'')
       sample_in_use = (Ret (ESP_OK, Some JRNL_INVALID_HANDLE), s') \<and>
     restarted cells sample_cfg ''/flash'' sample_in_use s' \<and> s_jrnl_handles s' = init_jrnl_handles"
proof -
  have "\<forall>t err t'. esp_vfs_unregister sample_registry ''/flash'' t = (Ret err, t') \<longrightarrow> err = ESP_OK"
    "\<forall>t err t'. wl_unmount sample_wl (diskio_ctrl_handle sample_io) t = (Ret err, t') \<longrightarrow> err = ESP_OK"
    by (simp_all add: sample_registry_def sample_wl_def run_ret)
  moreover have "(s_jrnl_handles sample_in_use)[unat (0 :: byte) := JRNL_INVALID_HANDLE] = init_jrnl_handles"
    by (simp add: sample_in_use_def init_jrnl_handles_def JRNL_MAX_HANDLES_def numeral_eq_Suc)
  ultimately show ?thesis
    using spiflash_unmount_undoes_mount [OF sample_volume.journaled_volume_axioms sample_in_use_serves, of True] by metis
qed

end
