(* ===== verification/Vfs_Mount_Errors.thy ===== *)
theory Vfs_Mount_Errors
  imports Vfs_Mount_Correct
begin

text \<open>
  Mounts that cannot succeed. The read of the master record on a card is not one of whole sectors, so
  that a mount that does not start a fresh journal fails on every card; a second mount under
  a path that is registered already uses a pointer that was never set.
\<close>

section \<open>The life of a card structure\<close>

text \<open>The structure at an address was freed.\<close>

definition card_freed :: "int \<Rightarrow> 'c sd_dev \<Rightarrow> bool" where
  "card_freed p d \<longleftrightarrow> 0 \<le> p \<and> nat p < length (sd_cards d) \<and> sd_cards d ! nat p = None"

lemma card_at_put: "card_at p sdcard d \<Longrightarrow> card_at p sdcard' (d\<lparr>sd_cards := (sd_cards d)[nat p := Some sdcard']\<rparr>)"
  by (simp add: card_at_def)

lemma run_on_bus: "bind (on_bus f) k d = (case f (sd_bus d) of (x, c) \<Rightarrow> k x (d\<lparr>sd_bus := c\<rparr>))"
  by (simp add: on_bus_def bind_def split: prod.split)

lemma run_on_bus_unit: "bind (on_bus f) (\<lambda>_. ret ()) d = (Ret (), d\<lparr>sd_bus := snd (f (sd_bus d))\<rparr>)"
  by (simp add: run_on_bus run_ret split: prod.split)

text \<open>Initialising returns, with the structure still there; its last step, the one before it, and the whole.\<close>

definition identified :: "int \<Rightarrow> ('c sdmmc_card_t \<Rightarrow> bool) \<Rightarrow> ('c sd_dev, esp_err_t) prog \<Rightarrow> 'c sd_dev \<Rightarrow> bool" where
  "identified p P prog d \<longleftrightarrow>
     (\<exists>err d' sdcard'. prog d = (Ret err, d') \<and> card_at p sdcard' d' \<and> sd_undefined d' = sd_undefined d \<and>
        (err = ESP_OK \<longrightarrow> P sdcard'))"

lemma identify_card_run:
  assumes "card_at p sdcard d" and "\<forall>cd c cd' c'. sdmmc_card_init S cd c = ((ESP_OK, cd'), c') \<longrightarrow> P cd'"
  shows "identified p P (\<lambda>d. (if err \<noteq> ESP_OK then ret err else identify_card S p) d) d"
proof (cases "err = ESP_OK")
  case False
  then show ?thesis using assms(1) by (auto simp: identified_def run_ret)
next
  case True
  obtain e cd' c where i: "sdmmc_card_init S sdcard (sd_bus d) = ((e, cd'), c)" by (metis surj_pair)
  let ?d = "(d\<lparr>sd_bus := c\<rparr>)\<lparr>sd_cards := (sd_cards (d\<lparr>sd_bus := c\<rparr>))[nat p := Some cd']\<rparr>"
  have "identify_card S p d = (Ret e, ?d)"
    using i by (simp add: identify_card_def card_of_run [OF assms(1)] run_on_bus put_card_def prog_simps)
  moreover have "card_at p cd' ?d" using assms(1) by (intro card_at_put [of p sdcard]) simp
  moreover have "e = ESP_OK \<longrightarrow> P cd'" using i assms(2) by blast
  ultimately show ?thesis using True unfolding identified_def by fastforce
qed

lemma init_slot_run:
  assumes "card_at p sdcard d" and "\<forall>cd c cd' c'. sdmmc_card_init S cd c = ((ESP_OK, cd'), c') \<longrightarrow> P cd'"
  shows "identified p P (bind (if is_spi S sdcard then
       bind (on_bus (sdspi_host_init_device S slot_config)) (\<lambda>(err, slot).
       bind (put_card p (Some (sdcard\<lparr>card_host := (card_host sdcard)\<lparr>host_slot := slot\<rparr>\<rparr>))) (\<lambda>_. ret err))
     else if SOC_SDMMC_HOST_SUPPORTED S then on_bus (sdmmc_host_init_slot S (host_slot (card_host sdcard)) slot_config)
     else ret ESP_ERR_NOT_SUPPORTED) (\<lambda>err. if err \<noteq> ESP_OK then ret err else identify_card S p)) d"
proof -
  consider (spi) "is_spi S sdcard" | (host) "\<not> is_spi S sdcard" "SOC_SDMMC_HOST_SUPPORTED S"
    | (no) "\<not> is_spi S sdcard" "\<not> SOC_SDMMC_HOST_SUPPORTED S" by blast
  then show ?thesis
  proof cases
    case spi
    obtain err sl c where i: "sdspi_host_init_device S slot_config (sd_bus d) = ((err, sl), c)" by (metis surj_pair)
    let ?cd = "sdcard\<lparr>card_host := (card_host sdcard)\<lparr>host_slot := sl\<rparr>\<rparr>"
    have "card_at p ?cd ((d\<lparr>sd_bus := c\<rparr>)\<lparr>sd_cards := (sd_cards (d\<lparr>sd_bus := c\<rparr>))[nat p := Some ?cd]\<rparr>)"
      using assms(1) by (intro card_at_put [of p sdcard]) simp
    from identify_card_run [OF this assms(2), where err = err] show ?thesis
      using spi i by (simp add: identified_def bind_assoc run_on_bus put_card_def prog_simps split del: if_split)
  next
    case host
    obtain err c where i: "sdmmc_host_init_slot S (host_slot (card_host sdcard)) slot_config (sd_bus d) = (err, c)" by fastforce
    have "card_at p sdcard (d\<lparr>sd_bus := c\<rparr>)" using assms(1) by simp
    from identify_card_run [OF this assms(2), where err = err] show ?thesis
      using host i by (simp add: identified_def run_on_bus split del: if_split)
  next
    case no
    from identify_card_run [OF assms, where err = ESP_ERR_NOT_SUPPORTED] show ?thesis
      using no by (simp add: identified_def prog_simps)
  qed
qed

lemma init_card_run:
  assumes "card_at p sdcard d" and "\<forall>cd c cd' c'. sdmmc_card_init S cd c = ((ESP_OK, cd'), c') \<longrightarrow> P cd'"
  shows "\<exists>err d' sdcard'. init_card S slot_config p d = (Ret err, d') \<and> card_at p sdcard' d' \<and>
     sd_undefined d' = sd_undefined d \<and> (err = ESP_OK \<longrightarrow> P sdcard')"
proof (cases "host_init (card_host sdcard)")
  case None
  then show ?thesis using init_slot_run [OF assms, of slot_config]
    by (simp add: identified_def init_card_def card_of_run [OF assms(1)] prog_simps)
next
  case (Some init)
  obtain err c where i: "init (sd_bus d) = (err, c)" by fastforce
  have at: "card_at p sdcard (d\<lparr>sd_bus := c\<rparr>)" using assms(1) by simp
  show ?thesis using init_slot_run [OF at assms(2), of slot_config] at Some i
    by (auto simp: identified_def init_card_def card_of_run [OF assms(1)] bind_assoc run_on_bus prog_simps)
qed

lemma release_card_run:
  assumes "card_at p sdcard d"
  shows "\<exists>d'. release_card S p d = (Ret (), d') \<and> card_freed p d' \<and> sd_undefined d' = sd_undefined d"
  using assms
  by (cases "is_spi S sdcard"; cases "host_deinit (card_host sdcard)")
    (simp_all add: release_card_def card_of_run [OF assms] run_bind_Ret [OF run_on_bus_unit] put_card_def prog_simps
      card_freed_def card_at_def)

section \<open>A journal on a card\<close>

text \<open>A mount whose read of the master record is refused fails, and nothing but the allocator has changed.\<close>

lemma mount_without_master:
  assumes "\<not> force_fs_format (user_cfg config)" and "\<not> overwrite_existing (user_cfg config)"
    and "\<not> s_instances_lock s"
    and "\<And>a. disk_read (diskio_cfg config) (diskio_ctrl_handle (diskio_cfg config)) a (of_nat sizeof_master) (dev s) =
      ((err, bs), dev s)" and "err \<noteq> ESP_OK"
  shows "\<exists>e s'. esp_jrnl_mount E (Some config) (Some h) s = (Ret (e, Some h), s') \<and> e \<noteq> ESP_OK \<and> dev s' = dev s"
proof -
  let ?l = "s\<lparr>s_instances_lock := True\<rparr>"
  obtain ok hp where c: "calloc 1 52 ?l = (Ret ok, ?l\<lparr>heap := hp\<rparr>)" by (rule calloc_run)
  have d: "diskio (new_instance config) = diskio_cfg config" by (simp add: new_instance_def)
  have "resume_journal E config (new_instance config) (?l\<lparr>heap := hp\<rparr>) =
      (Ret (err, Some (new_instance config)), ?l\<lparr>heap := hp\<rparr>)"
    using assms(4,5) by (simp add: resume_journal_def jrnl_read_raw_def d prog_simps run_bind_Ret)
  then have "mount_instance E config ?l = (Ret (if ok then err else ESP_ERR_NO_MEM, if ok then Some (new_instance config) else None),
      ?l\<lparr>heap := hp\<rparr>)"
    using assms(1,2,5) c by (simp add: mount_instance_def Let_def run_bind_Ret run_ret)
  then show ?thesis using assms(3,5)
    by (cases "cfg_store_size_sectors (user_cfg config) < JRNL_MIN_STORE_SIZE";
        cases "find_free_handle (s_jrnl_instance_ptrs s) = JRNL_INVALID_HANDLE")
      (auto simp: esp_jrnl_mount_def prog_simps run_bind_Ret jrnl_delete_instance_def)
qed

lemma sdmmc_steps_refused:
  fixes s :: "'c sd_world"
  assumes "card_at p sdcard (dev s)" and ss: "sector_size_of sdcard \<noteq> 0" and "\<not> unat (sector_size_of sdcard) dvd sizeof_master"
    and jcfg: "\<not> force_fs_format jcfg" "\<not> overwrite_existing jcfg" and "\<not> s_instances_lock s"
    and "\<exists>r s'. ff_diskio_get_drive I s = (Ret r, s') \<and> dev s' = dev s \<and> s_instances_lock s' = s_instances_lock s"
  shows "\<exists>err s'. sdmmc_steps E L S C FF V I p sdcard path mcfg jcfg s = (Ret (err, Some JRNL_INVALID_HANDLE), s') \<and>
     err \<noteq> ESP_OK \<and> dev s' = dev s"
proof -
  obtain err pdrv s1 where g: "ff_diskio_get_drive I s = (Ret (err, pdrv), s1)" and s1: "dev s1 = dev s" "\<not> s_instances_lock s1"
    using assms(6,7) by auto
  let ?config = "\<lparr> user_cfg = jcfg, cfg_fs_volume_id = pdrv, volume_cfg = sdmmc_volume_cfg sdcard,
                     diskio_cfg = sdmmc_diskio_cfg S p \<rparr>"
  have c: "diskio_ctrl_handle (sdmmc_diskio_cfg S p) = p" by (simp add: sdmmc_diskio_cfg_def)
  have "disk_read (sdmmc_diskio_cfg S p) p a (of_nat sizeof_master) (dev s) = ((ESP_ERR_INVALID_ARG, []), dev s)" for a
    using sdmmc_routines_run(1) [OF assms(1) refl ss, of S p a "of_nat sizeof_master"] assms(3)
    by (simp add: aligned_iff sizeof_master_def)
  then obtain e s2 where "esp_jrnl_mount E (Some ?config) (Some JRNL_INVALID_HANDLE) s1 = (Ret (e, Some JRNL_INVALID_HANDLE), s2)"
    and "e \<noteq> ESP_OK" and "dev s2 = dev s1"
    using mount_without_master [of ?config s1 ESP_ERR_INVALID_ARG "[]" E JRNL_INVALID_HANDLE] jcfg s1 c by auto
  then show ?thesis using g s1 by (cases "err = ESP_OK") (auto simp: sdmmc_steps_def run_bind_Ret run_ret)
qed

text \<open>
  C40. A journal on a card is never resumed: the mount reads 28 bytes of the master record,
  the card routine takes whole sectors only. Unless the configuration asks for a fresh
  journal, which drops what the old one holds, the mount on every card whose sector size does not divide 28
  returns an error; if \<open>*out_card\<close> was assigned, the structure it points to is freed by then.
\<close>

theorem sdmmc_mount_never_resumes:
  fixes s :: "'c sd_world"
  assumes "\<forall>cd c cd' c'. sdmmc_card_init S cd c = ((ESP_OK, cd'), c') \<longrightarrow>
      sector_size_of cd' \<noteq> 0 \<and> \<not> unat (sector_size_of cd') dvd sizeof_master"
    and "\<forall>t. \<exists>r t'. ff_diskio_get_drive I t = (Ret r, t') \<and> dev t' = dev t \<and> s_instances_lock t' = s_instances_lock t"
    and "\<not> force_fs_format jcfg" and "\<not> overwrite_existing jcfg" and "\<not> s_instances_lock s" and "\<not> sd_undefined (dev s)"
  shows "\<exists>err out s'. esp_vfs_fat_sdmmc_mount_jrnl E L S C FF V I (Some path) (Some host) slot (Some mcfg) True (Some jcfg) (Some h0) s =
       (Ret (err, out, Some h0), s') \<and> err \<noteq> ESP_OK \<and> (\<forall>p. out = Some p \<longrightarrow> card_freed p (dev s'))"
proof -
  obtain ok hp where m: "calloc 1 (sizeof_card S) s = (Ret ok, s\<lparr>heap := hp\<rparr>)" by (rule calloc_run)
  let ?p = "int (length (sd_cards (dev s)))"
  let ?cd = "\<lparr> card_host = host, csd_capacity = 0, csd_sector_size = 0 \<rparr>"
  let ?d = "(dev s)\<lparr>sd_cards := sd_cards (dev s) @ [Some ?cd]\<rparr>"
  let ?s1 = "s\<lparr>heap := hp, dev := ?d\<rparr>"
  show ?thesis
  proof (cases ok)
    case False
    then show ?thesis using m assms(6)
      by (simp add: esp_vfs_fat_sdmmc_mount_jrnl_def stop_if_undefined_def malloc_card_def run_bind_Ret prog_simps)
  next
    case True
    let ?odd = "\<lambda>cd. sector_size_of cd \<noteq> 0 \<and> \<not> unat (sector_size_of cd) dvd sizeof_master"
    have new: "card_at ?p ?cd ?d" and u: "sd_undefined ?d = sd_undefined (dev s)" by (simp_all add: card_at_def)
    have mc: "malloc_card S host s = (Ret (Some ?p), ?s1)"
      using m True by (simp add: malloc_card_def on_dev_def run_bind_Ret prog_simps)
    obtain err d2 cd where i: "init_card S slot ?p ?d = (Ret err, d2)" and at: "card_at ?p cd d2" and u2: "sd_undefined d2 = sd_undefined (dev s)"
      and cd: "err = ESP_OK \<longrightarrow> ?odd cd"
      using init_card_run [OF new, of S ?odd slot, unfolded u] assms(1) by blast
    let ?s2 = "?s1\<lparr>dev := d2\<rparr>"
    have i2: "on_dev (init_card S slot ?p) ?s1 = (Ret err, ?s2)" using i by (simp add: on_dev_def)
    have rel: "\<exists>s'. on_dev (release_card S ?p) t = (Ret (), s') \<and> card_freed ?p (dev s') \<and> \<not> sd_undefined (dev s')"
      if "dev t = d2" for t :: "'c sd_world"
      using release_card_run [OF at, of S] that u2 assms(6) by (auto simp: on_dev_def)
    show ?thesis
    proof (cases "err = ESP_OK")
      case False
      obtain s' where r: "on_dev (release_card S ?p) ?s2 = (Ret (), s')" "\<not> sd_undefined (dev s')" using rel [of ?s2] by auto
      then show ?thesis using mc i2 False
        by (simp add: esp_vfs_fat_sdmmc_mount_jrnl_def stop_if_undefined_def run_bind_Ret run_ret)
    next
      case True
      obtain e s3 where st: "sdmmc_steps E L S C FF V I ?p cd path mcfg jcfg ?s2 = (Ret (e, Some JRNL_INVALID_HANDLE), s3)"
        and e: "e \<noteq> ESP_OK" and d3: "dev s3 = d2"
        using sdmmc_steps_refused [of ?p cd ?s2 jcfg I E L S C FF V path mcfg, OF _ _ _ assms(3,4) _ spec [OF assms(2)]]
          at cd True assms(5) by auto
      obtain s' where r: "on_dev (release_card S ?p) s3 = (Ret (), s')" "card_freed ?p (dev s')" "\<not> sd_undefined (dev s')"
        using rel [OF d3] by blast
      have g: "on_dev (card_of ?p) ?s2 = (Ret cd, ?s2)" using card_of_run [OF at, of ret] at
        by (simp add: on_dev_def card_of_def card_at_def prog_simps)
      show ?thesis using mc i2 True g st e r
        by (simp add: esp_vfs_fat_sdmmc_mount_jrnl_def stop_if_undefined_def run_bind_Ret run_ret)
    qed
  qed
qed

definition sample_card_services :: "flash sd_dev mount_api" where
  "sample_card_services =
     \<lparr> esp_partition_find_first = (\<lambda>label. ret None), ff_diskio_get_drive = ret (ESP_OK, 0),
       ff_diskio_register = (\<lambda>pdrv. ret ()), ff_diskio_unregister = (\<lambda>pdrv. ret ()),
       f_mount = (\<lambda>fs drv opt. ret FR_OK), f_mkfs = (\<lambda>drv au sz. ret FR_OK),
       esp_vfs_fat_get_allocation_unit_size = (\<lambda>sec unit. max sec unit) \<rparr>"

theorem sdmmc_mount_never_resumes_witness:
  "\<forall>FF V. \<exists>err out s'. esp_vfs_fat_sdmmc_mount_jrnl sample_env sample_libc (flash_card_driver 2048) sample_cfg FF V
       sample_card_services (Some ''/sdcard'') (Some sample_host) None (Some sample_mcfg) True (Some sample_jcfg) (Some 0)
       (sample_off \<lparr> sd_bus = sample_flash, sd_cards = [], sd_undefined = False \<rparr>) = (Ret (err, out, Some 0), s') \<and>
     err \<noteq> ESP_OK \<and> (\<forall>p. out = Some p \<longrightarrow> card_freed p (dev s'))"
proof (intro allI, rule sdmmc_mount_never_resumes)
  show "\<forall>cd c cd' c'. sdmmc_card_init (flash_card_driver 2048) cd c = ((ESP_OK, cd'), c') \<longrightarrow>
      sector_size_of cd' \<noteq> 0 \<and> \<not> unat (sector_size_of cd') dvd sizeof_master"
    by (auto simp: flash_card_driver_def sector_size_of_def sizeof_master_def)
  show "\<forall>t. \<exists>r t'. ff_diskio_get_drive sample_card_services t = (Ret r, t') \<and> dev t' = dev t \<and>
      s_instances_lock t' = s_instances_lock t"
    by (simp add: sample_card_services_def run_ret)
qed (use sample_resumes in \<open>simp_all add: resumes_def\<close>)

section \<open>A second mount under the same path\<close>

text \<open>
  A second mount under a path that is registered already does not return
  \<open>ESP_ERR_INVALID_STATE\<close>, as its documentation says: the registration reports that state, the code goes
  on, and hands to \<open>f_mount\<close> the pointer the registration did not set.
\<close>

theorem second_mount_undefined:
  fixes s :: "'d vfs_world"
  assumes "mount_services V I W content E R"
    and "esp_partition_find_first I label s = (Ret (Some part), s1)"
    and "ff_diskio_get_drive I s1 = (Ret (ESP_OK, pdrv), s2)" and "unat pdrv < FF_VOLUMES C"
    and "wl_mount W part s2 = (Ret (ESP_OK, w), s3)"
    and "esp_jrnl_mount E (Some \<lparr> user_cfg = jcfg, cfg_fs_volume_id = pdrv,
        volume_cfg = ESP_JRNL_VOLUME_DEFAULT_CONFIG W w (dev s3), diskio_cfg = ESP_JRNL_DISKIO_DEFAULT_CONFIG W w \<rparr>)
        (Some JRNL_INVALID_HANDLE) s3 = (Ret (ESP_OK, Some h), s4)"
    and "\<not> force_fs_format jcfg" and "sane C s" and "s_jrnl_handles s ! unat pdrv = JRNL_INVALID_HANDLE"
    and "Some x \<in> set (s_fat_ctxs s)" and "base_path x = path"
  shows "fst (esp_vfs_fat_spiflash_mount_jrnl E L C FF V I W (Some path) label (Some mcfg) (Some jcfg) (Some h0) s) = Undefined"
proof -
  note ms = assms(1)
  have q: "quiet content s s3"
    using mount_services.quiet_find [OF ms, of label s] mount_services.quiet_get_drive [OF ms, of s1]
      mount_services.quiet_wl_mount [OF ms, of part s2] assms(2,3,5) quiet_trans by (metis prod.inject)
  have f: "ff_jrnl_handles s4 = ff_jrnl_handles s3" "s_fat_ctxs s4 = s_fat_ctxs s3" "s_jrnl_handles s4 = s_jrnl_handles s3"
    using more_eq_fields [OF keeps_moreD [OF frame_interface(1) assms(6)]] by simp_all
  obtain s5 where r5: "ff_diskio_register I pdrv s4 = (Ret (), s5)" and q5: "quiet content s4 s5"
    using mount_services.quiet_register [OF ms, of pdrv s4] by auto
  have t: "s_fat_ctxs s5 = s_fat_ctxs s" "s_jrnl_handles s5 = s_jrnl_handles s" "ff_jrnl_handles s5 = ff_jrnl_handles s"
    using f quiet_fields [OF q] quiet_fields [OF q5] by simp_all
  have sz: "FF_VOLUMES C \<le> JRNL_MAX_HANDLES" "length (ff_jrnl_handles s) = JRNL_MAX_HANDLES"
    "length (s_jrnl_handles s) = JRNL_MAX_HANDLES" "length (s_fat_ctxs s) = FF_VOLUMES C"
    using assms(8) by (simp_all add: sane_def wf_drives_def)
  let ?P = "\<lambda>p. case p of None \<Rightarrow> False | Some y \<Rightarrow> base_path y = path"
  obtain i where i: "first_index ?P (s_fat_ctxs s) = Some i"
    using assms(10,11) by (cases "first_index ?P (s_fat_ctxs s)") (force simp: first_index_None)+
  then have fi: "find_context_index_by_path C (s_fat_ctxs s) path < FF_VOLUMES C"
    using sz(4) first_index_Some [THEN iffD1, OF i] by (simp add: find_context_index_by_path_def)
  have "fst (connect_volume E L C FF V I pdrv h path False mcfg (CONFIG_WL_SECTOR_SIZE W) s4) = Undefined"
    using r5 t sz assms(4,9) fi
    by (simp add: connect_volume_def ff_diskio_register_jrnl_def vfs_fat_register_cfg_jrnl_def
        vfs_fat_register_pdrv_jrnl_handle_def mount_filesystem_def mount_at_def bind_assoc prog_simps run_bind_Ret)
  then show ?thesis
    using assms(2,3,5-7)
    by (cases "connect_volume E L C FF V I pdrv h path False mcfg (CONFIG_WL_SECTOR_SIZE W) s4")
      (simp add: esp_vfs_fat_spiflash_mount_jrnl_def spiflash_steps_def prog_simps run_bind_Ret run_bind_halt bind_assoc)
qed

theorem second_mount_undefined_witness:
  "fst (sample_mount_jrnl True ((sample_off sample_flash)\<lparr>s_fat_ctxs := [Some sample_ctx, None]\<rparr>)) = Undefined"
proof -
  let ?s = "(sample_off sample_flash)\<lparr>s_fat_ctxs := [Some sample_ctx, None]\<rparr>"
  let ?config = "\<lparr> user_cfg = sample_jcfg, cfg_fs_volume_id = 0, volume_cfg = sample_volume, diskio_cfg = sample_io \<rparr>"
  have mt: "matches sample_master sample_io ?config"
    using sample_resumes by (simp add: resumes_def matches_def describes_def) (simp add: sample_master_def)
  have rc: "recovers_to sample_env 32 sample_master (cells (dev ?s)) sample_fs" using sample_off_recovers by simp
  obtain h s4 where m: "esp_jrnl_mount sample_env (Some ?config) (Some JRNL_INVALID_HANDLE) ?s = (Ret (ESP_OK, Some h), s4)"
    by (rule byte_reliable_device.mount_serves [OF sample_reliable sample_geom mt rc])
      (simp_all add: JRNL_MAX_HANDLES_def sample_flash_def)
  have cfg: "ESP_JRNL_VOLUME_DEFAULT_CONFIG sample_wl 0 (dev ?s) = sample_volume"
    by (simp add: ESP_JRNL_VOLUME_DEFAULT_CONFIG_def sample_wl_def sample_volume_def)
  show ?thesis
  proof (rule second_mount_undefined [OF sample_mounts.mount_services_axioms])
    show "esp_jrnl_mount sample_env (Some \<lparr> user_cfg = sample_jcfg, cfg_fs_volume_id = 0,
        volume_cfg = ESP_JRNL_VOLUME_DEFAULT_CONFIG sample_wl 0 (dev ?s),
        diskio_cfg = ESP_JRNL_DISKIO_DEFAULT_CONFIG sample_wl 0 \<rparr>) (Some JRNL_INVALID_HANDLE) ?s = (Ret (ESP_OK, Some h), s4)"
      unfolding cfg sample_wl_io by (rule m)
    show "sane sample_cfg ?s" by (simp add: sample_off_sane)
    show "Some sample_ctx \<in> set (s_fat_ctxs ?s)" by simp
  qed (use sample_resumes in \<open>simp_all add: sample_services_def sample_wl_def resumes_def run_ret sample_cfg_def
      sample_ctx_def new_ctx_def strlcpy_def JRNL_INVALID_HANDLE_def\<close>)
qed

end
